(* ===== verification/Prelude.thy ===== *)
theory Prelude
  imports Main "HOL-Library.Word" "HOL-Library.Sublist"
begin

text \<open>
  Shared vocabulary of the development: the machine types, byte buffers with offsets for
  pointers, and the C library functions the native code calls, each in the form the code
  uses it. A pointer into a buffer is an offset (a \<open>nat\<close>); a pointer that may be null is an
  \<open>option\<close>; a C string is the readable memory from its first byte on, terminator included,
  so that reading past the end of the memory can be told apart (\<open>None\<close>).
\<close>

unbundle bit_operations_syntax

named_theorems slice_simps \<open>length, append and bounds of buffer slices\<close>
named_theorems cstr_simps \<open>C string functions on terminated strings\<close>

type_synonym byte = "8 word"
type_synonym u16 = "16 word"
type_synonym u32 = "32 word"
type_synonym u64 = "64 word"

section \<open>Buffers\<close>

text \<open>The bytes a literal of the source denotes, without its terminator.\<close>

definition lit :: "string \<Rightarrow> byte list" where
  "lit s = map of_char s"

lemma length_lit [simp]: "length (lit s) = length s"
  by (simp add: lit_def)

definition newline :: byte where
  "newline = 10"

text \<open>The bytes at the offsets \<open>a \<le> i < b\<close>.\<close>

definition bslice :: "'a list \<Rightarrow> nat \<Rightarrow> nat \<Rightarrow> 'a list" where
  "bslice buf a b = take (b - a) (drop a buf)"

lemma length_bslice [slice_simps]: "b \<le> length buf \<Longrightarrow> length (bslice buf a b) = b - a"
  by (simp add: bslice_def)

lemma bslice_empty [simp]: "b \<le> a \<Longrightarrow> bslice buf a b = []"
  by (simp add: bslice_def)

lemma bslice_0 [simp]: "bslice buf 0 n = take n buf"
  by (simp add: bslice_def)

lemma bslice_append:
  assumes "a \<le> m" and "m \<le> b"
  shows "bslice buf a b = bslice buf a m @ bslice buf m b"
proof -
  have "b - a = (m - a) + (b - m)" using assms by simp
  moreover have "drop (m - a) (drop a buf) = drop m buf" using assms by simp
  ultimately show ?thesis by (simp only: bslice_def take_add)
qed

lemma nth_bslice [slice_simps]:
  "b \<le> length buf \<Longrightarrow> i < b - a \<Longrightarrow> bslice buf a b ! i = buf ! (a + i)"
  by (simp add: bslice_def)

lemma take_bslice [slice_simps]: "take k (bslice buf a b) = bslice buf a (min b (a + k))"
  by (cases "a + k \<le> b") (auto simp: bslice_def min_def)

lemma drop_bslice [slice_simps]: "drop k (bslice buf a b) = bslice buf (a + k) b"
  by (simp add: bslice_def drop_take add.commute)

lemma bslice_take: "b \<le> n \<Longrightarrow> bslice (take n buf) a b = bslice buf a b"
  by (simp add: bslice_def drop_take)

text \<open>\<open>memmove (buf + dst, buf + src, n)\<close> inside one buffer.\<close>

definition memmove_in :: "'a list \<Rightarrow> nat \<Rightarrow> nat \<Rightarrow> nat \<Rightarrow> 'a list" where
  "memmove_in buf dst src n = take dst buf @ bslice buf src (src + n) @ drop (dst + n) buf"

lemma length_memmove_in [simp]:
  "dst + n \<le> length buf \<Longrightarrow> src + n \<le> length buf \<Longrightarrow> length (memmove_in buf dst src n) = length buf"
  by (simp add: memmove_in_def length_bslice)

lemma take_memmove_in:
  "dst + n \<le> length buf \<Longrightarrow> src + n \<le> length buf \<Longrightarrow>
    take (dst + n) (memmove_in buf dst src n) = take dst buf @ bslice buf src (src + n)"
  by (simp add: memmove_in_def length_bslice)

lemma drop_memmove_in:
  "dst + n \<le> k \<Longrightarrow> k \<le> length buf \<Longrightarrow> src + n \<le> length buf \<Longrightarrow>
    drop k (memmove_in buf dst src n) = drop k buf"
  by (simp add: memmove_in_def length_bslice)

section \<open>The C library functions the code calls\<close>

text \<open>\<open>memchr (buf + pos, c, n)\<close>: the offset of the first match.\<close>

fun memchr :: "'a list \<Rightarrow> nat \<Rightarrow> 'a \<Rightarrow> nat \<Rightarrow> nat option" where
  "memchr buf pos c 0 = None"
| "memchr buf pos c (Suc n) = (if buf ! pos = c then Some pos else memchr buf (Suc pos) c n)"

lemma memchr_bounds: "memchr buf pos c n = Some q \<Longrightarrow> pos \<le> q \<and> q < pos + n \<and> buf ! q = c"
  by (induction buf pos c n rule: memchr.induct) (auto split: if_splits)

lemma memchr_bslice:
  assumes "pos + n \<le> length buf"
  shows "memchr buf pos c n =
    (let k = length (takeWhile (\<lambda>x. x \<noteq> c) (bslice buf pos (pos + n)))
     in if k < n then Some (pos + k) else None)"
  using assms
proof (induction buf pos c n rule: memchr.induct)
  case (1 buf pos c)
  then show ?case by simp
next
  case (2 buf pos c n)
  have s: "bslice buf pos (pos + Suc n) = buf ! pos # bslice buf (Suc pos) (Suc pos + n)"
    using "2.prems" by (simp add: bslice_def Cons_nth_drop_Suc [symmetric])
  show ?case
    using 2 s by (cases "buf ! pos = c") (simp_all add: Let_def)
qed

text \<open>\<open>tolower\<close> in the C locale.\<close>

definition tolower :: "byte \<Rightarrow> byte" where
  "tolower c = (if 65 \<le> c \<and> c \<le> 90 then c + 32 else c)"

text \<open>The text of a C string: everything before its terminator.\<close>

definition ctext :: "byte list \<Rightarrow> byte list" where
  "ctext s = takeWhile (\<lambda>c. c \<noteq> 0) s"

definition strlen :: "byte list \<Rightarrow> nat" where
  "strlen s = length (ctext s)"

lemma ctext_no_nul: "0 \<notin> set s \<Longrightarrow> ctext s = s"
  by (auto simp: ctext_def takeWhile_eq_all_conv)

lemma ctext_append_nul [cstr_simps]: "0 \<notin> set s \<Longrightarrow> ctext (s @ 0 # t) = s"
  by (induction s) (auto simp: ctext_def)

lemma ctext_idem [simp]: "ctext (ctext s) = ctext s"
  by (auto simp: ctext_def takeWhile_eq_all_conv dest: set_takeWhileD)

text \<open>\<open>strstr (hay, needle) != NULL\<close> and \<open>memmem\<close> (offset of the first occurrence).\<close>

fun mem_find :: "byte list \<Rightarrow> byte list \<Rightarrow> nat \<Rightarrow> nat option" where
  "mem_find needle [] k = (if needle = [] then Some k else None)"
| "mem_find needle (x # xs) k =
     (if prefix needle (x # xs) then Some k else mem_find needle xs (Suc k))"

definition memmem :: "byte list \<Rightarrow> byte list \<Rightarrow> nat option" where
  "memmem hay needle = mem_find needle hay 0"

definition strstr :: "byte list \<Rightarrow> byte list \<Rightarrow> bool" where
  "strstr hay needle = (memmem (ctext hay) (ctext needle) \<noteq> None)"

lemma mem_find_None_iff: "mem_find needle xs k = None \<longleftrightarrow> \<not> sublist needle xs"
  by (induction needle xs k rule: mem_find.induct) (auto simp: sublist_Cons_right)

lemma strstr_iff: "strstr hay needle \<longleftrightarrow> sublist (ctext needle) (ctext hay)"
  by (simp add: strstr_def memmem_def mem_find_None_iff)

lemma mem_find_SomeD:
  "mem_find needle xs k = Some q \<Longrightarrow>
    k \<le> q \<and> q - k + length needle \<le> length xs \<and> prefix needle (drop (q - k) xs)
    \<and> (\<forall>j < q - k. \<not> prefix needle (drop j xs))"
proof (induction needle xs k rule: mem_find.induct)
  case (1 needle k)
  then show ?case by (auto split: if_splits)
next
  case (2 needle x xs k)
  show ?case
  proof (cases "prefix needle (x # xs)")
    case True
    then show ?thesis using "2.prems" by (auto dest: prefix_length_le)
  next
    case False
    with "2.prems" have "mem_find needle xs (Suc k) = Some q" by simp
    then have IH: "Suc k \<le> q \<and> q - Suc k + length needle \<le> length xs
        \<and> prefix needle (drop (q - Suc k) xs) \<and> (\<forall>j < q - Suc k. \<not> prefix needle (drop j xs))"
      by (rule "2.IH" [OF False])
    then have e: "q - k = Suc (q - Suc k)" by linarith
    have "\<forall>j < q - k. \<not> prefix needle (drop j (x # xs))"
      using IH False by (auto simp: e less_Suc_eq_0_disj)
    moreover have "q - k + length needle \<le> length (x # xs)"
      using IH e unfolding length_Cons by linarith
    moreover have "prefix needle (drop (q - k) (x # xs))" and "k \<le> q"
      using IH by (simp_all add: e)
    ultimately show ?thesis by blast
  qed
qed

lemma memmem_SomeD:
  assumes "memmem hay needle = Some q"
  shows "q + length needle \<le> length hay" and "prefix needle (drop q hay)"
    and "\<And>j. j < q \<Longrightarrow> \<not> prefix needle (drop j hay)"
  using mem_find_SomeD [of needle hay 0 q] assms by (auto simp: memmem_def)

text \<open>
  \<open>strncmp (a, b, n) == 0\<close> where \<open>a\<close> is memory from the pointer on and \<open>b\<close> a literal:
  \<open>None\<close> when the comparison reads past the end of that memory.
\<close>

fun strncmp_eq :: "byte list \<Rightarrow> byte list \<Rightarrow> nat \<Rightarrow> bool option" where
  "strncmp_eq a b 0 = Some True"
| "strncmp_eq [] b (Suc n) = None"
| "strncmp_eq (x # a) [] (Suc n) = Some (x = 0)"
| "strncmp_eq (x # a) (y # b) (Suc n) =
     (if x \<noteq> y then Some False else if x = 0 then Some True else strncmp_eq a b n)"

lemma strncmp_eq_cstr [cstr_simps]:
  assumes "0 \<in> set a" and "0 \<notin> set b" and "n = length b"
  shows "strncmp_eq a b n = Some (prefix b (ctext a))"
  using assms
  by (induction a b n rule: strncmp_eq.induct) (auto simp: ctext_def)

lemma strncmp_eq_long:
  assumes "n \<le> length a" and "n = length b"
  shows "strncmp_eq a b n \<noteq> None"
  using assms
  by (induction a b n rule: strncmp_eq.induct) auto

text \<open>\<open>strncpy\<close>: at most \<open>n\<close> characters, padded with zeros; \<open>None\<close> reads past the source.\<close>

definition strncpy :: "byte list \<Rightarrow> nat \<Rightarrow> byte list option" where
  "strncpy src n =
     (if 0 \<in> set src \<or> n \<le> length src
      then Some (let t = take n (ctext src) in t @ replicate (n - length t) 0) else None)"

text \<open>Short-circuit disjunction and sequencing over checked reads.\<close>

definition orelse :: "bool option \<Rightarrow> bool option \<Rightarrow> bool option" where
  "orelse p q = (case p of None \<Rightarrow> None | Some True \<Rightarrow> Some True | Some False \<Rightarrow> q)"

lemma orelse_simps [simp]:
  "orelse None q = None" "orelse (Some True) q = Some True" "orelse (Some False) q = q"
  by (simp_all add: orelse_def)

lemma orelse_Some: "orelse (Some a) (Some b) = Some (a \<or> b)"
  by (cases a) simp_all

lemma orelse_neq_None: "p \<noteq> None \<Longrightarrow> q \<noteq> None \<Longrightarrow> orelse p q \<noteq> None"
  by (auto simp: orelse_Some)

section \<open>Little-endian fields\<close>

definition le16 :: "byte list \<Rightarrow> nat \<Rightarrow> nat" where
  "le16 buf i = unat (buf ! i) + 256 * unat (buf ! (i + 1))"

definition le32 :: "byte list \<Rightarrow> nat \<Rightarrow> nat" where
  "le32 buf i = le16 buf i + 65536 * le16 buf (i + 2)"

lemma unat_byte_less [simp]: "unat (b :: byte) < 256"
  using unsigned_less [of b] by simp

lemma le16_bound: "le16 buf i < 65536"
proof -
  have "unat (buf ! i) < 256" "unat (buf ! (i + 1)) < 256" by simp_all
  then show ?thesis unfolding le16_def by linarith
qed

text \<open>Evaluated over the integers, so that large factors are not counted out in unary.\<close>

lemma le16_code [code]: "le16 buf i = nat (uint (buf ! i) + 256 * uint (buf ! (i + 1)))"
  by (simp add: le16_def nat_add_distrib nat_mult_distrib)

lemma le32_code [code]:
  "le32 buf i = nat (uint (buf ! i) + 256 * uint (buf ! (i + 1))
     + 65536 * (uint (buf ! (i + 2)) + 256 * uint (buf ! (i + 3))))"
  by (simp add: le32_def le16_def nat_add_distrib nat_mult_distrib algebra_simps numeral_3_eq_3)

lemma le32_bound: "le32 buf i < 4294967296"
  using le16_bound [of buf i] le16_bound [of buf "i + 2"] unfolding le32_def by linarith

section \<open>Results\<close>

text \<open>Sequencing of computations that may fail: the error of the first failure is kept.\<close>

definition ebind :: "'e + 'a \<Rightarrow> ('a \<Rightarrow> 'e + 'b) \<Rightarrow> 'e + 'b" where
  "ebind r f = (case r of Inl e \<Rightarrow> Inl e | Inr x \<Rightarrow> f x)"

lemma ebind_simps [simp]: "ebind (Inl e) f = Inl e" "ebind (Inr x) f = f x"
  by (simp_all add: ebind_def)

lemma ebind_cong [fundef_cong]: "r = r' \<Longrightarrow> (\<And>x. r' = Inr x \<Longrightarrow> f x = g x) \<Longrightarrow> ebind r f = ebind r' g"
  by (cases r') simp_all

lemma ebind_InrE:
  assumes "ebind r f = Inr y"
  obtains x where "r = Inr x" and "f x = Inr y"
  using assms by (cases r) simp_all

lemma ebind_Inr_iff: "ebind r f = Inr y \<longleftrightarrow> (\<exists>x. r = Inr x \<and> f x = Inr y)"
  by (cases r) simp_all

lemma ebind_assoc: "ebind (ebind r f) g = ebind r (\<lambda>x. ebind (f x) g)"
  by (cases r) simp_all

end
