(* ===== verification/Fd_Tracker.thy ===== *)
theory Fd_Tracker
  imports Prelude
begin

text \<open>
  \<open>fd_tracker.h\<close>: the interface-name filter, the path classifier and the three static
  tables (sensitive descriptors, netlink sockets, hidden interface indices) the hooks
  share. The tables are the fields of a record. An array of the source is a function from the
  integer index: the cells from 0 to the declared length are the array, the others stand for
  whatever lies before and behind it in memory, so that an access with a negative or too large
  index is an access to a neighbour, and the source's range checks are all that prevents it. The
  locale \<open>slot_table\<close> is the contract the hooks rely on; both descriptor tables are shown to meet it.
\<close>

section \<open>Interface names\<close>

definition is_vpn_interface :: "byte list option \<Rightarrow> bool option" where
  "is_vpn_interface name =
     (case name of
        None \<Rightarrow> Some False
      | Some s \<Rightarrow>
          orelse (strncmp_eq s (lit ''tun'') 3)
         (orelse (strncmp_eq s (lit ''tap'') 3)
         (orelse (strncmp_eq s (lit ''ppp'') 3)
         (orelse (strncmp_eq s (lit ''wg'') 2)
                 (strncmp_eq s (lit ''ipsec'') 5)))))"

text \<open>What the filter promises about the text of a name.\<close>

definition vpn_name :: "byte list \<Rightarrow> bool" where
  "vpn_name s = (\<exists>p \<in> set [lit ''tun'', lit ''tap'', lit ''ppp'', lit ''wg'', lit ''ipsec'']. prefix p s)"

lemma nul_notin_lit [simp]:
  "(0::byte) \<notin> set (lit ''tun'')" "(0::byte) \<notin> set (lit ''tap'')" "(0::byte) \<notin> set (lit ''ppp'')"
  "(0::byte) \<notin> set (lit ''wg'')" "(0::byte) \<notin> set (lit ''ipsec'')"
  by (simp_all add: lit_def)

lemma is_vpn_interface_cstr [cstr_simps]:
  "0 \<in> set s \<Longrightarrow> is_vpn_interface (Some s) = Some (vpn_name (ctext s))"
  by (simp add: is_vpn_interface_def vpn_name_def strncmp_eq_cstr orelse_Some)

lemma is_vpn_interface_safe: "5 \<le> length s \<Longrightarrow> is_vpn_interface (Some s) \<noteq> None"
  unfolding is_vpn_interface_def option.case
  by (intro orelse_neq_None strncmp_eq_long) simp_all

section \<open>The tables\<close>

datatype SensitiveFile =
  NONE | PROC_MAPS | PROC_NET_TCP | PROC_STATUS | PROC_MOUNTS | PROC_NET_DEV
| PROC_NET_IF_INET6 | PROC_NET_ROUTE

text \<open>The enumerators' values, and the cast back from the stored byte.\<close>

fun sf_code :: "SensitiveFile \<Rightarrow> byte" where
  "sf_code NONE = 0"
| "sf_code PROC_MAPS = 1"
| "sf_code PROC_NET_TCP = 2"
| "sf_code PROC_STATUS = 3"
| "sf_code PROC_MOUNTS = 4"
| "sf_code PROC_NET_DEV = 5"
| "sf_code PROC_NET_IF_INET6 = 6"
| "sf_code PROC_NET_ROUTE = 7"

definition sf_of_code :: "byte \<Rightarrow> SensitiveFile" where
  "sf_of_code b =
     (if b = 1 then PROC_MAPS else if b = 2 then PROC_NET_TCP else if b = 3 then PROC_STATUS
      else if b = 4 then PROC_MOUNTS else if b = 5 then PROC_NET_DEV
      else if b = 6 then PROC_NET_IF_INET6 else if b = 7 then PROC_NET_ROUTE else NONE)"

lemma sf_of_code_code [simp]: "sf_of_code (sf_code t) = t"
  by (cases t) (simp_all add: sf_of_code_def)

lemma sf_of_code_0 [simp]: "sf_of_code 0 = NONE"
  by (simp add: sf_of_code_def)

lemma sf_code_inj: "sf_code s = sf_code t \<longleftrightarrow> s = t"
  by (metis sf_of_code_code)

text \<open>The order of the enumeration, so that its values can be sorted and compared.\<close>

instantiation SensitiveFile :: linorder
begin

definition less_eq_SensitiveFile :: "SensitiveFile \<Rightarrow> SensitiveFile \<Rightarrow> bool" where
  "less_eq_SensitiveFile s t = (sf_code s \<le> sf_code t)"

definition less_SensitiveFile :: "SensitiveFile \<Rightarrow> SensitiveFile \<Rightarrow> bool" where
  "less_SensitiveFile s t = (sf_code s < sf_code t)"

instance
  by standard
    (auto simp: less_eq_SensitiveFile_def less_SensitiveFile_def sf_code_inj less_le)

end

record tracker =
  g_nl_socket_table :: "int \<Rightarrow> byte"
  g_vpn_iface_idx :: "int \<Rightarrow> byte"
  g_fd_table :: "int \<Rightarrow> byte"

definition init_tracker :: tracker where
  "init_tracker =
     \<lparr>g_nl_socket_table = (\<lambda>_. 0), g_vpn_iface_idx = (\<lambda>_. 0), g_fd_table = (\<lambda>_. 0)\<rparr>"

subsection \<open>Netlink sockets\<close>

definition track_nl_socket :: "int \<Rightarrow> 'a tracker_scheme \<Rightarrow> 'a tracker_scheme" where
  "track_nl_socket fd s =
     (if 0 \<le> fd \<and> fd < 65536
      then s\<lparr>g_nl_socket_table := (g_nl_socket_table s)(fd := 1)\<rparr> else s)"

definition untrack_nl_socket :: "int \<Rightarrow> 'a tracker_scheme \<Rightarrow> 'a tracker_scheme" where
  "untrack_nl_socket fd s =
     (if 0 \<le> fd \<and> fd < 65536
      then s\<lparr>g_nl_socket_table := (g_nl_socket_table s)(fd := 0)\<rparr> else s)"

definition is_nl_socket :: "'a tracker_scheme \<Rightarrow> int \<Rightarrow> bool" where
  "is_nl_socket s fd = (0 \<le> fd \<and> fd < 65536 \<and> g_nl_socket_table s fd \<noteq> 0)"

subsection \<open>Hidden interface indices\<close>

definition mark_vpn_iface_idx :: "u32 \<Rightarrow> 'a tracker_scheme \<Rightarrow> 'a tracker_scheme" where
  "mark_vpn_iface_idx idx s =
     (if 0 < idx \<and> idx < 512
      then s\<lparr>g_vpn_iface_idx := (g_vpn_iface_idx s)(uint idx := 1)\<rparr> else s)"

definition is_vpn_iface_idx :: "'a tracker_scheme \<Rightarrow> u32 \<Rightarrow> bool" where
  "is_vpn_iface_idx s idx = (0 < idx \<and> idx < 512 \<and> g_vpn_iface_idx s (uint idx) \<noteq> 0)"

lemma is_vpn_iface_idx_mark:
  "is_vpn_iface_idx (mark_vpn_iface_idx i s) j \<longleftrightarrow>
     is_vpn_iface_idx s j \<or> (i = j \<and> 0 < i \<and> i < 512)"
  by (auto simp: is_vpn_iface_idx_def mark_vpn_iface_idx_def simp flip: word_uint_eq_iff)

lemma mark_vpn_iface_idx_frame [simp]:
  "g_nl_socket_table (mark_vpn_iface_idx i s) = g_nl_socket_table s"
  "g_fd_table (mark_vpn_iface_idx i s) = g_fd_table s"
  by (simp_all add: mark_vpn_iface_idx_def)

subsection \<open>Sensitive descriptors\<close>

definition classify_path :: "byte list option \<Rightarrow> SensitiveFile" where
  "classify_path path =
     (case path of
        None \<Rightarrow> NONE
      | Some p \<Rightarrow>
          if strstr p (lit ''/proc/'') \<and> strstr p (lit ''/maps'') then PROC_MAPS
          else if strstr p (lit ''/proc/net/tcp'') \<or> strstr p (lit ''/proc/self/net/tcp'')
          then PROC_NET_TCP
          else if strstr p (lit ''/proc/'') \<and> strstr p (lit ''/status'') then PROC_STATUS
          else if strstr p (lit ''/proc/'')
                  \<and> (strstr p (lit ''/mountinfo'') \<or> strstr p (lit ''/mounts'')) then PROC_MOUNTS
          else if strstr p (lit ''/proc/net/if_inet6'') \<or> strstr p (lit ''/proc/self/net/if_inet6'')
          then PROC_NET_IF_INET6
          else if strstr p (lit ''/proc/net/dev'') \<or> strstr p (lit ''/proc/self/net/dev'')
          then PROC_NET_DEV
          else if strstr p (lit ''/proc/net/route'') \<or> strstr p (lit ''/proc/self/net/route'')
          then PROC_NET_ROUTE
          else NONE)"

definition track_fd :: "int \<Rightarrow> SensitiveFile \<Rightarrow> 'a tracker_scheme \<Rightarrow> 'a tracker_scheme" where
  "track_fd fd type s =
     (if fd < 0 \<or> 65536 \<le> fd \<or> type = NONE then s
      else s\<lparr>g_fd_table := (g_fd_table s)(fd := sf_code type)\<rparr>)"

definition untrack_fd :: "int \<Rightarrow> 'a tracker_scheme \<Rightarrow> 'a tracker_scheme" where
  "untrack_fd fd s =
     (if fd < 0 \<or> 65536 \<le> fd then s else s\<lparr>g_fd_table := (g_fd_table s)(fd := 0)\<rparr>)"

definition get_fd_type :: "'a tracker_scheme \<Rightarrow> int \<Rightarrow> SensitiveFile" where
  "get_fd_type s fd = (if fd < 0 \<or> 65536 \<le> fd then NONE else sf_of_code (g_fd_table s fd))"

section \<open>The contract of a descriptor table\<close>

definition fd_in_table :: "int \<Rightarrow> bool" where
  "fd_in_table fd = (0 \<le> fd \<and> fd < 65536)"

datatype 'v slot_op = Put int 'v | Clear int

locale slot_table =
  fixes put :: "int \<Rightarrow> 'v \<Rightarrow> 's \<Rightarrow> 's"
    and clear :: "int \<Rightarrow> 's \<Rightarrow> 's"
    and get :: "'s \<Rightarrow> int \<Rightarrow> 'v"
    and absent :: 'v
  assumes get_put:
      "v \<noteq> absent \<Longrightarrow> get (put k v s) j = (if j = k \<and> fd_in_table k then v else get s j)"
    and put_absent: "put k absent s = s"
    and get_clear: "get (clear k s) j = (if j = k then absent else get s j)"
    and get_outside: "\<not> fd_in_table k \<Longrightarrow> get s k = absent"
begin

fun slot_run :: "'v slot_op list \<Rightarrow> 's \<Rightarrow> 's" where
  "slot_run [] s = s"
| "slot_run (Put k v # ops) s = slot_run ops (put k v s)"
| "slot_run (Clear k # ops) s = slot_run ops (clear k s)"

text \<open>The operations that can change what slot \<open>k\<close> holds.\<close>

fun touches :: "int \<Rightarrow> 'v slot_op \<Rightarrow> bool" where
  "touches k (Put j v) = (j = k \<and> v \<noteq> absent)"
| "touches k (Clear j) = (j = k)"

lemma get_after_clear: "get (clear k s) k = absent"
  by (simp add: get_clear)

lemma get_put_same: "fd_in_table k \<Longrightarrow> v \<noteq> absent \<Longrightarrow> get (put k v s) k = v"
  by (simp add: get_put)

lemma get_put_other: "j \<noteq> k \<Longrightarrow> get (put k v s) j = get s j"
  by (cases "v = absent") (simp_all add: get_put put_absent)

lemma get_run_untouched:
  "\<forall>op \<in> set ops. \<not> touches k op \<Longrightarrow> get (slot_run ops s) k = get s k"
proof (induction ops s rule: slot_run.induct)
  case (1 s)
  then show ?case by simp
next
  case (2 j v ops s)
  then show ?case by (cases "j = k") (auto simp: get_put_other put_absent)
next
  case (3 j ops s)
  then show ?case by (simp add: get_clear)
qed

text \<open>A slot keeps its value from the store until the next store to it or clear of it.\<close>

lemma get_run_after_put:
  assumes "fd_in_table k" and "v \<noteq> absent" and "\<forall>op \<in> set ops. \<not> touches k op"
  shows "get (slot_run (Put k v # ops) s) k = v"
  using assms by (simp add: get_run_untouched get_put_same)

lemma get_run_after_clear:
  assumes "\<forall>op \<in> set ops. \<not> touches k op"
  shows "get (slot_run (Clear k # ops) s) k = absent"
  using assms by (simp add: get_run_untouched get_after_clear)

end

interpretation fdt: slot_table track_fd untrack_fd get_fd_type NONE
proof unfold_locales
  fix v :: SensitiveFile and k j :: int and s :: "'a tracker_scheme"
  show "v \<noteq> NONE \<Longrightarrow>
      get_fd_type (track_fd k v s) j = (if j = k \<and> fd_in_table k then v else get_fd_type s j)"
    by (auto simp: get_fd_type_def track_fd_def fd_in_table_def)
  show "track_fd k NONE s = s"
    by (simp add: track_fd_def)
  show "get_fd_type (untrack_fd k s) j = (if j = k then NONE else get_fd_type s j)"
    by (auto simp: get_fd_type_def untrack_fd_def)
  show "\<not> fd_in_table k \<Longrightarrow> get_fd_type s k = NONE"
    by (auto simp: get_fd_type_def fd_in_table_def)
qed

definition put_nl_socket :: "int \<Rightarrow> bool \<Rightarrow> 'a tracker_scheme \<Rightarrow> 'a tracker_scheme" where
  "put_nl_socket fd b s = (if b then track_nl_socket fd s else s)"

interpretation nlt: slot_table put_nl_socket untrack_nl_socket is_nl_socket False
proof unfold_locales
  fix v :: bool and k j :: int and s :: "'a tracker_scheme"
  show "v \<noteq> False \<Longrightarrow>
      is_nl_socket (put_nl_socket k v s) j = (if j = k \<and> fd_in_table k then v else is_nl_socket s j)"
    by (auto simp: is_nl_socket_def put_nl_socket_def track_nl_socket_def fd_in_table_def)
  show "put_nl_socket k False s = s"
    by (simp add: put_nl_socket_def)
  show "is_nl_socket (untrack_nl_socket k s) j = (if j = k then False else is_nl_socket s j)"
    by (auto simp: is_nl_socket_def untrack_nl_socket_def)
  show "\<not> fd_in_table k \<Longrightarrow> is_nl_socket s k = False"
    by (auto simp: is_nl_socket_def fd_in_table_def)
qed

lemma untrack_frame [simp]:
  "get_fd_type (untrack_nl_socket k s) j = get_fd_type s j"
  "is_nl_socket (untrack_fd k s) j = is_nl_socket s j"
  "get_fd_type (track_nl_socket k s) j = get_fd_type s j"
  "is_nl_socket (track_fd k v s) j = is_nl_socket s j"
  by (simp_all add: get_fd_type_def is_nl_socket_def untrack_nl_socket_def untrack_fd_def
      track_nl_socket_def track_fd_def)

section \<open>Bounds\<close>

text \<open>The cells outside the three arrays are as they were.\<close>

definition outside_unchanged :: "'a tracker_scheme \<Rightarrow> 'a tracker_scheme \<Rightarrow> bool" where
  "outside_unchanged s s' =
     ((\<forall>i. \<not> fd_in_table i \<longrightarrow> g_nl_socket_table s' i = g_nl_socket_table s i \<and> g_fd_table s' i = g_fd_table s i)
      \<and> (\<forall>i. i < 0 \<or> 512 \<le> i \<longrightarrow> g_vpn_iface_idx s' i = g_vpn_iface_idx s i))"

text \<open>Two states with the same arrays, whatever surrounds them.\<close>

definition same_inside :: "'a tracker_scheme \<Rightarrow> 'a tracker_scheme \<Rightarrow> bool" where
  "same_inside s t =
     ((\<forall>i. fd_in_table i \<longrightarrow> g_nl_socket_table t i = g_nl_socket_table s i \<and> g_fd_table t i = g_fd_table s i)
      \<and> (\<forall>i. 0 \<le> i \<and> i < 512 \<longrightarrow> g_vpn_iface_idx t i = g_vpn_iface_idx s i))"

text \<open>Every entry of the descriptor table is the code of an enumerator.\<close>

definition codes_valid :: "'a tracker_scheme \<Rightarrow> bool" where
  "codes_valid s = (\<forall>i. fd_in_table i \<longrightarrow> sf_code (sf_of_code (g_fd_table s i)) = g_fd_table s i)"

lemma outside_refl [simp]: "outside_unchanged s s"
  by (simp add: outside_unchanged_def)

lemma outside_trans: "outside_unchanged r s \<Longrightarrow> outside_unchanged s t \<Longrightarrow> outside_unchanged r t"
  by (simp add: outside_unchanged_def)

lemma small_index: "i < 512 \<Longrightarrow> uint i < 512" for i :: u32
  by (simp add: word_less_def)

lemma tracker_writes_inside:
  "outside_unchanged s (track_fd fd t s)" "outside_unchanged s (untrack_fd fd s)"
  "outside_unchanged s (track_nl_socket fd s)" "outside_unchanged s (untrack_nl_socket fd s)"
  "outside_unchanged s (mark_vpn_iface_idx idx s)"
  using small_index [of idx]
  by (auto simp: outside_unchanged_def fd_in_table_def track_fd_def untrack_fd_def track_nl_socket_def
      untrack_nl_socket_def mark_vpn_iface_idx_def)

lemma tracker_codes:
  assumes "codes_valid s"
  shows "codes_valid (track_fd fd t s)" "codes_valid (untrack_fd fd s)" "codes_valid (track_nl_socket fd s)"
    "codes_valid (untrack_nl_socket fd s)" "codes_valid (mark_vpn_iface_idx idx s)"
  using assms
  by (auto simp: codes_valid_def track_fd_def untrack_fd_def track_nl_socket_def untrack_nl_socket_def
      mark_vpn_iface_idx_def)

lemma tracker_reads_inside:
  assumes "same_inside s t"
  shows "get_fd_type t fd = get_fd_type s fd" "is_nl_socket t fd = is_nl_socket s fd"
    "is_vpn_iface_idx t idx = is_vpn_iface_idx s idx"
  using assms small_index [of idx]
  by (auto simp: same_inside_def get_fd_type_def is_nl_socket_def is_vpn_iface_idx_def fd_in_table_def)

lemma init_codes: "codes_valid init_tracker"
  by (simp add: codes_valid_def init_tracker_def)

end
