(* ===== verification/Line_Scrub.thy ===== *)
theory Line_Scrub
  imports Prelude
begin

text \<open>
  What the line-based sanitizers of \<open>sanitizer.cpp\<close> share: finding the end of a line,
  cutting a line out of the buffer (\<open>remove_line\<close>), and the loop around them. The
  reference is a filter over the list of lines of the buffer; the locale \<open>line_loop\<close>
  proves once that a loop that takes the three steps of the source computes that filter in
  place, and each sanitizer interprets it.
\<close>

section \<open>Lines\<close>

text \<open>The lines of a text, each with its terminator; the last one may have none.\<close>

fun lines_of :: "byte list \<Rightarrow> byte list list" where
  "lines_of [] = []"
| "lines_of (x # xs) =
     (if x = newline then [x] # lines_of xs
      else (case lines_of xs of [] \<Rightarrow> [[x]] | l # ls \<Rightarrow> (x # l) # ls))"

fun wf_lines :: "byte list list \<Rightarrow> bool" where
  "wf_lines [] = True"
| "wf_lines (l # ls) =
     (l \<noteq> [] \<and> newline \<notin> set (butlast l) \<and> (ls \<noteq> [] \<longrightarrow> last l = newline) \<and> wf_lines ls)"

lemma concat_lines_of [simp]: "concat (lines_of xs) = xs"
  by (induction xs) (auto split: list.splits)

lemma lines_of_eq_Nil [simp]: "lines_of xs = [] \<longleftrightarrow> xs = []"
  by (cases xs) (auto split: list.splits)

lemma wf_lines_of: "wf_lines (lines_of xs)"
  by (induction xs) (auto split: list.splits)

lemma lines_of_step:
  assumes "xs \<noteq> []"
  shows "lines_of xs =
    (let k = length (takeWhile (\<lambda>x. x \<noteq> newline) xs)
     in take (Suc k) xs # lines_of (drop (Suc k) xs))"
  using assms
proof (induction xs)
  case Nil
  then show ?case by simp
next
  case (Cons x xs)
  then show ?case by (cases xs) (auto simp: Let_def)
qed

lemma lines_of_line:
  assumes "l \<noteq> []" and "newline \<notin> set (butlast l)" and "last l = newline \<or> xs = []"
  shows "lines_of (l @ xs) = l # lines_of xs"
  using assms
proof (induction l)
  case Nil
  then show ?case by simp
next
  case (Cons y ys)
  then show ?case by (cases "ys = []") (auto split: if_splits)
qed

lemma lines_of_concat: "wf_lines ls \<Longrightarrow> lines_of (concat ls) = ls"
proof (induction ls)
  case Nil
  then show ?case by simp
next
  case (Cons l ls)
  then have "lines_of (l @ concat ls) = l # lines_of (concat ls)"
    by (intro lines_of_line) auto
  with Cons show ?case by simp
qed

lemma wf_lines_subseq: "subseq ks ls \<Longrightarrow> wf_lines ls \<Longrightarrow> wf_lines ks"
  by (induction rule: list_emb.induct) auto

section \<open>The reference: a filter with a header state\<close>

text \<open>
  \<open>drop_line h l\<close> says whether line \<open>l\<close> is removed in header state \<open>h\<close>; \<open>next h\<close> is the
  state after any line.
\<close>

fun scrub_lines :: "('h \<Rightarrow> byte list \<Rightarrow> bool) \<Rightarrow> ('h \<Rightarrow> 'h) \<Rightarrow> 'h \<Rightarrow> byte list list \<Rightarrow> byte list list" where
  "scrub_lines drop_line next h [] = []"
| "scrub_lines drop_line next h (l # ls) =
     (if drop_line h l then scrub_lines drop_line next (next h) ls
      else l # scrub_lines drop_line next (next h) ls)"

lemma subseq_scrub_lines: "subseq (scrub_lines d n h ls) ls"
  by (induction d n h ls rule: scrub_lines.induct) auto

lemma scrub_lines_stateless: "scrub_lines (\<lambda>_. P) n h ls = filter (\<lambda>l. \<not> P l) ls"
  by (induction ls arbitrary: h) auto

lemma wf_scrub_lines: "wf_lines (scrub_lines d n h (lines_of xs))"
  by (rule wf_lines_subseq [OF subseq_scrub_lines wf_lines_of])

lemma lines_of_scrub:
  "lines_of (concat (scrub_lines d n h (lines_of xs))) = scrub_lines d n h (lines_of xs)"
  by (rule lines_of_concat [OF wf_scrub_lines])

lemma length_concat_subseq: "subseq ks ls \<Longrightarrow> length (concat ks) \<le> length (concat ls)"
  by (induction rule: list_emb.induct) auto

lemma length_scrub: "length (concat (scrub_lines d n h (lines_of xs))) \<le> length xs"
  using length_concat_subseq [OF subseq_scrub_lines, of d n h "lines_of xs"] by simp

section \<open>Line ends and line removal in the buffer\<close>

definition line_end_of :: "byte list \<Rightarrow> nat \<Rightarrow> nat \<Rightarrow> nat" where
  "line_end_of buf pos buf_end =
     (case memchr buf pos newline (buf_end - pos) of Some eol \<Rightarrow> eol + 1 | None \<Rightarrow> buf_end)"

definition remove_line :: "byte list \<Rightarrow> nat \<Rightarrow> nat \<Rightarrow> nat \<Rightarrow> byte list \<times> nat" where
  "remove_line buf line_start line_end buf_end =
     (let tail = buf_end - line_end
      in (if tail > 0 then memmove_in buf line_start line_end tail else buf, line_start + tail))"

lemma line_end_bounds:
  "pos < e \<Longrightarrow> pos < line_end_of buf pos e \<and> line_end_of buf pos e \<le> e"
  by (auto simp: line_end_of_def split: option.splits dest!: memchr_bounds)

lemma remove_line_end [simp]: "snd (remove_line buf pos le e) = pos + (e - le)"
  by (simp add: remove_line_def Let_def)

lemma lines_of_bslice:
  assumes "pos < e" and "e \<le> length buf"
  shows "lines_of (bslice buf pos e) =
    bslice buf pos (line_end_of buf pos e) # lines_of (bslice buf (line_end_of buf pos e) e)"
proof -
  let ?xs = "bslice buf pos e"
  let ?k = "length (takeWhile (\<lambda>x. x \<noteq> newline) ?xs)"
  have len: "length ?xs = e - pos" using assms by (simp add: length_bslice)
  then have ne: "?xs \<noteq> []" using assms by auto
  have le: "line_end_of buf pos e = min e (pos + Suc ?k)"
    using assms len length_takeWhile_le [of "\<lambda>x. x \<noteq> newline" ?xs]
    by (auto simp: line_end_of_def memchr_bslice Let_def)
  have "drop (Suc ?k) ?xs = bslice buf (line_end_of buf pos e) e"
    unfolding le drop_bslice by (cases "pos + Suc ?k \<le> e") (simp_all add: min_def)
  moreover have "take (Suc ?k) ?xs = bslice buf pos (line_end_of buf pos e)"
    by (simp add: le take_bslice)
  ultimately show ?thesis using lines_of_step [OF ne] by (simp add: Let_def)
qed

lemma remove_line_buf:
  assumes "pos < le" and "le \<le> e" and "e \<le> length buf"
  defines "b \<equiv> fst (remove_line buf pos le e)"
  shows "length b = length buf" and "take pos b = take pos buf"
    and "bslice b pos (pos + (e - le)) = bslice buf le e" and "drop e b = drop e buf"
proof -
  have b: "b = memmove_in buf pos le (e - le)" if "le < e"
    using that by (simp add: b_def remove_line_def)
  have b': "b = buf" if "\<not> le < e"
    using that by (simp add: b_def remove_line_def)
  have bounds: "pos + (e - le) \<le> length buf" "le + (e - le) \<le> length buf" "pos + (e - le) \<le> e"
    using assms by simp_all
  show "length b = length buf"
    using bounds by (cases "le < e") (simp_all add: b b')
  show "take pos b = take pos buf"
    using bounds assms(1-3) by (cases "le < e") (simp_all add: b b' memmove_in_def)
  show "drop e b = drop e buf"
    using bounds assms(1-3) by (cases "le < e") (simp_all add: b b' drop_memmove_in)
  show "bslice b pos (pos + (e - le)) = bslice buf le e"
    using bounds assms(1-3)
    by (cases "le < e") (simp_all add: b b' memmove_in_def bslice_def)
qed

section \<open>The loop\<close>

locale line_loop =
  fixes loop :: "'h \<Rightarrow> byte list \<Rightarrow> nat \<Rightarrow> nat \<Rightarrow> byte list \<times> nat"
    and drop_line :: "'h \<Rightarrow> byte list \<Rightarrow> bool"
    and next_state :: "'h \<Rightarrow> 'h"
  assumes loop_end: "\<not> pos < e \<Longrightarrow> loop h buf pos e = (buf, e)"
    and loop_keep: "pos < e \<Longrightarrow> e \<le> length buf \<Longrightarrow> le = line_end_of buf pos e \<Longrightarrow>
      \<not> drop_line h (bslice buf pos le) \<Longrightarrow> loop h buf pos e = loop (next_state h) buf le e"
    and loop_drop: "pos < e \<Longrightarrow> e \<le> length buf \<Longrightarrow> le = line_end_of buf pos e \<Longrightarrow>
      drop_line h (bslice buf pos le) \<Longrightarrow> remove_line buf pos le e = (buf', e') \<Longrightarrow>
      loop h buf pos e = loop (next_state h) buf' pos e'"
begin

lemma loop_filters:
  fixes h :: 'h
  assumes "pos \<le> e" and "e \<le> length buf"
  defines "kept \<equiv> concat (scrub_lines drop_line next_state h (lines_of (bslice buf pos e)))"
  shows "snd (loop h buf pos e) = pos + length kept"
    and "take (pos + length kept) (fst (loop h buf pos e)) = take pos buf @ kept"
    and "length (fst (loop h buf pos e)) = length buf"
    and "drop e (fst (loop h buf pos e)) = drop e buf"
proof -
  let ?spec = "\<lambda>h buf pos e. let kept = concat (scrub_lines drop_line next_state h (lines_of (bslice buf pos e)))
      in snd (loop h buf pos e) = pos + length kept
       \<and> take (pos + length kept) (fst (loop h buf pos e)) = take pos buf @ kept
       \<and> length (fst (loop h buf pos e)) = length buf \<and> drop e (fst (loop h buf pos e)) = drop e buf"
  have "?spec h buf pos e"
    using assms(1,2)
  proof (induction "e - pos" arbitrary: h buf pos e rule: less_induct)
    case less
    show ?case
    proof (cases "pos < e")
      case False
      then show ?thesis using less.prems by (simp add: loop_end)
    next
      case True
      define le where "le = line_end_of buf pos e"
      have le: "pos < le" "le \<le> e" using line_end_bounds [OF True, of buf] by (simp_all add: le_def)
      have lines: "lines_of (bslice buf pos e) = bslice buf pos le # lines_of (bslice buf le e)"
        unfolding le_def by (rule lines_of_bslice [OF True less.prems(2)])
      show ?thesis
      proof (cases "drop_line h (bslice buf pos le)")
        case False
        have "take le buf = take pos buf @ bslice buf pos le"
          using bslice_append [of 0 pos le buf] le by simp
        moreover have "length (bslice buf pos le) = le - pos"
          using le less.prems by (simp add: length_bslice)
        moreover have "?spec (next_state h) buf le e"
          using le less.prems by (intro less.hyps) auto
        ultimately show ?thesis
          using loop_keep [OF True less.prems(2) le_def False] le
          by (simp add: lines False Let_def)
      next
        case drop: True
        obtain b e' where r: "remove_line buf pos le e = (b, e')" by force
        have e': "e' = pos + (e - le)" using remove_line_end [of buf pos le e] r by simp
        note rb = remove_line_buf [OF le less.prems(2), unfolded r fst_conv]
        have "?spec (next_state h) b pos e'"
          using le less.prems rb(1) e' by (intro less.hyps) auto
        moreover have "drop e (fst (loop (next_state h) b pos e')) = drop e b"
          if "drop e' (fst (loop (next_state h) b pos e')) = drop e' b"
        proof -
          have "drop (e - e') (drop e' (fst (loop (next_state h) b pos e'))) = drop (e - e') (drop e' b)"
            using that by simp
          then show ?thesis using le e' by simp
        qed
        ultimately show ?thesis
          using loop_drop [OF True less.prems(2) le_def drop r] rb e'
          by (simp add: lines drop Let_def)
      qed
    qed
  qed
  then show "snd (loop h buf pos e) = pos + length kept"
    and "take (pos + length kept) (fst (loop h buf pos e)) = take pos buf @ kept"
    and "length (fst (loop h buf pos e)) = length buf"
    and "drop e (fst (loop h buf pos e)) = drop e buf"
    by (simp_all add: kept_def Let_def)
qed

end

text \<open>
  The contract of a sanitizer's result \<open>(b, n)\<close> on a buffer \<open>buf\<close> of which \<open>m\<close> bytes were
  read: the text is the kept lines, nothing outside the read part is touched, and the count
  never grows.
\<close>

definition scrubbed ::
  "(byte list list \<Rightarrow> byte list list) \<Rightarrow> byte list \<Rightarrow> nat \<Rightarrow> byte list \<Rightarrow> int \<Rightarrow> bool" where
  "scrubbed f buf m b n =
     (0 \<le> n \<and> nat n \<le> m \<and> take (nat n) b = concat (f (lines_of (take m buf)))
      \<and> nat n = length (concat (f (lines_of (take m buf))))
      \<and> length b = length buf \<and> drop m b = drop m buf)"

context line_loop
begin

lemma loop_scrubbed:
  assumes "m \<le> length buf" and "loop h buf 0 m = (b, e)"
  shows "scrubbed (scrub_lines drop_line next_state h) buf m b (int e)"
  using loop_filters [of 0 m buf h] assms length_scrub [of drop_line next_state h "take m buf"]
  by (simp add: scrubbed_def)

end

lemma scrubbed_lines:
  assumes "scrubbed (scrub_lines d nx h) buf m b n"
  shows "lines_of (take (nat n) b) = scrub_lines d nx h (lines_of (take m buf))"
proof -
  have "take (nat n) b = concat (scrub_lines d nx h (lines_of (take m buf)))"
    using assms unfolding scrubbed_def by blast
  then show ?thesis by (simp only: lines_of_scrub)
qed

end
