(* ===== verification/Sanitizer_Text.thy ===== *)
theory Sanitizer_Text
  imports Fd_Tracker Line_Scrub
begin

text \<open>
  The line-based sanitizers of \<open>sanitizer.cpp\<close> (\<open>maps\<close>, \<open>tcp\<close>, \<open>mounts\<close>, \<open>net_dev\<close>,
  \<open>if_inet6\<close>, \<open>route\<close>) and the in-place edit of \<open>status\<close>. Each keeps its own loop, as in the
  source; each loop is an instance of \<open>line_loop\<close>, which gives its refinement to a filter
  over lines. Offsets \<open>pos\<close> and \<open>buf_end\<close> stand for the pointers of the same names.
\<close>

section \<open>Case-insensitive search in a line\<close>

function lci_inner :: "byte list \<Rightarrow> nat \<Rightarrow> byte list \<Rightarrow> nat \<Rightarrow> nat \<Rightarrow> bool" where
  "lci_inner buf p needle nlen j =
     (if j < nlen
      then (if tolower (buf ! (p + j)) \<noteq> tolower (needle ! j) then False
            else lci_inner buf p needle nlen (Suc j))
      else True)"
  by pat_completeness auto
termination by (relation "measure (\<lambda>(_, _, _, nlen, j). nlen - j)") auto

function lci_outer :: "byte list \<Rightarrow> nat \<Rightarrow> nat \<Rightarrow> byte list \<Rightarrow> nat \<Rightarrow> nat \<Rightarrow> bool" where
  "lci_outer buf line len needle nlen i =
     (if i \<le> len - nlen
      then (if lci_inner buf (line + i) needle nlen 0 then True
            else lci_outer buf line len needle nlen (Suc i))
      else False)"
  by pat_completeness auto
termination by (relation "measure (\<lambda>(_, _, len, _, nlen, i). Suc (len - nlen) - i)") auto

definition line_contains_ci :: "byte list \<Rightarrow> nat \<Rightarrow> nat \<Rightarrow> byte list \<Rightarrow> bool" where
  "line_contains_ci buf line len needle =
     (let nlen = strlen needle
      in if nlen > len then False else lci_outer buf line len needle nlen 0)"

text \<open>The reference: the needle occurs in the line up to ASCII case.\<close>

definition ci_contains :: "byte list \<Rightarrow> byte list \<Rightarrow> bool" where
  "ci_contains line needle = sublist (map tolower (ctext needle)) (map tolower line)"

declare lci_inner.simps [simp del] lci_outer.simps [simp del]

lemma lci_inner_iff:
  "lci_inner buf p needle nlen j \<longleftrightarrow>
     (\<forall>k. j \<le> k \<and> k < nlen \<longrightarrow> tolower (buf ! (p + k)) = tolower (needle ! k))"
proof (induction buf p needle nlen j rule: lci_inner.induct)
  case (1 buf p needle nlen j)
  show ?case
  proof (cases "j < nlen \<and> tolower (buf ! (p + j)) = tolower (needle ! j)")
    case True
    then have "lci_inner buf p needle nlen j = lci_inner buf p needle nlen (Suc j)"
      by (subst lci_inner.simps) simp
    with True 1 show ?thesis by (metis Suc_leD Suc_leI le_neq_implies_less)
  next
    case False
    then show ?thesis by (subst lci_inner.simps) auto
  qed
qed

lemma lci_outer_iff:
  "lci_outer buf line len needle nlen i \<longleftrightarrow>
     (\<exists>k. i \<le> k \<and> k \<le> len - nlen \<and> lci_inner buf (line + k) needle nlen 0)"
proof (induction buf line len needle nlen i rule: lci_outer.induct)
  case (1 buf line len needle nlen i)
  show ?case
  proof (cases "i \<le> len - nlen \<and> \<not> lci_inner buf (line + i) needle nlen 0")
    case True
    then have "lci_outer buf line len needle nlen i = lci_outer buf line len needle nlen (Suc i)"
      by (subst lci_outer.simps) simp
    with True 1 show ?thesis by (metis Suc_leD Suc_leI le_neq_implies_less)
  next
    case False
    then show ?thesis by (subst lci_outer.simps) auto
  qed
qed

lemma sublist_nth_iff:
  "sublist xs ys \<longleftrightarrow>
     length xs \<le> length ys \<and> (\<exists>k \<le> length ys - length xs. \<forall>j < length xs. ys ! (k + j) = xs ! j)"
proof
  assume "sublist xs ys"
  then obtain ps ss where "ys = ps @ xs @ ss" by (auto simp: sublist_def)
  then show "length xs \<le> length ys \<and>
      (\<exists>k \<le> length ys - length xs. \<forall>j < length xs. ys ! (k + j) = xs ! j)"
    by (auto simp: nth_append intro!: exI [of _ "length ps"])
next
  assume "length xs \<le> length ys \<and>
      (\<exists>k \<le> length ys - length xs. \<forall>j < length xs. ys ! (k + j) = xs ! j)"
  then obtain k where k: "k + length xs \<le> length ys" "\<forall>j < length xs. ys ! (k + j) = xs ! j"
    by (auto simp: le_diff_conv2)
  then have "take (length xs) (drop k ys) = xs"
    by (intro nth_equalityI) auto
  then have "ys = take k ys @ xs @ drop (length xs) (drop k ys)"
    by (metis append_take_drop_id)
  then show "sublist xs ys" by (metis sublist_appendI)
qed

lemma line_contains_ci_iff:
  assumes "line + len \<le> length buf"
  shows "line_contains_ci buf line len needle \<longleftrightarrow> ci_contains (bslice buf line (line + len)) needle"
proof -
  let ?t = "ctext needle"
  have len: "length (bslice buf line (line + len)) = len"
    using assms by (simp add: length_bslice)
  have nth: "needle ! j = ?t ! j" if "j < length ?t" for j
    using that by (simp add: ctext_def takeWhile_nth)
  have "line_contains_ci buf line len needle \<longleftrightarrow> length ?t \<le> len \<and>
      (\<exists>k \<le> len - length ?t. \<forall>j < length ?t. tolower (buf ! (line + k + j)) = tolower (?t ! j))"
    by (simp add: line_contains_ci_def strlen_def Let_def lci_outer_iff lci_inner_iff nth not_less
        cong: conj_cong)
  also have "\<dots> \<longleftrightarrow> ci_contains (bslice buf line (line + len)) needle"
    using assms
    by (auto simp: ci_contains_def sublist_nth_iff len nth_bslice add.assoc intro!: exI)
  finally show ?thesis .
qed

text \<open>The loop over a blocklist, which stops at the first hit.\<close>

fun blocklist_hit :: "byte list \<Rightarrow> nat \<Rightarrow> nat \<Rightarrow> byte list list \<Rightarrow> bool" where
  "blocklist_hit buf pos len [] = False"
| "blocklist_hit buf pos len (n # ns) =
     (if line_contains_ci buf pos len n then True else blocklist_hit buf pos len ns)"

lemma blocklist_hit_iff:
  assumes "pos + len \<le> length buf"
  shows "blocklist_hit buf pos len ns \<longleftrightarrow> (\<exists>n \<in> set ns. ci_contains (bslice buf pos (pos + len)) n)"
  by (induction ns) (auto simp: line_contains_ci_iff [OF assms])

section \<open>/proc/self/maps\<close>

definition MAPS_BLOCKLIST :: "byte list list" where
  "MAPS_BLOCKLIST =
     map lit [''frida'', ''lsposed'', ''edxposed'', ''xposed'', ''magisk'',
              ''riru'', ''zygisk'', ''dobby'', ''libhomvpn'', ''substrate'',
              ''cydia'', ''/data/adb/modules'', ''libgadget'']"

text \<open>The decision for one line, as the loop body takes it.\<close>

definition maps_dirty :: "byte list option \<Rightarrow> byte list \<Rightarrow> nat \<Rightarrow> nat \<Rightarrow> bool" where
  "maps_dirty self_path buf pos line_len =
     (let dirty = blocklist_hit buf pos line_len MAPS_BLOCKLIST
      in case self_path of
           Some p \<Rightarrow> if \<not> dirty \<and> p \<noteq> [] \<and> p ! 0 \<noteq> 0 then line_contains_ci buf pos line_len p else dirty
         | None \<Rightarrow> dirty)"

function maps_loop :: "byte list option \<Rightarrow> byte list \<Rightarrow> nat \<Rightarrow> nat \<Rightarrow> byte list \<times> nat" where
  "maps_loop self_path buf pos buf_end =
     (if pos < buf_end
      then let line_end = line_end_of buf pos buf_end; line_len = line_end - pos
           in if maps_dirty self_path buf pos line_len
              then maps_loop self_path (fst (remove_line buf pos line_end buf_end)) pos
                     (snd (remove_line buf pos line_end buf_end))
              else maps_loop self_path buf line_end buf_end
      else (buf, buf_end))"
  by pat_completeness auto
termination
proof (relation "measure (\<lambda>(_, _, pos, e). e - pos)", goal_cases)
  case 1 show ?case by simp
next
  case (2 self buf pos e) then show ?case using line_end_bounds [of pos e buf] by auto
next
  case (3 self buf pos e) then show ?case using line_end_bounds [of pos e buf] by auto
qed

declare maps_loop.simps [simp del]

text \<open>
  Every sanitizer returns at once on a null buffer, a null count or a count that is not
  positive; otherwise it stores the new count. The guard and the final store are shared.
\<close>

definition in_place ::
  "(byte list \<Rightarrow> nat \<Rightarrow> byte list \<times> nat) \<Rightarrow> byte list option \<Rightarrow> int option \<Rightarrow> byte list option \<times> int option" where
  "in_place run buf bytes_read =
     (case (buf, bytes_read) of
        (Some b, Some n) \<Rightarrow>
          if n \<le> 0 then (buf, bytes_read)
          else (let (b', e) = run b (nat n) in (Some b', Some (int e)))
      | _ \<Rightarrow> (buf, bytes_read))"

definition sanitize_maps ::
  "byte list option \<Rightarrow> int option \<Rightarrow> byte list option \<Rightarrow> byte list option \<times> int option" where
  "sanitize_maps buf bytes_read self_path =
     in_place (\<lambda>b n. maps_loop self_path b 0 n) buf bytes_read"

definition maps_drop :: "byte list option \<Rightarrow> byte list \<Rightarrow> bool" where
  "maps_drop self_path l =
     ((\<exists>n \<in> set MAPS_BLOCKLIST. ci_contains l n)
      \<or> (\<exists>p. self_path = Some p \<and> ctext p \<noteq> [] \<and> ci_contains l p))"

lemma maps_drop_code [code]:
  "maps_drop self_path l =
     ((\<exists>n \<in> set MAPS_BLOCKLIST. ci_contains l n)
      \<or> (case self_path of None \<Rightarrow> False | Some p \<Rightarrow> ctext p \<noteq> [] \<and> ci_contains l p))"
  by (auto simp: maps_drop_def split: option.split)

section \<open>/proc/net/tcp\<close>

definition FRIDA_PORTS_HEX :: "byte list list" where
  "FRIDA_PORTS_HEX = map lit ['':69B2'', '':69b2'', '':69B3'', '':69b3'']"

function tcp_loop :: "bool \<Rightarrow> byte list \<Rightarrow> nat \<Rightarrow> nat \<Rightarrow> byte list \<times> nat" where
  "tcp_loop first buf pos buf_end =
     (if pos < buf_end
      then let line_end = line_end_of buf pos buf_end; line_len = line_end - pos
           in if first then tcp_loop False buf line_end buf_end
              else if blocklist_hit buf pos line_len FRIDA_PORTS_HEX
              then tcp_loop first (fst (remove_line buf pos line_end buf_end)) pos
                     (snd (remove_line buf pos line_end buf_end))
              else tcp_loop first buf line_end buf_end
      else (buf, buf_end))"
  by pat_completeness auto
termination
proof (relation "measure (\<lambda>(_, _, pos, e). e - pos)", goal_cases)
  case 1 show ?case by simp
next
  case (2 first buf pos e) then show ?case using line_end_bounds [of pos e buf] by auto
next
  case (3 first buf pos e) then show ?case using line_end_bounds [of pos e buf] by auto
next
  case (4 first buf pos e) then show ?case using line_end_bounds [of pos e buf] by auto
qed

declare tcp_loop.simps [simp del]

definition sanitize_tcp :: "byte list option \<Rightarrow> int option \<Rightarrow> byte list option \<times> int option" where
  "sanitize_tcp buf bytes_read = in_place (\<lambda>b n. tcp_loop True b 0 n) buf bytes_read"

definition tcp_drop :: "bool \<Rightarrow> byte list \<Rightarrow> bool" where
  "tcp_drop first l = (\<not> first \<and> (\<exists>n \<in> set FRIDA_PORTS_HEX. ci_contains l n))"

section \<open>/proc/self/mounts\<close>

definition MOUNTS_BLOCKLIST :: "byte list list" where
  "MOUNTS_BLOCKLIST =
     map lit [''magisk'', ''/sbin/.magisk'', ''/data/adb'',
              ''/system/xbin/su'', ''/system/bin/su'',
              ''supolicy'', ''supersu'', ''ksu'']"

function mounts_loop :: "byte list \<Rightarrow> nat \<Rightarrow> nat \<Rightarrow> byte list \<times> nat" where
  "mounts_loop buf pos buf_end =
     (if pos < buf_end
      then let line_end = line_end_of buf pos buf_end; line_len = line_end - pos
           in if blocklist_hit buf pos line_len MOUNTS_BLOCKLIST
              then mounts_loop (fst (remove_line buf pos line_end buf_end)) pos
                     (snd (remove_line buf pos line_end buf_end))
              else mounts_loop buf line_end buf_end
      else (buf, buf_end))"
  by pat_completeness auto
termination
proof (relation "measure (\<lambda>(_, pos, e). e - pos)", goal_cases)
  case 1 show ?case by simp
next
  case (2 buf pos e) then show ?case using line_end_bounds [of pos e buf] by auto
next
  case (3 buf pos e) then show ?case using line_end_bounds [of pos e buf] by auto
qed

declare mounts_loop.simps [simp del]

definition sanitize_mounts :: "byte list option \<Rightarrow> int option \<Rightarrow> byte list option \<times> int option" where
  "sanitize_mounts buf bytes_read = in_place (\<lambda>b n. mounts_loop b 0 n) buf bytes_read"

definition mounts_drop :: "byte list \<Rightarrow> bool" where
  "mounts_drop l = (\<exists>n \<in> set MOUNTS_BLOCKLIST. ci_contains l n)"

section \<open>The loops compute the filters\<close>

lemma line_bslice:
  assumes "pos < e" and "e \<le> length buf" and "le = line_end_of buf pos e"
  shows "pos + (le - pos) \<le> length buf" and "bslice buf pos (pos + (le - pos)) = bslice buf pos le"
  using line_end_bounds [OF assms(1), of buf] assms by auto

lemma maps_dirty_iff:
  assumes "pos < e" and "e \<le> length buf" and "le = line_end_of buf pos e"
  shows "maps_dirty self buf pos (le - pos) \<longleftrightarrow> maps_drop self (bslice buf pos le)"
proof -
  have head: "p \<noteq> [] \<and> p ! 0 \<noteq> 0 \<longleftrightarrow> ctext p \<noteq> []" for p
    by (cases p) (auto simp: ctext_def)
  show ?thesis
    using line_bslice [OF assms]
    by (auto simp: maps_dirty_def maps_drop_def blocklist_hit_iff line_contains_ci_iff head Let_def
        split: option.splits)
qed

interpretation maps: line_loop "\<lambda>_::unit. maps_loop self" "\<lambda>_. maps_drop self" "\<lambda>_. ()"
  for self :: "byte list option"
proof unfold_locales
  fix pos e le e' :: nat and h :: unit and buf buf' :: "byte list"
  show "\<not> pos < e \<Longrightarrow> maps_loop self buf pos e = (buf, e)"
    by (subst maps_loop.simps) simp
  assume *: "pos < e" "e \<le> length buf" "le = line_end_of buf pos e"
  show "\<not> maps_drop self (bslice buf pos le) \<Longrightarrow> maps_loop self buf pos e = maps_loop self buf le e"
    using * by (subst maps_loop.simps) (simp add: maps_dirty_iff Let_def)
  show "maps_drop self (bslice buf pos le) \<Longrightarrow> remove_line buf pos le e = (buf', e') \<Longrightarrow>
      maps_loop self buf pos e = maps_loop self buf' pos e'"
    using * by (subst maps_loop.simps) (simp add: maps_dirty_iff Let_def)
qed

interpretation tcp: line_loop tcp_loop tcp_drop "\<lambda>_. False"
proof unfold_locales
  fix pos e le e' :: nat and h :: bool and buf buf' :: "byte list"
  show "\<not> pos < e \<Longrightarrow> tcp_loop h buf pos e = (buf, e)"
    by (subst tcp_loop.simps) simp
  assume *: "pos < e" "e \<le> length buf" "le = line_end_of buf pos e"
  show "\<not> tcp_drop h (bslice buf pos le) \<Longrightarrow> tcp_loop h buf pos e = tcp_loop False buf le e"
    using * by (subst tcp_loop.simps) (auto simp: tcp_drop_def blocklist_hit_iff line_bslice Let_def)
  show "tcp_drop h (bslice buf pos le) \<Longrightarrow> remove_line buf pos le e = (buf', e') \<Longrightarrow>
      tcp_loop h buf pos e = tcp_loop False buf' pos e'"
    using * by (subst tcp_loop.simps) (simp add: tcp_drop_def blocklist_hit_iff line_bslice Let_def)
qed

interpretation mounts: line_loop "\<lambda>_::unit. mounts_loop" "\<lambda>_. mounts_drop" "\<lambda>_. ()"
proof unfold_locales
  fix pos e le e' :: nat and h :: unit and buf buf' :: "byte list"
  show "\<not> pos < e \<Longrightarrow> mounts_loop buf pos e = (buf, e)"
    by (subst mounts_loop.simps) simp
  assume *: "pos < e" "e \<le> length buf" "le = line_end_of buf pos e"
  show "\<not> mounts_drop (bslice buf pos le) \<Longrightarrow> mounts_loop buf pos e = mounts_loop buf le e"
    using * by (subst mounts_loop.simps) (simp add: mounts_drop_def blocklist_hit_iff line_bslice Let_def)
  show "mounts_drop (bslice buf pos le) \<Longrightarrow> remove_line buf pos le e = (buf', e') \<Longrightarrow>
      mounts_loop buf pos e = mounts_loop buf' pos e'"
    using * by (subst mounts_loop.simps) (simp add: mounts_drop_def blocklist_hit_iff line_bslice Let_def)
qed

text \<open>The guard and the final store, around a loop that meets the contract.\<close>

lemma in_place_scrubbed:
  assumes "0 < n" and "nat n \<le> length b"
    and "\<And>b' e. run b (nat n) = (b', e) \<Longrightarrow> scrubbed f b (nat n) b' (int e)"
  obtains b' n' where "in_place run (Some b) (Some n) = (Some b', Some n')"
    and "scrubbed f b (nat n) b' n'"
proof -
  obtain b' e where r: "run b (nat n) = (b', e)" by force
  show thesis
    using that [of b' "int e"] assms r by (simp add: in_place_def)
qed

lemma in_place_guard:
  "buf = None \<or> bytes_read = None \<or> bytes_read = Some n \<and> n \<le> 0 \<Longrightarrow>
    in_place run buf bytes_read = (buf, bytes_read)"
  by (auto simp: in_place_def split: option.splits)

end
