(* ===== verification/Sanitizer_Net.thy ===== *)
theory Sanitizer_Net
  imports Sanitizer_Text
begin

text \<open>
  The sanitizers that look an interface name up in each line (\<open>sanitize_net_dev\<close>,
  \<open>sanitize_if_inet6\<close>, \<open>sanitize_route\<close>): how each finds the name, the copy into the
  \<open>IFNAMSIZ\<close> array, and their loops as instances of \<open>line_loop\<close>.
\<close>

definition IFNAMSIZ :: nat where
  "IFNAMSIZ = 16"

section \<open>Scanning\<close>

text \<open>\<open>while (p < hi && *p == c) p++\<close> and \<open>while (hi > lo && P (hi[-1])) hi--\<close>.\<close>

function scan_while :: "byte \<Rightarrow> byte list \<Rightarrow> nat \<Rightarrow> nat \<Rightarrow> nat" where
  "scan_while c buf p hi = (if p < hi \<and> buf ! p = c then scan_while c buf (Suc p) hi else p)"
  by pat_completeness auto
termination by (relation "measure (\<lambda>(_, _, p, hi). hi - p)") auto

function scan_back :: "(byte \<Rightarrow> bool) \<Rightarrow> byte list \<Rightarrow> nat \<Rightarrow> nat \<Rightarrow> nat" where
  "scan_back P buf lo hi = (if hi > lo \<and> P (buf ! (hi - 1)) then scan_back P buf lo (hi - 1) else hi)"
  by pat_completeness auto
termination by (relation "measure (\<lambda>(_, _, lo, hi). hi - lo)") auto

declare scan_while.simps [simp del] scan_back.simps [simp del]

lemma bslice_Cons: "p < hi \<Longrightarrow> hi \<le> length buf \<Longrightarrow> bslice buf p hi = buf ! p # bslice buf (Suc p) hi"
  by (simp add: bslice_def Cons_nth_drop_Suc [symmetric] take_Cons' Suc_diff_Suc)

lemma bslice_snoc:
  assumes "lo < hi" and "hi \<le> length buf"
  shows "bslice buf lo hi = bslice buf lo (hi - 1) @ [buf ! (hi - 1)]"
proof -
  have "bslice buf (hi - 1) hi = [buf ! (hi - 1)]"
    using assms bslice_Cons [of "hi - 1" hi buf] by simp
  then show ?thesis
    using bslice_append [of lo "hi - 1" hi buf] assms by simp
qed

lemma scan_while_eq:
  assumes "hi \<le> length buf"
  shows "scan_while c buf p hi = p + length (takeWhile (\<lambda>x. x = c) (bslice buf p hi))"
  using assms
proof (induction c buf p hi rule: scan_while.induct)
  case (1 c buf p hi)
  show ?case
  proof (cases "p < hi \<and> buf ! p = c")
    case True
    with 1 show ?thesis by (subst scan_while.simps) (simp add: bslice_Cons)
  next
    case False
    with 1 show ?thesis
      by (subst scan_while.simps) (cases "p < hi", auto simp: bslice_Cons)
  qed
qed

lemma scan_back_eq:
  assumes "hi \<le> length buf"
  shows "scan_back P buf lo hi = hi - length (takeWhile P (rev (bslice buf lo hi)))"
  using assms
proof (induction P buf lo hi rule: scan_back.induct)
  case (1 P buf lo hi)
  show ?case
  proof (cases "hi > lo \<and> P (buf ! (hi - 1))")
    case True
    with 1 have "scan_back P buf lo hi
        = (hi - 1) - length (takeWhile P (rev (bslice buf lo (hi - 1))))"
      by (subst scan_back.simps) simp
    moreover have "takeWhile P (rev (bslice buf lo hi))
        = buf ! (hi - 1) # takeWhile P (rev (bslice buf lo (hi - 1)))"
      using True "1.prems" bslice_snoc [of lo hi buf] by simp
    ultimately show ?thesis by simp
  next
    case False
    then have "scan_back P buf lo hi = hi"
      by (subst scan_back.simps) auto
    moreover have "takeWhile P (rev (bslice buf lo hi)) = []"
      using False "1.prems" bslice_snoc [of lo hi buf] by (cases "lo < hi") auto
    ultimately show ?thesis by simp
  qed
qed

text \<open>What is left of a slice when its front or its back is scanned away.\<close>

lemma bslice_scan_while:
  assumes "p \<le> hi" and "hi \<le> length buf"
  shows "p \<le> scan_while c buf p hi" and "scan_while c buf p hi \<le> hi"
    and "bslice buf (scan_while c buf p hi) hi = dropWhile (\<lambda>x. x = c) (bslice buf p hi)"
proof -
  have len: "length (bslice buf p hi) = hi - p" using assms by (simp add: length_bslice)
  show "p \<le> scan_while c buf p hi" by (simp add: scan_while_eq [OF assms(2)])
  show "scan_while c buf p hi \<le> hi"
    using length_takeWhile_le [of "\<lambda>x. x = c" "bslice buf p hi"] len assms
    by (simp add: scan_while_eq [OF assms(2)])
  show "bslice buf (scan_while c buf p hi) hi = dropWhile (\<lambda>x. x = c) (bslice buf p hi)"
    by (simp add: scan_while_eq [OF assms(2)] drop_bslice [symmetric] dropWhile_eq_drop)
qed

lemma bslice_scan_back:
  assumes "lo \<le> hi" and "hi \<le> length buf"
  shows "lo \<le> scan_back P buf lo hi" and "scan_back P buf lo hi \<le> hi"
    and "bslice buf lo (scan_back P buf lo hi) = rev (dropWhile P (rev (bslice buf lo hi)))"
    and "bslice buf (scan_back P buf lo hi) hi = rev (takeWhile P (rev (bslice buf lo hi)))"
proof -
  let ?t = "takeWhile P (rev (bslice buf lo hi))"
  have len: "length (bslice buf lo hi) = hi - lo" using assms by (simp add: length_bslice)
  have le: "length ?t \<le> hi - lo"
    using length_takeWhile_le [of P "rev (bslice buf lo hi)"] len by simp
  show "lo \<le> scan_back P buf lo hi" and "scan_back P buf lo hi \<le> hi"
    using le assms by (simp_all add: scan_back_eq [OF assms(2)])
  have "rev (dropWhile P (rev (bslice buf lo hi))) = take (hi - lo - length ?t) (bslice buf lo hi)"
    by (simp add: dropWhile_eq_drop rev_drop len)
  also have "\<dots> = bslice buf lo (min hi (lo + (hi - lo - length ?t)))"
    by (simp add: take_bslice)
  also have "min hi (lo + (hi - lo - length ?t)) = scan_back P buf lo hi"
    using le assms by (simp add: scan_back_eq [OF assms(2)])
  finally show "bslice buf lo (scan_back P buf lo hi) = rev (dropWhile P (rev (bslice buf lo hi)))" ..
  have "rev ?t = drop (hi - lo - length ?t) (bslice buf lo hi)"
    by (metis append_eq_conv_conj len length_rev length_append rev_append rev_rev_ident
        takeWhile_dropWhile_id add_diff_cancel_right')
  also have "\<dots> = bslice buf (scan_back P buf lo hi) hi"
    using le assms by (simp add: drop_bslice scan_back_eq [OF assms(2)])
  finally show "bslice buf (scan_back P buf lo hi) hi = rev ?t" ..
qed

section \<open>The copied name\<close>

text \<open>\<open>char name[IFNAMSIZ] = {}; memcpy (name, p, nlen)\<close>, then the filter, under the length test.\<close>

definition name_array :: "byte list \<Rightarrow> byte list" where
  "name_array f = f @ replicate (IFNAMSIZ - length f) 0"

definition copied_name_is_vpn :: "byte list \<Rightarrow> nat \<Rightarrow> nat \<Rightarrow> bool" where
  "copied_name_is_vpn buf p nlen =
     (if 0 < nlen \<and> nlen < IFNAMSIZ
      then is_vpn_interface (Some (name_array (bslice buf p (p + nlen)))) = Some True
      else False)"

definition vpn_field :: "byte list \<Rightarrow> bool" where
  "vpn_field f = (f \<noteq> [] \<and> length f < IFNAMSIZ \<and> vpn_name (ctext f))"

lemma ctext_append_zeros: "ctext (f @ replicate n 0) = ctext f"
  by (induction f) (cases n, auto simp: ctext_def)

lemma ctext_name_array: "ctext (name_array f) = ctext f"
  by (simp add: name_array_def ctext_append_zeros)

lemma name_array_check:
  "length f < IFNAMSIZ \<Longrightarrow> is_vpn_interface (Some (name_array f)) = Some (vpn_name (ctext f))"
  by (subst is_vpn_interface_cstr) (simp_all add: ctext_name_array, simp add: name_array_def)

lemma copied_name_is_vpn_iff:
  assumes "p \<le> q" and "q \<le> length buf"
  shows "copied_name_is_vpn buf p (q - p) \<longleftrightarrow> vpn_field (bslice buf p q)"
proof -
  have "length (bslice buf p q) = q - p" using assms by (simp add: length_bslice)
  then show ?thesis
    using assms by (auto simp: copied_name_is_vpn_def vpn_field_def name_array_check)
qed

section \<open>/proc/net/dev\<close>

definition net_dev_dirty :: "byte list \<Rightarrow> nat \<Rightarrow> nat \<Rightarrow> bool" where
  "net_dev_dirty buf pos line_end =
     (let p = scan_while 32 buf pos line_end
      in case memchr buf p 58 (line_end - p) of
           None \<Rightarrow> False
         | Some colon \<Rightarrow>
             let name_end = scan_back (\<lambda>c. c = 32) buf p colon
             in copied_name_is_vpn buf p (name_end - p))"

function net_dev_loop :: "nat \<Rightarrow> byte list \<Rightarrow> nat \<Rightarrow> nat \<Rightarrow> byte list \<times> nat" where
  "net_dev_loop line_num buf pos buf_end =
     (if pos < buf_end
      then let line_end = line_end_of buf pos buf_end
           in if line_num < 2 then net_dev_loop (line_num + 1) buf line_end buf_end
              else if net_dev_dirty buf pos line_end
              then net_dev_loop (line_num + 1) (fst (remove_line buf pos line_end buf_end)) pos
                     (snd (remove_line buf pos line_end buf_end))
              else net_dev_loop (line_num + 1) buf line_end buf_end
      else (buf, buf_end))"
  by pat_completeness auto
termination
proof (relation "measure (\<lambda>(_, _, pos, e). e - pos)", goal_cases)
  case 1 show ?case by simp
next
  case (2 n buf pos e) then show ?case using line_end_bounds [of pos e buf] by auto
next
  case (3 n buf pos e) then show ?case using line_end_bounds [of pos e buf] by auto
next
  case (4 n buf pos e) then show ?case using line_end_bounds [of pos e buf] by auto
qed

declare net_dev_loop.simps [simp del]

definition sanitize_net_dev :: "byte list option \<Rightarrow> int option \<Rightarrow> byte list option \<times> int option" where
  "sanitize_net_dev buf bytes_read = in_place (\<lambda>b n. net_dev_loop 0 b 0 n) buf bytes_read"

text \<open>The name field of a line: after the leading spaces, before the colon, right-trimmed.\<close>

definition net_dev_name :: "byte list \<Rightarrow> byte list option" where
  "net_dev_name l =
     (let r = dropWhile (\<lambda>c. c = 32) l
      in if 58 \<in> set r
         then Some (rev (dropWhile (\<lambda>c. c = 32) (rev (takeWhile (\<lambda>c. c \<noteq> 58) r)))) else None)"

definition net_dev_drop :: "nat \<Rightarrow> byte list \<Rightarrow> bool" where
  "net_dev_drop line_num l = (2 \<le> line_num \<and> (\<exists>f. net_dev_name l = Some f \<and> vpn_field f))"

lemma net_dev_drop_code [code]:
  "net_dev_drop line_num l =
     (2 \<le> line_num \<and> (case net_dev_name l of None \<Rightarrow> False | Some f \<Rightarrow> vpn_field f))"
  by (auto simp: net_dev_drop_def split: option.split)

lemma length_takeWhile_less_iff: "length (takeWhile P xs) < length xs \<longleftrightarrow> (\<exists>x \<in> set xs. \<not> P x)"
  by (induction xs) auto

lemma memchr_cases:
  assumes "p \<le> hi" and "hi \<le> length buf"
  shows "memchr buf p c (hi - p) = None \<Longrightarrow> c \<notin> set (bslice buf p hi)"
    and "memchr buf p c (hi - p) = Some q \<Longrightarrow>
      p \<le> q \<and> q < hi \<and> c \<in> set (bslice buf p hi) \<and> bslice buf p q = takeWhile (\<lambda>x. x \<noteq> c) (bslice buf p hi)"
proof -
  let ?k = "length (takeWhile (\<lambda>x. x \<noteq> c) (bslice buf p hi))"
  have len: "length (bslice buf p hi) = hi - p" using assms by (simp add: length_bslice)
  have m: "memchr buf p c (hi - p) = (if ?k < hi - p then Some (p + ?k) else None)"
    using assms memchr_bslice [of p "hi - p" buf c] by (simp add: Let_def)
  have mem: "?k < hi - p \<longleftrightarrow> c \<in> set (bslice buf p hi)"
    using length_takeWhile_less_iff [of "\<lambda>x. x \<noteq> c" "bslice buf p hi"] len by auto
  show "memchr buf p c (hi - p) = None \<Longrightarrow> c \<notin> set (bslice buf p hi)"
    using m mem by (auto split: if_splits)
  have t: "bslice buf p (p + ?k) = takeWhile (\<lambda>x. x \<noteq> c) (bslice buf p hi)" if "?k < hi - p"
  proof -
    have "min hi (p + ?k) = p + ?k" using that by simp
    then show ?thesis
      using take_bslice [of ?k buf p hi] takeWhile_eq_take [of "\<lambda>x. x \<noteq> c" "bslice buf p hi"]
      by simp
  qed
  show "memchr buf p c (hi - p) = Some q \<Longrightarrow>
      p \<le> q \<and> q < hi \<and> c \<in> set (bslice buf p hi) \<and> bslice buf p q = takeWhile (\<lambda>x. x \<noteq> c) (bslice buf p hi)"
    using m mem t by (auto split: if_splits)
qed

lemma net_dev_dirty_iff:
  assumes "pos \<le> le" and "le \<le> length buf"
  shows "net_dev_dirty buf pos le \<longleftrightarrow> (\<exists>f. net_dev_name (bslice buf pos le) = Some f \<and> vpn_field f)"
proof -
  let ?p = "scan_while 32 buf pos le"
  note sw = bslice_scan_while [OF assms, of 32]
  show ?thesis
  proof (cases "memchr buf ?p 58 (le - ?p)")
    case None
    then show ?thesis
      using memchr_cases(1) [OF sw(2) assms(2) None] sw
      by (simp add: net_dev_dirty_def net_dev_name_def Let_def)
  next
    case (Some q)
    note mc = memchr_cases(2) [OF sw(2) assms(2) Some]
    have q: "?p \<le> q" "q \<le> length buf" using mc assms by auto
    note sb = bslice_scan_back [OF q, of "\<lambda>c. c = 32"]
    have "net_dev_dirty buf pos le \<longleftrightarrow> vpn_field (bslice buf ?p (scan_back (\<lambda>c. c = 32) buf ?p q))"
      using sb(1,2) q by (simp add: net_dev_dirty_def Some Let_def copied_name_is_vpn_iff)
    then show ?thesis
      using sw(3) mc sb(3) by (simp add: net_dev_name_def Let_def)
  qed
qed

interpretation net_dev: line_loop net_dev_loop net_dev_drop Suc
proof unfold_locales
  fix pos e le e' h :: nat and buf buf' :: "byte list"
  show "\<not> pos < e \<Longrightarrow> net_dev_loop h buf pos e = (buf, e)"
    by (subst net_dev_loop.simps) simp
  assume *: "pos < e" "e \<le> length buf" "le = line_end_of buf pos e"
  then have b: "pos \<le> le" "le \<le> length buf" using line_end_bounds [of pos e buf] by auto
  show "\<not> net_dev_drop h (bslice buf pos le) \<Longrightarrow> net_dev_loop h buf pos e = net_dev_loop (Suc h) buf le e"
    using * net_dev_dirty_iff [OF b] by (subst net_dev_loop.simps) (auto simp: net_dev_drop_def Let_def)
  show "net_dev_drop h (bslice buf pos le) \<Longrightarrow> remove_line buf pos le e = (buf', e') \<Longrightarrow>
      net_dev_loop h buf pos e = net_dev_loop (Suc h) buf' pos e'"
    using * net_dev_dirty_iff [OF b] by (subst net_dev_loop.simps) (auto simp: net_dev_drop_def Let_def)
qed

section \<open>/proc/net/if_inet6\<close>

definition if_inet6_dirty :: "byte list \<Rightarrow> nat \<Rightarrow> nat \<Rightarrow> bool" where
  "if_inet6_dirty buf pos line_end =
     (let end = scan_back (\<lambda>c. c = 10 \<or> c = 13 \<or> c = 32) buf pos line_end;
          p = scan_back (\<lambda>c. c \<noteq> 32) buf pos end
      in copied_name_is_vpn buf p (end - p))"

function if_inet6_loop :: "byte list \<Rightarrow> nat \<Rightarrow> nat \<Rightarrow> byte list \<times> nat" where
  "if_inet6_loop buf pos buf_end =
     (if pos < buf_end
      then let line_end = line_end_of buf pos buf_end
           in if if_inet6_dirty buf pos line_end
              then if_inet6_loop (fst (remove_line buf pos line_end buf_end)) pos
                     (snd (remove_line buf pos line_end buf_end))
              else if_inet6_loop buf line_end buf_end
      else (buf, buf_end))"
  by pat_completeness auto
termination
proof (relation "measure (\<lambda>(_, pos, e). e - pos)", goal_cases)
  case 1 show ?case by simp
next
  case (2 buf pos e) then show ?case using line_end_bounds [of pos e buf] by auto
next
  case (3 buf pos e) then show ?case using line_end_bounds [of pos e buf] by auto
qed

declare if_inet6_loop.simps [simp del]

definition sanitize_if_inet6 :: "byte list option \<Rightarrow> int option \<Rightarrow> byte list option \<times> int option" where
  "sanitize_if_inet6 buf bytes_read = in_place (\<lambda>b n. if_inet6_loop b 0 n) buf bytes_read"

text \<open>The last field of a line: trailing blanks off, then everything after the last space.\<close>

definition if_inet6_name :: "byte list \<Rightarrow> byte list" where
  "if_inet6_name l =
     rev (takeWhile (\<lambda>c. c \<noteq> 32) (dropWhile (\<lambda>c. c = 10 \<or> c = 13 \<or> c = 32) (rev l)))"

definition if_inet6_drop :: "byte list \<Rightarrow> bool" where
  "if_inet6_drop l = vpn_field (if_inet6_name l)"

lemma if_inet6_dirty_iff:
  assumes "pos \<le> le" and "le \<le> length buf"
  shows "if_inet6_dirty buf pos le \<longleftrightarrow> if_inet6_drop (bslice buf pos le)"
proof -
  let ?stop = "scan_back (\<lambda>c. c = 10 \<or> c = 13 \<or> c = 32) buf pos le"
  let ?p = "scan_back (\<lambda>c. c \<noteq> 32) buf pos ?stop"
  note e = bslice_scan_back [OF assms, of "\<lambda>c. c = 10 \<or> c = 13 \<or> c = 32"]
  have elen: "?stop \<le> length buf" using e(2) assms(2) by simp
  note p = bslice_scan_back [OF e(1) elen, of "\<lambda>c. c \<noteq> 32"]
  have "bslice buf ?p ?stop = if_inet6_name (bslice buf pos le)"
    using e(3) p(4) by (simp add: if_inet6_name_def)
  then show ?thesis
    using copied_name_is_vpn_iff [OF p(2) elen]
    by (simp add: if_inet6_dirty_def if_inet6_drop_def Let_def)
qed

interpretation if_inet6: line_loop "\<lambda>_::unit. if_inet6_loop" "\<lambda>_. if_inet6_drop" "\<lambda>_. ()"
proof unfold_locales
  fix pos e le e' :: nat and h :: unit and buf buf' :: "byte list"
  show "\<not> pos < e \<Longrightarrow> if_inet6_loop buf pos e = (buf, e)"
    by (subst if_inet6_loop.simps) simp
  assume *: "pos < e" "e \<le> length buf" "le = line_end_of buf pos e"
  then have b: "pos \<le> le" "le \<le> length buf" using line_end_bounds [of pos e buf] by auto
  show "\<not> if_inet6_drop (bslice buf pos le) \<Longrightarrow> if_inet6_loop buf pos e = if_inet6_loop buf le e"
    using * if_inet6_dirty_iff [OF b] by (subst if_inet6_loop.simps) (simp add: Let_def)
  show "if_inet6_drop (bslice buf pos le) \<Longrightarrow> remove_line buf pos le e = (buf', e') \<Longrightarrow>
      if_inet6_loop buf pos e = if_inet6_loop buf' pos e'"
    using * if_inet6_dirty_iff [OF b] by (subst if_inet6_loop.simps) (simp add: Let_def)
qed

section \<open>/proc/net/route\<close>

definition route_dirty :: "byte list \<Rightarrow> nat \<Rightarrow> nat \<Rightarrow> bool" where
  "route_dirty buf pos line_end =
     (case memchr buf pos 9 (line_end - pos) of
        None \<Rightarrow> False
      | Some tab \<Rightarrow> copied_name_is_vpn buf pos (tab - pos))"

function route_loop :: "bool \<Rightarrow> byte list \<Rightarrow> nat \<Rightarrow> nat \<Rightarrow> byte list \<times> nat" where
  "route_loop first buf pos buf_end =
     (if pos < buf_end
      then let line_end = line_end_of buf pos buf_end
           in if first then route_loop False buf line_end buf_end
              else if route_dirty buf pos line_end
              then route_loop first (fst (remove_line buf pos line_end buf_end)) pos
                     (snd (remove_line buf pos line_end buf_end))
              else route_loop first buf line_end buf_end
      else (buf, buf_end))"
  by pat_completeness auto
termination
proof (relation "measure (\<lambda>(_, _, pos, e). e - pos)", goal_cases)
  case 1 show ?case by simp
next
  case (2 first buf pos e) then show ?case using line_end_bounds [of pos e buf] by auto
next
  case (3 first buf pos e) then show ?case using line_end_bounds [of pos e buf] by auto
next
  case (4 first buf pos e) then show ?case using line_end_bounds [of pos e buf] by auto
qed

declare route_loop.simps [simp del]

definition sanitize_route :: "byte list option \<Rightarrow> int option \<Rightarrow> byte list option \<times> int option" where
  "sanitize_route buf bytes_read = in_place (\<lambda>b n. route_loop True b 0 n) buf bytes_read"

definition route_drop :: "bool \<Rightarrow> byte list \<Rightarrow> bool" where
  "route_drop first l = (\<not> first \<and> 9 \<in> set l \<and> vpn_field (takeWhile (\<lambda>c. c \<noteq> 9) l))"

lemma route_dirty_iff:
  assumes "pos \<le> le" and "le \<le> length buf"
  shows "route_dirty buf pos le \<longleftrightarrow> route_drop False (bslice buf pos le)"
proof (cases "memchr buf pos 9 (le - pos)")
  case None
  then show ?thesis
    using memchr_cases(1) [OF assms None] by (simp add: route_dirty_def route_drop_def)
next
  case (Some q)
  note mc = memchr_cases(2) [OF assms Some]
  then have "copied_name_is_vpn buf pos (q - pos) = vpn_field (bslice buf pos q)"
    using assms by (intro copied_name_is_vpn_iff) auto
  then show ?thesis using mc by (simp add: route_dirty_def route_drop_def Some)
qed

interpretation route: line_loop route_loop route_drop "\<lambda>_. False"
proof unfold_locales
  fix pos e le e' :: nat and h :: bool and buf buf' :: "byte list"
  show "\<not> pos < e \<Longrightarrow> route_loop h buf pos e = (buf, e)"
    by (subst route_loop.simps) simp
  assume *: "pos < e" "e \<le> length buf" "le = line_end_of buf pos e"
  then have b: "pos \<le> le" "le \<le> length buf" using line_end_bounds [of pos e buf] by auto
  have h: "route_drop h l = (\<not> h \<and> route_drop False l)" for l by (simp add: route_drop_def)
  show "\<not> route_drop h (bslice buf pos le) \<Longrightarrow> route_loop h buf pos e = route_loop False buf le e"
    using * route_dirty_iff [OF b] h [of "bslice buf pos le"]
    by (subst route_loop.simps) (auto simp: Let_def)
  show "route_drop h (bslice buf pos le) \<Longrightarrow> remove_line buf pos le e = (buf', e') \<Longrightarrow>
      route_loop h buf pos e = route_loop False buf' pos e'"
    using * route_dirty_iff [OF b] h [of "bslice buf pos le"]
    by (subst route_loop.simps) (auto simp: Let_def)
qed

end
