(* ===== verification/Sanitizer_Status.thy ===== *)
theory Sanitizer_Status
  imports Sanitizer_Net
begin

text \<open>
  \<open>sanitize_status\<close> of \<open>sanitizer.cpp\<close>: the value after the first \<open>TracerPid:\<close> tag becomes
  a zero padded with blanks, in place; the count is not changed.
\<close>

function blank_from :: "byte list \<Rightarrow> nat \<Rightarrow> nat \<Rightarrow> byte list" where
  "blank_from buf p val_end = (if p < val_end then blank_from (buf[p := 32]) (Suc p) val_end else buf)"
  by pat_completeness auto
termination by (relation "measure (\<lambda>(_, p, e). e - p)") auto

declare blank_from.simps [simp del]

definition tracer_tag :: "byte list" where
  "tracer_tag = lit ''TracerPid:'' @ [9]"

definition status_edit :: "byte list \<Rightarrow> nat \<Rightarrow> byte list" where
  "status_edit buf n =
     (let needle_len = strlen tracer_tag
      in case memmem (take n buf) tracer_tag of
           None \<Rightarrow> buf
         | Some m \<Rightarrow>
             let val_start = m + needle_len
             in if val_start \<ge> n then buf
                else let val_end = (case memchr buf val_start newline (n - val_start) of
                                      None \<Rightarrow> n | Some q \<Rightarrow> q)
                     in if val_end - val_start = 1 \<and> buf ! val_start = 48 then buf
                        else blank_from (buf[val_start := 48]) (val_start + 1) val_end)"

definition sanitize_status :: "byte list option \<Rightarrow> int option \<Rightarrow> byte list option \<times> int option" where
  "sanitize_status buf bytes_read =
     (case (buf, bytes_read) of
        (Some b, Some n) \<Rightarrow> if n \<le> 0 then (buf, bytes_read) else (Some (status_edit b (nat n)), bytes_read)
      | _ \<Rightarrow> (buf, bytes_read))"

lemma blank_from_eq:
  assumes "p \<le> e" and "e \<le> length buf"
  shows "blank_from buf p e = take p buf @ replicate (e - p) 32 @ drop e buf"
  using assms
proof (induction buf p e rule: blank_from.induct)
  case (1 buf p e)
  show ?case
  proof (cases "p < e")
    case True
    with 1 have "blank_from buf p e
        = take (Suc p) (buf[p := 32]) @ replicate (e - Suc p) 32 @ drop e (buf[p := 32])"
      by (subst blank_from.simps) simp
    moreover have "take (Suc p) (buf[p := 32]) = take p buf @ [32]"
      using True "1.prems" by (simp add: take_Suc_conv_app_nth)
    moreover have "replicate (e - p) (32::byte) = 32 # replicate (e - Suc p) 32"
      using True by (simp add: Suc_diff_Suc [symmetric])
    ultimately show ?thesis using True "1.prems" by simp
  next
    case False
    with "1.prems" show ?thesis by (subst blank_from.simps) simp
  qed
qed

lemma tracer_tag_text: "ctext tracer_tag = tracer_tag" "length tracer_tag = 11"
  by (simp_all add: tracer_tag_def ctext_def lit_def)

lemma length_blank_from [simp]: "length (blank_from buf p e) = length buf"
  by (induction buf p e rule: blank_from.induct) (subst blank_from.simps, simp)

lemma length_status_edit [simp]: "length (status_edit buf n) = length buf"
  by (simp add: status_edit_def Let_def split: option.splits)

text \<open>
  The shape of a status text around the first tag: what precedes it, the value up to the end
  of its line, and the rest.
\<close>

definition status_shape :: "byte list \<Rightarrow> byte list \<Rightarrow> byte list \<Rightarrow> byte list \<Rightarrow> bool" where
  "status_shape text pre val rest =
     (text = pre @ tracer_tag @ val @ rest
      \<and> memmem text tracer_tag = Some (length pre)
      \<and> newline \<notin> set val \<and> (rest = [] \<or> hd rest = newline) \<and> val @ rest \<noteq> [])"

lemma takeWhile_stop: "c \<notin> set val \<Longrightarrow> takeWhile (\<lambda>x. x \<noteq> c) (val @ c # rest) = val"
  by (induction val) auto

lemma memchr_val_end:
  assumes "buf = q @ val @ rest @ tl'" and "newline \<notin> set val" and "rest = [] \<or> hd rest = newline"
  shows "(case memchr buf (length q) newline (length (val @ rest)) of
            None \<Rightarrow> length (q @ val @ rest) | Some k \<Rightarrow> k) = length q + length val"
proof -
  let ?n = "length (val @ rest)"
  have s: "bslice buf (length q) (length q + ?n) = val @ rest"
    by (simp add: assms(1) bslice_def)
  have t: "takeWhile (\<lambda>x. x \<noteq> newline) (val @ rest) = val"
    using assms(2,3) takeWhile_stop [of newline val] by (cases rest) (auto simp: takeWhile_eq_all_conv)
  have "memchr buf (length q) newline ?n
      = (if length val < ?n then Some (length q + length val) else None)"
  proof -
    have "length q + ?n \<le> length buf" by (simp add: assms(1))
    from memchr_bslice [OF this, of newline] show ?thesis
      unfolding s t Let_def .
  qed
  then show ?thesis using assms(3) by (cases rest) auto
qed

lemma status_edit_shape:
  assumes "n \<le> length buf" and "status_shape (take n buf) pre val rest"
  shows "status_edit buf n =
    (if val = [48] then buf
     else pre @ tracer_tag @ [48] @
          (if val = [] then tl rest else replicate (length val - 1) 32 @ rest) @ drop n buf)"
proof -
  let ?v = "length pre + 11"
  have shp: "take n buf = pre @ tracer_tag @ val @ rest" and m: "memmem (take n buf) tracer_tag = Some (length pre)"
    and v: "newline \<notin> set val" and rest: "rest = [] \<or> hd rest = newline" and ne: "val @ rest \<noteq> []"
    using assms(2) by (auto simp: status_shape_def)
  have buf: "buf = (pre @ tracer_tag) @ val @ rest @ drop n buf"
    using shp by (metis append_assoc append_take_drop_id)
  have n: "n = ?v + length val + length rest"
    using arg_cong [OF shp, of length] assms(1) by (simp add: tracer_tag_text)
  have lt: "?v < n" using ne n by (cases val; cases rest) auto
  have lq: "length (pre @ tracer_tag) = ?v" by (simp add: tracer_tag_text)
  have nl: "length ((pre @ tracer_tag) @ val @ rest) = n" and d: "length (val @ rest) = n - ?v"
    using n by (simp_all add: tracer_tag_text)
  have ve: "(case memchr buf ?v newline (n - ?v) of None \<Rightarrow> n | Some q \<Rightarrow> q) = ?v + length val"
    using memchr_val_end [OF buf v rest] unfolding nl lq d .
  have at: "buf ! ?v = hd (val @ rest)"
    using buf ne lq by (metis append_is_Nil_conv hd_append2 hd_conv_nth nth_append_length_plus
        add.right_neutral append.assoc hd_append)
  have drop_v: "drop (?v + k) buf = drop k (val @ rest @ drop n buf)" for k
    by (subst buf) (simp add: lq [symmetric])
  have take_v: "take ?v buf = pre @ tracer_tag"
    by (subst buf) (simp add: lq [symmetric])
  have len: "?v < length buf" using lt assms(1) by simp
  have upd: "buf[?v := 48] = (pre @ tracer_tag) @ 48 # drop (?v + 1) buf"
    using len take_v by (simp add: upd_conv_take_nth_drop)
  have edit: "status_edit buf n =
      (if length val = 1 \<and> buf ! ?v = 48 then buf
       else blank_from (buf[?v := 48]) (?v + 1) (?v + length val))"
    using lt by (simp add: status_edit_def m Let_def strlen_def tracer_tag_text ve)
  show ?thesis
  proof (cases val)
    case Nil
    then have "status_edit buf n = buf[?v := 48]"
      using edit by (simp, subst blank_from.simps, simp)
    then show ?thesis using upd drop_v [of 1] Nil ne by (cases rest) simp_all
  next
    case (Cons c cs)
    have is0: "length val = 1 \<and> buf ! ?v = 48 \<longleftrightarrow> val = [48]"
      using at Cons by auto
    have "blank_from (buf[?v := 48]) (?v + 1) (?v + length val)
        = take (?v + 1) (buf[?v := 48]) @ replicate (length val - 1) 32 @ drop (?v + length val) (buf[?v := 48])"
      using assms(1) n Cons by (subst blank_from_eq) simp_all
    moreover have "take (?v + 1) (buf[?v := 48]) = pre @ tracer_tag @ [48]"
      using upd lq by simp
    moreover have "drop (?v + length val) (buf[?v := 48]) = rest @ drop n buf"
      using Cons drop_v [of "length val"] by simp
    ultimately show ?thesis using edit is0 Cons by simp
  qed
qed

end
