(* ===== verification/Sanitizer_Netlink.thy ===== *)
theory Sanitizer_Netlink
  imports Fd_Tracker
begin

text \<open>
  \<open>sanitize_netlink\<close> of \<open>sanitizer.cpp\<close>: the walk over the messages of a netlink buffer,
  the search for a name attribute in each, the table of hidden interface indices and the
  in-place change of a message's type. Every load and store is checked against the memory
  of the buffer (\<open>None\<close> is an access outside it). The first section states the layout and
  the macros of the platform headers \<open>linux/netlink.h\<close> and \<open>linux/rtnetlink.h\<close> that the
  source uses, as netlink(3) and rtnetlink(3) document them.
\<close>

section \<open>The platform's message layout\<close>

definition NLMSG_ALIGN :: "nat \<Rightarrow> nat" where
  "NLMSG_ALIGN len = (len + 3) div 4 * 4"

definition NLMSG_HDRLEN :: nat where
  "NLMSG_HDRLEN = 16"

definition NLMSG_SPACE :: "nat \<Rightarrow> nat" where
  "NLMSG_SPACE len = NLMSG_ALIGN (len + NLMSG_HDRLEN)"

definition RTA_ALIGN :: "nat \<Rightarrow> nat" where
  "RTA_ALIGN len = (len + 3) div 4 * 4"

abbreviation (input) "NLMSG_NOOP \<equiv> 1 :: nat"
abbreviation (input) "RTM_NEWLINK \<equiv> 16 :: nat"
abbreviation (input) "RTM_NEWADDR \<equiv> 20 :: nat"
abbreviation (input) "IFLA_IFNAME \<equiv> 3 :: nat"
abbreviation (input) "IFA_LABEL \<equiv> 3 :: nat"
abbreviation (input) "sizeof_ifinfomsg \<equiv> 16 :: nat"
abbreviation (input) "sizeof_ifaddrmsg \<equiv> 8 :: nat"

lemma align_bounds: "l \<le> NLMSG_ALIGN l" "NLMSG_ALIGN l < l + 4" "l \<le> RTA_ALIGN l"
  unfolding NLMSG_ALIGN_def RTA_ALIGN_def by presburger+

lemma nlmsg_space [simp]: "NLMSG_SPACE 16 = 32" "NLMSG_SPACE 8 = 24" "NLMSG_ALIGN 16 = 16" "NLMSG_ALIGN 8 = 8"
  by (simp_all add: NLMSG_SPACE_def NLMSG_ALIGN_def NLMSG_HDRLEN_def)

text \<open>Checked access to little-endian fields.\<close>

definition ld16 :: "byte list \<Rightarrow> nat \<Rightarrow> nat option" where
  "ld16 buf i = (if i + 2 \<le> length buf then Some (le16 buf i) else None)"

definition ld32 :: "byte list \<Rightarrow> nat \<Rightarrow> nat option" where
  "ld32 buf i = (if i + 4 \<le> length buf then Some (le32 buf i) else None)"

definition put16 :: "byte list \<Rightarrow> nat \<Rightarrow> nat \<Rightarrow> byte list" where
  "put16 buf i v = buf[i := of_nat v, Suc i := of_nat (v div 256)]"

definition st16 :: "byte list \<Rightarrow> nat \<Rightarrow> nat \<Rightarrow> byte list option" where
  "st16 buf i v = (if i + 2 \<le> length buf then Some (put16 buf i v) else None)"

lemma length_put16 [simp]: "length (put16 buf i v) = length buf"
  by (simp add: put16_def)

section \<open>The sanitizer\<close>

text \<open>
  The attribute loop of both branches: the first attribute of type \<open>want\<close> decides, and the
  filter reads its payload as a C string.
\<close>

function attr_name_is_vpn :: "nat \<Rightarrow> byte list \<Rightarrow> nat \<Rightarrow> int \<Rightarrow> bool option" where
  "attr_name_is_vpn want buf rta rta_rem =
     (if rta_rem < 4 then Some False
      else case ld16 buf rta of
        None \<Rightarrow> None
      | Some rta_len \<Rightarrow>
          if \<not> (4 \<le> rta_len \<and> int rta_len \<le> rta_rem) then Some False
          else case ld16 buf (rta + 2) of
            None \<Rightarrow> None
          | Some rta_type \<Rightarrow>
              if rta_type = want then is_vpn_interface (Some (drop (rta + 4) buf))
              else attr_name_is_vpn want buf (rta + RTA_ALIGN rta_len)
                     (rta_rem - int (RTA_ALIGN rta_len)))"
  by pat_completeness auto
termination
  by (relation "measure (\<lambda>(_, _, _, r). nat r)") (auto simp: RTA_ALIGN_def)

declare attr_name_is_vpn.simps [simp del]

text \<open>The body of the message loop, for the message at offset \<open>nlh\<close>.\<close>

definition nl_message ::
  "byte list \<Rightarrow> nat \<Rightarrow> 'a tracker_scheme \<Rightarrow> (byte list \<times> 'a tracker_scheme) option" where
  "nl_message buf nlh s =
     Option.bind (ld16 buf (nlh + 4)) (\<lambda>nlmsg_type.
     Option.bind (ld32 buf nlh) (\<lambda>nlmsg_len.
       if nlmsg_type = RTM_NEWLINK then
         (if nlmsg_len < NLMSG_SPACE sizeof_ifinfomsg then Some (buf, s)
          else let ifi = nlh + NLMSG_HDRLEN;
                   rta_rem = int nlmsg_len - int (NLMSG_SPACE sizeof_ifinfomsg)
               in Option.bind
                    (attr_name_is_vpn IFLA_IFNAME buf (ifi + NLMSG_ALIGN sizeof_ifinfomsg) rta_rem) (\<lambda>vpn.
                  if vpn then
                    Option.bind (ld32 buf (ifi + 4)) (\<lambda>ifi_index.
                    Option.bind (st16 buf (nlh + 4) NLMSG_NOOP) (\<lambda>buf'.
                      Some (buf', mark_vpn_iface_idx (of_nat ifi_index) s)))
                  else Some (buf, s)))
       else if nlmsg_type = RTM_NEWADDR then
         (if nlmsg_len < NLMSG_SPACE sizeof_ifaddrmsg then Some (buf, s)
          else let ifa = nlh + NLMSG_HDRLEN
               in Option.bind (ld32 buf (ifa + 4)) (\<lambda>ifa_index.
                  if is_vpn_iface_idx s (of_nat ifa_index) then
                    Option.bind (st16 buf (nlh + 4) NLMSG_NOOP) (\<lambda>buf'. Some (buf', s))
                  else
                    let rta_rem = int nlmsg_len - int (NLMSG_SPACE sizeof_ifaddrmsg)
                    in Option.bind
                         (attr_name_is_vpn IFA_LABEL buf (ifa + NLMSG_ALIGN sizeof_ifaddrmsg) rta_rem) (\<lambda>vpn.
                       if vpn then
                         Option.bind (st16 buf (nlh + 4) NLMSG_NOOP) (\<lambda>buf'.
                           Some (buf', mark_vpn_iface_idx (of_nat ifa_index) s))
                       else Some (buf, s))))
       else Some (buf, s)))"

text \<open>
  What a message is worth on its own, without the edit: whether it is hidden, and the table
  after it. This is the reference the in-place walk is compared with.
\<close>

definition nl_verdict ::
  "byte list \<Rightarrow> nat \<Rightarrow> 'a tracker_scheme \<Rightarrow> (bool \<times> 'a tracker_scheme) option" where
  "nl_verdict buf nlh s =
     Option.bind (ld16 buf (nlh + 4)) (\<lambda>ty.
     Option.bind (ld32 buf nlh) (\<lambda>len.
       if ty = RTM_NEWLINK \<and> 32 \<le> len then
         Option.bind (attr_name_is_vpn IFLA_IFNAME buf (nlh + 32) (int len - 32)) (\<lambda>vpn.
           if vpn then Option.bind (ld32 buf (nlh + 20)) (\<lambda>i. Some (True, mark_vpn_iface_idx (of_nat i) s))
           else Some (False, s))
       else if ty = RTM_NEWADDR \<and> 24 \<le> len then
         Option.bind (ld32 buf (nlh + 20)) (\<lambda>i.
           if is_vpn_iface_idx s (of_nat i) then Some (True, s)
           else Option.bind (attr_name_is_vpn IFA_LABEL buf (nlh + 24) (int len - 24)) (\<lambda>vpn.
             if vpn then Some (True, mark_vpn_iface_idx (of_nat i) s) else Some (False, s)))
       else Some (False, s)))"

lemma nl_message_verdict:
  "nl_message buf nlh s =
     map_option (\<lambda>(h, s'). (if h then put16 buf (nlh + 4) NLMSG_NOOP else buf, s')) (nl_verdict buf nlh s)"
proof (cases "ld16 buf (nlh + 4)")
  case None
  then show ?thesis by (simp add: nl_message_def nl_verdict_def)
next
  case ty: (Some ty)
  then have st: "st16 buf (nlh + 4) v = Some (put16 buf (nlh + 4) v)" for v
    by (simp add: ld16_def st16_def split: if_splits)
  show ?thesis
  proof (cases "ld32 buf nlh")
    case None
    then show ?thesis by (simp add: nl_message_def nl_verdict_def ty)
  next
    case len: (Some len)
    note d = nl_message_def nl_verdict_def ty len st NLMSG_HDRLEN_def Let_def add.assoc
    show ?thesis
    proof (cases "ty = RTM_NEWLINK")
      case True
      then show ?thesis
        by (cases "attr_name_is_vpn IFLA_IFNAME buf (nlh + 32) (int len - 32)";
            cases "ld32 buf (nlh + 20)") (simp_all add: d)
    next
      case False
      then show ?thesis
        by (cases "attr_name_is_vpn IFA_LABEL buf (nlh + 24) (int len - 24)";
            cases "ld32 buf (nlh + 20)") (simp_all add: d)
    qed
  qed
qed

lemma le32_put16_type: "nlh + 6 \<le> length buf \<Longrightarrow> le32 (put16 buf (nlh + 4) v) nlh = le32 buf nlh"
  by (simp add: le32_def le16_def put16_def)

lemma nl_message_len:
  assumes "nl_message buf nlh s = Some (buf', s')"
  shows "ld32 buf' nlh = ld32 buf nlh" and "length buf' = length buf"
  using assms
  by (auto simp: nl_message_verdict ld32_def nl_verdict_def ld16_def le32_put16_type
      split: if_splits Option.bind_splits)

function nl_loop ::
  "byte list \<Rightarrow> nat \<Rightarrow> int \<Rightarrow> 'a tracker_scheme \<Rightarrow> (byte list \<times> 'a tracker_scheme) option" where
  "nl_loop buf nlh remaining s =
     (if remaining < 16 then Some (buf, s)
      else case ld32 buf nlh of
        None \<Rightarrow> None
      | Some nlmsg_len \<Rightarrow>
          if \<not> (16 \<le> nlmsg_len \<and> int nlmsg_len \<le> remaining) then Some (buf, s)
          else case nl_message buf nlh s of
            None \<Rightarrow> None
          | Some (buf', s') \<Rightarrow>
              (case ld32 buf' nlh of
                 None \<Rightarrow> None
               | Some len' \<Rightarrow>
                   nl_loop buf' (nlh + NLMSG_ALIGN len') (remaining - int (NLMSG_ALIGN len')) s'))"
  by pat_completeness auto
termination
proof (relation "measure (\<lambda>(_, _, r, _). nat r)", goal_cases)
  case 1 show ?case by simp
next
  case (2 buf nlh r s l p b' s' l')
  then have "l' = l" using nl_message_len(1) [of buf nlh s b' s'] by simp
  then show ?case using 2 align_bounds(1) [of l] by auto
qed

declare nl_loop.simps [simp del]

text \<open>\<open>int remaining = (int) len\<close> keeps the low 32 bits.\<close>

definition c_int :: "int \<Rightarrow> int" where
  "c_int n = (n + 2 ^ 31) mod 2 ^ 32 - 2 ^ 31"

lemma c_int_id: "- (2 ^ 31) \<le> n \<Longrightarrow> n < 2 ^ 31 \<Longrightarrow> c_int n = n"
  by (simp add: c_int_def)

definition sanitize_netlink ::
  "byte list option \<Rightarrow> int \<Rightarrow> 'a tracker_scheme \<Rightarrow> (byte list option \<times> 'a tracker_scheme) option" where
  "sanitize_netlink buf len s =
     (case buf of
        None \<Rightarrow> Some (None, s)
      | Some b \<Rightarrow>
          if len \<le> 0 then Some (buf, s)
          else map_option (\<lambda>(b', s'). (Some b', s')) (nl_loop b 0 (c_int len) s))"

end
