(* ===== verification/Netlink_Props.thy ===== *)
theory Netlink_Props
  imports Sanitizer_Netlink
begin

text \<open>
  The netlink walk against its reference: classify every message on the buffer as received,
  then blank the hidden ones. The in-place edits do not disturb the messages still to come,
  the accesses stay inside the memory, and what is hidden is characterised.
\<close>

section \<open>Reads depend on the suffix only\<close>

definition agree_from :: "nat \<Rightarrow> byte list \<Rightarrow> byte list \<Rightarrow> bool" where
  "agree_from p b c = (length b = length c \<and> drop p b = drop p c)"

lemma agree_from_mono: "agree_from p b c \<Longrightarrow> p \<le> q \<Longrightarrow> agree_from q b c"
  unfolding agree_from_def by (metis drop_drop le_add_diff_inverse2)

lemma agree_from_nth: "agree_from p b c \<Longrightarrow> p \<le> i \<Longrightarrow> i < length b \<Longrightarrow> b ! i = c ! i"
proof -
  assume a: "agree_from p b c" "p \<le> i" "i < length b"
  then have "drop p b ! (i - p) = drop p c ! (i - p)" by (simp add: agree_from_def)
  then show ?thesis using a by (simp add: agree_from_def)
qed

lemma ld_agree:
  assumes "agree_from p b c" and "p \<le> i"
  shows "ld16 b i = ld16 c i" and "ld32 b i = ld32 c i" and "drop i b = drop i c"
  using assms agree_from_nth [OF assms(1)] agree_from_mono [OF assms]
  by (auto simp: ld16_def ld32_def le32_def le16_def agree_from_def)

lemma attr_agree:
  assumes "agree_from p b c" and "p \<le> rta"
  shows "attr_name_is_vpn want b rta r = attr_name_is_vpn want c rta r"
  using assms
proof (induction want b rta r rule: attr_name_is_vpn.induct)
  case (1 want b rta r)
  note eqs = ld_agree [OF "1.prems"(1)] and le = "1.prems"(2)
  have reads: "ld16 b rta = ld16 c rta" "ld16 b (rta + 2) = ld16 c (rta + 2)"
    "drop (rta + 4) b = drop (rta + 4) c"
    using le by (auto intro!: eqs)
  have IH: "attr_name_is_vpn want b (rta + RTA_ALIGN l) (r - int (RTA_ALIGN l))
      = attr_name_is_vpn want c (rta + RTA_ALIGN l) (r - int (RTA_ALIGN l))"
    if "\<not> r < 4" "ld16 c rta = Some l" "4 \<le> l \<and> int l \<le> r" "ld16 c (rta + 2) = Some t" "t \<noteq> want" for l t
    using "1.IH" [of l t] that reads le "1.prems"(1) by auto
  show ?case
    by (subst (1 2) attr_name_is_vpn.simps) (auto simp: reads IH simp del: add_2_eq_Suc' split: option.split)
qed

lemma verdict_agree:
  assumes "agree_from p b c" and "p \<le> nlh"
  shows "nl_verdict b nlh s = nl_verdict c nlh s"
proof -
  have reads: "ld16 b (nlh + 4) = ld16 c (nlh + 4)" "ld32 b nlh = ld32 c nlh" "ld32 b (nlh + 20) = ld32 c (nlh + 20)"
    using ld_agree [OF assms(1)] assms(2) by auto
  have attrs: "attr_name_is_vpn w b (nlh + k) r = attr_name_is_vpn w c (nlh + k) r" for w k r
    using attr_agree [OF assms(1)] assms(2) by simp
  show ?thesis unfolding nl_verdict_def reads attrs ..
qed

lemma put16_agree: "nlh + 6 \<le> p \<Longrightarrow> agree_from p (put16 b (nlh + 4) v) b"
  by (simp add: agree_from_def put16_def)

section \<open>The reference: classify, then blank\<close>

function nl_classify ::
  "byte list \<Rightarrow> nat \<Rightarrow> int \<Rightarrow> 'a tracker_scheme \<Rightarrow> (nat list \<times> 'a tracker_scheme) option" where
  "nl_classify buf nlh remaining s =
     (if remaining < 16 then Some ([], s)
      else case ld32 buf nlh of
        None \<Rightarrow> None
      | Some len \<Rightarrow>
          if \<not> (16 \<le> len \<and> int len \<le> remaining) then Some ([], s)
          else case nl_verdict buf nlh s of
            None \<Rightarrow> None
          | Some (h, s') \<Rightarrow>
              map_option (\<lambda>(hid, s''). (if h then nlh # hid else hid, s''))
                (nl_classify buf (nlh + NLMSG_ALIGN len) (remaining - int (NLMSG_ALIGN len)) s'))"
  by pat_completeness auto
termination
proof (relation "measure (\<lambda>(_, _, r, _). nat r)", goal_cases)
  case 1 show ?case by simp
next
  case (2 buf nlh r s l p h s') then show ?case using align_bounds(1) [of l] by auto
qed

declare nl_classify.simps [simp del]

definition nl_blank :: "nat list \<Rightarrow> byte list \<Rightarrow> byte list" where
  "nl_blank hid buf = fold (\<lambda>p b. put16 b (p + 4) NLMSG_NOOP) hid buf"

lemma classify_agree:
  assumes "agree_from p b c" and "p \<le> nlh"
  shows "nl_classify b nlh r s = nl_classify c nlh r s"
  using assms
proof (induction b nlh r s rule: nl_classify.induct)
  case (1 b nlh r s)
  have reads: "ld32 b nlh = ld32 c nlh" "nl_verdict b nlh s = nl_verdict c nlh s"
    using ld_agree [OF "1.prems"] verdict_agree [OF "1.prems"] by auto
  have IH: "nl_classify b (nlh + NLMSG_ALIGN l) (r - int (NLMSG_ALIGN l)) s'
      = nl_classify c (nlh + NLMSG_ALIGN l) (r - int (NLMSG_ALIGN l)) s'"
    if "\<not> r < 16" "ld32 c nlh = Some l" "16 \<le> l \<and> int l \<le> r" "nl_verdict c nlh s = Some (h, s')" for l h s'
    using "1.IH" [of l "(h, s')" h s'] that reads "1.prems" by auto
  show ?case
    by (subst (1 2) nl_classify.simps) (auto simp: reads IH split: option.split)
qed

lemma nl_loop_classify:
  "nl_loop buf nlh r s = map_option (\<lambda>(hid, s'). (nl_blank hid buf, s')) (nl_classify buf nlh r s)"
proof (induction buf nlh r s rule: nl_loop.induct)
  case (1 buf nlh r s)
  show ?case
  proof (cases "r < 16 \<or> ld32 buf nlh = None")
    case True
    then show ?thesis
      by (subst nl_loop.simps, subst nl_classify.simps) (auto simp: nl_blank_def)
  next
    case False
    then obtain l where r: "\<not> r < 16" and l: "ld32 buf nlh = Some l" by auto
    show ?thesis
    proof (cases "16 \<le> l \<and> int l \<le> r")
      case False
      then show ?thesis
        by (subst nl_loop.simps, subst nl_classify.simps) (auto simp: r l nl_blank_def)
    next
      case ok: True
      show ?thesis
      proof (cases "nl_verdict buf nlh s")
        case None
        then show ?thesis
          by (subst nl_loop.simps, subst nl_classify.simps) (simp add: r l ok nl_message_verdict)
      next
        case (Some v)
        obtain h s' where v: "v = (h, s')" by force
        define b where "b = (if h then put16 buf (nlh + 4) NLMSG_NOOP else buf)"
        have m: "nl_message buf nlh s = Some (b, s')"
          by (simp add: nl_message_verdict Some v b_def)
        have lb: "ld32 b nlh = Some l" using nl_message_len(1) [OF m] l by simp
        let ?n = "nlh + NLMSG_ALIGN l" and ?r = "r - int (NLMSG_ALIGN l)"
        have IH: "nl_loop b ?n ?r s' = map_option (\<lambda>(hid, s'). (nl_blank hid b, s')) (nl_classify b ?n ?r s')"
          using "1" [OF r l] ok m lb by auto
        have "agree_from ?n b buf"
          using ok align_bounds(1) [of l] put16_agree [of nlh ?n buf]
          by (auto simp: b_def agree_from_def put16_def)
        then have c: "nl_classify b ?n ?r s' = nl_classify buf ?n ?r s'"
          by (rule classify_agree) simp
        have "nl_loop buf nlh r s = nl_loop b ?n ?r s'"
          by (subst nl_loop.simps) (simp add: r l ok m lb)
        then have "nl_loop buf nlh r s
            = map_option (\<lambda>(hid, s'). (nl_blank hid b, s')) (nl_classify buf ?n ?r s')"
          unfolding IH c .
        moreover have "nl_classify buf nlh r s =
            map_option (\<lambda>(hid, s''). (if h then nlh # hid else hid, s'')) (nl_classify buf ?n ?r s')"
          by (subst nl_classify.simps) (simp add: r l ok Some v)
        ultimately show ?thesis
          by (cases "nl_classify buf ?n ?r s'") (auto simp: b_def nl_blank_def)
      qed
    qed
  qed
qed

section \<open>Memory safety\<close>

text \<open>
  The filter reads at most five bytes of a name without looking for the end of the message,
  so five readable bytes after the last message are enough.
\<close>

lemma attr_safe:
  assumes "r < 4 \<or> rta + nat r + 5 \<le> length buf"
  shows "attr_name_is_vpn want buf rta r \<noteq> None"
  using assms
proof (induction want buf rta r rule: attr_name_is_vpn.induct)
  case (1 want buf rta r)
  show ?case
  proof (cases "r < 4")
    case True
    then show ?thesis by (subst attr_name_is_vpn.simps) simp
  next
    case False
    with "1.prems" have room: "rta + nat r + 5 \<le> length buf" and r: "4 \<le> nat r" by auto
    then have ld: "ld16 buf rta = Some (le16 buf rta)" "ld16 buf (rta + 2) = Some (le16 buf (rta + 2))"
      by (simp_all add: ld16_def)
    have name: "is_vpn_interface (Some (drop (rta + 4) buf)) \<noteq> None"
      using room r by (intro is_vpn_interface_safe) simp
    let ?l = "le16 buf rta"
    have IH: "attr_name_is_vpn want buf (rta + RTA_ALIGN ?l) (r - int (RTA_ALIGN ?l)) \<noteq> None"
      if "4 \<le> ?l \<and> int ?l \<le> r" "le16 buf (rta + 2) \<noteq> want"
    proof -
      have "r - int (RTA_ALIGN ?l) < 4 \<or>
          rta + RTA_ALIGN ?l + nat (r - int (RTA_ALIGN ?l)) + 5 \<le> length buf"
        using room by arith
      with False ld that show ?thesis by (intro "1.IH") auto
    qed
    show ?thesis
      using name IH False by (subst attr_name_is_vpn.simps) (auto simp: ld simp del: add_2_eq_Suc')
  qed
qed

lemma verdict_safe:
  assumes "ld32 buf nlh = Some l" and "ld16 buf (nlh + 4) \<noteq> None"
    and "24 \<le> l \<Longrightarrow> ld32 buf (nlh + 20) \<noteq> None"
    and "\<And>w k. k \<le> l \<Longrightarrow> attr_name_is_vpn w buf (nlh + k) (int l - int k) \<noteq> None"
  shows "nl_verdict buf nlh s \<noteq> None"
proof -
  obtain ty where ty: "ld16 buf (nlh + 4) = Some ty" using assms(2) by auto
  show ?thesis
  proof (cases "24 \<le> l")
    case True
    obtain i where i: "ld32 buf (nlh + 20) = Some i" using assms(3) True by auto
    obtain v where v: "attr_name_is_vpn IFA_LABEL buf (nlh + 24) (int l - 24) = Some v"
      using assms(4) [of 24 IFA_LABEL] True by auto
    have w: "\<exists>w. attr_name_is_vpn IFLA_IFNAME buf (nlh + 32) (int l - 32) = Some w" if "32 \<le> l"
      using assms(4) [of 32 IFLA_IFNAME] that by auto
    show ?thesis
      using w by (cases "32 \<le> l") (auto simp: nl_verdict_def ty assms(1) i v)
  next
    case False
    then show ?thesis by (auto simp: nl_verdict_def ty assms(1))
  qed
qed

lemma classify_safe:
  assumes "r < 16 \<or> nlh + nat r + 5 \<le> length buf"
  shows "nl_classify buf nlh r s \<noteq> None"
  using assms
proof (induction buf nlh r s rule: nl_classify.induct)
  case (1 buf nlh r s)
  show ?case
  proof (cases "r < 16")
    case True
    then show ?thesis by (subst nl_classify.simps) simp
  next
    case False
    with "1.prems" have room: "nlh + nat r + 5 \<le> length buf" and r: "16 \<le> nat r" by auto
    let ?l = "le32 buf nlh"
    have ld: "ld32 buf nlh = Some ?l" "ld16 buf (nlh + 4) = Some (le16 buf (nlh + 4))"
      using room r by (simp_all add: ld32_def ld16_def)
    show ?thesis
    proof (cases "16 \<le> ?l \<and> int ?l \<le> r")
      case False
      then show ?thesis by (subst nl_classify.simps) (simp add: ld)
    next
      case ok: True
      then have len: "nlh + ?l + 5 \<le> length buf" using room by linarith
      have i: "ld32 buf (nlh + 20) \<noteq> None" if "24 \<le> ?l" using that len by (simp add: ld32_def)
      have a: "attr_name_is_vpn w buf (nlh + k) (int ?l - int k) \<noteq> None" if "k \<le> ?l" for w k
        by (rule attr_safe) (use that len in auto)
      have "nl_verdict buf nlh s \<noteq> None"
        by (rule verdict_safe) (use ld i a in auto)
      then obtain h s' where v: "nl_verdict buf nlh s = Some (h, s')" by auto
      have "nl_classify buf (nlh + NLMSG_ALIGN ?l) (r - int (NLMSG_ALIGN ?l)) s' \<noteq> None"
      proof -
        have "r - int (NLMSG_ALIGN ?l) < 16 \<or>
            nlh + NLMSG_ALIGN ?l + nat (r - int (NLMSG_ALIGN ?l)) + 5 \<le> length buf"
          using room by arith
        with False ld ok v show ?thesis by (intro "1.IH") auto
      qed
      then show ?thesis
        using False ok by (subst nl_classify.simps) (auto simp: ld v)
    qed
  qed
qed

section \<open>What is hidden\<close>

text \<open>The offsets of the messages the walk visits, on the buffer as received.\<close>

function nl_offsets :: "byte list \<Rightarrow> nat \<Rightarrow> int \<Rightarrow> nat list" where
  "nl_offsets buf nlh r =
     (if r < 16 then []
      else case ld32 buf nlh of
        None \<Rightarrow> []
      | Some l \<Rightarrow>
          if \<not> (16 \<le> l \<and> int l \<le> r) then []
          else nlh # nl_offsets buf (nlh + NLMSG_ALIGN l) (r - int (NLMSG_ALIGN l)))"
  by pat_completeness auto
termination
proof (relation "measure (\<lambda>(_, _, r). nat r)", goal_cases)
  case 1 show ?case by simp
next
  case (2 buf nlh r l) then show ?case using align_bounds(1) [of l] by auto
qed

declare nl_offsets.simps [simp del]

text \<open>One step of the reference walk, in the form the inductions use.\<close>

lemma nl_classify_cases:
  assumes "nl_classify buf nlh r s = Some (hid, s'')"
  obtains (stop) "hid = []" "s'' = s" "nl_offsets buf nlh r = []"
  | (message) l h s' hid' where
      "\<not> r < 16" "ld32 buf nlh = Some l" "16 \<le> l \<and> int l \<le> r" "nl_verdict buf nlh s = Some (h, s')"
      "nl_classify buf (nlh + NLMSG_ALIGN l) (r - int (NLMSG_ALIGN l)) s' = Some (hid', s'')"
      "hid = (if h then nlh # hid' else hid')"
      "nl_offsets buf nlh r = nlh # nl_offsets buf (nlh + NLMSG_ALIGN l) (r - int (NLMSG_ALIGN l))"
proof -
  note eq = assms [unfolded nl_classify.simps [of buf nlh r s]]
  note off = nl_offsets.simps [of buf nlh r]
  show thesis
  proof (cases "r < 16 \<or> (\<exists>l. ld32 buf nlh = Some l \<and> \<not> (16 \<le> l \<and> int l \<le> r))")
    case True
    then show thesis using eq off by (intro stop) (auto split: if_splits)
  next
    case False
    with eq obtain l where l: "ld32 buf nlh = Some l" "16 \<le> l \<and> int l \<le> r" "\<not> r < 16"
      by (auto split: option.splits)
    with eq obtain h s' where v: "nl_verdict buf nlh s = Some (h, s')"
      by (auto split: option.splits)
    with eq l obtain hid' where
      "nl_classify buf (nlh + NLMSG_ALIGN l) (r - int (NLMSG_ALIGN l)) s' = Some (hid', s'')"
      "hid = (if h then nlh # hid' else hid')"
      by auto
    then show thesis using l v off by (intro message) auto
  qed
qed

lemma verdict_hides:
  assumes "nl_verdict buf nlh s = Some (True, s')"
  shows "ld16 buf (nlh + 4) = Some RTM_NEWLINK \<or> ld16 buf (nlh + 4) = Some RTM_NEWADDR"
  using assms by (auto simp: nl_verdict_def split: if_splits Option.bind_splits)

lemma verdict_table:
  assumes "nl_verdict buf nlh s = Some (h, s')"
  shows "s' = s \<or> (\<exists>i. s' = mark_vpn_iface_idx i s)"
  using assms by (auto simp: nl_verdict_def split: if_splits Option.bind_splits)

lemma verdict_keeps_marks:
  "nl_verdict buf nlh s = Some (h, s') \<Longrightarrow> is_vpn_iface_idx s i \<Longrightarrow> is_vpn_iface_idx s' i"
  by (drule verdict_table) (auto simp: is_vpn_iface_idx_mark)

lemma classify_keeps_marks:
  "nl_classify buf nlh r s = Some (hid, s') \<Longrightarrow> is_vpn_iface_idx s i \<Longrightarrow> is_vpn_iface_idx s' i"
proof (induction buf nlh r s arbitrary: hid rule: nl_classify.induct)
  case (1 buf nlh r s)
  from "1.prems"(1) show ?case
  proof (cases rule: nl_classify_cases)
    case stop
    then show ?thesis using "1.prems" by simp
  next
    case (message l h t hid')
    then show ?thesis
      using "1.IH" [of l "(h, t)" h t hid'] verdict_keeps_marks "1.prems"(2) by blast
  qed
qed

lemma classify_hidden:
  assumes "nl_classify buf nlh r s = Some (hid, s')"
  shows "set hid \<subseteq> set (nl_offsets buf nlh r)"
    and "\<forall>p \<in> set hid. ld16 buf (p + 4) = Some RTM_NEWLINK \<or> ld16 buf (p + 4) = Some RTM_NEWADDR"
    and "\<forall>p \<in> set hid. nlh \<le> p \<and> int (p + 16) \<le> int nlh + r"
    and "sorted_wrt (\<lambda>p q. p + 16 \<le> q) hid"
  using assms
proof (induction buf nlh r s arbitrary: hid rule: nl_classify.induct)
  case (1 buf nlh r s)
  {
    case 1
    from this show ?case
    proof (cases rule: nl_classify_cases)
      case (message l h t hid')
      then show ?thesis using "1.IH"(1) [of l "(h, t)" h t hid'] by auto
    qed simp
  next
    case 2
    from this show ?case
    proof (cases rule: nl_classify_cases)
      case (message l h t hid')
      then show ?thesis using "1.IH"(2) [of l "(h, t)" h t hid'] verdict_hides [of buf nlh s t]
        by (cases h) auto
    qed simp
  next
    case 3
    from this show ?case
    proof (cases rule: nl_classify_cases)
      case (message l h t hid')
      then show ?thesis
        using "1.IH"(3) [of l "(h, t)" h t hid'] align_bounds(1) [of l] by (fastforce split: if_splits)
    qed simp
  next
    case 4
    from this show ?case
    proof (cases rule: nl_classify_cases)
      case (message l h t hid')
      then show ?thesis
        using "1.IH"(3,4) [of l "(h, t)" h t hid'] align_bounds(1) [of l] by (fastforce split: if_splits)
    qed simp
  }
qed

text \<open>
  Every visited link announcement that names a VPN interface is hidden, and its index, when
  the table can hold it, is in the table afterwards.
\<close>

definition announces_vpn_link :: "byte list \<Rightarrow> nat \<Rightarrow> bool" where
  "announces_vpn_link buf p =
     (ld16 buf (p + 4) = Some RTM_NEWLINK
      \<and> (\<exists>l. ld32 buf p = Some l \<and> 32 \<le> l
          \<and> attr_name_is_vpn IFLA_IFNAME buf (p + 32) (int l - 32) = Some True))"

lemma verdict_link:
  assumes "nl_verdict buf p s = Some (h, s')" and "announces_vpn_link buf p"
  shows "h \<and> s' = mark_vpn_iface_idx (of_nat (le32 buf (p + 20))) s"
  using assms by (auto simp: nl_verdict_def announces_vpn_link_def ld32_def split: if_splits Option.bind_splits)

text \<open>Address announcements: hidden by the index already marked, or by their own label.\<close>

definition announces_addr_of :: "byte list \<Rightarrow> nat \<Rightarrow> u32 \<Rightarrow> bool" where
  "announces_addr_of buf p i =
     (ld16 buf (p + 4) = Some RTM_NEWADDR \<and> (\<exists>l. ld32 buf p = Some l \<and> 24 \<le> l)
      \<and> ld32 buf (p + 20) = Some (unat i))"

lemma verdict_addr:
  assumes "nl_verdict buf p s = Some (h, s')" and "announces_addr_of buf p i" and "is_vpn_iface_idx s i"
  shows h
  using assms by (auto simp: nl_verdict_def announces_addr_of_def split: if_splits Option.bind_splits)

lemma classify_links_hidden:
  assumes "nl_classify buf nlh r s = Some (hid, s')"
    and "p \<in> set (nl_offsets buf nlh r)" and "announces_vpn_link buf p"
  shows "p \<in> set hid \<and>
    (0 < le32 buf (p + 20) \<and> le32 buf (p + 20) < 512 \<longrightarrow> is_vpn_iface_idx s' (of_nat (le32 buf (p + 20))))"
  using assms
proof (induction buf nlh r s arbitrary: hid rule: nl_classify.induct)
  case (1 buf nlh r s)
  from "1.prems"(1) show ?case
  proof (cases rule: nl_classify_cases)
    case stop
    then show ?thesis using "1.prems" by simp
  next
    case (message l h t hid')
    show ?thesis
    proof (cases "p = nlh")
      case True
      let ?i = "le32 buf (nlh + 20)"
      have v: "h" "t = mark_vpn_iface_idx (of_nat ?i) s"
        using verdict_link [OF message(4)] "1.prems"(3) True by auto
      have "is_vpn_iface_idx t (of_nat ?i)" if "0 < ?i" "?i < 512"
        using that by (simp add: v is_vpn_iface_idx_mark word_less_nat_alt unat_of_nat)
      then show ?thesis
        using classify_keeps_marks [OF message(5)] v(1) message(6) True by simp
    next
      case False
      then show ?thesis
        using "1.IH" [of l "(h, t)" h t hid'] message "1.prems" by auto
    qed
  qed
qed

lemma classify_addrs_hidden:
  assumes "nl_classify buf nlh r s = Some (hid, s')"
    and "p \<in> set (nl_offsets buf nlh r)" and "announces_addr_of buf p i" and "is_vpn_iface_idx s i"
  shows "p \<in> set hid"
  using assms
proof (induction buf nlh r s arbitrary: hid rule: nl_classify.induct)
  case (1 buf nlh r s)
  from "1.prems"(1) show ?case
  proof (cases rule: nl_classify_cases)
    case stop
    then show ?thesis using "1.prems" by simp
  next
    case (message l h t hid')
    have "is_vpn_iface_idx t i" using verdict_keeps_marks [OF message(4)] "1.prems"(4) .
    then show ?thesis
      using "1.IH" [of l "(h, t)" h t hid'] message "1.prems" verdict_addr [OF message(4)]
      by (cases "p = nlh") auto
  qed
qed

section \<open>What is written\<close>

lemma nl_blank_Cons [simp]: "nl_blank (p # hid) buf = nl_blank hid (put16 buf (p + 4) NLMSG_NOOP)"
  and nl_blank_Nil [simp]: "nl_blank [] buf = buf"
  by (simp_all add: nl_blank_def)

lemma length_nl_blank [simp]: "length (nl_blank hid buf) = length buf"
  by (induction hid arbitrary: buf) simp_all

lemma nl_blank_frame:
  "\<forall>p \<in> set hid. i \<noteq> p + 4 \<and> i \<noteq> p + 5 \<Longrightarrow> nl_blank hid buf ! i = buf ! i"
  by (induction hid arbitrary: buf) (simp_all add: put16_def)

lemma nl_blank_type:
  assumes "sorted_wrt (\<lambda>p q. p + 16 \<le> q) hid" and "\<forall>p \<in> set hid. p + 6 \<le> length buf" and "p \<in> set hid"
  shows "le16 (nl_blank hid buf) (p + 4) = NLMSG_NOOP"
  using assms
proof (induction hid arbitrary: buf)
  case (Cons q hid)
  show ?case
  proof (cases "p \<in> set hid")
    case True
    then show ?thesis using Cons by simp
  next
    case False
    with Cons.prems have p: "p = q" by simp
    have "nl_blank hid (put16 buf (q + 4) NLMSG_NOOP) ! i = put16 buf (q + 4) NLMSG_NOOP ! i" if "i < q + 16" for i
      by (rule nl_blank_frame) (use that Cons.prems(1) in force)
    then show ?thesis using Cons.prems(2) by (simp add: p le16_def put16_def)
  qed
qed simp

section \<open>Properties of the sanitizer\<close>

lemma sanitize_netlink_cases:
  assumes "sanitize_netlink (Some b) len s = Some (Some b', s')" and "0 < len" and "len < 2 ^ 31"
  obtains hid where "nl_classify b 0 len s = Some (hid, s')" and "b' = nl_blank hid b"
  using assms by (auto simp: sanitize_netlink_def nl_loop_classify c_int_id)

lemma nl_walk_refines:
  "sanitize_netlink (Some b) len s =
     (if len \<le> 0 then Some (Some b, s)
      else map_option (\<lambda>(hid, s'). (Some (nl_blank hid b), s')) (nl_classify b 0 (c_int len) s))"
  by (cases "nl_classify b 0 (c_int len) s") (auto simp: sanitize_netlink_def nl_loop_classify)

lemma nl_walk_safe:
  assumes "len < 2 ^ 31" and "nat len + 5 \<le> length b"
  shows "\<exists>b' s'. sanitize_netlink (Some b) len s = Some (Some b', s') \<and> length b' = length b"
proof (cases "len \<le> 0")
  case True
  then show ?thesis by (simp add: sanitize_netlink_def)
next
  case False
  then have "nl_classify b 0 len s \<noteq> None" using assms by (intro classify_safe) simp
  then show ?thesis using False assms(1) by (auto simp: nl_walk_refines c_int_id)
qed

lemma nl_walk_links:
  assumes "sanitize_netlink (Some b) len s = Some (Some b', s')" and "0 < len" and "len < 2 ^ 31"
    and "nat len \<le> length b" and "p \<in> set (nl_offsets b 0 len)" and "announces_vpn_link b p"
  shows "le16 b' (p + 4) = NLMSG_NOOP \<and>
    (0 < le32 b (p + 20) \<and> le32 b (p + 20) < 512 \<longrightarrow> is_vpn_iface_idx s' (of_nat (le32 b (p + 20))))"
proof -
  obtain hid where hid: "nl_classify b 0 len s = Some (hid, s')" "b' = nl_blank hid b"
    using sanitize_netlink_cases [OF assms(1-3)] .
  note h = classify_links_hidden [OF hid(1) assms(5,6)]
  have "\<forall>q \<in> set hid. q + 6 \<le> length b" using classify_hidden(3) [OF hid(1)] assms(2,4) by force
  then show ?thesis
    using h nl_blank_type [OF classify_hidden(4) [OF hid(1)]] hid(2) by blast
qed

text \<open>C7: the in-place walk of \<open>sanitize_netlink\<close> computes the reference: classify every message
  on the buffer as received, threading only the interface table, then blank the hidden ones.\<close>

theorem netlink_refines:
  "sanitize_netlink (Some b) len s =
     (if len \<le> 0 then Some (Some b, s)
      else map_option (\<lambda>(hid, s'). (Some (nl_blank hid b), s')) (nl_classify b 0 (c_int len) s))"
  by (rule nl_walk_refines)

text \<open>C13: with five readable bytes after the data \<open>sanitize_netlink\<close> never leaves the buffer,
  whatever lengths the messages and attributes claim.\<close>

theorem netlink_safe:
  assumes "len < 2 ^ 31" and "nat len + 5 \<le> length b"
  shows "\<exists>b' s'. sanitize_netlink (Some b) len s = Some (Some b', s') \<and> length b' = length b"
  using nl_walk_safe [OF assms] .

text \<open>C14: every visited RTM_NEWLINK message whose name attribute is a VPN interface name leaves
  \<open>sanitize_netlink\<close> as NLMSG_NOOP, and its index is in the table afterwards when it is above 0 and below 512,
  the length of the table; larger indices are not recorded (\<open>netlink_large_index_leaks\<close>).\<close>

theorem netlink_links_hidden:
  assumes "sanitize_netlink (Some b) len s = Some (Some b', s')" and "0 < len" and "len < 2 ^ 31"
    and "nat len \<le> length b" and "p \<in> set (nl_offsets b 0 len)" and "announces_vpn_link b p"
  shows "le16 b' (p + 4) = NLMSG_NOOP \<and>
    (0 < le32 b (p + 20) \<and> le32 b (p + 20) < 512 \<longrightarrow> is_vpn_iface_idx s' (of_nat (le32 b (p + 20))))"
  using nl_walk_links [OF assms] .

text \<open>C15: an RTM_NEWADDR message for an interface already in the table is hidden too.\<close>

theorem netlink_addrs_hidden:
  assumes "sanitize_netlink (Some b) len s = Some (Some b', s')" and "0 < len" and "len < 2 ^ 31"
    and "nat len \<le> length b" and "p \<in> set (nl_offsets b 0 len)"
    and "announces_addr_of b p i" and "is_vpn_iface_idx s i"
  shows "le16 b' (p + 4) = NLMSG_NOOP"
proof -
  obtain hid where hid: "nl_classify b 0 len s = Some (hid, s')" "b' = nl_blank hid b"
    using sanitize_netlink_cases [OF assms(1-3)] .
  have "p \<in> set hid" by (rule classify_addrs_hidden [OF hid(1) assms(5-7)])
  moreover have "\<forall>q \<in> set hid. q + 6 \<le> length b" using classify_hidden(3) [OF hid(1)] assms(2,4) by force
  ultimately show ?thesis
    using nl_blank_type [OF classify_hidden(4) [OF hid(1)]] hid(2) by blast
qed

text \<open>C16: \<open>sanitize_netlink\<close> changes nothing but type fields of visited RTM_NEWLINK and RTM_NEWADDR
  messages: every other byte, and with it every length field and payload, is as received.\<close>

theorem netlink_frame:
  assumes "sanitize_netlink (Some b) len s = Some (Some b', s')" and "0 < len" and "len < 2 ^ 31"
    and "b' ! i \<noteq> b ! i"
  shows "\<exists>p \<in> set (nl_offsets b 0 len). (i = p + 4 \<or> i = p + 5)
           \<and> (ld16 b (p + 4) = Some RTM_NEWLINK \<or> ld16 b (p + 4) = Some RTM_NEWADDR)"
proof -
  obtain hid where hid: "nl_classify b 0 len s = Some (hid, s')" "b' = nl_blank hid b"
    using sanitize_netlink_cases [OF assms(1-3)] .
  obtain p where "p \<in> set hid" "i = p + 4 \<or> i = p + 5"
    using nl_blank_frame [of hid i b] assms(4) hid(2) by auto
  then show ?thesis using classify_hidden(1,2) [OF hid(1)] by blast
qed

text \<open>A link announcement of interface 7, named ''tun0'', with one name attribute.\<close>

definition link_msg :: "byte list" where
  "link_msg = [40,0,0,0, 16,0, 0,0, 1,0,0,0, 0,0,0,0,
               0,0,0,0, 7,0,0,0, 0,0,0,0, 0,0,0,0,
               8,0, 3,0, 116,117,110,48, 0,0,0,0,0]"

definition addr_msg :: "byte list" where
  "addr_msg = [24,0,0,0, 20,0, 0,0, 1,0,0,0, 0,0,0,0, 2,24,0,0, 7,0,0,0, 0,0,0,0,0]"

lemma link_msg_run:
  "map_option fst (sanitize_netlink (Some link_msg) 40 init_tracker) = Some (Some (link_msg[4 := 1, 5 := 0]))"
  by code_simp

lemma addr_msg_run:
  "map_option fst (sanitize_netlink (Some addr_msg) 24 (mark_vpn_iface_idx 7 init_tracker))
     = Some (Some (addr_msg[4 := 1, 5 := 0]))"
  by code_simp

lemma msgs_facts:
  "length link_msg = 45" "length addr_msg = 29" "nl_offsets link_msg 0 40 = [0]" "nl_offsets addr_msg 0 24 = [0]"
  "ld16 link_msg 4 = Some 16" "ld32 link_msg 0 = Some 40" "le32 link_msg 20 = 7"
  "attr_name_is_vpn 3 link_msg 32 8 = Some True"
  "ld16 addr_msg 4 = Some 20" "ld32 addr_msg 0 = Some 24" "ld32 addr_msg 20 = Some 7"
  by code_simp+

lemma netlink_safe_witness:
  "\<exists>b' s'. sanitize_netlink (Some link_msg) 40 init_tracker = Some (Some b', s') \<and> length b' = length link_msg"
  by (rule netlink_safe) (simp_all add: msgs_facts)

lemma netlink_links_hidden_witness:
  "\<exists>b' s'. sanitize_netlink (Some link_msg) 40 init_tracker = Some (Some b', s')
     \<and> le16 b' 4 = NLMSG_NOOP \<and> is_vpn_iface_idx s' 7"
proof -
  obtain s' where r: "sanitize_netlink (Some link_msg) 40 init_tracker = Some (Some (link_msg[4 := 1, 5 := 0]), s')"
    using link_msg_run by auto
  have "announces_vpn_link link_msg 0" by (simp add: announces_vpn_link_def msgs_facts)
  with netlink_links_hidden [OF r, of 0] show ?thesis by (auto simp: r msgs_facts)
qed

lemma netlink_addrs_hidden_witness:
  "\<exists>b' s'. sanitize_netlink (Some addr_msg) 24 (mark_vpn_iface_idx 7 init_tracker) = Some (Some b', s')
     \<and> le16 b' 4 = NLMSG_NOOP"
proof -
  let ?s = "mark_vpn_iface_idx 7 init_tracker"
  obtain s' where r: "sanitize_netlink (Some addr_msg) 24 ?s = Some (Some (addr_msg[4 := 1, 5 := 0]), s')"
    using addr_msg_run by auto
  have "announces_addr_of addr_msg 0 7" by (simp add: announces_addr_of_def msgs_facts)
  moreover have "is_vpn_iface_idx ?s 7" by (simp add: is_vpn_iface_idx_mark)
  ultimately show ?thesis using netlink_addrs_hidden [OF r, of 0 7] by (auto simp: r msgs_facts)
qed

lemma netlink_frame_witness:
  "\<exists>p \<in> set (nl_offsets link_msg 0 40). (4 = p + 4 \<or> 4 = p + 5)
     \<and> (ld16 link_msg (p + 4) = Some RTM_NEWLINK \<or> ld16 link_msg (p + 4) = Some RTM_NEWADDR)"
proof -
  obtain s' where r: "sanitize_netlink (Some link_msg) 40 init_tracker = Some (Some (link_msg[4 := 1, 5 := 0]), s')"
    using link_msg_run by auto
  have "link_msg[4 := 1, 5 := 0] ! 4 \<noteq> link_msg ! 4" by (simp add: link_msg_def)
  with netlink_frame [OF r, of 4] show ?thesis by simp
qed

section \<open>The limits of the protection\<close>

text \<open>
  An empty name attribute at the end of the memory: the filter reads past it. The source
  passes the attribute's payload as a C string without looking at its length.
\<close>

lemma netlink_name_overread:
  "sanitize_netlink (Some [36,0,0,0, 16,0, 0,0, 1,0,0,0, 0,0,0,0,
      0,0,0,0, 7,0,0,0, 0,0,0,0, 0,0,0,0, 4,0, 3,0]) 36 init_tracker = None"
  by (simp add: sanitize_netlink_def, code_simp)

text \<open>An interface index the table cannot hold: its address announcement is delivered.\<close>

lemma netlink_large_index_leaks: "512 \<le> i \<Longrightarrow> \<not> is_vpn_iface_idx s i"
  by (simp add: is_vpn_iface_idx_def not_less [symmetric])

end
