(* ===== verification/Native_Hooks.thy ===== *)
theory Native_Hooks
  imports Sanitizer_Text Sanitizer_Net Sanitizer_Status Netlink_Props
begin

text \<open>
  The descriptor, read, socket and receive hooks of \<open>homvpn_native.cpp\<close>. The functions the
  hooks forward to (\<open>orig_open\<close> and the others: the trampolines into libc) are the fields of a
  record \<open>libc\<close>, functions over a state \<open>'w\<close> of the kernel and the C library that the model
  does not look into. A hook maps the native state and the world to its result and both
  states; \<open>None\<close> is an access outside a buffer by one of the sanitizers.
\<close>

section \<open>State and environment\<close>

record native = tracker +
  g_self_path :: "byte list"

definition init_native :: native where
  "init_native = tracker.extend init_tracker \<lparr>g_self_path = replicate 512 0\<rparr>"

record iovec =
  iov_base :: "byte list option"

record msghdr =
  msg_iov :: "iovec list option"
  msg_iovlen :: nat

record 'w libc =
  orig_open :: "byte list option \<Rightarrow> u32 \<Rightarrow> u32 \<Rightarrow> 'w \<Rightarrow> int \<times> 'w"
  orig_openat :: "int \<Rightarrow> byte list option \<Rightarrow> u32 \<Rightarrow> u32 \<Rightarrow> 'w \<Rightarrow> int \<times> 'w"
  orig_fopen :: "byte list option \<Rightarrow> byte list option \<Rightarrow> 'w \<Rightarrow> nat option \<times> 'w"
  fileno :: "nat \<Rightarrow> 'w \<Rightarrow> int"
  orig_read :: "int \<Rightarrow> byte list option \<Rightarrow> nat \<Rightarrow> 'w \<Rightarrow> int \<times> byte list option \<times> 'w"
  orig_pread64 :: "int \<Rightarrow> byte list option \<Rightarrow> nat \<Rightarrow> int \<Rightarrow> 'w \<Rightarrow> int \<times> byte list option \<times> 'w"
  orig_close :: "int \<Rightarrow> 'w \<Rightarrow> int \<times> 'w"
  orig_socket :: "int \<Rightarrow> int \<Rightarrow> int \<Rightarrow> 'w \<Rightarrow> int \<times> 'w"
  orig_recvmsg :: "int \<Rightarrow> msghdr option \<Rightarrow> int \<Rightarrow> 'w \<Rightarrow> int \<times> msghdr option \<times> 'w"
  orig_recv :: "int \<Rightarrow> byte list option \<Rightarrow> nat \<Rightarrow> int \<Rightarrow> 'w \<Rightarrow> int \<times> byte list option \<times> 'w"
  orig_recvfrom :: "int \<Rightarrow> byte list option \<Rightarrow> nat \<Rightarrow> int \<Rightarrow> 'w \<Rightarrow> int \<times> byte list option \<times> 'w"

text \<open>Constants of the platform headers.\<close>

abbreviation (input) "O_CREAT \<equiv> 0x40 :: u32"
abbreviation (input) "AF_NETLINK \<equiv> 16 :: int"
abbreviation (input) "NETLINK_ROUTE \<equiv> 0 :: int"

unbundle bit_operations_syntax

section \<open>Opening and closing\<close>

definition track_opened :: "byte list option \<Rightarrow> int \<Rightarrow> 'a tracker_scheme \<Rightarrow> 'a tracker_scheme" where
  "track_opened path fd s =
     (let type = classify_path path in if type \<noteq> NONE then track_fd fd type s else s)"

definition hook_open ::
  "'w libc \<Rightarrow> byte list option \<Rightarrow> u32 \<Rightarrow> u32 \<Rightarrow> native \<Rightarrow> 'w \<Rightarrow> int \<times> native \<times> 'w" where
  "hook_open L path flags arg s w =
     (let mode = (if flags AND O_CREAT \<noteq> 0 then arg else 0);
          (fd, w') = orig_open L path flags mode w
      in (fd, if 0 \<le> fd then track_opened path fd s else s, w'))"

definition hook_openat ::
  "'w libc \<Rightarrow> int \<Rightarrow> byte list option \<Rightarrow> u32 \<Rightarrow> u32 \<Rightarrow> native \<Rightarrow> 'w \<Rightarrow> int \<times> native \<times> 'w" where
  "hook_openat L dirfd path flags arg s w =
     (let mode = (if flags AND O_CREAT \<noteq> 0 then arg else 0);
          (fd, w') = orig_openat L dirfd path flags mode w
      in (fd, if 0 \<le> fd then track_opened path fd s else s, w'))"

definition hook_fopen ::
  "'w libc \<Rightarrow> byte list option \<Rightarrow> byte list option \<Rightarrow> native \<Rightarrow> 'w \<Rightarrow> nat option \<times> native \<times> 'w" where
  "hook_fopen L path mode s w =
     (let (fp, w') = orig_fopen L path mode w
      in (fp, case fp of None \<Rightarrow> s | Some f \<Rightarrow> track_opened path (fileno L f w') s, w'))"

definition hook_close :: "'w libc \<Rightarrow> int \<Rightarrow> native \<Rightarrow> 'w \<Rightarrow> int \<times> native \<times> 'w" where
  "hook_close L fd s w =
     (let s1 = untrack_fd fd s;
          s2 = untrack_nl_socket fd s1;
          (r, w') = orig_close L fd w
      in (r, s2, w'))"

definition hook_socket :: "'w libc \<Rightarrow> int \<Rightarrow> int \<Rightarrow> int \<Rightarrow> native \<Rightarrow> 'w \<Rightarrow> int \<times> native \<times> 'w" where
  "hook_socket L domain type protocol s w =
     (let (fd, w') = orig_socket L domain type protocol w
      in (fd,
          if 0 \<le> fd \<and> domain = AF_NETLINK \<and> protocol = NETLINK_ROUTE then track_nl_socket fd s else s,
          w'))"

section \<open>Reading\<close>

text \<open>The switch both read hooks contain.\<close>

definition sanitize_by_type ::
  "SensitiveFile \<Rightarrow> byte list \<Rightarrow> byte list option \<Rightarrow> int \<Rightarrow> byte list option \<times> int" where
  "sanitize_by_type type self_path buf n =
     (let (buf', n') = (case type of
        PROC_MAPS \<Rightarrow> sanitize_maps buf (Some n) (Some self_path)
      | PROC_NET_TCP \<Rightarrow> sanitize_tcp buf (Some n)
      | PROC_STATUS \<Rightarrow> sanitize_status buf (Some n)
      | PROC_MOUNTS \<Rightarrow> sanitize_mounts buf (Some n)
      | PROC_NET_DEV \<Rightarrow> sanitize_net_dev buf (Some n)
      | PROC_NET_IF_INET6 \<Rightarrow> sanitize_if_inet6 buf (Some n)
      | PROC_NET_ROUTE \<Rightarrow> sanitize_route buf (Some n)
      | NONE \<Rightarrow> (buf, Some n))
      in (buf', case n' of None \<Rightarrow> n | Some k \<Rightarrow> k))"

definition hook_pread64 ::
  "'w libc \<Rightarrow> int \<Rightarrow> byte list option \<Rightarrow> nat \<Rightarrow> int \<Rightarrow> native \<Rightarrow> 'w
     \<Rightarrow> int \<times> byte list option \<times> native \<times> 'w" where
  "hook_pread64 L fd buf count offset s w =
     (let (bytes_read, buf1, w') = orig_pread64 L fd buf count offset w
      in if bytes_read \<le> 0 then (bytes_read, buf1, s, w')
         else let type = get_fd_type s fd;
                  (buf2, n) = (if type \<noteq> NONE then sanitize_by_type type (g_self_path s) buf1 bytes_read
                               else (buf1, bytes_read))
              in (n, buf2, s, w'))"

definition hook_read ::
  "'w libc \<Rightarrow> int \<Rightarrow> byte list option \<Rightarrow> nat \<Rightarrow> native \<Rightarrow> 'w
     \<Rightarrow> (int \<times> byte list option \<times> native \<times> 'w) option" where
  "hook_read L fd buf count s w =
     (let (bytes_read, buf1, w') = orig_read L fd buf count w
      in if bytes_read \<le> 0 then Some (bytes_read, buf1, s, w')
         else let type = get_fd_type s fd;
                  (buf2, bytes_read') =
                    (if type \<noteq> NONE then sanitize_by_type type (g_self_path s) buf1 bytes_read
                     else (buf1, bytes_read))
              in if is_nl_socket s fd
                 then map_option (\<lambda>(buf3, s'). (bytes_read', buf3, s', w')) (sanitize_netlink buf2 bytes_read' s)
                 else Some (bytes_read', buf2, s, w'))"

section \<open>Receiving\<close>

definition hook_recv ::
  "'w libc \<Rightarrow> int \<Rightarrow> byte list option \<Rightarrow> nat \<Rightarrow> int \<Rightarrow> native \<Rightarrow> 'w
     \<Rightarrow> (int \<times> byte list option \<times> native \<times> 'w) option" where
  "hook_recv L fd buf len flags s w =
     (let (ret, buf1, w') = orig_recv L fd buf len flags w
      in if 0 < ret \<and> is_nl_socket s fd
         then map_option (\<lambda>(buf2, s'). (ret, buf2, s', w')) (sanitize_netlink buf1 ret s)
         else Some (ret, buf1, s, w'))"

definition hook_recvfrom ::
  "'w libc \<Rightarrow> int \<Rightarrow> byte list option \<Rightarrow> nat \<Rightarrow> int \<Rightarrow> native \<Rightarrow> 'w
     \<Rightarrow> (int \<times> byte list option \<times> native \<times> 'w) option" where
  "hook_recvfrom L fd buf len flags s w =
     (let (ret, buf1, w') = orig_recvfrom L fd buf len flags w
      in if 0 < ret \<and> is_nl_socket s fd
         then map_option (\<lambda>(buf2, s'). (ret, buf2, s', w')) (sanitize_netlink buf1 ret s)
         else Some (ret, buf1, s, w'))"

definition hook_recvmsg ::
  "'w libc \<Rightarrow> int \<Rightarrow> msghdr option \<Rightarrow> int \<Rightarrow> native \<Rightarrow> 'w
     \<Rightarrow> (int \<times> msghdr option \<times> native \<times> 'w) option" where
  "hook_recvmsg L fd msg flags s w =
     (let (ret, msg1, w') = orig_recvmsg L fd msg flags w
      in if 0 < ret \<and> is_nl_socket s fd
         then (case msg1 of
                 None \<Rightarrow> Some (ret, msg1, s, w')
               | Some m \<Rightarrow>
                   if 1 \<le> msg_iovlen m then
                     (case msg_iov m of
                        None \<Rightarrow> Some (ret, msg1, s, w')
                      | Some [] \<Rightarrow> None
                      | Some (v # vs) \<Rightarrow>
                          if iov_base v = None then Some (ret, msg1, s, w')
                          else map_option
                                 (\<lambda>(b, s'). (ret, Some (m\<lparr>msg_iov := Some (v\<lparr>iov_base := b\<rparr> # vs)\<rparr>), s', w'))
                                 (sanitize_netlink (iov_base v) ret s))
                   else Some (ret, msg1, s, w'))
         else Some (ret, msg1, s, w'))"

end
