(* ===== verification/Native_Ifaces.thy ===== *)
theory Native_Ifaces
  imports Native_Hooks
begin

text \<open>
  The interface enumeration hooks of \<open>homvpn_native.cpp\<close>: the list \<open>getifaddrs\<close> returns, as
  nodes in a heap of addresses, and the table \<open>ioctl(SIOCGIFCONF)\<close> fills.
\<close>

section \<open>getifaddrs\<close>

record ifaddrs =
  ifa_next :: "nat option"
  ifa_name :: "byte list option"

type_synonym ifheap = "nat \<rightharpoonup> ifaddrs"

lemma case_option_mono [partial_function_mono]:
  assumes "mono_option f" and "\<And>y. mono_option (\<lambda>F. g y F)"
  shows "mono_option (\<lambda>F. case x of None \<Rightarrow> f F | Some y \<Rightarrow> g y F)"
  using assms by (cases x) simp_all

text \<open>
  The unlinking loop. \<open>None\<close> is an access to an address outside the heap, a name without end,
  or a list that has none.
\<close>

partial_function (option) ifaddrs_loop ::
  "ifheap \<Rightarrow> nat option \<Rightarrow> nat option \<Rightarrow> nat option \<Rightarrow> (ifheap \<times> nat option) option" where
  "ifaddrs_loop h ifap prev cur =
     (case cur of
        None \<Rightarrow> Some (h, ifap)
      | Some c \<Rightarrow>
          Option.bind (h c) (\<lambda>node.
          Option.bind (is_vpn_interface (ifa_name node)) (\<lambda>vpn.
            if vpn then
              (case prev of
                 Some p \<Rightarrow>
                   Option.bind (h p) (\<lambda>pnode.
                     ifaddrs_loop (h(p \<mapsto> pnode\<lparr>ifa_next := ifa_next node\<rparr>)) ifap prev (ifa_next node))
               | None \<Rightarrow> ifaddrs_loop h (ifa_next node) None (ifa_next node))
            else ifaddrs_loop h ifap (Some c) (ifa_next node))))"

declare ifaddrs_loop.simps [code]

text \<open>
  \<open>orig_getifaddrs\<close> gives the return value, the heap and what it stored through \<open>ifap\<close>
  (\<open>None\<close> when \<open>ifap\<close> itself is null).
\<close>

definition hook_getifaddrs ::
  "('w \<Rightarrow> int \<times> ifheap \<times> nat option option \<times> 'w) \<Rightarrow> 'w \<Rightarrow> (int \<times> ifheap \<times> nat option option \<times> 'w) option" where
  "hook_getifaddrs orig_getifaddrs w =
     (let (ret, h, ifap, w') = orig_getifaddrs w
      in if ret \<noteq> 0 then Some (ret, h, ifap, w')
         else case ifap of
           None \<Rightarrow> Some (ret, h, ifap, w')
         | Some None \<Rightarrow> Some (ret, h, ifap, w')
         | Some (Some first) \<Rightarrow>
             map_option (\<lambda>(h', head). (ret, h', Some head, w')) (ifaddrs_loop h (Some first) None (Some first)))"

section \<open>The list after unlinking\<close>

text \<open>\<open>ifseg h p xs q\<close>: following \<open>ifa_next\<close> from \<open>p\<close> passes the nodes \<open>xs\<close> and arrives at \<open>q\<close>.\<close>

fun ifseg :: "ifheap \<Rightarrow> nat option \<Rightarrow> nat list \<Rightarrow> nat option \<Rightarrow> bool" where
  "ifseg h p [] q = (p = q)"
| "ifseg h p (x # xs) q =
     (p = Some x \<and> (case h x of None \<Rightarrow> False | Some node \<Rightarrow> ifseg h (ifa_next node) xs q))"

definition vpn_node :: "ifheap \<Rightarrow> nat \<Rightarrow> bool option" where
  "vpn_node h x = (case h x of None \<Rightarrow> None | Some node \<Rightarrow> is_vpn_interface (ifa_name node))"

lemma ifseg_append:
  "ifseg h p (xs @ ys) q \<longleftrightarrow> (\<exists>r. ifseg h p xs r \<and> ifseg h r ys q)"
  by (induction xs arbitrary: p) (auto split: option.splits)

lemma ifseg_frame: "y \<notin> set xs \<Longrightarrow> ifseg (h(y \<mapsto> n)) p xs q = ifseg h p xs q"
  by (induction xs arbitrary: p) (auto split: option.splits)

lemma vpn_node_upd:
  "h x = Some node \<Longrightarrow> vpn_node (h(x \<mapsto> node\<lparr>ifa_next := q\<rparr>)) y = vpn_node h y"
  by (simp add: vpn_node_def)

text \<open>
  Invariant of the loop: the nodes kept so far form a segment from the head to the current
  node, \<open>prev\<close> is the last of them, the rest is untouched.
\<close>

lemma ifaddrs_loop_filters:
  assumes "ifseg h ifap kept cur" and "prev = (if kept = [] then None else Some (last kept))"
    and "ifseg h cur rest None" and "distinct (kept @ rest)"
    and "\<forall>x \<in> set rest. vpn_node h x \<noteq> None"
  shows "\<exists>h' head. ifaddrs_loop h ifap prev cur = Some (h', head)
    \<and> ifseg h' head (kept @ filter (\<lambda>x. vpn_node h x = Some False) rest) None
    \<and> (\<forall>x. map_option ifa_name (h' x) = map_option ifa_name (h x))"
  using assms
proof (induction rest arbitrary: h ifap kept prev cur)
  case Nil
  then show ?case by (subst ifaddrs_loop.simps) auto
next
  case (Cons c rest)
  then obtain node where c: "cur = Some c" and node: "h c = Some node"
    and rest: "ifseg h (ifa_next node) rest None" by (auto split: option.splits)
  obtain v where v: "is_vpn_interface (ifa_name node) = Some v"
    using Cons.prems(5) node by (auto simp: vpn_node_def)
  show ?case
  proof (cases v)
    case False
    have seg: "ifseg h ifap (kept @ [c]) (ifa_next node)"
      using Cons.prems(1) node c by (auto simp: ifseg_append)
    have "ifaddrs_loop h ifap prev cur = ifaddrs_loop h ifap (Some c) (ifa_next node)"
      by (subst ifaddrs_loop.simps) (simp add: c node v False)
    then show ?thesis
      using Cons.IH [OF seg _ rest, of "Some c"] Cons.prems(4,5) node v False by (simp add: vpn_node_def)
  next
    case True
    show ?thesis
    proof (cases "kept = []")
      case nil: True
      have "ifaddrs_loop h ifap prev cur = ifaddrs_loop h (ifa_next node) None (ifa_next node)"
        using Cons.prems(2) by (subst ifaddrs_loop.simps) (simp add: c node v True nil)
      then show ?thesis
        using Cons.IH [of h "ifa_next node" "[]" "ifa_next node" None] rest Cons.prems(4,5) node v True nil
        by (simp add: vpn_node_def)
    next
      case ne: False
      define p where "p = last kept"
      have kept: "kept = butlast kept @ [p]" using ne by (simp add: p_def)
      obtain pnode where pn: "h p = Some pnode" and pre: "ifseg h ifap (butlast kept) (Some p)"
        using Cons.prems(1) by (subst (asm) kept) (auto simp: ifseg_append split: option.splits)
      define h1 where "h1 = h(p \<mapsto> pnode\<lparr>ifa_next := ifa_next node\<rparr>)"
      have "distinct (butlast kept @ [p] @ c # rest)" using Cons.prems(4) by (subst (asm) kept) simp
      then have p_out: "p \<notin> set (butlast kept)" "p \<notin> set rest" by auto
      have seg1: "ifseg h1 ifap kept (ifa_next node)"
        using pre p_out(1) by (subst kept) (simp add: ifseg_append h1_def ifseg_frame)
      have rest1: "ifseg h1 (ifa_next node) rest None"
        using rest p_out(2) by (simp add: h1_def ifseg_frame)
      have same: "vpn_node h1 = vpn_node h" by (rule ext) (simp add: h1_def vpn_node_upd pn)
      have "ifaddrs_loop h ifap prev cur = ifaddrs_loop h1 ifap prev (ifa_next node)"
        using Cons.prems(2) ne by (subst ifaddrs_loop.simps) (simp add: c node v True pn h1_def flip: p_def)
      moreover have "map_option ifa_name (h1 x) = map_option ifa_name (h x)" for x
        by (simp add: h1_def pn)
      moreover have "\<exists>h' head. ifaddrs_loop h1 ifap prev (ifa_next node) = Some (h', head)
          \<and> ifseg h' head (kept @ filter (\<lambda>x. vpn_node h1 x = Some False) rest) None
          \<and> (\<forall>x. map_option ifa_name (h' x) = map_option ifa_name (h1 x))"
        by (rule Cons.IH [OF seg1 Cons.prems(2) rest1]) (use Cons.prems(4,5) same in auto)
      ultimately show ?thesis using node v True same by (simp add: vpn_node_def)
    qed
  qed
qed

lemma ifseg_unique: "ifseg h p xs None \<Longrightarrow> ifseg h p ys None \<Longrightarrow> xs = ys"
  by (induction xs arbitrary: p ys) (case_tac ys, auto split: option.splits)+

lemma ifseg_distinct: "ifseg h p xs None \<Longrightarrow> distinct xs"
proof (induction xs arbitrary: p)
  case (Cons x xs)
  then obtain node where n: "h x = Some node" "ifseg h (ifa_next node) xs None" by (auto split: option.splits)
  have "x \<notin> set xs"
  proof
    assume "x \<in> set xs"
    then obtain ys zs where xs: "xs = ys @ x # zs" by (meson split_list)
    then have "ifseg h (ifa_next node) zs None" using n by (auto simp: ifseg_append split: option.splits)
    then have "zs = xs" using ifseg_unique n(2) by blast
    with xs show False by simp
  qed
  then show ?case using Cons.IH [OF n(2)] by simp
qed simp

text \<open>C29: \<open>hook_getifaddrs\<close> returns the list libc built less the nodes with a VPN name, in the
  same order, ended by null, with every remaining node's name unchanged.\<close>

theorem getifaddrs_unlinks:
  assumes "orig w = (0, h, Some (Some first), w')" and "ifseg h (Some first) xs None"
    and "\<forall>x \<in> set xs. vpn_node h x \<noteq> None"
  shows "\<exists>h' head. hook_getifaddrs orig w = Some (0, h', Some head, w')
    \<and> ifseg h' head (filter (\<lambda>x. vpn_node h x = Some False) xs) None
    \<and> (\<forall>x. map_option ifa_name (h' x) = map_option ifa_name (h x))"
proof -
  have "ifseg h (Some first) [] (Some first)" by simp
  from ifaddrs_loop_filters [OF this _ assms(2)] show ?thesis
    using assms ifseg_distinct [OF assms(2)] by (auto simp: hook_getifaddrs_def)
qed

section \<open>if_nametoindex\<close>

definition hook_if_nametoindex ::
  "(byte list option \<Rightarrow> 'w \<Rightarrow> u32 \<times> 'w) \<Rightarrow> byte list option \<Rightarrow> 'w \<Rightarrow> (u32 \<times> 'w) option" where
  "hook_if_nametoindex orig_if_nametoindex ifname w =
     map_option (\<lambda>vpn. if vpn then (0, w) else orig_if_nametoindex ifname w) (is_vpn_interface ifname)"

section \<open>ioctl\<close>

record ifreq =
  ifr_name :: "byte list"
  ifr_rest :: "byte list"

record ifconf =
  ifc_len :: int
  ifc_req :: "ifreq list option"

text \<open>What the third argument points to.\<close>

datatype ioctl_arg = NullArg | IfconfArg ifconf | OtherArg "byte list"

abbreviation (input) "SIOCGIFCONF \<equiv> 0x8912 :: u64"
abbreviation (input) "sizeof_ifreq \<equiv> 40 :: int"

text \<open>The compaction loop: \<open>None\<close> is an index outside the table.\<close>

function ifconf_loop :: "ifreq list \<Rightarrow> nat \<Rightarrow> nat \<Rightarrow> nat \<Rightarrow> (ifreq list \<times> nat) option" where
  "ifconf_loop ifr n i valid =
     (if i < n then
        (if length ifr \<le> i then None
         else case is_vpn_interface (Some (ifr_name (ifr ! i))) of
           None \<Rightarrow> None
         | Some True \<Rightarrow> ifconf_loop ifr n (Suc i) valid
         | Some False \<Rightarrow>
             ifconf_loop (if valid \<noteq> i then ifr[valid := ifr ! i] else ifr) n (Suc i) (Suc valid))
      else Some (ifr, valid))"
  by pat_completeness auto
termination by (relation "measure (\<lambda>(_, n, i, _). n - i)") auto

declare ifconf_loop.simps [simp del]

definition hook_ioctl ::
  "(int \<Rightarrow> u64 \<Rightarrow> ioctl_arg \<Rightarrow> 'w \<Rightarrow> int \<times> ioctl_arg \<times> 'w)
     \<Rightarrow> int \<Rightarrow> u64 \<Rightarrow> ioctl_arg \<Rightarrow> 'w \<Rightarrow> (int \<times> ioctl_arg \<times> 'w) option" where
  "hook_ioctl orig_ioctl fd request argp w =
     (let (ret, arg, w') = orig_ioctl fd request argp w
      in if ret = 0 \<and> request = SIOCGIFCONF
         then (case arg of
                 NullArg \<Rightarrow> Some (ret, arg, w')
               | OtherArg bytes \<Rightarrow> None
               | IfconfArg ifc \<Rightarrow>
                   (case ifc_req ifc of
                      None \<Rightarrow> Some (ret, arg, w')
                    | Some ifr \<Rightarrow>
                        map_option
                          (\<lambda>(ifr', valid).
                             (ret, IfconfArg \<lparr>ifc_len = int valid * sizeof_ifreq, ifc_req = Some ifr'\<rparr>, w'))
                          (ifconf_loop ifr (nat (ifc_len ifc div sizeof_ifreq)) 0 0)))
         else Some (ret, arg, w'))"

definition shown :: "ifreq \<Rightarrow> bool" where
  "shown r = (is_vpn_interface (Some (ifr_name r)) = Some False)"

lemma ifconf_loop_filters:
  assumes "valid \<le> i" and "i \<le> n" and "n \<le> length ifr"
    and "\<forall>k < n. 5 \<le> length (ifr_name (ifr ! k))"
  shows "\<exists>ifr'. ifconf_loop ifr n i valid = Some (ifr', valid + length (filter shown (drop i (take n ifr))))
    \<and> take (valid + length (filter shown (drop i (take n ifr)))) ifr'
        = take valid ifr @ filter shown (drop i (take n ifr))
    \<and> length ifr' = length ifr \<and> drop n ifr' = drop n ifr"
  using assms
proof (induction ifr n i valid rule: ifconf_loop.induct)
  case (1 ifr n i valid)
  show ?case
  proof (cases "i < n")
    case False
    then show ?thesis using "1.prems" by (subst ifconf_loop.simps) simp
  next
    case True
    then have i: "i < length ifr" using "1.prems" by simp
    have dr: "drop i (take n ifr) = ifr ! i # drop (Suc i) (take n ifr)"
      using True i by (simp add: Cons_nth_drop_Suc [symmetric])
    obtain v where v: "is_vpn_interface (Some (ifr_name (ifr ! i))) = Some v"
      using is_vpn_interface_safe [of "ifr_name (ifr ! i)"] "1.prems"(4) True by auto
    show ?thesis
    proof (cases v)
      case vpn: True
      have not_shown: "\<not> shown (ifr ! i)" using v vpn by (simp add: shown_def)
      have "ifconf_loop ifr n i valid = ifconf_loop ifr n (Suc i) valid"
        using True i v vpn by (subst ifconf_loop.simps) simp
      then show ?thesis
        using "1.IH"(1) [OF True _ v] "1.prems" True i dr v vpn not_shown by simp
    next
      case keep: False
      define ifr1 where "ifr1 = (if valid \<noteq> i then ifr[valid := ifr ! i] else ifr)"
      have e: "ifconf_loop ifr n i valid = ifconf_loop ifr1 n (Suc i) (Suc valid)"
        using True i v keep by (subst ifconf_loop.simps) (simp add: ifr1_def)
      have l: "length ifr1 = length ifr" "drop n ifr1 = drop n ifr"
        using True "1.prems" by (auto simp: ifr1_def)
      have d1: "drop (Suc i) (take n ifr1) = drop (Suc i) (take n ifr)"
        using "1.prems"(1) by (auto simp: ifr1_def take_update_swap)
      have t1: "take (Suc valid) ifr1 = take valid ifr @ [ifr ! i]"
        using "1.prems"(1) i by (auto simp: ifr1_def take_Suc_conv_app_nth)
      have names: "\<forall>k < n. 5 \<le> length (ifr_name (ifr1 ! k))"
      proof (intro allI impI)
        fix k assume "k < n"
        then show "5 \<le> length (ifr_name (ifr1 ! k))"
          using "1.prems"(1,4) True i by (cases "k = valid") (simp_all add: ifr1_def)
      qed
      have "\<exists>ifr'. ifconf_loop ifr1 n (Suc i) (Suc valid)
            = Some (ifr', Suc valid + length (filter shown (drop (Suc i) (take n ifr1))))
          \<and> take (Suc valid + length (filter shown (drop (Suc i) (take n ifr1)))) ifr'
              = take (Suc valid) ifr1 @ filter shown (drop (Suc i) (take n ifr1))
          \<and> length ifr' = length ifr1 \<and> drop n ifr' = drop n ifr1"
        by (rule "1.IH"(2) [OF True _ v, folded ifr1_def]) (use "1.prems" True i l(1) keep names in simp_all)
      moreover have "shown (ifr ! i)" using v keep by (simp add: shown_def)
      ultimately show ?thesis using e dr d1 t1 l by simp
    qed
  qed
qed

text \<open>C30: on success \<open>hook_ioctl\<close> for \<open>SIOCGIFCONF\<close> leaves, at the front of the caller's table
  and counted by \<open>ifc_len\<close>, exactly the requests whose name is not a VPN name, in order.\<close>

theorem ioctl_hides_vpn:
  assumes "orig fd SIOCGIFCONF argp w = (0, IfconfArg ifc, w')" and "ifc_req ifc = Some ifr"
    and "ifc_len ifc = int n * sizeof_ifreq" and "n \<le> length ifr" and "\<forall>k < n. length (ifr_name (ifr ! k)) = 16"
  shows "\<exists>ifr'. hook_ioctl orig fd SIOCGIFCONF argp w =
      Some (0, IfconfArg \<lparr>ifc_len = int (length (filter shown (take n ifr))) * sizeof_ifreq, ifc_req = Some ifr'\<rparr>, w')
    \<and> take (length (filter shown (take n ifr))) ifr' = filter shown (take n ifr)
    \<and> length ifr' = length ifr \<and> drop n ifr' = drop n ifr"
proof -
  have "nat (ifc_len ifc div sizeof_ifreq) = n" by (simp add: assms(3))
  with ifconf_loop_filters [of 0 0 n ifr] assms(4,5) assms(1,2) show ?thesis
    by (auto simp: hook_ioctl_def)
qed

text \<open>\<open>hook_if_nametoindex\<close> answers 0, without asking libc, exactly for the names with a
  VPN prefix; any other name gets libc's answer.\<close>

theorem nametoindex_hides_vpn:
  assumes "0 \<in> set name"
  shows "hook_if_nametoindex orig (Some name) w =
    Some (if vpn_name (ctext name) then (0, w) else orig (Some name) w)"
  by (simp add: hook_if_nametoindex_def is_vpn_interface_cstr [OF assms])

section \<open>Witnesses\<close>

definition demo_list :: ifheap where
  "demo_list = [10 \<mapsto> \<lparr>ifa_next = Some 20, ifa_name = Some (lit ''tun0'' @ [0])\<rparr>,
                20 \<mapsto> \<lparr>ifa_next = Some 30, ifa_name = Some (lit ''wlan0'' @ [0])\<rparr>,
                30 \<mapsto> \<lparr>ifa_next = None, ifa_name = Some (lit ''wg1'' @ [0])\<rparr>]"

lemma demo_list_names:
  "vpn_node demo_list 10 = Some True" "vpn_node demo_list 20 = Some False" "vpn_node demo_list 30 = Some True"
  by code_simp+

lemma getifaddrs_unlinks_witness:
  "\<exists>h' head. hook_getifaddrs (\<lambda>w. (0, demo_list, Some (Some 10), w)) () = Some (0, h', Some head, ())
     \<and> ifseg h' head [20] None"
  using getifaddrs_unlinks [of "\<lambda>w. (0, demo_list, Some (Some 10), w)" "()" demo_list 10 "()" "[10, 20, 30]"]
  by (auto simp: demo_list_names) (auto simp: demo_list_def)

definition demo_reqs :: "ifreq list" where
  "demo_reqs = [\<lparr>ifr_name = lit ''tun0'' @ replicate 12 0, ifr_rest = []\<rparr>,
                \<lparr>ifr_name = lit ''wlan0'' @ replicate 11 0, ifr_rest = [1]\<rparr>]"

lemma demo_reqs_facts:
  "length demo_reqs = 2" "take 2 demo_reqs = demo_reqs" "filter shown demo_reqs = [demo_reqs ! 1]"
  "\<forall>k < 2. length (ifr_name (demo_reqs ! k)) = 16"
  by code_simp+

lemma ioctl_hides_vpn_witness:
  "\<exists>ifr'. hook_ioctl (\<lambda>fd req arg w. (0, arg, w)) 3 SIOCGIFCONF
      (IfconfArg \<lparr>ifc_len = 80, ifc_req = Some demo_reqs\<rparr>) () =
      Some (0, IfconfArg \<lparr>ifc_len = 40, ifc_req = Some ifr'\<rparr>, ()) \<and> take 1 ifr' = [demo_reqs ! 1]"
  using ioctl_hides_vpn [of "\<lambda>fd req arg w. (0, arg, w)" 3 "IfconfArg \<lparr>ifc_len = 80, ifc_req = Some demo_reqs\<rparr>"
      "()" "\<lparr>ifc_len = 80, ifc_req = Some demo_reqs\<rparr>" "()" demo_reqs 2]
  by (auto simp: demo_reqs_facts)

lemma nametoindex_hides_vpn_witness:
  "hook_if_nametoindex (\<lambda>n w. (7, w)) (Some (lit ''tun0'' @ [0])) () = Some (0, ())"
proof -
  have "vpn_name (ctext (lit ''tun0'' @ [0]))" by code_simp
  then show ?thesis using nametoindex_hides_vpn [of "lit ''tun0'' @ [0]"] by simp
qed

end
