(* ===== verification/Native_Load.thy ===== *)
theory Native_Load
  imports Native_Hooks
begin

text \<open>
  Loading: \<open>resolve_self_path\<close>, \<open>install_hook\<close> and \<open>JNI_OnLoad\<close> of \<open>homvpn_native.cpp\<close>. The
  dynamic linker's \<open>dladdr\<close> and the hooking framework's entry points are arguments.
\<close>

section \<open>The module's own path\<close>

text \<open>\<open>dladdr\<close>: \<open>None\<close> when it fails, else the \<open>dli_fname\<close> it found.\<close>

definition resolve_self_path :: "byte list option option \<Rightarrow> native \<Rightarrow> native option" where
  "resolve_self_path info s =
     (case info of
        Some (Some dli_fname) \<Rightarrow>
          map_option (\<lambda>p. s\<lparr>g_self_path := (p @ drop 511 (g_self_path s))[511 := 0]\<rparr>) (strncpy dli_fname 511)
      | _ \<Rightarrow> Some s)"

lemma ctext_take: "ctext (take n (ctext s) @ replicate k 0 @ 0 # zs) = take n (ctext s)"
proof -
  have nz: "x \<noteq> 0" if "x \<in> set (take n (ctext s))" for x
    using set_takeWhileD [OF in_set_takeD [OF that, unfolded ctext_def]] by simp
  have "takeWhile (\<lambda>c. c \<noteq> 0) (replicate k (0::byte) @ 0 # zs) = []" by (cases k) simp_all
  then show ?thesis
    unfolding ctext_def [of "_ @ _"] by (subst takeWhile_append2) (simp_all add: nz)
qed

text \<open>\<open>resolve_self_path\<close> leaves the 512-byte buffer a terminated C string: the module's path,
  cut to 511 bytes. The maps filter so always reads a string that ends inside the buffer.\<close>

theorem self_path_terminated:
  assumes "length (g_self_path s) = 512" and "0 \<in> set fname"
  shows "\<exists>s'. resolve_self_path (Some (Some fname)) s = Some s'
    \<and> length (g_self_path s') = 512 \<and> 0 \<in> set (g_self_path s')
    \<and> ctext (g_self_path s') = take 511 (ctext fname)"
proof -
  let ?t = "take 511 (ctext fname)"
  let ?p = "?t @ replicate (511 - length ?t) 0"
  obtain z where z: "drop 511 (g_self_path s) = [z]"
    using assms(1) by (cases "drop 511 (g_self_path s)"; cases "tl (drop 511 (g_self_path s))")
      (auto dest: arg_cong [of _ _ length])
  have "length ?p = 511" by simp
  then have "(?p @ [z])[511 := 0] = ?p @ [0]" by (metis list_update_length)
  then have r: "resolve_self_path (Some (Some fname)) s = Some (s\<lparr>g_self_path := ?p @ [0]\<rparr>)"
    using assms(2) z by (simp add: resolve_self_path_def strncpy_def Let_def)
  have "ctext (?p @ [0]) = ?t" using ctext_take [of 511 fname "511 - length ?t" "[]"] by simp
  then show ?thesis using r by simp
qed

definition demo_fname :: "byte list" where
  "demo_fname = lit ''/data/lib.so'' @ [0]"

lemma self_path_terminated_witness:
  "\<exists>s'. resolve_self_path (Some (Some demo_fname)) init_native = Some s' \<and> length (g_self_path s') = 512
     \<and> 0 \<in> set (g_self_path s') \<and> ctext (g_self_path s') = take 511 (ctext demo_fname)"
  by (rule self_path_terminated) (simp_all add: init_native_def tracker.extend_def demo_fname_def)

section \<open>Installing the hooks\<close>

text \<open>
  The framework: the symbol resolver and \<open>DobbyHook\<close>, which takes the address and the
  replacement and returns a code and what it stores through the pointer to the original, if anything.
\<close>

record 'w framework =
  fw_resolve :: "string \<Rightarrow> string \<Rightarrow> 'w \<Rightarrow> u64 option"
  fw_hook :: "u64 \<Rightarrow> u64 \<Rightarrow> 'w \<Rightarrow> int \<times> u64 option \<times> 'w"

text \<open>The static \<open>orig_\<close> pointers, by symbol; a hook that was not installed keeps null.\<close>

type_synonym origs = "string \<Rightarrow> u64"

definition install_hook :: "'w framework \<Rightarrow> string \<Rightarrow> u64 \<Rightarrow> origs \<Rightarrow> 'w \<Rightarrow> bool \<times> origs \<times> 'w" where
  "install_hook F symbol replacement origs w =
     (case fw_resolve F ''libc.so'' symbol w of
        None \<Rightarrow> (False, origs, w)
      | Some addr \<Rightarrow>
          (let (ret, original, w') = fw_hook F addr replacement w;
               origs' = (case original of None \<Rightarrow> origs | Some p \<Rightarrow> origs(symbol := p))
           in (ret = 0, origs', w')))"

definition hooked_symbols :: "string list" where
  "hooked_symbols =
     [''open'', ''openat'', ''fopen'', ''read'', ''pread64'', ''close'',
      ''getifaddrs'', ''if_nametoindex'', ''ioctl'',
      ''socket'', ''recvmsg'', ''recv'', ''recvfrom'']"

fun install_all :: "'w framework \<Rightarrow> (string \<Rightarrow> u64) \<Rightarrow> string list \<Rightarrow> origs \<Rightarrow> 'w \<Rightarrow> origs \<times> 'w" where
  "install_all F hook_addr [] origs w = (origs, w)"
| "install_all F hook_addr (symbol # rest) origs w =
     (let (ok, origs', w') = install_hook F symbol (hook_addr symbol) origs w
      in install_all F hook_addr rest origs' w')"

definition JNI_OnLoad ::
  "'w framework \<Rightarrow> (string \<Rightarrow> u64) \<Rightarrow> byte list option option \<Rightarrow> native \<Rightarrow> 'w
     \<Rightarrow> (int \<times> native \<times> origs \<times> 'w) option" where
  "JNI_OnLoad F hook_addr info s w =
     map_option
       (\<lambda>s'. let (origs, w') = install_all F hook_addr hooked_symbols (\<lambda>_. 0) w
             in (0x00010006, s', origs, w'))
       (resolve_self_path info s)"

text \<open>What the framework is asked to do: the hooks that resolved, whatever became of the others.\<close>

definition logging :: "(string \<Rightarrow> u64 option) \<Rightarrow> (u64 \<Rightarrow> int) \<Rightarrow> (u64 \<times> u64) list framework" where
  "logging resolve ret =
     \<lparr>fw_resolve = (\<lambda>lib symbol w. resolve symbol),
      fw_hook = (\<lambda>addr repl w. (ret addr, Some addr, w @ [(addr, repl)]))\<rparr>"

lemma install_all_log:
  "snd (install_all (logging resolve ret) hook_addr syms origs w) =
     w @ List.map_filter (\<lambda>y. map_option (\<lambda>a. (a, hook_addr y)) (resolve y)) syms"
  by (induction syms arbitrary: origs w)
    (auto simp: install_hook_def logging_def List.map_filter_def split: option.split)

text \<open>\<open>JNI_OnLoad\<close> always reports version 1.6 and asks for every hook whose symbol resolves,
  in the order of the source, whatever the earlier hooks returned: one failure stops no other.\<close>

theorem onload_installs_every_hook:
  "map_option (\<lambda>(ver, s, origs, log). (ver, log)) (JNI_OnLoad (logging resolve ret) hook_addr None s [])
     = Some (0x00010006,
             List.map_filter (\<lambda>y. map_option (\<lambda>a. (a, hook_addr y)) (resolve y)) hooked_symbols)"
  using install_all_log [of resolve ret hook_addr hooked_symbols "\<lambda>_. 0" "[]"]
  by (auto simp: JNI_OnLoad_def resolve_self_path_def split: prod.splits)

end
