(* ===== verification/Hooks_Props.thy ===== *)
theory Hooks_Props
  imports Native_Hooks
begin

text \<open>
  The hooks of \<open>Native_Hooks\<close> as a system: what a read delivers for each class of file, the
  life of a descriptor across calls as a step relation, and the invariant of the tables.
\<close>

section \<open>What a read delivers\<close>

text \<open>The specification: which lines of a chunk of text reach the caller, per class of file.\<close>

fun type_filter :: "SensitiveFile \<Rightarrow> byte list \<Rightarrow> byte list list \<Rightarrow> byte list list" where
  "type_filter PROC_MAPS self ls = filter (\<lambda>l. \<not> maps_drop (Some self) l) ls"
| "type_filter PROC_MOUNTS self ls = filter (\<lambda>l. \<not> mounts_drop l) ls"
| "type_filter PROC_NET_IF_INET6 self ls = filter (\<lambda>l. \<not> if_inet6_drop l) ls"
| "type_filter PROC_NET_TCP self ls = take 1 ls @ filter (\<lambda>l. \<not> tcp_drop False l) (drop 1 ls)"
| "type_filter PROC_NET_ROUTE self ls = take 1 ls @ filter (\<lambda>l. \<not> route_drop False l) (drop 1 ls)"
| "type_filter PROC_NET_DEV self ls = take 2 ls @ filter (\<lambda>l. \<not> net_dev_drop 2 l) (drop 2 ls)"
| "type_filter PROC_STATUS self ls = ls"
| "type_filter NONE self ls = ls"

lemma scrub_const:
  assumes "next h = h" and "d' = d h"
  shows "scrub_lines d next h ls = filter (\<lambda>l. \<not> d' l) ls"
  using assms by (induction ls) simp_all

lemma scrub_after_first:
  assumes "\<And>l. \<not> d True l"
  shows "scrub_lines d (\<lambda>_. False) True ls = take 1 ls @ filter (\<lambda>l. \<not> d False l) (drop 1 ls)"
  using assms by (cases ls) (simp_all add: scrub_const)

lemma scrub_net_dev_from:
  "2 \<le> k \<Longrightarrow> scrub_lines net_dev_drop Suc k ls = filter (\<lambda>l. \<not> net_dev_drop 2 l) ls"
  by (induction ls arbitrary: k) (simp_all add: net_dev_drop_def)

lemma scrub_net_dev:
  "scrub_lines net_dev_drop Suc 0 ls = take 2 ls @ filter (\<lambda>l. \<not> net_dev_drop 2 l) (drop 2 ls)"
proof -
  have d: "\<not> net_dev_drop 0 l" "\<not> net_dev_drop (Suc 0) l" for l by (simp_all add: net_dev_drop_def)
  show ?thesis
    using scrub_net_dev_from [of "Suc (Suc 0)"]
    by (cases ls; cases "tl ls") (simp_all add: d numeral_2_eq_2)
qed

lemma stateless_filter: "scrub_lines (\<lambda>_::unit. P) (\<lambda>_. ()) () = filter (\<lambda>l. \<not> P l)"
  by (rule ext) (rule scrub_lines_stateless)

lemma stateless_types:
  "type_filter PROC_MAPS self = filter (\<lambda>l. \<not> maps_drop (Some self) l)"
  "type_filter PROC_MOUNTS self = filter (\<lambda>l. \<not> mounts_drop l)"
  "type_filter PROC_NET_IF_INET6 self = filter (\<lambda>l. \<not> if_inet6_drop l)"
  by (rule ext, simp)+

lemma header_filters:
  "scrub_lines tcp_drop (\<lambda>_. False) True = type_filter PROC_NET_TCP self"
  "scrub_lines route_drop (\<lambda>_. False) True = type_filter PROC_NET_ROUTE self"
  "scrub_lines net_dev_drop Suc 0 = type_filter PROC_NET_DEV self"
  by (rule ext, simp add: scrub_after_first tcp_drop_def)
    (rule ext, simp add: scrub_after_first route_drop_def, rule ext, simp add: scrub_net_dev)

lemma run_scrubs:
  assumes "0 < n" and "nat n \<le> length b"
    and "\<And>b' e. run b (nat n) = (b', e) \<Longrightarrow> scrubbed f b (nat n) b' (int e)"
  shows "\<exists>b' n'. in_place run (Some b) (Some n) = (Some b', Some n') \<and> scrubbed f b (nat n) b' n'"
  using in_place_scrubbed [OF assms] by metis

lemma sanitize_by_type_scrubs:
  assumes "0 < n" and "nat n \<le> length b" and "type \<noteq> PROC_STATUS" and "type \<noteq> NONE"
  obtains b' n' where "sanitize_by_type type self (Some b) n = (Some b', n')"
    and "scrubbed (type_filter type self) b (nat n) b' n'"
proof -
  note run = run_scrubs [OF assms(1,2)]
  have "\<exists>b' n'. sanitize_by_type type self (Some b) n = (Some b', n')
      \<and> scrubbed (type_filter type self) b (nat n) b' n'"
  proof (cases type)
    case PROC_MAPS
    then show ?thesis
      using run [of "\<lambda>b n. maps_loop (Some self) b 0 n", OF maps.loop_scrubbed [where self = "Some self" and h = "()"], OF assms(2)]
      by (auto simp: sanitize_by_type_def sanitize_maps_def stateless_filter stateless_types)
  next
    case PROC_NET_TCP
    then show ?thesis
      using run [of "\<lambda>b n. tcp_loop True b 0 n", OF tcp.loop_scrubbed [where h = True], OF assms(2)]
      by (auto simp: sanitize_by_type_def sanitize_tcp_def simp flip: header_filters(1))
  next
    case PROC_MOUNTS
    then show ?thesis
      using run [of "\<lambda>b n. mounts_loop b 0 n", OF mounts.loop_scrubbed [where h = "()"], OF assms(2)]
      by (auto simp: sanitize_by_type_def sanitize_mounts_def stateless_filter stateless_types)
  next
    case PROC_NET_DEV
    then show ?thesis
      using run [of "\<lambda>b n. net_dev_loop 0 b 0 n", OF net_dev.loop_scrubbed [where h = 0], OF assms(2)]
      by (auto simp: sanitize_by_type_def sanitize_net_dev_def simp flip: header_filters(3))
  next
    case PROC_NET_IF_INET6
    then show ?thesis
      using run [of "\<lambda>b n. if_inet6_loop b 0 n", OF if_inet6.loop_scrubbed [where h = "()"], OF assms(2)]
      by (auto simp: sanitize_by_type_def sanitize_if_inet6_def stateless_filter stateless_types)
  next
    case PROC_NET_ROUTE
    then show ?thesis
      using run [of "\<lambda>b n. route_loop True b 0 n", OF route.loop_scrubbed [where h = True], OF assms(2)]
      by (auto simp: sanitize_by_type_def sanitize_route_def simp flip: header_filters(2))
  qed (use assms in auto)
  then show thesis using that by blast
qed

lemma subseq_type_filter: "subseq (type_filter t self ls) ls"
proof -
  have k: "subseq (take k ls @ filter P (drop k ls)) ls" for k P
    using list_emb_append_mono [OF subseq_order.refl subseq_filter_left, of "take k ls" P "drop k ls"] by simp
  show ?thesis by (cases t) (simp_all add: k subseq_filter_left)
qed

lemma scrubbed_type_lines:
  assumes "scrubbed (type_filter t self) buf m b n"
  shows "lines_of (take (nat n) b) = type_filter t self (lines_of (take m buf))"
proof -
  have "take (nat n) b = concat (type_filter t self (lines_of (take m buf)))"
    using assms unfolding scrubbed_def by blast
  then show ?thesis
    by (simp only: lines_of_concat [OF wf_lines_subseq [OF subseq_type_filter wf_lines_of]])
qed

section \<open>Descriptors across calls\<close>

text \<open>
  One hooked call as a step of the native state and the world, labelled with what matters for
  the descriptor tables: which descriptor an open or a socket call returned.
\<close>

datatype call =
    Opened "byte list option" int
  | Socketed int int int
  | Closed int
  | Transfer int

inductive native_step :: "'w libc \<Rightarrow> native \<times> 'w \<Rightarrow> call \<Rightarrow> native \<times> 'w \<Rightarrow> bool" for L where
  step_open: "hook_open L path flags arg s w = (fd, s', w') \<Longrightarrow> native_step L (s, w) (Opened path fd) (s', w')"
| step_openat: "hook_openat L dirfd path flags arg s w = (fd, s', w') \<Longrightarrow>
    native_step L (s, w) (Opened path fd) (s', w')"
| step_fopen: "hook_fopen L path mode s w = (Some fp, s', w') \<Longrightarrow>
    native_step L (s, w) (Opened path (fileno L fp w')) (s', w')"
| step_fopen_fails: "hook_fopen L path mode s w = (None, s', w') \<Longrightarrow>
    native_step L (s, w) (Opened path (-1)) (s', w')"
| step_close: "hook_close L fd s w = (r, s', w') \<Longrightarrow> native_step L (s, w) (Closed fd) (s', w')"
| step_socket: "hook_socket L domain type protocol s w = (fd, s', w') \<Longrightarrow>
    native_step L (s, w) (Socketed domain protocol fd) (s', w')"
| step_read: "hook_read L fd buf count s w = Some (n, buf', s', w') \<Longrightarrow>
    native_step L (s, w) (Transfer fd) (s', w')"
| step_pread64: "hook_pread64 L fd buf count off s w = (n, buf', s', w') \<Longrightarrow>
    native_step L (s, w) (Transfer fd) (s', w')"
| step_recv: "hook_recv L fd buf len flags s w = Some (n, buf', s', w') \<Longrightarrow>
    native_step L (s, w) (Transfer fd) (s', w')"
| step_recvfrom: "hook_recvfrom L fd buf len flags s w = Some (n, buf', s', w') \<Longrightarrow>
    native_step L (s, w) (Transfer fd) (s', w')"
| step_recvmsg: "hook_recvmsg L fd msg flags s w = Some (n, msg', s', w') \<Longrightarrow>
    native_step L (s, w) (Transfer fd) (s', w')"

inductive_cases native_stepE: "native_step L st c st'"

inductive native_steps :: "'w libc \<Rightarrow> native \<times> 'w \<Rightarrow> call list \<Rightarrow> native \<times> 'w \<Rightarrow> bool" for L where
  steps_nil: "native_steps L st [] st"
| steps_cons: "native_step L st c st' \<Longrightarrow> native_steps L st' cs st'' \<Longrightarrow> native_steps L st (c # cs) st''"

inductive_simps native_steps_simps [simp]: "native_steps L st [] st'" "native_steps L st (c # cs) st'"

text \<open>What a call does to the descriptor tables, as operations of the two slot tables.\<close>

fun fd_ops :: "call \<Rightarrow> SensitiveFile slot_op list" where
  "fd_ops (Opened path fd) = [Put fd (classify_path path)]"
| "fd_ops (Closed fd) = [Clear fd]"
| "fd_ops _ = []"

fun nl_ops :: "call \<Rightarrow> bool slot_op list" where
  "nl_ops (Socketed domain protocol fd) = [Put fd (domain = AF_NETLINK \<and> protocol = NETLINK_ROUTE)]"
| "nl_ops (Closed fd) = [Clear fd]"
| "nl_ops _ = []"

lemma nl_loop_only_marks:
  assumes "nl_classify buf nlh r s = Some (hid, s')"
  shows "g_nl_socket_table s' = g_nl_socket_table s" and "g_fd_table s' = g_fd_table s"
    and "outside_unchanged s s' \<and> (codes_valid s \<longrightarrow> codes_valid s')"
  using assms
proof (induction buf nlh r s arbitrary: hid rule: nl_classify.induct)
  case (1 buf nlh r s)
  note step = verdict_table
  {
    case 1
    then show ?case
    proof (cases rule: nl_classify_cases)
      case (message l h t hid')
      then show ?thesis using "1.IH"(1) [of l "(h, t)" h t hid'] verdict_table [OF message(4)] by auto
    qed simp
  next
    case 2
    then show ?case
    proof (cases rule: nl_classify_cases)
      case (message l h t hid')
      then show ?thesis using "1.IH"(2) [of l "(h, t)" h t hid'] verdict_table [OF message(4)] by auto
    qed simp
  next
    case 3
    then show ?case
    proof (cases rule: nl_classify_cases)
      case (message l h t hid')
      then show ?thesis
        using "1.IH"(3) [of l "(h, t)" h t hid'] verdict_table [OF message(4)] tracker_writes_inside(5) tracker_codes(5)
        by (auto intro: outside_trans)
    qed simp
  }
qed

lemma sanitize_netlink_only_marks:
  assumes "sanitize_netlink buf len s = Some (buf', s')"
  shows "g_nl_socket_table s' = g_nl_socket_table s" and "g_fd_table s' = g_fd_table s"
    and "outside_unchanged s s' \<and> (codes_valid s \<longrightarrow> codes_valid s')"
  using assms
  by (auto simp: sanitize_netlink_def nl_loop_classify split: option.splits if_splits
      dest: nl_loop_only_marks(1,2) nl_loop_only_marks(3) [THEN conjunct1] nl_loop_only_marks(3) [THEN conjunct2, THEN mp])

lemma transfer_cases:
  assumes "native_step L (s, w) (Transfer fd) (s', w')"
  obtains "s' = s" | buf len buf' where "sanitize_netlink buf len s = Some (buf', s')"
  using assms
  by (elim native_stepE)
    (auto simp: hook_read_def hook_pread64_def hook_recv_def hook_recvfrom_def hook_recvmsg_def Let_def
      split: prod.splits if_splits option.splits list.splits)

lemma transfer_tables:
  assumes "native_step L (s, w) (Transfer fd) (s', w')"
  shows "get_fd_type s' k = get_fd_type s k" and "is_nl_socket s' k = is_nl_socket s k"
  using assms
  by (auto elim!: transfer_cases simp: get_fd_type_def is_nl_socket_def
      dest: sanitize_netlink_only_marks(1,2))

lemma track_opened_put: "track_opened path fd s = track_fd fd (classify_path path) s"
  by (simp add: track_opened_def track_fd_def Let_def)

lemma track_negative [simp]: "fd < 0 \<Longrightarrow> track_fd fd t s = s" "fd < 0 \<Longrightarrow> track_nl_socket fd s = s"
  by (simp_all add: track_fd_def track_nl_socket_def)

lemma opened_state:
  assumes "native_step L (s, w) (Opened path fd) (s', w')"
  shows "s' = track_fd fd (classify_path path) s"
  using assms
  by (elim native_stepE)
    (auto simp: hook_open_def hook_openat_def hook_fopen_def track_opened_put Let_def
      split: prod.splits option.splits)

lemma closed_state:
  "native_step L (s, w) (Closed fd) (s', w') \<Longrightarrow> s' = untrack_nl_socket fd (untrack_fd fd s)"
  by (elim native_stepE) (auto simp: hook_close_def split: prod.splits)

lemma socketed_state:
  "native_step L (s, w) (Socketed d p fd) (s', w') \<Longrightarrow>
     s' = put_nl_socket fd (d = AF_NETLINK \<and> p = NETLINK_ROUTE) s"
  by (elim native_stepE) (auto simp: hook_socket_def put_nl_socket_def split: prod.splits)

lemma step_slots:
  assumes "native_step L (s, w) c (s', w')"
  shows "get_fd_type s' k = get_fd_type (fdt.slot_run (fd_ops c) s) k"
    and "is_nl_socket s' k = is_nl_socket (nlt.slot_run (nl_ops c) s) k"
  using assms
proof (induction c)
  case (Opened path fd) {
    case 1 then show ?case by (simp add: opened_state [OF 1])
  next
    case 2 then show ?case by (simp add: opened_state [OF 2])
  }
next
  case (Socketed d p fd) {
    case 1 then show ?case by (simp add: socketed_state [OF 1] put_nl_socket_def)
  next
    case 2 then show ?case by (simp add: socketed_state [OF 2])
  }
next
  case (Closed fd) {
    case 1 then show ?case by (simp add: closed_state [OF 1] fdt.get_clear)
  next
    case 2 then show ?case by (simp add: closed_state [OF 2] nlt.get_clear)
  }
next
  case (Transfer fd) {
    case 1 then show ?case using transfer_tables by simp
  next
    case 2 then show ?case using transfer_tables by simp
  }
qed

lemma steps_untouched:
  assumes "native_steps L st cs st'" and "\<forall>c \<in> set cs. \<forall>op \<in> set (fd_ops c). \<not> fdt.touches k op"
  shows "get_fd_type (fst st') k = get_fd_type (fst st) k"
  using assms
proof (induction cs arbitrary: st)
  case (Cons c cs)
  then obtain s1 w1 where s1: "native_step L st c (s1, w1)" "native_steps L (s1, w1) cs st'" by auto
  have "get_fd_type s1 k = get_fd_type (fst st) k"
    using step_slots(1) [of L "fst st" "snd st" c s1 w1] s1(1) Cons.prems(2)
      fdt.get_run_untouched [of "fd_ops c" k "fst st"] by simp
  then show ?case using Cons.IH [OF s1(2)] Cons.prems(2) by simp
qed simp

lemma steps_nl_untouched:
  assumes "native_steps L st cs st'" and "\<forall>c \<in> set cs. \<forall>op \<in> set (nl_ops c). \<not> nlt.touches k op"
  shows "is_nl_socket (fst st') k = is_nl_socket (fst st) k"
  using assms
proof (induction cs arbitrary: st)
  case (Cons c cs)
  then obtain s1 w1 where s1: "native_step L st c (s1, w1)" "native_steps L (s1, w1) cs st'" by auto
  have "is_nl_socket s1 k = is_nl_socket (fst st) k"
    using step_slots(2) [of L "fst st" "snd st" c s1 w1] s1(1) Cons.prems(2)
      nlt.get_run_untouched [of "nl_ops c" k "fst st"] by simp
  then show ?case using Cons.IH [OF s1(2)] Cons.prems(2) by simp
qed simp

lemma step_stays_absent:
  assumes "native_step L (s, w) c (s', w')" and "get_fd_type s k = NONE \<and> \<not> is_nl_socket s k"
    and "\<And>p. c = Opened p k \<Longrightarrow> classify_path p = NONE"
    and "\<And>d p. c = Socketed d p k \<Longrightarrow> \<not> (d = AF_NETLINK \<and> p = NETLINK_ROUTE)"
  shows "get_fd_type s' k = NONE \<and> \<not> is_nl_socket s' k"
proof (cases c)
  case (Opened path fd)
  then show ?thesis
    using step_slots [OF assms(1), of k] assms(2,3)
    by (cases "fd = k") (auto simp: fdt.get_put_other fdt.put_absent)
next
  case (Socketed d p fd)
  then show ?thesis
    using step_slots [OF assms(1), of k] assms(2,4)
    by (cases "fd = k") (auto simp: nlt.get_put_other nlt.put_absent)
next
  case (Closed fd)
  then show ?thesis
    using step_slots [OF assms(1), of k] assms(2) by (simp add: fdt.get_clear nlt.get_clear)
next
  case (Transfer fd)
  then show ?thesis
    using step_slots [OF assms(1), of k] assms(2) by simp
qed

lemma steps_stay_absent:
  assumes "native_steps L st cs (s, w)" and "get_fd_type (fst st) k = NONE \<and> \<not> is_nl_socket (fst st) k"
    and "\<forall>c \<in> set cs. (\<forall>p. c = Opened p k \<longrightarrow> classify_path p = NONE)
           \<and> (\<forall>d p. c = Socketed d p k \<longrightarrow> \<not> (d = AF_NETLINK \<and> p = NETLINK_ROUTE))"
  shows "get_fd_type s k = NONE \<and> \<not> is_nl_socket s k"
  using assms
proof (induction cs arbitrary: st)
  case (Cons c cs)
  then obtain s1 w1 where s1: "native_step L (fst st, snd st) c (s1, w1)" "native_steps L (s1, w1) cs (s, w)"
    by auto
  have "get_fd_type s1 k = NONE \<and> \<not> is_nl_socket s1 k"
    by (rule step_stays_absent [OF s1(1) Cons.prems(2)]) (use Cons.prems(3) in auto)
  then show ?case using Cons.IH [OF s1(2)] Cons.prems(3) by simp
qed simp

lemma put_nl_keeps: "is_nl_socket s k \<Longrightarrow> is_nl_socket (put_nl_socket fd b s) k"
  by (simp add: put_nl_socket_def track_nl_socket_def is_nl_socket_def)

lemma steps_nl_kept:
  assumes "native_steps L st cs (s, w)" and "Closed k \<notin> set cs" and "is_nl_socket (fst st) k"
  shows "is_nl_socket s k"
  using assms
proof (induction cs arbitrary: st)
  case (Cons c cs)
  then obtain s1 w1 where s1: "native_step L (fst st, snd st) c (s1, w1)" "native_steps L (s1, w1) cs (s, w)"
    by auto
  have "is_nl_socket s1 k"
    using step_slots(2) [OF s1(1), of k] Cons.prems(2,3)
    by (cases c) (auto simp: nlt.get_clear put_nl_keeps)
  then show ?case using Cons.IH [OF s1(2)] Cons.prems(2) by simp
qed simp

lemma step_in_bounds:
  assumes "native_step L (s, w) c (s', w')"
  shows "outside_unchanged s s' \<and> (codes_valid s \<longrightarrow> codes_valid s')"
proof (cases c)
  case (Opened path fd)
  then show ?thesis
    using opened_state [of L s w path fd s' w'] assms by (simp add: tracker_writes_inside tracker_codes)
next
  case (Socketed d p fd)
  then show ?thesis
    using socketed_state [of L s w d p fd s' w'] assms
    by (simp add: put_nl_socket_def tracker_writes_inside tracker_codes)
next
  case (Closed fd)
  have "s' = untrack_nl_socket fd (untrack_fd fd s)" by (rule closed_state) (use assms Closed in simp)
  then show ?thesis
    using outside_trans [OF tracker_writes_inside(2,4)] by (auto intro!: tracker_codes)
next
  case (Transfer fd)
  then show ?thesis
    using assms by (auto elim!: transfer_cases dest: sanitize_netlink_only_marks(3))
qed

lemma steps_in_bounds:
  assumes "native_steps L st cs st'"
  shows "outside_unchanged (fst st) (fst st') \<and> (codes_valid (fst st) \<longrightarrow> codes_valid (fst st'))"
  using assms
proof (induction cs arbitrary: st)
  case (Cons c cs)
  then obtain s1 w1 where s1: "native_step L (fst st, snd st) c (s1, w1)" "native_steps L (s1, w1) cs st'" by auto
  then show ?case using Cons.IH [OF s1(2)] step_in_bounds [OF s1(1)] by (auto intro: outside_trans)
qed simp

section \<open>Properties of the hooks\<close>

lemma pread64_scrubs:
  assumes "orig_pread64 L fd buf count off w = (n, Some b, w')" and "0 < n" and "nat n \<le> length b"
    and "get_fd_type s fd \<noteq> PROC_STATUS"
  shows "\<exists>b' n'. hook_pread64 L fd buf count off s w = (n', Some b', s, w')
    \<and> lines_of (take (nat n') b') = type_filter (get_fd_type s fd) (g_self_path s) (lines_of (take (nat n) b))
    \<and> nat n' \<le> nat n \<and> length b' = length b \<and> drop (nat n) b' = drop (nat n) b"
proof (cases "get_fd_type s fd = NONE")
  case True
  then show ?thesis using assms(1,2) by (simp add: hook_pread64_def)
next
  case False
  obtain b' n' where r: "sanitize_by_type (get_fd_type s fd) (g_self_path s) (Some b) n = (Some b', n')"
    and sc: "scrubbed (type_filter (get_fd_type s fd) (g_self_path s)) b (nat n) b' n'"
    using sanitize_by_type_scrubs [OF assms(2-4) False] .
  have "hook_pread64 L fd buf count off s w = (n', Some b', s, w')"
    using assms(1,2) False r by (simp add: hook_pread64_def)
  then show ?thesis using scrubbed_type_lines [OF sc] sc by (auto simp: scrubbed_def)
qed

text \<open>C18: on a tracked descriptor \<open>hook_pread64\<close> delivers exactly the lines of the chunk that the
  class's filter keeps, in order, with the matching count, and nothing outside the chunk changes.\<close>

theorem pread64_filters:
  assumes "orig_pread64 L fd buf count off w = (n, Some b, w')" and "0 < n" and "nat n \<le> length b"
    and "get_fd_type s fd \<noteq> PROC_STATUS"
  shows "\<exists>b' n'. hook_pread64 L fd buf count off s w = (n', Some b', s, w')
    \<and> lines_of (take (nat n') b') = type_filter (get_fd_type s fd) (g_self_path s) (lines_of (take (nat n) b))
    \<and> nat n' \<le> nat n \<and> length b' = length b \<and> drop (nat n) b' = drop (nat n) b"
  using pread64_scrubs [OF assms] .

text \<open>C17: the same for \<open>hook_read\<close>, on a descriptor that is not a tracked netlink socket.\<close>

theorem read_filters:
  assumes "orig_read L fd buf count w = (n, Some b, w')" and "0 < n" and "nat n \<le> length b"
    and "get_fd_type s fd \<noteq> PROC_STATUS" and "\<not> is_nl_socket s fd"
  shows "\<exists>b' n'. hook_read L fd buf count s w = Some (n', Some b', s, w')
    \<and> lines_of (take (nat n') b') = type_filter (get_fd_type s fd) (g_self_path s) (lines_of (take (nat n) b))
    \<and> nat n' \<le> nat n \<and> length b' = length b \<and> drop (nat n) b' = drop (nat n) b"
proof (cases "get_fd_type s fd = NONE")
  case True
  then show ?thesis using assms(1,2,5) by (simp add: hook_read_def)
next
  case False
  obtain b' n' where r: "sanitize_by_type (get_fd_type s fd) (g_self_path s) (Some b) n = (Some b', n')"
    and sc: "scrubbed (type_filter (get_fd_type s fd) (g_self_path s)) b (nat n) b' n'"
    using sanitize_by_type_scrubs [OF assms(2-4) False] .
  have "hook_read L fd buf count s w = Some (n', Some b', s, w')"
    using assms(1,2,5) False r by (simp add: hook_read_def)
  then show ?thesis using scrubbed_type_lines [OF sc] sc by (auto simp: scrubbed_def)
qed

text \<open>C26: on a descriptor of a status file the chunk keeps its length, and the value after the
  first \<open>TracerPid:\<close> tag reads zero, padded with blanks, whatever it was.\<close>

theorem read_hides_tracer:
  assumes "orig_read L fd buf count w = (n, Some b, w')" and "0 < n" and "nat n \<le> length b"
    and "get_fd_type s fd = PROC_STATUS" and "\<not> is_nl_socket s fd"
    and "status_shape (take (nat n) b) pre val rest" and "val \<noteq> []"
  shows "hook_read L fd buf count s w =
    Some (n, Some (pre @ tracer_tag @ [48] @ replicate (length val - 1) 32 @ rest @ drop (nat n) b), s, w')"
proof -
  have sh: "take (nat n) b = pre @ tracer_tag @ val @ rest" using assms(6) by (simp add: status_shape_def)
  have "b = take (nat n) b @ drop (nat n) b" by simp
  then have b: "b = pre @ tracer_tag @ val @ rest @ drop (nat n) b" unfolding sh by simp
  have "status_edit b (nat n) = pre @ tracer_tag @ [48] @ replicate (length val - 1) 32 @ rest @ drop (nat n) b"
    using status_edit_shape [OF assms(3,6)] assms(7) b by (cases "val = [48]") simp_all
  then show ?thesis
    using assms(1,2,4,5) by (simp add: hook_read_def sanitize_by_type_def sanitize_status_def)
qed

text \<open>The class of a descriptor from its open on.\<close>

lemma opened_type:
  assumes "native_step L st (Opened path fd) st1" and "native_steps L st1 cs st2"
    and "\<forall>c \<in> set cs. c \<noteq> Closed fd \<and> (\<forall>p. c = Opened p fd \<longrightarrow> classify_path p = NONE)"
    and "0 \<le> fd" and "fd < 65536" and "classify_path path \<noteq> NONE"
  shows "get_fd_type (fst st2) fd = classify_path path"
proof -
  have "\<forall>c \<in> set cs. \<forall>op \<in> set (fd_ops c). \<not> fdt.touches fd op"
  proof (intro ballI)
    fix c op
    assume "c \<in> set cs" "op \<in> set (fd_ops c)"
    then show "\<not> fdt.touches fd op" using assms(3) by - (cases c; auto)
  qed
  from steps_untouched [OF assms(2) this]
  have "get_fd_type (fst st2) fd = get_fd_type (fst st1) fd" .
  moreover have "get_fd_type (fst st1) fd = classify_path path"
    using opened_state [of L "fst st" "snd st" path fd "fst st1" "snd st1"] assms(1,4-6)
    by (simp add: fdt.get_put_same fd_in_table_def)
  ultimately show ?thesis by simp
qed

text \<open>C1: from the open of a sensitive path until the descriptor is closed or opened again,
  every positioned read of it is filtered by the class of that path, whatever other hooked
  calls happen in between.\<close>

theorem opened_stays_filtered:
  assumes "native_step L st (Opened path fd) st1" and "native_steps L st1 cs (s, w)"
    and "\<forall>c \<in> set cs. c \<noteq> Closed fd \<and> (\<forall>p. c = Opened p fd \<longrightarrow> classify_path p = NONE)"
    and "0 \<le> fd" and "fd < 65536" and "classify_path path \<notin> {NONE, PROC_STATUS}"
    and "orig_pread64 L fd buf count off w = (n, Some b, w')" and "0 < n" and "nat n \<le> length b"
  shows "\<exists>b' n'. hook_pread64 L fd buf count off s w = (n', Some b', s, w')
    \<and> lines_of (take (nat n') b') = type_filter (classify_path path) (g_self_path s) (lines_of (take (nat n) b))"
proof -
  have "get_fd_type s fd = classify_path path"
    using opened_type [OF assms(1-5)] assms(6) by simp
  then show ?thesis using pread64_scrubs [OF assms(7-9), of s] assms(6) by auto
qed

text \<open>C27: after \<open>hook_close\<close> and until the next sensitive open or netlink socket, reads of
  the descriptor are delivered as they are.\<close>

theorem closed_is_transparent:
  assumes "native_step L st (Closed fd) st1" and "native_steps L st1 cs (s, w)"
    and "\<forall>c \<in> set cs. (\<forall>p. c = Opened p fd \<longrightarrow> classify_path p = NONE)
           \<and> (\<forall>d p. c = Socketed d p fd \<longrightarrow> \<not> (d = AF_NETLINK \<and> p = NETLINK_ROUTE))"
    and "orig_read L fd buf count w = (n, b, w')"
  shows "hook_read L fd buf count s w = Some (n, b, s, w')"
proof -
  have "get_fd_type (fst st1) fd = NONE \<and> \<not> is_nl_socket (fst st1) fd"
    using closed_state [of L "fst st" "snd st" fd "fst st1" "snd st1"] assms(1)
    by (simp add: fdt.get_after_clear nlt.get_after_clear)
  then have "get_fd_type s fd = NONE \<and> \<not> is_nl_socket s fd"
    using steps_stay_absent [OF assms(2)] assms(3) by simp
  then show ?thesis using assms(4) by (simp add: hook_read_def)
qed

text \<open>C28: no sequence of hooked calls, with any descriptors and interface indices, writes a cell outside
  the three arrays of \<open>fd_tracker.h\<close>, whatever stands there; what the hooks read from the tables
  afterwards does not depend on the cells outside either; and the descriptor table, which starts with
  codes of the enumeration, only ever holds such codes.\<close>

theorem tables_always_in_bounds:
  assumes "native_steps L (s0, w0) cs (s, w)" and "codes_valid s0"
  shows "outside_unchanged s0 s \<and> codes_valid s
    \<and> (\<forall>t. same_inside s t \<longrightarrow> get_fd_type t = get_fd_type s \<and> is_nl_socket t = is_nl_socket s
          \<and> is_vpn_iface_idx t = is_vpn_iface_idx s)"
  using steps_in_bounds [OF assms(1)] assms(2) by (auto simp: tracker_reads_inside)

text \<open>C2: from the creation of a route netlink socket until it is closed, everything
  \<open>hook_recv\<close> delivers from it went through \<open>sanitize_netlink\<close>; with five readable bytes after
  the data that always succeeds, and every link announcement of a VPN interface in it is blank.\<close>

theorem netlink_socket_filtered:
  assumes "native_step L st (Socketed AF_NETLINK NETLINK_ROUTE fd) st1" and "native_steps L st1 cs (s, w)"
    and "Closed fd \<notin> set cs" and "0 \<le> fd" and "fd < 65536"
    and "orig_recv L fd buf len flags w = (n, Some b, w')" and "0 < n" and "n < 2 ^ 31"
    and "nat n + 5 \<le> length b"
  shows "\<exists>b' s'. hook_recv L fd buf len flags s w = Some (n, Some b', s', w') \<and> length b' = length b
    \<and> (\<forall>p \<in> set (nl_offsets b 0 n). announces_vpn_link b p \<longrightarrow> le16 b' (p + 4) = NLMSG_NOOP)"
proof -
  have "is_nl_socket (fst st1) fd"
    using socketed_state [of L "fst st" "snd st" AF_NETLINK NETLINK_ROUTE fd "fst st1" "snd st1"] assms(1,4,5)
    by (simp add: nlt.get_put_same fd_in_table_def)
  then have nl: "is_nl_socket s fd" using steps_nl_kept [OF assms(2,3)] by simp
  obtain b' s' where r: "sanitize_netlink (Some b) n s = Some (Some b', s')" "length b' = length b"
    using nl_walk_safe [OF assms(8,9)] by blast
  then have "hook_recv L fd buf len flags s w = Some (n, Some b', s', w')"
    using assms(6,7) nl by (simp add: hook_recv_def)
  then show ?thesis
    using nl_walk_links [OF r(1) assms(7,8)] assms(9) r(2) by auto
qed

section \<open>Witnesses\<close>

text \<open>A small C library: descriptor 5, and every read delivers the world's bytes.\<close>

definition demo_libc :: "byte list libc" where
  "demo_libc =
     \<lparr>orig_open = (\<lambda>path flags mode w. (5, w)),
      orig_openat = (\<lambda>dirfd path flags mode w. (5, w)),
      orig_fopen = (\<lambda>path mode w. (Some 0, w)),
      fileno = (\<lambda>fp w. 5),
      orig_read = (\<lambda>fd buf count w. (int (length w), Some w, w)),
      orig_pread64 = (\<lambda>fd buf count off w. (int (length w), Some w, w)),
      orig_close = (\<lambda>fd w. (0, w)),
      orig_socket = (\<lambda>domain type protocol w. (5, w)),
      orig_recvmsg = (\<lambda>fd msg flags w. (int (length w), msg, w)),
      orig_recv = (\<lambda>fd buf len flags w. (int (length w) - 5, Some w, w)),
      orig_recvfrom = (\<lambda>fd buf len flags w. (int (length w) - 5, Some w, w))\<rparr>"

definition demo_maps :: "byte list" where
  "demo_maps = lit ''libc'' @ [10] @ lit ''frida-agent'' @ [10] @ lit ''heap''"

abbreviation "maps_path \<equiv> Some (lit ''/proc/self/maps'' @ [0])"

lemma demo_filter:
  "type_filter PROC_MAPS (replicate 512 0) (lines_of demo_maps) = [lit ''libc'' @ [10], lit ''heap'']"
  by code_simp

lemma demo_class: "classify_path maps_path = PROC_MAPS"
  by code_simp

abbreviation "maps_state \<equiv> track_fd 5 PROC_MAPS init_native"

lemma demo_state:
  "get_fd_type maps_state 5 = PROC_MAPS" "\<not> is_nl_socket maps_state 5"
  "g_self_path maps_state = replicate 512 0"
proof -
  show "get_fd_type maps_state 5 = PROC_MAPS" by (simp add: fdt.get_put_same fd_in_table_def)
qed (simp_all add: is_nl_socket_def track_fd_def init_native_def init_tracker_def tracker.extend_def)

lemma demo_reads:
  "orig_pread64 demo_libc fd buf count off w = (int (length w), Some w, w)"
  "orig_read demo_libc fd buf count w = (int (length w), Some w, w)"
  "length demo_maps = 21"
  by (simp_all add: demo_libc_def demo_maps_def lit_def)

lemma demo_open:
  "native_step demo_libc (init_native, w) (Opened maps_path 5) (maps_state, w)"
proof (rule step_open)
  show "hook_open demo_libc maps_path 0 0 init_native w = (5, maps_state, w)"
    by (simp add: hook_open_def demo_libc_def track_opened_put demo_class)
qed

lemma pread64_filters_witness:
  "\<exists>b' n'. hook_pread64 demo_libc 5 None 100 0 maps_state demo_maps = (n', Some b', maps_state, demo_maps)
     \<and> lines_of (take (nat n') b') = [lit ''libc'' @ [10], lit ''heap'']"
  using pread64_filters [OF demo_reads(1), of demo_maps maps_state 5 None 100 0]
  by (auto simp: demo_reads(3) demo_state demo_filter simp del: type_filter.simps untrack_frame)

lemma read_filters_witness:
  "\<exists>b' n'. hook_read demo_libc 5 None 100 maps_state demo_maps = Some (n', Some b', maps_state, demo_maps)
     \<and> lines_of (take (nat n') b') = [lit ''libc'' @ [10], lit ''heap'']"
  using read_filters [OF demo_reads(2), of demo_maps maps_state 5 None 100]
  by (auto simp: demo_reads(3) demo_state demo_filter simp del: type_filter.simps untrack_frame)

lemma opened_stays_filtered_witness:
  "\<exists>b' n'. hook_pread64 demo_libc 5 None 100 0 maps_state demo_maps = (n', Some b', maps_state, demo_maps)
     \<and> lines_of (take (nat n') b') = [lit ''libc'' @ [10], lit ''heap'']"
  using opened_stays_filtered [OF demo_open, of demo_maps "[]" maps_state demo_maps
      None 100 0 "21" demo_maps demo_maps]
  by (auto simp: demo_reads demo_state demo_filter demo_class simp del: type_filter.simps)

definition demo_status :: "byte list" where
  "demo_status = lit ''Pid:7'' @ [10] @ tracer_tag @ lit ''1234'' @ [10] @ lit ''Uid:0''"

lemma demo_status_shape:
  "status_shape demo_status (lit ''Pid:7'' @ [10]) (lit ''1234'') ([10] @ lit ''Uid:0'')"
  by code_simp

abbreviation "status_state \<equiv> track_fd 5 PROC_STATUS init_native"

lemma read_hides_tracer_witness:
  "hook_read demo_libc 5 None 100 status_state demo_status =
     Some (int (length demo_status),
           Some ((lit ''Pid:7'' @ [10]) @ tracer_tag @ [48] @ replicate (length (lit ''1234'') - 1) 32
                 @ ([10] @ lit ''Uid:0'') @ drop (nat (int (length demo_status))) demo_status),
           status_state, demo_status)"
proof (rule read_hides_tracer)
  show "orig_read demo_libc 5 None 100 demo_status = (int (length demo_status), Some demo_status, demo_status)"
    by (rule demo_reads)
  show "status_shape (take (nat (int (length demo_status))) demo_status) (lit ''Pid:7'' @ [10]) (lit ''1234'')
      ([10] @ lit ''Uid:0'')" using demo_status_shape by simp
  show "get_fd_type status_state 5 = PROC_STATUS" by (simp add: fdt.get_put_same fd_in_table_def)
  show "\<not> is_nl_socket status_state 5"
    by (simp add: is_nl_socket_def track_fd_def init_native_def init_tracker_def tracker.extend_def)
qed (simp_all add: demo_status_def lit_def)

lemma closed_is_transparent_witness:
  "hook_read demo_libc 5 None 100 (untrack_nl_socket 5 (untrack_fd 5 maps_state)) demo_maps
     = Some (21, Some demo_maps, untrack_nl_socket 5 (untrack_fd 5 maps_state), demo_maps)"
proof (rule closed_is_transparent [where cs = "[]"])
  show "native_step demo_libc (maps_state, demo_maps) (Closed 5) (untrack_nl_socket 5 (untrack_fd 5 maps_state), demo_maps)"
    by (rule step_close [where r = 0]) (simp add: hook_close_def demo_libc_def)
qed (simp_all add: demo_reads)

text \<open>Closing a negative descriptor, with a byte before the array.\<close>

abbreviation "neighbour_state \<equiv> init_native\<lparr>g_fd_table := (g_fd_table init_native)(- 1 := 9)\<rparr>"

lemma tables_always_in_bounds_witness:
  "outside_unchanged neighbour_state (untrack_nl_socket (- 1) (untrack_fd (- 1) neighbour_state))
    \<and> g_fd_table (untrack_nl_socket (- 1) (untrack_fd (- 1) neighbour_state)) (- 1) = 9"
proof -
  let ?s = "untrack_nl_socket (- 1) (untrack_fd (- 1) neighbour_state)"
  have c: "codes_valid neighbour_state"
    using init_codes by (simp add: codes_valid_def init_native_def init_tracker_def tracker.extend_def fd_in_table_def)
  have st: "native_step demo_libc (neighbour_state, []) (Closed (- 1)) (?s, [])"
    by (rule step_close [where r = 0]) (simp add: hook_close_def demo_libc_def)
  have "native_steps demo_libc (neighbour_state, []) [Closed (- 1)] (?s, [])"
    using st by auto
  from tables_always_in_bounds [OF this c] have "outside_unchanged neighbour_state ?s" by blast
  moreover from this have "g_fd_table ?s (- 1) = g_fd_table neighbour_state (- 1)"
    unfolding outside_unchanged_def by (simp add: fd_in_table_def)
  ultimately show ?thesis by simp
qed

abbreviation "nl_state \<equiv> track_nl_socket 5 init_native"

lemma netlink_socket_filtered_witness:
  "\<exists>b' s'. hook_recv demo_libc 5 None 100 0 nl_state link_msg = Some (40, Some b', s', link_msg)
     \<and> le16 b' 4 = NLMSG_NOOP"
proof -
  have s: "native_step demo_libc (init_native, link_msg) (Socketed AF_NETLINK NETLINK_ROUTE 5) (nl_state, link_msg)"
    by (rule step_socket [where type = 3]) (simp add: hook_socket_def demo_libc_def)
  have r: "orig_recv demo_libc 5 None 100 0 link_msg = (40, Some link_msg, link_msg)"
    by (simp add: demo_libc_def msgs_facts)
  have "announces_vpn_link link_msg 0" by (simp add: announces_vpn_link_def msgs_facts)
  then show ?thesis
    using netlink_socket_filtered [OF s, of "[]" nl_state link_msg None 100 0 40 link_msg link_msg] r
    by (auto simp: msgs_facts)
qed

section \<open>Limits of the hooks\<close>

text \<open>
  A filter sees one chunk at a time. A caller that reads byte by byte receives the whole file:
  no needle of the lists fits in a line of one byte.
\<close>

lemma ci_contains_length: "ci_contains l n \<Longrightarrow> length (ctext n) \<le> length l"
  unfolding ci_contains_def using sublist_length_le by fastforce

lemma needle_lengths:
  "\<forall>n \<in> set MAPS_BLOCKLIST. 2 \<le> length (ctext n)"
  "\<forall>n \<in> set MOUNTS_BLOCKLIST. 2 \<le> length (ctext n)"
  by code_simp+

lemma single_byte_kept:
  assumes "type \<in> {PROC_MAPS, PROC_MOUNTS}" and "length (ctext self) \<noteq> 1"
  shows "type_filter type self [[c]] = [[c]]"
proof -
  have no: "\<not> ci_contains [c] n" if "2 \<le> length (ctext n)" for n
    using ci_contains_length [of "[c]" n] that by auto
  have "\<not> ci_contains [c] self" if "ctext self \<noteq> []"
    using no [of self] that assms(2) by (cases "ctext self"; cases "tl (ctext self)") auto
  then show ?thesis
    using assms(1) no needle_lengths by (auto simp: maps_drop_def mounts_drop_def)
qed

text \<open>C33: a one-byte read of a maps or mounts file is delivered unfiltered, so a caller that
  reads byte by byte sees every line the filter is there to hide.\<close>

theorem single_byte_reads_leak:
  assumes "orig_pread64 L fd buf 1 off w = (1, Some [c], w')"
    and "get_fd_type s fd \<in> {PROC_MAPS, PROC_MOUNTS}" and "length (ctext (g_self_path s)) \<noteq> 1"
  shows "hook_pread64 L fd buf 1 off s w = (1, Some [c], s, w')"
proof -
  obtain b' n' where r: "sanitize_by_type (get_fd_type s fd) (g_self_path s) (Some [c]) 1 = (Some b', n')"
    and sc: "scrubbed (type_filter (get_fd_type s fd) (g_self_path s)) [c] (nat 1) b' n'"
    by (rule sanitize_by_type_scrubs [of 1 "[c]" "get_fd_type s fd" "g_self_path s"]) (use assms(2) in auto)
  have "lines_of [c] = [[c]]" by simp
  then have "nat n' = 1" "take (nat n') b' = [c]" "length b' = 1" "0 \<le> n'"
    using sc single_byte_kept [OF assms(2,3)] by (auto simp: scrubbed_def)
  then have "b' = [c]" "n' = 1" by (auto simp: nat_eq_iff)
  then show ?thesis using assms(1,2) r by (auto simp: hook_pread64_def)
qed

lemma single_byte_reads_leak_witness:
  "hook_pread64 demo_libc 5 None 1 0 maps_state [102] = (1, Some [102], maps_state, [102])"
proof (rule single_byte_reads_leak)
  show "orig_pread64 demo_libc 5 None 1 0 [102] = (1, Some [102], [102])" by (simp add: demo_reads)
  show "get_fd_type maps_state 5 \<in> {PROC_MAPS, PROC_MOUNTS}" using demo_state(1) by simp
  show "length (ctext (g_self_path maps_state)) \<noteq> 1" unfolding demo_state(3) by (simp add: ctext_def)
qed

text \<open>C34: a descriptor that was opened for a sensitive path and closed without \<open>hook_close\<close> (by the C
  library itself, a duplication or a raw system call) keeps its class when the number is given to a
  file of no class: \<open>hook_open\<close> does not clear it. Reads of the unrelated file go through the old
  filter, and any line that filter drops is missing from what the caller receives. Paths of status files
  are left aside here: their filter edits a value and drops no line.\<close>

theorem open_keeps_stale_entry:
  assumes "native_step L st (Opened path fd) st1" and "native_steps L st1 (cs @ [Opened path' fd]) (s, w)"
    and "\<forall>c \<in> set cs. c \<noteq> Closed fd \<and> (\<forall>p. c = Opened p fd \<longrightarrow> classify_path p = NONE)"
    and "0 \<le> fd" and "fd < 65536" and "classify_path path \<notin> {NONE, PROC_STATUS}" and "classify_path path' = NONE"
    and "orig_pread64 L fd buf count off w = (n, Some b, w')" and "0 < n" and "nat n \<le> length b"
    and "l \<in> set (lines_of (take (nat n) b))"
    and "l \<notin> set (type_filter (classify_path path) (g_self_path s) (lines_of (take (nat n) b)))"
  shows "\<exists>b' n'. hook_pread64 L fd buf count off s w = (n', Some b', s, w')
    \<and> l \<notin> set (lines_of (take (nat n') b')) \<and> take (nat n') b' \<noteq> take (nat n) b"
proof -
  have "\<forall>c \<in> set (cs @ [Opened path' fd]). c \<noteq> Closed fd \<and> (\<forall>p. c = Opened p fd \<longrightarrow> classify_path p = NONE)"
    using assms(3,7) by auto
  from opened_type [OF assms(1,2) this assms(4,5)]
  have t: "get_fd_type s fd = classify_path path" using assms(6) by simp
  obtain b' n' where h: "hook_pread64 L fd buf count off s w = (n', Some b', s, w')"
      "lines_of (take (nat n') b') = type_filter (classify_path path) (g_self_path s) (lines_of (take (nat n) b))"
    using pread64_scrubs [OF assms(8-10), of s] assms(6) unfolding t by auto
  then show ?thesis using assms(11,12) by auto
qed

text \<open>A hosts file read through the filter of the memory map it replaced.\<close>

abbreviation "hosts_path \<equiv> Some (lit ''/etc/hosts'' @ [0])"

lemma open_keeps_stale_entry_witness:
  "\<exists>b' n'. hook_pread64 demo_libc 5 None 100 0 maps_state demo_maps = (n', Some b', maps_state, demo_maps)
     \<and> lit ''frida-agent'' @ [10] \<notin> set (lines_of (take (nat n') b'))"
proof -
  have no: "classify_path hosts_path = NONE" by code_simp
  have "hook_open demo_libc hosts_path 0 0 maps_state demo_maps = (5, maps_state, demo_maps)"
    by (simp add: hook_open_def demo_libc_def track_opened_def no)
  then have "native_step demo_libc (maps_state, demo_maps) (Opened hosts_path 5) (maps_state, demo_maps)"
    by (rule step_open)
  then have run: "native_steps demo_libc (maps_state, demo_maps) ([] @ [Opened hosts_path 5]) (maps_state, demo_maps)"
    by auto
  have lines: "lit ''frida-agent'' @ [10] \<in> set (lines_of demo_maps)" by code_simp
  have dropped: "lit ''frida-agent'' @ [10] \<notin> set (type_filter PROC_MAPS (replicate 512 0) (lines_of demo_maps))"
    unfolding demo_filter by code_simp
  have "\<exists>b' n'. hook_pread64 demo_libc 5 None 100 0 maps_state demo_maps = (n', Some b', maps_state, demo_maps)
     \<and> lit ''frida-agent'' @ [10] \<notin> set (lines_of (take (nat n') b')) \<and> take (nat n') b' \<noteq> take (nat 21) demo_maps"
    by (rule open_keeps_stale_entry [OF demo_open run, where n = 21 and b = demo_maps and w' = demo_maps])
      (use no lines dropped in \<open>simp_all add: demo_class demo_state demo_reads del: type_filter.simps\<close>)
  then show ?thesis by blast
qed

text \<open>
  With \<open>MSG_TRUNC\<close> the kernel returns the length of the message and not of what it stored; the
  hook walks the message's length over a shorter buffer.
\<close>

definition trunc_libc :: "unit libc" where
  "trunc_libc =
     \<lparr>orig_open = (\<lambda>path flags mode w. (5, w)),
      orig_openat = (\<lambda>dirfd path flags mode w. (5, w)),
      orig_fopen = (\<lambda>path mode w. (Some 0, w)),
      fileno = (\<lambda>fp w. 5),
      orig_read = (\<lambda>fd buf count w. (0, buf, w)),
      orig_pread64 = (\<lambda>fd buf count off w. (0, buf, w)),
      orig_close = (\<lambda>fd w. (0, w)),
      orig_socket = (\<lambda>domain type protocol w. (5, w)),
      orig_recvmsg = (\<lambda>fd msg flags w. (0, msg, w)),
      orig_recv = (\<lambda>fd buf len flags w. (40, Some (take len link_msg), w)),
      orig_recvfrom = (\<lambda>fd buf len flags w. (40, Some (take len link_msg), w))\<rparr>"

lemma recv_truncated_overread:
  "hook_recv trunc_libc 5 (Some (replicate 20 0)) 20 0x20 (track_nl_socket 5 init_native) () = None"
proof -
  have r: "orig_recv trunc_libc 5 (Some (replicate 20 0)) 20 0x20 () = (40, Some (take 20 link_msg), ())"
    by (simp add: trunc_libc_def)
  have nl: "is_nl_socket (track_nl_socket 5 init_native) 5"
    by (simp add: is_nl_socket_def track_nl_socket_def)
  have "sanitize_netlink (Some (take 20 link_msg)) 40 s = None" for s :: native
  proof -
    have "c_int 40 = 40" by (simp add: c_int_def)
    moreover have "ld32 (take 20 link_msg) 0 = Some 40" "ld16 (take 20 link_msg) 4 = Some 16"
      "attr_name_is_vpn 3 (take 20 link_msg) 32 8 = None" by code_simp+
    ultimately show ?thesis
      by (simp add: sanitize_netlink_def nl_loop_classify) (subst nl_classify.simps, simp add: nl_verdict_def)
  qed
  then show ?thesis using r nl by (simp add: hook_recv_def)
qed

end
