(* ===== verification/X86_Spec.thy ===== *)
theory X86_Spec
  imports Prelude
begin

text \<open>
  The data of the x86 instruction decoder (\<open>x86_insn_decode.h\<close> and the macros at the head of
  \<open>x86_insn_decode.c\<close>): flags, prefixes, operand and instruction specifications, the fields of
  a decoded instruction. An operand specification is the two characters the macro stringizes.
\<close>

unbundle bit_operations_syntax

section \<open>Flags\<close>

abbreviation (input) "X86_INSN_SPEC_DEFAULT_64_BIT \<equiv> 1 :: u16"

abbreviation (input) "X86_INSN_DECODE_FLAG_HAS_BASE \<equiv> 1 :: u32"
abbreviation (input) "X86_INSN_DECODE_FLAG_HAS_INDEX \<equiv> 2 :: u32"
abbreviation (input) "X86_INSN_DECODE_FLAG_IS_ADDRESS \<equiv> 4 :: u32"
abbreviation (input) "X86_INSN_DECODE_FLAG_IP_RELATIVE \<equiv> 8 :: u32"
abbreviation (input) "X86_INSN_DECODE_FLAG_OPERAND_SIZE_64 \<equiv> 16 :: u32"

datatype x86_insn_prefix =
  INSN_PREFIX_NONE | INSN_PREFIX_LOCK | INSN_PREFIX_REPNZ | INSN_PREFIX_REP | INSN_PREFIX_ES
| INSN_PREFIX_CS | INSN_PREFIX_SS | INSN_PREFIX_DS | INSN_PREFIX_FS | INSN_PREFIX_GS
| INSN_PREFIX_OPERAND_SIZE | INSN_PREFIX_ADDRESS_SIZE

fun prefix_code :: "x86_insn_prefix \<Rightarrow> u32" where
  "prefix_code INSN_PREFIX_NONE = 0"
| "prefix_code INSN_PREFIX_LOCK = 0x01"
| "prefix_code INSN_PREFIX_REPNZ = 0x02"
| "prefix_code INSN_PREFIX_REP = 0x04"
| "prefix_code INSN_PREFIX_ES = 0x0008"
| "prefix_code INSN_PREFIX_CS = 0x0010"
| "prefix_code INSN_PREFIX_SS = 0x0020"
| "prefix_code INSN_PREFIX_DS = 0x0040"
| "prefix_code INSN_PREFIX_FS = 0x0080"
| "prefix_code INSN_PREFIX_GS = 0x0100"
| "prefix_code INSN_PREFIX_OPERAND_SIZE = 0x0200"
| "prefix_code INSN_PREFIX_ADDRESS_SIZE = 0x0400"

section \<open>Instruction specifications\<close>

record x86_insn_operand_spec =
  op_code :: char
  op_type :: char

record x86_insn_spec =
  spec_name :: string
  spec_operands :: "x86_insn_operand_spec list"
  spec_flags :: u16

text \<open>\<open>{.data = #o}\<close>: the first two characters of the stringized operand.\<close>

definition operand :: "string \<Rightarrow> x86_insn_operand_spec" where
  "operand s = \<lparr>op_code = (case s of [] \<Rightarrow> CHR 0x00 | c # _ \<Rightarrow> c),
                op_type = (case s of _ # t # _ \<Rightarrow> t | _ \<Rightarrow> CHR 0x00)\<rparr>"

definition op3f :: "string \<Rightarrow> u16 \<Rightarrow> string \<Rightarrow> string \<Rightarrow> string \<Rightarrow> x86_insn_spec" where
  "op3f x f o0 o1 o2 = \<lparr>spec_name = x, spec_operands = [operand o0, operand o1, operand o2], spec_flags = f\<rparr>"

definition op2f :: "string \<Rightarrow> u16 \<Rightarrow> string \<Rightarrow> string \<Rightarrow> x86_insn_spec" where
  "op2f x f o0 o1 = op3f x f o0 o1 ''__''"

definition op1f :: "string \<Rightarrow> u16 \<Rightarrow> string \<Rightarrow> x86_insn_spec" where
  "op1f x f o0 = op2f x f o0 ''__''"

definition op0f :: "string \<Rightarrow> u16 \<Rightarrow> x86_insn_spec" where
  "op0f x f = op1f x f ''__''"

definition op3 :: "string \<Rightarrow> string \<Rightarrow> string \<Rightarrow> string \<Rightarrow> x86_insn_spec" where
  "op3 x o0 o1 o2 = op3f x 0 o0 o1 o2"

definition op2 :: "string \<Rightarrow> string \<Rightarrow> string \<Rightarrow> x86_insn_spec" where
  "op2 x o0 o1 = op2f x 0 o0 o1"

definition op1 :: "string \<Rightarrow> string \<Rightarrow> x86_insn_spec" where
  "op1 x o0 = op1f x 0 o0"

definition op0 :: "string \<Rightarrow> x86_insn_spec" where
  "op0 x = op0f x 0"

section \<open>Groups\<close>

text \<open>The enumerators of the two families of groups, in order, and the flag of a group.\<close>

definition X86_INSN_FLAG_SET_GROUP :: "u16 \<Rightarrow> u16" where
  "X86_INSN_FLAG_SET_GROUP n = push_bit 5 n"

definition X86_INSN_FLAG_GET_GROUP :: "u16 \<Rightarrow> nat" where
  "X86_INSN_FLAG_GET_GROUP f = unat (drop_bit 5 f AND 63)"

abbreviation (input) "X86_INSN_GROUP_START \<equiv> 0 :: nat"
abbreviation (input) "X86_INSN_SSE_GROUP_START \<equiv> 19 :: nat"
abbreviation (input) "X86_INSN_GROUP_END \<equiv> 35 :: nat"

definition foreach_x86_insn_modrm_reg_group :: "string list" where
  "foreach_x86_insn_modrm_reg_group =
     [''1'', ''1a'', ''2'', ''3'', ''4'', ''5'', ''6'', ''7'', ''8'', ''9'', ''10'', ''11'', ''12'',
      ''13'', ''14'', ''15'', ''16'', ''p'']"

definition foreach_x86_insn_sse_group :: "string list" where
  "foreach_x86_insn_sse_group =
     [''10'', ''28'', ''50'', ''58'', ''60'', ''68'', ''70'', ''78'', ''c0'', ''d0'', ''d8'', ''e0'',
      ''e8'', ''f0'', ''f8'']"

abbreviation (input) "X86_INSN_FLAG_MODRM_REG_GROUP_1 \<equiv> X86_INSN_FLAG_SET_GROUP 1"
abbreviation (input) "X86_INSN_FLAG_MODRM_REG_GROUP_1a \<equiv> X86_INSN_FLAG_SET_GROUP 2"
abbreviation (input) "X86_INSN_FLAG_MODRM_REG_GROUP_2 \<equiv> X86_INSN_FLAG_SET_GROUP 3"
abbreviation (input) "X86_INSN_FLAG_MODRM_REG_GROUP_3 \<equiv> X86_INSN_FLAG_SET_GROUP 4"
abbreviation (input) "X86_INSN_FLAG_MODRM_REG_GROUP_4 \<equiv> X86_INSN_FLAG_SET_GROUP 5"
abbreviation (input) "X86_INSN_FLAG_MODRM_REG_GROUP_5 \<equiv> X86_INSN_FLAG_SET_GROUP 6"
abbreviation (input) "X86_INSN_FLAG_MODRM_REG_GROUP_6 \<equiv> X86_INSN_FLAG_SET_GROUP 7"
abbreviation (input) "X86_INSN_FLAG_MODRM_REG_GROUP_7 \<equiv> X86_INSN_FLAG_SET_GROUP 8"
abbreviation (input) "X86_INSN_FLAG_MODRM_REG_GROUP_8 \<equiv> X86_INSN_FLAG_SET_GROUP 9"
abbreviation (input) "X86_INSN_FLAG_MODRM_REG_GROUP_9 \<equiv> X86_INSN_FLAG_SET_GROUP 10"
abbreviation (input) "X86_INSN_FLAG_MODRM_REG_GROUP_10 \<equiv> X86_INSN_FLAG_SET_GROUP 11"
abbreviation (input) "X86_INSN_FLAG_MODRM_REG_GROUP_11 \<equiv> X86_INSN_FLAG_SET_GROUP 12"
abbreviation (input) "X86_INSN_FLAG_MODRM_REG_GROUP_12 \<equiv> X86_INSN_FLAG_SET_GROUP 13"
abbreviation (input) "X86_INSN_FLAG_MODRM_REG_GROUP_13 \<equiv> X86_INSN_FLAG_SET_GROUP 14"
abbreviation (input) "X86_INSN_FLAG_MODRM_REG_GROUP_14 \<equiv> X86_INSN_FLAG_SET_GROUP 15"
abbreviation (input) "X86_INSN_FLAG_MODRM_REG_GROUP_15 \<equiv> X86_INSN_FLAG_SET_GROUP 16"
abbreviation (input) "X86_INSN_FLAG_MODRM_REG_GROUP_16 \<equiv> X86_INSN_FLAG_SET_GROUP 17"
abbreviation (input) "X86_INSN_FLAG_MODRM_REG_GROUP_p \<equiv> X86_INSN_FLAG_SET_GROUP 18"

abbreviation (input) "X86_INSN_FLAG_SSE_GROUP_10 \<equiv> X86_INSN_FLAG_SET_GROUP 20"
abbreviation (input) "X86_INSN_FLAG_SSE_GROUP_28 \<equiv> X86_INSN_FLAG_SET_GROUP 21"
abbreviation (input) "X86_INSN_FLAG_SSE_GROUP_50 \<equiv> X86_INSN_FLAG_SET_GROUP 22"
abbreviation (input) "X86_INSN_FLAG_SSE_GROUP_58 \<equiv> X86_INSN_FLAG_SET_GROUP 23"
abbreviation (input) "X86_INSN_FLAG_SSE_GROUP_60 \<equiv> X86_INSN_FLAG_SET_GROUP 24"
abbreviation (input) "X86_INSN_FLAG_SSE_GROUP_68 \<equiv> X86_INSN_FLAG_SET_GROUP 25"
abbreviation (input) "X86_INSN_FLAG_SSE_GROUP_70 \<equiv> X86_INSN_FLAG_SET_GROUP 26"
abbreviation (input) "X86_INSN_FLAG_SSE_GROUP_78 \<equiv> X86_INSN_FLAG_SET_GROUP 27"
abbreviation (input) "X86_INSN_FLAG_SSE_GROUP_c0 \<equiv> X86_INSN_FLAG_SET_GROUP 28"
abbreviation (input) "X86_INSN_FLAG_SSE_GROUP_d0 \<equiv> X86_INSN_FLAG_SET_GROUP 29"
abbreviation (input) "X86_INSN_FLAG_SSE_GROUP_d8 \<equiv> X86_INSN_FLAG_SET_GROUP 30"
abbreviation (input) "X86_INSN_FLAG_SSE_GROUP_e0 \<equiv> X86_INSN_FLAG_SET_GROUP 31"
abbreviation (input) "X86_INSN_FLAG_SSE_GROUP_e8 \<equiv> X86_INSN_FLAG_SET_GROUP 32"
abbreviation (input) "X86_INSN_FLAG_SSE_GROUP_f0 \<equiv> X86_INSN_FLAG_SET_GROUP 33"
abbreviation (input) "X86_INSN_FLAG_SSE_GROUP_f8 \<equiv> X86_INSN_FLAG_SET_GROUP 34"

section \<open>Macros of the opcode maps\<close>

definition foreach_x86_operand_combine :: "string \<Rightarrow> x86_insn_spec list" where
  "foreach_x86_operand_combine x =
     [op2 x ''Eb'' ''Gb'', op2 x ''Ev'' ''Gv'', op2 x ''Gb'' ''Eb'', op2 x ''Gv'' ''Ev'',
      op2 x ''AL'' ''Ib'', op2 x ''AX'' ''Iz'']"

definition foreach_x86_gp_reg :: "string list" where
  "foreach_x86_gp_reg = [''AX'', ''CX'', ''DX'', ''BX'', ''SP'', ''BP'', ''SI'', ''DI'']"

definition foreach_x86_condition :: "string list" where
  "foreach_x86_condition =
     [''o'', ''no'', ''b'', ''nb'', ''z'', ''nz'', ''be'', ''nbe'', ''s'', ''ns'', ''p'', ''np'',
      ''l'', ''nl'', ''le'', ''nle'']"

section \<open>Registers\<close>

text \<open>\<open>x86_insn_gp_register_t\<close>, the encoding order, and \<open>x86_ia32e_register_t\<close>, which is another.\<close>

abbreviation (input) "X86_INSN_GP_REG_BX \<equiv> 3 :: byte"
abbreviation (input) "X86_INSN_GP_REG_SP \<equiv> 4 :: byte"
abbreviation (input) "X86_INSN_GP_REG_BP \<equiv> 5 :: byte"
abbreviation (input) "X86_INSN_GP_REG_SI \<equiv> 6 :: byte"

datatype x86_ia32e_register =
  RNone | RAX | RBX | RCX | RDX | RDI | RSI | RBP | RSP | R8 | R9 | R10 | R11 | R12 | R13 | R14 | R15 | RIP

fun ia32e_code :: "x86_ia32e_register \<Rightarrow> byte" where
  "ia32e_code RNone = 0"
| "ia32e_code RAX = 1"
| "ia32e_code RBX = 2"
| "ia32e_code RCX = 3"
| "ia32e_code RDX = 4"
| "ia32e_code RDI = 5"
| "ia32e_code RSI = 6"
| "ia32e_code RBP = 7"
| "ia32e_code RSP = 8"
| "ia32e_code R8 = 9"
| "ia32e_code R9 = 10"
| "ia32e_code R10 = 11"
| "ia32e_code R11 = 12"
| "ia32e_code R12 = 13"
| "ia32e_code R13 = 14"
| "ia32e_code R14 = 15"
| "ia32e_code R15 = 16"
| "ia32e_code RIP = 17"

section \<open>Fields of instruction bytes\<close>

definition REX_W :: "byte \<Rightarrow> byte" where "REX_W b = drop_bit 3 (b AND 0x08)"
definition REX_R :: "byte \<Rightarrow> byte" where "REX_R b = drop_bit 2 (b AND 0x04)"
definition REX_X :: "byte \<Rightarrow> byte" where "REX_X b = drop_bit 1 (b AND 0x02)"
definition REX_B :: "byte \<Rightarrow> byte" where "REX_B b = b AND 0x01"

text \<open>\<open>x86_insn_modrm_t\<close> and \<open>x86_insn_sib_t\<close>: a byte and its bit fields.\<close>

definition modrm_mode :: "byte \<Rightarrow> byte" where "modrm_mode b = drop_bit 6 b"
definition modrm_reg :: "byte \<Rightarrow> byte" where "modrm_reg b = drop_bit 3 b AND 7"
definition modrm_rm :: "byte \<Rightarrow> byte" where "modrm_rm b = b AND 7"
definition sib_log2_scale :: "byte \<Rightarrow> byte" where "sib_log2_scale b = drop_bit 6 b"
definition sib_index :: "byte \<Rightarrow> byte" where "sib_index b = drop_bit 3 b AND 7"
definition sib_base :: "byte \<Rightarrow> byte" where "sib_base b = b AND 7"

section \<open>A decoded instruction\<close>

record x86_insn_operand =
  o_reg :: byte
  mem_base :: byte
  mem_index :: byte
  mem_scale :: byte
  mem_disp :: u32

record x86_insn_decode_t =
  i_flags :: u32
  i_length :: u32
  displacement_offset :: byte
  immediate_offset :: byte
  reg_op :: x86_insn_operand
  mem_op :: x86_insn_operand
  i_prefix :: u32
  i_rex :: byte
  primary_opcode :: byte
  i_modrm :: byte
  i_sib :: byte
  i_immediate :: u64
  insn_spec :: x86_insn_spec

text \<open>The caller zeroes the structure before it decodes.\<close>

definition zero_operand :: x86_insn_operand where
  "zero_operand = \<lparr>o_reg = 0, mem_base = 0, mem_index = 0, mem_scale = 0, mem_disp = 0\<rparr>"

definition zero_insn :: x86_insn_decode_t where
  "zero_insn =
     \<lparr>i_flags = 0, i_length = 0, displacement_offset = 0, immediate_offset = 0,
      reg_op = zero_operand, mem_op = zero_operand, i_prefix = 0, i_rex = 0, primary_opcode = 0,
      i_modrm = 0, i_sib = 0, i_immediate = 0,
      insn_spec = \<lparr>spec_name = [], spec_operands = replicate 3 (operand []), spec_flags = 0\<rparr>\<rparr>"

end
