(* ===== verification/X86_Decode.thy ===== *)
theory X86_Decode
  imports X86_Opcode_Tables
begin

text \<open>
  The byte reader (\<open>x86_insn_reader.c\<close>) and the decoder (\<open>x86_insn_decode.c\<close>). Every byte is
  read through the checked cursor of the reader; an access past the reader's memory, an
  abort of the source (\<open>UNIMPLEMENTED\<close>, \<open>UNREACHABLE\<close>, \<open>FATAL\<close>) is an error value.
\<close>

unbundle bit_operations_syntax

datatype x86_error = Overrun | Unimplemented | Unreachable | Fatal

section \<open>The reader\<close>

text \<open>
  \<open>rd_mem\<close> is the memory the cursor moves over: the local buffer of 20 bytes when fewer are
  left, the code itself otherwise. The other pointers are offsets into the same memory.
\<close>

record x86_insn_reader =
  rd_mem :: "byte list"
  rd_prefix :: nat
  rd_opcode :: nat
  rd_modrm :: nat
  rd_cursor :: nat

text \<open>\<open>code\<close> is the memory from \<open>begin\<close> on, \<open>n\<close> the distance to the end pointer.\<close>

definition init_reader :: "byte list \<Rightarrow> nat \<Rightarrow> x86_error + x86_insn_reader" where
  "init_reader code n =
     (if n < 20
      then (if length code < n then Inl Overrun
            else Inr \<lparr>rd_mem = take n code @ replicate (20 - n) 0xcc, rd_prefix = 0, rd_opcode = 0,
                      rd_modrm = 0, rd_cursor = 0\<rparr>)
      else Inr \<lparr>rd_mem = code, rd_prefix = 0, rd_opcode = 0, rd_modrm = 0, rd_cursor = 0\<rparr>)"

definition reader_offset :: "x86_insn_reader \<Rightarrow> u32" where
  "reader_offset rd = of_nat (rd_cursor rd)"

definition peek_byte :: "x86_insn_reader \<Rightarrow> x86_error + byte" where
  "peek_byte rd = (if rd_cursor rd < length (rd_mem rd) then Inr (rd_mem rd ! rd_cursor rd) else Inl Overrun)"

definition advance :: "nat \<Rightarrow> x86_insn_reader \<Rightarrow> x86_insn_reader" where
  "advance k rd = rd\<lparr>rd_cursor := rd_cursor rd + k\<rparr>"

definition read_byte :: "x86_insn_reader \<Rightarrow> x86_error + (byte \<times> x86_insn_reader)" where
  "read_byte rd = ebind (peek_byte rd) (\<lambda>b. Inr (b, advance 1 rd))"

text \<open>The \<open>k\<close> bytes at the cursor, as the little-endian number they are.\<close>

definition load :: "nat \<Rightarrow> x86_insn_reader \<Rightarrow> x86_error + u64" where
  "load k rd =
     (if rd_cursor rd + k \<le> length (rd_mem rd)
      then Inr (fold (\<lambda>b acc. push_bit 8 acc OR ucast b) (rev (take k (drop (rd_cursor rd) (rd_mem rd)))) 0)
      else Inl Overrun)"

definition read_word :: "x86_insn_reader \<Rightarrow> x86_error + (u64 \<times> x86_insn_reader)" where
  "read_word rd = ebind (load 2 rd) (\<lambda>v. Inr (v, advance 2 rd))"

definition read_dword :: "x86_insn_reader \<Rightarrow> x86_error + (u64 \<times> x86_insn_reader)" where
  "read_dword rd = ebind (load 4 rd) (\<lambda>v. Inr (v, advance 4 rd))"

text \<open>Eight bytes are loaded, and the cursor moves by four, as the source has it.\<close>

definition read_qword :: "x86_insn_reader \<Rightarrow> x86_error + (u64 \<times> x86_insn_reader)" where
  "read_qword rd = ebind (load 8 rd) (\<lambda>v. Inr (v, advance 4 rd))"

definition read_imm :: "x86_insn_reader \<Rightarrow> nat \<Rightarrow> x86_error + (u64 \<times> x86_insn_reader)" where
  "read_imm rd width =
     (if width = 8 then ebind (read_byte rd) (\<lambda>(b, rd'). Inr (ucast b, rd'))
      else if width = 16 then read_word rd
      else if width = 32 then read_dword rd
      else Inr (0, rd))"

definition read_modrm :: "x86_insn_reader \<Rightarrow> x86_error + (byte \<times> x86_insn_reader)" where
  "read_modrm rd =
     (let rd' = (if rd_cursor rd = rd_modrm rd then advance 1 rd else rd)
      in if rd_modrm rd < length (rd_mem rd) then Inr (rd_mem rd ! rd_modrm rd, rd') else Inl Overrun)"

definition continue_modrm :: "x86_insn_reader \<Rightarrow> x86_insn_reader" where
  "continue_modrm rd = rd\<lparr>rd_modrm := rd_cursor rd\<rparr>"

definition continue_opcode :: "x86_insn_reader \<Rightarrow> x86_insn_reader" where
  "continue_opcode rd = rd\<lparr>rd_opcode := rd_cursor rd, rd_modrm := rd_cursor rd\<rparr>"

lemma advance_simps [simp]:
  "rd_cursor (advance k rd) = rd_cursor rd + k" "rd_mem (advance k rd) = rd_mem rd"
  "advance 0 rd = rd" "advance k (advance j rd) = advance (j + k) rd"
  by (simp_all add: advance_def add.assoc)

lemma read_byte_Inr:
  "read_byte rd = Inr (b, rd') \<longleftrightarrow>
     rd_cursor rd < length (rd_mem rd) \<and> b = rd_mem rd ! rd_cursor rd \<and> rd' = advance 1 rd"
  by (auto simp: read_byte_def peek_byte_def)

section \<open>Prefixes\<close>

definition legacy_prefix :: "byte \<Rightarrow> x86_insn_prefix" where
  "legacy_prefix c =
     (if c = 0xF0 then INSN_PREFIX_LOCK
      else if c = 0xF2 then INSN_PREFIX_REPNZ
      else if c = 0xF3 then INSN_PREFIX_REP
      else if c = 0x2E then INSN_PREFIX_CS
      else if c = 0x36 then INSN_PREFIX_SS
      else if c = 0x3E then INSN_PREFIX_DS
      else if c = 0x26 then INSN_PREFIX_ES
      else if c = 0x64 then INSN_PREFIX_FS
      else if c = 0x65 then INSN_PREFIX_GS
      else if c = 0x66 then INSN_PREFIX_OPERAND_SIZE
      else if c = 0x67 then INSN_PREFIX_ADDRESS_SIZE
      else INSN_PREFIX_NONE)"

function decode_prefix_loop ::
  "nat \<Rightarrow> u32 \<Rightarrow> x86_insn_reader \<Rightarrow> x86_insn_decode_t
     \<Rightarrow> x86_error + (u32 \<times> x86_insn_reader \<times> x86_insn_decode_t)" where
  "decode_prefix_loop mode insn_prefix rd insn =
     (case peek_byte rd of
        Inl e \<Rightarrow> Inl e
      | Inr c \<Rightarrow>
          if mode = 64 \<and> 0x40 \<le> c \<and> c \<le> 0x4f then
            ebind (read_byte rd) (\<lambda>(rex, rd').
              let insn' = (if REX_W rex \<noteq> 0
                           then insn\<lparr>i_flags := i_flags insn OR X86_INSN_DECODE_FLAG_OPERAND_SIZE_64\<rparr> else insn)
              in Inr (insn_prefix, rd', insn'\<lparr>i_rex := rex\<rparr>))
          else let t = legacy_prefix c
               in if t = INSN_PREFIX_NONE then Inr (insn_prefix, rd, insn)
                  else decode_prefix_loop mode (insn_prefix OR prefix_code t) (advance 1 rd) insn)"
  by pat_completeness auto
termination
  by (relation "measure (\<lambda>(_, _, rd, _). length (rd_mem rd) - rd_cursor rd)")
    (auto simp: peek_byte_def split: if_splits)

declare decode_prefix_loop.simps [simp del]

definition x86_insn_decode_prefix ::
  "x86_insn_reader \<Rightarrow> x86_insn_decode_t \<Rightarrow> nat \<Rightarrow> x86_error + (u32 \<times> x86_insn_reader \<times> x86_insn_decode_t)" where
  "x86_insn_decode_prefix rd insn mode = decode_prefix_loop mode 0 rd insn"

section \<open>Questions about a specification\<close>

definition x86_insn_has_modrm_byte :: "x86_insn_spec \<Rightarrow> bool" where
  "x86_insn_has_modrm_byte spec = list_ex (\<lambda>p. op_code p \<in> {CHR ''G'', CHR ''E'', CHR ''M'', CHR ''R''}) (spec_operands spec)"

text \<open>
  The loop bound is \<open>sizeof(operands)\<close>, six bytes for three operands: a scan that finds
  nothing runs off the array.
\<close>

fun immediate_type_scan :: "x86_insn_operand_spec list \<Rightarrow> x86_error + char" where
  "immediate_type_scan [] = Inl Overrun"
| "immediate_type_scan (p # ps) =
     (if op_code p \<in> {CHR ''J'', CHR ''I'', CHR ''O''} then Inr (op_type p) else immediate_type_scan ps)"

definition x86_insn_immediate_type :: "x86_insn_spec \<Rightarrow> x86_error + char" where
  "x86_insn_immediate_type spec = immediate_type_scan (spec_operands spec)"

definition x86_insn_has_immediate :: "x86_insn_spec \<Rightarrow> bool" where
  "x86_insn_has_immediate spec = list_ex (\<lambda>p. op_code p \<in> {CHR ''J'', CHR ''I'', CHR ''O''}) (spec_operands spec)"

section \<open>Numbers, ModR/M and SIB\<close>

definition x86_insn_decode_number :: "x86_insn_reader \<Rightarrow> byte \<Rightarrow> x86_error + (u64 \<times> x86_insn_reader)" where
  "x86_insn_decode_number rd number_bits =
     (if number_bits = 64 then read_qword rd
      else if number_bits = 32 then read_dword rd
      else if number_bits = 16 then read_word rd
      else if number_bits = 8 then ebind (read_byte rd) (\<lambda>(b, rd'). Inr (ucast b, rd'))
      else Inl Unreachable)"

definition effective_address_bits :: "nat \<Rightarrow> u32 \<Rightarrow> x86_error + byte" where
  "effective_address_bits mode pfx =
     (if mode = 64 then Inr (if pfx AND prefix_code INSN_PREFIX_ADDRESS_SIZE \<noteq> 0 then 32 else 64)
      else if mode = 32 then Inr (if pfx AND prefix_code INSN_PREFIX_ADDRESS_SIZE \<noteq> 0 then 16 else 32)
      else Inl Fatal)"

text \<open>The part for 32-bit and 64-bit addresses: the operand, the flags and the displacement size.\<close>

definition base_and_disp :: "byte \<Rightarrow> byte \<Rightarrow> x86_insn_decode_t \<Rightarrow> byte \<times> x86_insn_decode_t" where
  "base_and_disp md rm insn =
     (let i1 = insn\<lparr>mem_op := (mem_op insn)\<lparr>mem_base := rm\<rparr>,
                    i_flags := i_flags insn OR X86_INSN_DECODE_FLAG_HAS_BASE\<rparr>
      in if md = 0 \<and> rm AND 7 = 5
         then (32, i1\<lparr>i_flags := X86_INSN_DECODE_FLAG_IP_RELATIVE,
                      mem_op := (mem_op i1)\<lparr>mem_base := ia32e_code RIP\<rparr>\<rparr>)
         else if md = 0 then (0, i1)
         else if md = 1 then (8, i1)
         else if md = 2 then (32, i1)
         else (0, i1))"

definition sib_fields :: "byte \<Rightarrow> x86_insn_decode_t \<Rightarrow> x86_insn_decode_t" where
  "sib_fields sib insn =
     (let base = sib_base sib OR push_bit 3 (REX_B (i_rex insn));
          index = sib_index sib OR push_bit 3 (REX_X (i_rex insn));
          scale = push_bit (unat (sib_log2_scale sib)) 1;
          i1 = insn\<lparr>i_sib := sib, i_flags := i_flags insn OR X86_INSN_DECODE_FLAG_HAS_BASE\<rparr>;
          i2 = (if sib_index sib \<noteq> X86_INSN_GP_REG_SP
                then i1\<lparr>i_flags := i_flags i1 OR X86_INSN_DECODE_FLAG_HAS_INDEX\<rparr> else i1);
          i3 = i2\<lparr>mem_op := (mem_op i2)\<lparr>mem_base := base, mem_index := index, mem_scale := scale\<rparr>\<rparr>
      in if sib_index sib = X86_INSN_GP_REG_SP
         then i3\<lparr>mem_op := (mem_op i3)\<lparr>mem_index := ia32e_code RNone, mem_scale := 0\<rparr>\<rparr> else i3)"

text \<open>The base registers the code takes to mean "no base": its own enumeration, not the encoding.\<close>

definition sib_special_base :: "byte \<Rightarrow> byte \<Rightarrow> bool" where
  "sib_special_base address_bits base =
     (if address_bits = 64 then base = ia32e_code RBP \<or> base = ia32e_code R13
      else address_bits = 32 \<and> base = ia32e_code RBP)"

definition sib_disp :: "byte \<Rightarrow> byte \<Rightarrow> byte \<Rightarrow> x86_insn_decode_t \<Rightarrow> byte \<times> x86_insn_decode_t" where
  "sib_disp address_bits md disp_bits insn =
     (if sib_special_base address_bits (mem_base (mem_op insn))
      then (if md = 1 then 8 else 32,
            if md = 0 then insn\<lparr>mem_op := (mem_op insn)\<lparr>mem_base := ia32e_code RNone\<rparr>\<rparr> else insn)
      else (disp_bits, insn))"

definition address_32_64 ::
  "byte \<Rightarrow> byte \<Rightarrow> byte \<Rightarrow> x86_insn_reader \<Rightarrow> x86_insn_decode_t
     \<Rightarrow> x86_error + (byte \<times> x86_insn_reader \<times> x86_insn_decode_t)" where
  "address_32_64 address_bits md rm rd insn =
     (let (disp_bits, i1) = base_and_disp md rm insn
      in if rm AND 7 = 4 then
           ebind (read_byte rd) (\<lambda>(sib, rd').
             let (disp_bits', i2) = sib_disp address_bits md disp_bits (sib_fields sib i1)
             in Inr (disp_bits', rd',
                     if address_bits = 64 \<and> sib_index sib \<noteq> X86_INSN_GP_REG_SP
                     then i2\<lparr>i_flags := i_flags i2 OR X86_INSN_DECODE_FLAG_HAS_INDEX\<rparr> else i2))
         else Inr (disp_bits, rd, i1))"

text \<open>The part for 16-bit addresses; \<open>-1\<close> is what \<open>disp_bits\<close> was initialised to.\<close>

definition address_16_regs :: "byte \<Rightarrow> x86_insn_decode_t \<Rightarrow> x86_insn_decode_t" where
  "address_16_regs rm insn =
     (let base_index = X86_INSN_DECODE_FLAG_HAS_BASE OR X86_INSN_DECODE_FLAG_HAS_INDEX;
          m = mem_op insn
      in if rm = 0 \<or> rm = 1 then
           insn\<lparr>mem_op := m\<lparr>mem_base := X86_INSN_GP_REG_BX, mem_index := X86_INSN_GP_REG_SI + (rm AND 1)\<rparr>,
                i_flags := i_flags insn OR base_index\<rparr>
         else if rm = 2 \<or> rm = 3 then
           insn\<lparr>mem_op := m\<lparr>mem_base := X86_INSN_GP_REG_BP, mem_index := X86_INSN_GP_REG_SI + (rm AND 1)\<rparr>,
                i_flags := i_flags insn OR base_index\<rparr>
         else if rm = 4 \<or> rm = 5 then
           insn\<lparr>mem_op := m\<lparr>mem_base := X86_INSN_GP_REG_SI + (rm AND 1)\<rparr>,
                i_flags := i_flags insn OR X86_INSN_DECODE_FLAG_HAS_BASE\<rparr>
         else if rm = 6 then
           insn\<lparr>mem_op := m\<lparr>mem_base := X86_INSN_GP_REG_BP\<rparr>,
                i_flags := i_flags insn OR X86_INSN_DECODE_FLAG_HAS_BASE\<rparr>
         else
           insn\<lparr>mem_op := m\<lparr>mem_base := X86_INSN_GP_REG_BX\<rparr>,
                i_flags := i_flags insn OR X86_INSN_DECODE_FLAG_HAS_BASE\<rparr>)"

definition address_16 :: "byte \<Rightarrow> byte \<Rightarrow> x86_insn_decode_t \<Rightarrow> byte \<times> x86_insn_decode_t" where
  "address_16 md rm insn =
     (if md = 0 \<and> rm = 6 then (16, insn)
      else if md = 0 \<or> md = 1 \<or> md = 2
      then (if md \<noteq> 0 then (if md = 1 then 8 else 16) else - 1, address_16_regs rm insn)
      else (- 1, insn))"

definition decode_displacement ::
  "byte \<Rightarrow> x86_insn_reader \<Rightarrow> x86_insn_decode_t \<Rightarrow> x86_error + (x86_insn_reader \<times> x86_insn_decode_t)" where
  "decode_displacement disp_bits rd insn =
     (if disp_bits \<noteq> 0 then
        ebind (x86_insn_decode_number rd disp_bits) (\<lambda>(disp, rd').
          Inr (rd', insn\<lparr>displacement_offset := ucast (reader_offset rd),
                         mem_op := (mem_op insn)\<lparr>mem_disp := ucast disp\<rparr>\<rparr>))
      else Inr (rd, insn))"

definition x86_insn_decode_modrm_sib ::
  "x86_insn_reader \<Rightarrow> x86_insn_decode_t \<Rightarrow> nat \<Rightarrow> x86_error + (x86_insn_reader \<times> x86_insn_decode_t)" where
  "x86_insn_decode_modrm_sib rd insn mode =
     ebind (read_byte rd) (\<lambda>(modrm, rd1).
       let md = modrm_mode modrm;
           rm = push_bit 3 (REX_B (i_rex insn)) OR modrm_rm modrm;
           reg = push_bit 3 (REX_R (i_rex insn)) OR modrm_reg modrm;
           i1 = insn\<lparr>i_modrm := modrm, reg_op := (reg_op insn)\<lparr>o_reg := reg\<rparr>\<rparr>
       in if md = 3 then Inr (rd1, i1\<lparr>mem_op := (mem_op i1)\<lparr>o_reg := rm\<rparr>\<rparr>)
          else let i2 = i1\<lparr>i_flags := i_flags i1 OR X86_INSN_DECODE_FLAG_IS_ADDRESS\<rparr>
               in ebind (effective_address_bits mode (i_prefix insn)) (\<lambda>address_bits.
                  if address_bits = 16
                  then (let (disp_bits, i3) = address_16 md (modrm_rm modrm) i2
                        in decode_displacement disp_bits rd1 i3)
                  else ebind (address_32_64 address_bits md rm rd1 i2) (\<lambda>(disp_bits, rd2, i3).
                         decode_displacement disp_bits rd2 i3)))"

section \<open>Opcode and immediate\<close>

definition x86_insn_decode_opcode ::
  "x86_insn_reader \<Rightarrow> x86_insn_decode_t \<Rightarrow> x86_error + (x86_insn_reader \<times> x86_insn_decode_t)" where
  "x86_insn_decode_opcode rd insn =
     ebind (read_byte rd) (\<lambda>(opcode0, rd0).
     ebind (if opcode0 = 0x0f
            then ebind (read_byte rd0) (\<lambda>(opcode, rd1). Inr (opcode, rd1, x86_opcode_map_two_byte ! unat opcode))
            else Inr (opcode0, rd0, x86_opcode_map_one_byte ! unat opcode0)) (\<lambda>(opcode, rd1, spec).
       let group = X86_INSN_FLAG_GET_GROUP (spec_flags spec)
       in if X86_INSN_SSE_GROUP_START < group then Inl Unimplemented
          else if X86_INSN_GROUP_START < group \<and> group < X86_INSN_SSE_GROUP_START then
            ebind (peek_byte rd1) (\<lambda>modrm.
              let group_insn = x86_insn_modrm_reg_groups ! group ! unat (modrm_reg modrm);
                  spec' = spec\<lparr>spec_name := spec_name group_insn, spec_flags := spec_flags group_insn\<rparr>
              in Inr (rd1, insn\<lparr>primary_opcode := opcode, insn_spec := spec'\<rparr>))
          else Inr (rd1, insn\<lparr>primary_opcode := opcode, insn_spec := spec\<rparr>)))"

definition x86_insn_imm_bits :: "x86_insn_spec \<Rightarrow> byte \<Rightarrow> x86_error + byte" where
  "x86_insn_imm_bits spec operand_bits =
     ebind (x86_insn_immediate_type spec) (\<lambda>t.
       Inr (if t = CHR ''b'' then 8
            else if t = CHR ''w'' then 16
            else if t = CHR ''d'' then 32
            else if t = CHR ''q'' then 64
            else if t = CHR ''z'' then (if operand_bits = 64 then 32 else operand_bits)
            else if t = CHR ''v'' then operand_bits
            else 0))"

definition effective_operand_bits :: "nat \<Rightarrow> x86_insn_decode_t \<Rightarrow> byte" where
  "effective_operand_bits mode insn =
     (if mode = 64 \<and> spec_flags (insn_spec insn) AND X86_INSN_SPEC_DEFAULT_64_BIT \<noteq> 0 then 64
      else if i_flags insn AND X86_INSN_DECODE_FLAG_OPERAND_SIZE_64 \<noteq> 0 then 64
      else if i_prefix insn AND prefix_code INSN_PREFIX_OPERAND_SIZE \<noteq> 0 then 16 else 32)"

definition x86_insn_decode_immediate ::
  "x86_insn_reader \<Rightarrow> x86_insn_decode_t \<Rightarrow> nat \<Rightarrow> x86_error + (x86_insn_reader \<times> x86_insn_decode_t)" where
  "x86_insn_decode_immediate rd insn mode =
     ebind (x86_insn_imm_bits (insn_spec insn) (effective_operand_bits mode insn)) (\<lambda>imm_bits.
       if imm_bits = 0 then Inr (rd, insn)
       else ebind (x86_insn_decode_number rd imm_bits) (\<lambda>(immediate, rd').
              Inr (rd', insn\<lparr>immediate_offset := ucast (reader_offset rd), i_immediate := immediate\<rparr>)))"

section \<open>The decoder\<close>

definition x86_insn_decode :: "x86_insn_decode_t \<Rightarrow> byte list \<Rightarrow> nat \<Rightarrow> x86_error + x86_insn_decode_t" where
  "x86_insn_decode insn buffer mode =
     ebind (init_reader buffer 15) (\<lambda>rd0.
     ebind (x86_insn_decode_prefix rd0 insn mode) (\<lambda>(pfx, rd1, i1).
     ebind (x86_insn_decode_opcode rd1 (i1\<lparr>i_prefix := pfx\<rparr>)) (\<lambda>(rd2, i2).
     ebind (if x86_insn_has_modrm_byte (insn_spec i2) then x86_insn_decode_modrm_sib rd2 i2 mode
            else Inr (rd2, i2)) (\<lambda>(rd3, i3).
     ebind (if x86_insn_has_immediate (insn_spec i3) then x86_insn_decode_immediate rd3 i3 mode
            else Inr (rd3, i3)) (\<lambda>(rd4, i4).
       Inr (i4\<lparr>i_length := reader_offset rd4\<rparr>))))))"

end
