(* ===== verification/X86_Manual.thy ===== *)
theory X86_Manual
  imports X86_Decode
begin

text \<open>
  The one-byte opcode map of the decoder against the Intel manual (volume 2, appendix A): which
  opcodes have a ModR/M byte and how many bytes of immediate follow.
\<close>

unbundle bit_operations_syntax

section \<open>The one-byte opcode map\<close>

text \<open>
  64-bit mode throughout. The bytes that are no opcode of it (invalid), and
  the first bytes of the VEX and EVEX prefixes, which were \<open>LES\<close>, \<open>LDS\<close> and \<open>BOUND\<close> before it.
\<close>

definition intel_invalid :: "byte \<Rightarrow> bool" where
  "intel_invalid b =
     (b \<in> {0x06, 0x07, 0x0E, 0x16, 0x17, 0x1E, 0x1F, 0x27, 0x2F, 0x37, 0x3F, 0x60, 0x61, 0x82, 0x9A, 0xCE, 0xD4, 0xD5, 0xD6, 0xEA})"

definition intel_vex_evex :: "byte \<Rightarrow> bool" where
  "intel_vex_evex b = (b \<in> {0x62, 0xC4, 0xC5})"

text \<open>The opcodes that have a ModR/M byte, from the manual's one-byte map.\<close>

definition intel_has_modrm :: "byte \<Rightarrow> bool" where
  "intel_has_modrm b =
     (b < 0x40 \<and> b AND 7 < 4
      \<or> b \<in> {0x63, 0x69, 0x6B, 0xC0, 0xC1, 0xC6, 0xC7, 0xF6, 0xF7, 0xFE, 0xFF}
      \<or> 0x80 \<le> b \<and> b \<le> 0x8F \<or> 0xD0 \<le> b \<and> b \<le> 0xD3 \<or> 0xD8 \<le> b \<and> b \<le> 0xDF)"

text \<open>
  The bytes of immediate, with the default operand size: branch offsets and absolute offsets included, and, of the
  opcodes that are invalid in 64-bit mode, those they had before it. For \<open>F6\<close> and \<open>F7\<close> the reg field of the ModR/M byte decides.
\<close>

definition intel_imm_bytes :: "byte \<Rightarrow> byte \<Rightarrow> nat" where
  "intel_imm_bytes b modrm =
     (if b < 0x40 \<and> b AND 7 = 4 then 1
      else if b < 0x40 \<and> b AND 7 = 5 then 4
      else if b \<in> {0x6A, 0x6B, 0x80, 0x82, 0x83, 0xA8, 0xC0, 0xC1, 0xC6, 0xCD, 0xD4, 0xD5, 0xEB} then 1
      else if 0x70 \<le> b \<and> b \<le> 0x7F \<or> 0xB0 \<le> b \<and> b \<le> 0xB7 \<or> 0xE0 \<le> b \<and> b \<le> 0xE7 then 1
      else if b \<in> {0x68, 0x69, 0x81, 0xA9, 0xC7, 0xE8, 0xE9} \<or> 0xB8 \<le> b \<and> b \<le> 0xBF then 4
      else if b \<in> {0xC2, 0xCA} then 2
      else if b = 0xC8 then 3
      else if b \<in> {0x9A, 0xEA} then 6
      else if 0xA0 \<le> b \<and> b \<le> 0xA3 then 8
      else if b = 0xF6 \<and> modrm_reg modrm < 2 then 1
      else if b = 0xF7 \<and> modrm_reg modrm < 2 then 4
      else 0)"

text \<open>The bytes of immediate the code takes, from the operand types alone.\<close>

definition type_bytes :: "char \<Rightarrow> nat" where
  "type_bytes t =
     (if t = CHR ''b'' then 1 else if t = CHR ''w'' then 2
      else if t \<in> {CHR ''d'', CHR ''q'', CHR ''z'', CHR ''v''} then 4 else 0)"

definition code_imm_bytes :: "x86_insn_spec \<Rightarrow> nat" where
  "code_imm_bytes spec =
     (if x86_insn_has_immediate spec
      then (case x86_insn_immediate_type spec of Inl e \<Rightarrow> 0 | Inr t \<Rightarrow> type_bytes t) else 0)"

definition all_bytes :: "byte list" where
  "all_bytes = map word_of_int [0..255]"

text \<open>The rows of the table that are wrong; a VEX or EVEX prefix is taken for an opcode with a ModR/M byte.\<close>

definition modrm_wrong :: "byte \<Rightarrow> bool" where
  "modrm_wrong b = (0xD8 \<le> b \<and> b \<le> 0xDF \<or> b \<in> {0xF6, 0xF7, 0xFF} \<or> intel_vex_evex b)"

definition imm_wrong :: "byte \<Rightarrow> bool" where
  "imm_wrong b = (b \<in> {0x9A, 0xA0, 0xA1, 0xA2, 0xA3, 0xC8, 0xD4, 0xD5, 0xEA, 0xF6, 0xF7})"

lemmas one_byte_rows =
  x86_opcode_map_one_byte_def x86_opcode_map_one_byte_00_def x86_opcode_map_one_byte_40_def
  x86_opcode_map_one_byte_80_def x86_opcode_map_one_byte_c0_def

lemmas spec_macros =
  foreach_x86_operand_combine_def foreach_x86_gp_reg_def foreach_x86_condition_def op0_def op1_def
  op2_def op3_def op0f_def op1f_def op2f_def op3f_def operand_def

lemma all_bytes_list:
  "all_bytes = [0, 1, 2, 3, 4, 5, 6, 7, 8, 9, 10, 11, 12, 13, 14, 15, 16, 17, 18, 19, 20, 21,
     22, 23, 24, 25, 26, 27, 28, 29, 30, 31, 32, 33, 34, 35, 36, 37, 38, 39, 40, 41, 42, 43, 44,
     45, 46, 47, 48, 49, 50, 51, 52, 53, 54, 55, 56, 57, 58, 59, 60, 61, 62, 63, 64, 65, 66, 67,
     68, 69, 70, 71, 72, 73, 74, 75, 76, 77, 78, 79, 80, 81, 82, 83, 84, 85, 86, 87, 88, 89, 90,
     91, 92, 93, 94, 95, 96, 97, 98, 99, 100, 101, 102, 103, 104, 105, 106, 107, 108, 109, 110,
     111, 112, 113, 114, 115, 116, 117, 118, 119, 120, 121, 122, 123, 124, 125, 126, 127, 128,
     129, 130, 131, 132, 133, 134, 135, 136, 137, 138, 139, 140, 141, 142, 143, 144, 145, 146,
     147, 148, 149, 150, 151, 152, 153, 154, 155, 156, 157, 158, 159, 160, 161, 162, 163, 164,
     165, 166, 167, 168, 169, 170, 171, 172, 173, 174, 175, 176, 177, 178, 179, 180, 181, 182,
     183, 184, 185, 186, 187, 188, 189, 190, 191, 192, 193, 194, 195, 196, 197, 198, 199, 200,
     201, 202, 203, 204, 205, 206, 207, 208, 209, 210, 211, 212, 213, 214, 215, 216, 217, 218,
     219, 220, 221, 222, 223, 224, 225, 226, 227, 228, 229, 230, 231, 232, 233, 234, 235, 236,
     237, 238, 239, 240, 241, 242, 243, 244, 245, 246, 247, 248, 249, 250, 251, 252, 253, 254,
     255]"
  by code_simp

lemma byte_one_small:
  "\<not> (0x70 :: byte) \<le> 1" "\<not> (0xA0 :: byte) \<le> 1" "\<not> (0xB0 :: byte) \<le> 1" "\<not> (0xB8 :: byte) \<le> 1"
  "\<not> (0xE0 :: byte) \<le> 1" "\<not> (0x80 :: byte) \<le> 1" "\<not> (0xD0 :: byte) \<le> 1" "\<not> (0xD8 :: byte) \<le> 1"
  by (simp_all add: word_le_nat_alt)

lemma modrm_table:
  "map x86_insn_has_modrm_byte x86_opcode_map_one_byte = map (\<lambda>b. intel_has_modrm b \<noteq> modrm_wrong b) all_bytes"
  unfolding all_bytes_list one_byte_rows
  by (simp add: spec_macros x86_insn_has_modrm_byte_def intel_has_modrm_def modrm_wrong_def intel_vex_evex_def byte_one_small)

lemma imm_table:
  "list_all2 (\<lambda>spec b. imm_wrong b \<or> code_imm_bytes spec = intel_imm_bytes b 0) x86_opcode_map_one_byte all_bytes"
  unfolding all_bytes_list one_byte_rows
  by (simp add: spec_macros code_imm_bytes_def x86_insn_has_immediate_def x86_insn_immediate_type_def
      type_bytes_def intel_imm_bytes_def imm_wrong_def byte_one_small)

lemma all_bytes_nth: "all_bytes ! unat b = b" and length_all_bytes: "length all_bytes = 256"
proof -
  have "unat b < 256" by simp
  then have "int (unat b) \<le> 255" by linarith
  then have "[0..255] ! unat b = int (unat b)" by (subst nth_upto) simp_all
  then show "all_bytes ! unat b = b" using \<open>unat b < 256\<close> by (simp add: all_bytes_def)
qed (simp add: all_bytes_def)

lemma has_modrm_nth:
  "x86_insn_has_modrm_byte (x86_opcode_map_one_byte ! unat b) = (intel_has_modrm b \<noteq> modrm_wrong b)"
proof -
  have "unat b < 256" by simp
  then have "map x86_insn_has_modrm_byte x86_opcode_map_one_byte ! unat b
      = map (\<lambda>b. intel_has_modrm b \<noteq> modrm_wrong b) all_bytes ! unat b"
    by (simp only: modrm_table)
  then show ?thesis using \<open>unat b < 256\<close> by (simp add: opcode_tables_full length_all_bytes all_bytes_nth)
qed

lemma imm_bytes_nth:
  assumes "\<not> imm_wrong b"
  shows "code_imm_bytes (x86_opcode_map_one_byte ! unat b) = intel_imm_bytes b modrm"
proof -
  have "unat b < 256" by simp
  then have "imm_wrong b \<or> code_imm_bytes (x86_opcode_map_one_byte ! unat b) = intel_imm_bytes b 0"
    using list_all2_nthD [OF imm_table, of "unat b"] by (simp add: opcode_tables_full all_bytes_nth)
  moreover have "intel_imm_bytes b modrm = intel_imm_bytes b 0"
    using assms by (simp add: intel_imm_bytes_def imm_wrong_def)
  ultimately show ?thesis using assms by simp
qed

end
