(* ===== verification/X86_Props.thy ===== *)
theory X86_Props
  imports X86_Decode X86_Manual
begin

text \<open>
  What the x86 decoder computes, compared with the instruction format of the Intel manual
  (volume 2, chapter 2 and appendix A): the bytes a ModR/M byte brings with it, the opcodes
  that have one, the size of immediates, and the memory the decoder reads.
\<close>

unbundle bit_operations_syntax

section \<open>Cursor movement\<close>

text \<open>How far the cursor moves for a number of the given width; 64 bits are the odd one.\<close>

definition number_step :: "byte \<Rightarrow> nat" where
  "number_step bits = (if bits = 64 then 4 else if bits = 32 then 4 else if bits = 16 then 2 else 1)"

lemma decode_number_cursor:
  assumes "x86_insn_decode_number rd bits = Inr (v, rd')"
  shows "rd' = advance (number_step bits) rd" and "bits \<in> {8, 16, 32, 64}"
    and "rd_cursor rd + number_step bits \<le> length (rd_mem rd)"
  using assms
  by (auto simp: x86_insn_decode_number_def read_qword_def read_dword_def read_word_def read_byte_Inr
      load_def number_step_def ebind_Inr_iff split: if_splits)

lemma decode_displacement_cursor:
  assumes "decode_displacement bits rd insn = Inr (rd', insn')"
  shows "rd' = advance (if bits = 0 then 0 else number_step bits) rd"
    and "spec_operands (insn_spec insn') = spec_operands (insn_spec insn)"
  using assms by (auto simp: decode_displacement_def ebind_Inr_iff dest: decode_number_cursor split: if_splits)

lemma and_7: "b AND 7 = take_bit 3 b" for b :: byte
  by (simp add: take_bit_eq_mask mask_eq_exp_minus_1)

lemma rm_low: "(push_bit 3 x OR modrm_rm m) AND 7 = modrm_rm m" for x m :: byte
  unfolding modrm_rm_def and_7 by (simp add: take_bit_push_bit)

section \<open>The manual's rule for ModR/M and SIB\<close>

text \<open>
  32-bit and 64-bit addressing: mode 3 is a register; \<open>rm = 4\<close> brings a SIB byte; mode 1 brings
  one byte of displacement, mode 2 four, mode 0 four for \<open>rm = 5\<close> and for a SIB base of 5.
\<close>

definition intel_has_sib :: "byte \<Rightarrow> bool" where
  "intel_has_sib modrm = (modrm_mode modrm \<noteq> 3 \<and> modrm_rm modrm = 4)"

definition intel_disp_bytes :: "byte \<Rightarrow> byte \<Rightarrow> nat" where
  "intel_disp_bytes modrm sib =
     (if modrm_mode modrm = 1 then 1
      else if modrm_mode modrm = 2 then 4
      else if modrm_mode modrm = 0 \<and> (modrm_rm modrm = 5 \<or> modrm_rm modrm = 4 \<and> sib_base sib = 5) then 4
      else 0)"

definition intel_modrm_bytes :: "byte \<Rightarrow> byte \<Rightarrow> nat" where
  "intel_modrm_bytes modrm sib = 1 + (if intel_has_sib modrm then 1 else 0) + intel_disp_bytes modrm sib"

text \<open>
  The forms the code gets wrong: a SIB byte in mode 0 whose base is encoded 5, which has no
  base and four bytes of displacement, or 7 or 14, which the code takes for the registers of
  its own enumeration with those numbers.
\<close>

definition sib_confused :: "byte \<Rightarrow> byte \<Rightarrow> byte \<Rightarrow> byte \<Rightarrow> bool" where
  "sib_confused address_bits rex modrm sib =
     (modrm_mode modrm = 0 \<and> modrm_rm modrm = 4 \<and>
      (sib_base sib = 5 \<or> sib_special_base address_bits (sib_base sib OR push_bit 3 (REX_B rex))))"

lemma sib_fields_base [simp]:
  "mem_base (mem_op (sib_fields sib insn)) = sib_base sib OR push_bit 3 (REX_B (i_rex insn))"
  by (simp add: sib_fields_def Let_def)

lemma special_base_low:
  assumes "sib_special_base a (sib_base s OR push_bit 3 (REX_B rex))"
  shows "sib_base s \<noteq> 5"
proof
  assume "sib_base s = 5"
  moreover have "REX_B rex = 0 \<or> REX_B rex = 1"
  proof -
    have "REX_B rex \<le> 1" by (simp add: REX_B_def word_and_le1)
    then show ?thesis by (metis word_le_less_eq word_less_1)
  qed
  ultimately show False using assms by (auto simp: sib_special_base_def split: if_splits)
qed

lemma address_32_64_result:
  assumes "address_32_64 a md rm rd insn = Inr (bits, rd', insn')"
  shows "rd' = advance (if rm AND 7 = 4 then 1 else 0) rd"
    and "rm AND 7 = 4 \<Longrightarrow> rd_cursor rd < length (rd_mem rd)"
    and "bits = (if rm AND 7 = 4 \<and> sib_special_base a (sib_base (rd_mem rd ! rd_cursor rd) OR push_bit 3 (REX_B (i_rex insn)))
                 then (if md = 1 then 8 else 32)
                 else if md = 0 then (if rm AND 7 = 5 then 32 else 0) else if md = 1 then 8 else if md = 2 then 32 else 0)"
  using assms
  by (auto simp: address_32_64_def base_and_disp_def sib_disp_def Let_def ebind_Inr_iff read_byte_Inr
      split: if_splits prod.splits)

lemma modrm_mode_cases: "modrm_mode m = 0 \<or> modrm_mode m = 1 \<or> modrm_mode m = 2 \<or> modrm_mode m = 3"
proof -
  have "unat (modrm_mode m) = unat m div 64"
    by (simp add: modrm_mode_def drop_bit_eq_div unat_div_distrib)
  then have "unat (modrm_mode m) < 4" using unat_byte_less [of m] by linarith
  then have "unat (modrm_mode m) \<in> {0, 1, 2, 3}" by auto
  then show ?thesis by (auto simp: word_unat_eq_iff)
qed

text \<open>The bytes the code takes, on every path of the function.\<close>

definition code_disp_bytes :: "byte \<Rightarrow> byte \<Rightarrow> byte \<Rightarrow> byte \<Rightarrow> nat" where
  "code_disp_bytes a rex modrm sib =
     (if modrm_mode modrm = 1 then 1
      else if modrm_mode modrm = 2 then 4
      else if modrm_mode modrm = 0 then
        (if modrm_rm modrm = 5 then 4
         else if modrm_rm modrm = 4 \<and> sib_special_base a (sib_base sib OR push_bit 3 (REX_B rex)) then 4 else 0)
      else 0)"

lemma modrm_sib_cursor:
  assumes "x86_insn_decode_modrm_sib rd insn mode = Inr (rd', insn')"
    and "effective_address_bits mode (i_prefix insn) = Inr a" and "a \<noteq> 16"
  defines "m \<equiv> rd_mem rd ! rd_cursor rd" and "s \<equiv> rd_mem rd ! (rd_cursor rd + 1)"
  shows "rd' = advance (1 + (if intel_has_sib m then 1 else 0) + code_disp_bytes a (i_rex insn) m s) rd"
proof (cases "modrm_mode m = 3")
  case True
  then show ?thesis
    using assms(1,2)
    by (auto simp: x86_insn_decode_modrm_sib_def Let_def ebind_Inr_iff read_byte_Inr intel_has_sib_def
        code_disp_bytes_def m_def)
next
  case False
  let ?rm = "push_bit 3 (REX_B (i_rex insn)) OR modrm_rm m"
  obtain i2 bits rd2 i3 where
    a: "address_32_64 a (modrm_mode m) ?rm (advance 1 rd) i2 = Inr (bits, rd2, i3)"
    and rex: "i_rex i2 = i_rex insn" and d: "decode_displacement bits rd2 i3 = Inr (rd', insn')"
    using assms(1-3) False
    by (auto simp: x86_insn_decode_modrm_sib_def Let_def ebind_Inr_iff read_byte_Inr m_def)
  note r = address_32_64_result [OF a, unfolded rm_low rex advance_simps]
  have sib: "intel_has_sib m \<longleftrightarrow> modrm_rm m = 4" using False by (simp add: intel_has_sib_def)
  have rd': "rd' = advance (if bits = 0 then 0 else number_step bits) rd2"
    by (rule decode_displacement_cursor(1) [OF d])
  show ?thesis
    using modrm_mode_cases [of m] False
    unfolding rd' r(1) r(3) sib s_def [symmetric]
    by (auto simp: code_disp_bytes_def number_step_def)
qed

lemma modrm_cursor_iff:
  assumes "x86_insn_decode_modrm_sib rd insn mode = Inr (rd', insn')"
    and "effective_address_bits mode (i_prefix insn) = Inr a" and "a \<noteq> 16"
  shows "rd_cursor rd' = rd_cursor rd + intel_modrm_bytes (rd_mem rd ! rd_cursor rd) (rd_mem rd ! (rd_cursor rd + 1))
    \<longleftrightarrow> \<not> sib_confused a (i_rex insn) (rd_mem rd ! rd_cursor rd) (rd_mem rd ! (rd_cursor rd + 1))"
proof -
  have "modrm_rm m = 4 \<Longrightarrow> modrm_rm m \<noteq> 5" for m by simp
  then show ?thesis
    using special_base_low [of a "rd_mem rd ! (rd_cursor rd + 1)" "i_rex insn"]
    unfolding modrm_sib_cursor [OF assms] advance_simps
    by (auto simp: intel_modrm_bytes_def intel_disp_bytes_def code_disp_bytes_def sib_confused_def)
qed

text \<open>C36: with 32-bit or 64-bit addressing the ModR/M decoder takes as many bytes as the manual
  says exactly when the SIB base is not one of the confused encodings.\<close>

theorem modrm_length_iff:
  assumes "x86_insn_decode_modrm_sib rd insn mode = Inr (rd', insn')"
    and "effective_address_bits mode (i_prefix insn) = Inr a" and "a \<noteq> 16"
  shows "rd_cursor rd' = rd_cursor rd + intel_modrm_bytes (rd_mem rd ! rd_cursor rd) (rd_mem rd ! (rd_cursor rd + 1))
    \<longleftrightarrow> \<not> sib_confused a (i_rex insn) (rd_mem rd ! rd_cursor rd) (rd_mem rd ! (rd_cursor rd + 1))"
  using modrm_cursor_iff [OF assms] .

section \<open>Lengths of whole instructions\<close>

lemma keeps_simps [simp]:
  "i_prefix (sib_fields sib insn) = i_prefix insn" "insn_spec (sib_fields sib insn) = insn_spec insn"
  "i_prefix (address_16_regs rm insn) = i_prefix insn" "insn_spec (address_16_regs rm insn) = insn_spec insn"
  "i_prefix (snd (base_and_disp md rm insn)) = i_prefix insn"
  "insn_spec (snd (base_and_disp md rm insn)) = insn_spec insn"
  "i_prefix (snd (sib_disp a md d insn)) = i_prefix insn" "insn_spec (snd (sib_disp a md d insn)) = insn_spec insn"
  "i_prefix (snd (address_16 md rm insn)) = i_prefix insn" "insn_spec (snd (address_16 md rm insn)) = insn_spec insn"
  by (simp_all add: sib_fields_def address_16_regs_def base_and_disp_def sib_disp_def address_16_def Let_def)

lemma address_32_64_keeps:
  assumes "address_32_64 a md rm rd insn = Inr (bits, rd', insn')"
  shows "i_prefix insn' = i_prefix insn \<and> insn_spec insn' = insn_spec insn"
  using assms
  by (auto simp: address_32_64_def ebind_Inr_iff Let_def case_prod_beta split: if_splits)

lemma decode_displacement_keeps:
  "decode_displacement bits rd insn = Inr (rd', insn') \<Longrightarrow>
     i_prefix insn' = i_prefix insn \<and> insn_spec insn' = insn_spec insn"
  by (auto simp: decode_displacement_def ebind_Inr_iff split: if_splits)

lemma modrm_sib_keeps:
  assumes "x86_insn_decode_modrm_sib rd insn mode = Inr (rd', insn')"
  shows "i_prefix insn' = i_prefix insn \<and> insn_spec insn' = insn_spec insn"
  using assms
  by (auto simp: x86_insn_decode_modrm_sib_def Let_def ebind_Inr_iff case_prod_beta split: if_splits
      dest!: decode_displacement_keeps address_32_64_keeps)

lemma immediate_found: "x86_insn_has_immediate spec \<Longrightarrow> \<exists>t. x86_insn_immediate_type spec = Inr t"
proof -
  have "list_ex (\<lambda>p. op_code p \<in> {CHR ''J'', CHR ''I'', CHR ''O''}) ps \<Longrightarrow> \<exists>t. immediate_type_scan ps = Inr t" for ps
    by (induction ps) auto
  then show "x86_insn_has_immediate spec \<Longrightarrow> ?thesis"
    by (simp add: x86_insn_has_immediate_def x86_insn_immediate_type_def)
qed

lemma decode_immediate_cursor:
  assumes "x86_insn_decode_immediate rd insn mode = Inr (rd', insn')"
    and "x86_insn_has_immediate (insn_spec insn)"
    and "i_prefix insn AND prefix_code INSN_PREFIX_OPERAND_SIZE = 0"
  shows "rd' = advance (code_imm_bytes (insn_spec insn)) rd"
proof -
  obtain t where t: "x86_insn_immediate_type (insn_spec insn) = Inr t" using immediate_found [OF assms(2)] ..
  have e: "effective_operand_bits mode insn = 64 \<or> effective_operand_bits mode insn = 32"
    using assms(3) by (auto simp: effective_operand_bits_def)
  show ?thesis
    using assms(1) e
    by (auto simp: x86_insn_decode_immediate_def x86_insn_imm_bits_def t ebind_Inr_iff code_imm_bytes_def assms(2)
        type_bytes_def number_step_def dest!: decode_number_cursor(1) split: if_splits)
qed

text \<open>The first steps on an instruction without prefixes.\<close>

definition plain_opcode :: "byte \<Rightarrow> bool" where
  "plain_opcode b = (legacy_prefix b = INSN_PREFIX_NONE \<and> \<not> (0x40 \<le> b \<and> b \<le> 0x4f) \<and> b \<noteq> 0x0f)"

definition window :: "byte list \<Rightarrow> byte list" where
  "window code = take 15 code @ replicate 5 0xcc"

lemma window_nth: "15 \<le> length code \<Longrightarrow> i < 15 \<Longrightarrow> window code ! i = code ! i"
  by (simp add: window_def nth_append)

lemma no_prefix:
  assumes "plain_opcode (rd_mem rd ! rd_cursor rd)" and "rd_cursor rd < length (rd_mem rd)"
  shows "x86_insn_decode_prefix rd insn mode = Inr (0, rd, insn)"
  unfolding x86_insn_decode_prefix_def
  using assms by (subst decode_prefix_loop.simps) (auto simp: peek_byte_def plain_opcode_def)

lemma opcode_operands:
  assumes "x86_insn_decode_opcode rd insn = Inr (rd', insn')" and "rd_mem rd ! rd_cursor rd = b" and "b \<noteq> 0x0f"
  shows "rd' = advance 1 rd \<and> i_prefix insn' = i_prefix insn \<and> i_rex insn' = i_rex insn
    \<and> spec_operands (insn_spec insn') = spec_operands (x86_opcode_map_one_byte ! unat b)"
  using assms
  by (auto simp: x86_insn_decode_opcode_def Let_def ebind_Inr_iff read_byte_Inr split: if_splits)

lemma operands_decide:
  assumes "spec_operands s = spec_operands s'"
  shows "x86_insn_has_modrm_byte s = x86_insn_has_modrm_byte s'"
    and "x86_insn_has_immediate s = x86_insn_has_immediate s'" and "code_imm_bytes s = code_imm_bytes s'"
  using assms
  by (simp_all add: x86_insn_has_modrm_byte_def x86_insn_has_immediate_def code_imm_bytes_def
      x86_insn_immediate_type_def)

text \<open>C35: in 64-bit mode an instruction without prefixes whose first byte is a valid one-byte opcode of that
  mode, not in the two lists of wrong table rows, and whose SIB byte is not one of the confused ones, is,
  when the decoder returns, given the length the manual gives it. VEX and EVEX prefixes, which the decoder takes for
  \<open>LES\<close>, \<open>LDS\<close> and \<open>BOUND\<close>, are among the wrong rows (\<open>vex_taken_for_lds\<close>).\<close>

theorem one_byte_length:
  assumes "x86_insn_decode zero_insn code 64 = Inr insn" and "15 \<le> length code"
    and "plain_opcode (code ! 0)" and "\<not> modrm_wrong (code ! 0)" and "\<not> imm_wrong (code ! 0)" and "\<not> intel_invalid (code ! 0)"
    and "intel_has_modrm (code ! 0) \<Longrightarrow> \<not> sib_confused 64 0 (code ! 1) (code ! 2)"
  shows "i_length insn = of_nat (1 + (if intel_has_modrm (code ! 0) then intel_modrm_bytes (code ! 1) (code ! 2) else 0)
    + intel_imm_bytes (code ! 0) (code ! 1))"
proof -
  let ?b = "code ! 0"
  define rd where "rd = \<lparr>rd_mem = window code, rd_prefix = 0, rd_opcode = 0, rd_modrm = 0, rd_cursor = 0\<rparr>"
  have init: "init_reader code 15 = Inr rd"
    using assms(2) by (simp add: init_reader_def rd_def window_def eval_nat_numeral)
  have rd: "rd_cursor rd = 0" "rd_mem rd = window code" by (simp_all add: rd_def)
  note w = window_nth [OF assms(2)]
  have pre: "x86_insn_decode_prefix rd zero_insn 64 = Inr (0, rd, zero_insn)"
    using assms(3) w [of 0] by (intro no_prefix) (simp_all add: rd window_def)
  obtain rd2 i2 rd3 i3 rd4 i4 where
    op: "x86_insn_decode_opcode rd (zero_insn\<lparr>i_prefix := 0\<rparr>) = Inr (rd2, i2)"
    and mr: "(if x86_insn_has_modrm_byte (insn_spec i2) then x86_insn_decode_modrm_sib rd2 i2 64 else Inr (rd2, i2)) = Inr (rd3, i3)"
    and im: "(if x86_insn_has_immediate (insn_spec i3) then x86_insn_decode_immediate rd3 i3 64 else Inr (rd3, i3)) = Inr (rd4, i4)"
    and len: "i_length insn = reader_offset rd4"
    using assms(1) init pre by (auto simp: x86_insn_decode_def ebind_Inr_iff)
  have o: "rd2 = advance 1 rd" "i_prefix i2 = 0" "i_rex i2 = 0"
      "spec_operands (insn_spec i2) = spec_operands (x86_opcode_map_one_byte ! unat ?b)"
    using opcode_operands [OF op, of ?b] assms(3) w [of 0]
    by (simp_all add: rd plain_opcode_def zero_insn_def)
  have has: "x86_insn_has_modrm_byte (insn_spec i2) = intel_has_modrm ?b"
    using operands_decide(1) [OF o(4)] has_modrm_nth [of ?b] assms(4) by simp
  have m: "rd_cursor rd3 = 1 + (if intel_has_modrm ?b then intel_modrm_bytes (code ! 1) (code ! 2) else 0)
      \<and> i_prefix i3 = 0 \<and> insn_spec i3 = insn_spec i2"
  proof (cases "intel_has_modrm ?b")
    case True
    then have d: "x86_insn_decode_modrm_sib rd2 i2 64 = Inr (rd3, i3)" using mr has by simp
    have a: "effective_address_bits 64 (i_prefix i2) = Inr 64" using o(2) by (simp add: effective_address_bits_def)
    have "(64 :: byte) \<noteq> 16" by code_simp
    then show ?thesis
      using modrm_cursor_iff [OF d a] modrm_sib_keeps [OF d] assms(7) [OF True] True o w [of 1] w [of 2]
      by (simp add: rd numeral_2_eq_2)
  next
    case False
    then show ?thesis using mr has o by (auto simp: rd)
  qed
  have "code_imm_bytes (insn_spec i3) = intel_imm_bytes ?b (code ! 1)"
    using operands_decide(3) [OF o(4)] imm_bytes_nth [OF assms(5)] m by simp
  moreover have "rd_cursor rd4 = rd_cursor rd3 + code_imm_bytes (insn_spec i3)"
  proof (cases "x86_insn_has_immediate (insn_spec i3)")
    case True
    then have "x86_insn_decode_immediate rd3 i3 64 = Inr (rd4, i4)" using im by simp
    from decode_immediate_cursor [OF this True] m show ?thesis by simp
  next
    case False
    then show ?thesis using im by (simp add: code_imm_bytes_def)
  qed
  ultimately show ?thesis using m len by (simp add: reader_offset_def)
qed

section \<open>The memory the decoder reads\<close>

text \<open>A step that stays in the reader's memory: no overrun, and the cursor moves by at most \<open>k\<close>.\<close>

definition bounded :: "nat \<Rightarrow> x86_insn_reader \<Rightarrow> x86_error + 'a \<Rightarrow> ('a \<Rightarrow> x86_insn_reader) \<Rightarrow> bool" where
  "bounded k rd r reader =
     (r \<noteq> Inl Overrun
      \<and> (\<forall>x. r = Inr x \<longrightarrow> rd_mem (reader x) = rd_mem rd \<and> rd_cursor (reader x) \<le> rd_cursor rd + k))"

lemma read_byte_Inl: "read_byte rd = Inl e \<longleftrightarrow> e = Overrun \<and> length (rd_mem rd) \<le> rd_cursor rd"
  by (auto simp: read_byte_def peek_byte_def)

lemma opcode_bounded:
  assumes "rd_cursor rd + 3 \<le> length (rd_mem rd)"
  shows "bounded 2 rd (x86_insn_decode_opcode rd insn) fst"
proof -
  have b0: "read_byte rd = Inr (rd_mem rd ! rd_cursor rd, advance 1 rd)"
    and b1: "read_byte (advance 1 rd) = Inr (rd_mem rd ! (rd_cursor rd + 1), advance 2 rd)"
    and p1: "peek_byte (advance 1 rd) \<noteq> Inl Overrun" "peek_byte (advance 2 rd) \<noteq> Inl Overrun"
    using assms by (simp_all add: read_byte_def peek_byte_def numeral_2_eq_2)
  have p2: "peek_byte rd' \<noteq> Inl e" if "rd' = advance 1 rd \<or> rd' = advance 2 rd" for rd' e
    using that assms by (auto simp: peek_byte_def)
  show ?thesis
    unfolding bounded_def x86_insn_decode_opcode_def b0 ebind_simps prod.case Let_def
    using b1 p2 by (auto simp: ebind_def split: sum.splits if_splits)
qed

lemma displacement_bounded:
  assumes "rd_cursor rd + 4 \<le> length (rd_mem rd)" and "bits \<noteq> 64"
  shows "bounded 4 rd (decode_displacement bits rd insn) fst"
  using assms
  by (auto simp: bounded_def decode_displacement_def x86_insn_decode_number_def read_dword_def read_word_def
      read_byte_def peek_byte_def load_def split: if_splits)

lemma address_16_bits: "address_16 md rm insn = (bits, insn') \<Longrightarrow> bits \<noteq> 64"
  by (auto simp: address_16_def split: if_splits)

lemma modrm_bounded:
  assumes "rd_cursor rd + 6 \<le> length (rd_mem rd)"
  shows "bounded 6 rd (x86_insn_decode_modrm_sib rd insn mode) fst"
proof -
  have b0: "read_byte rd = Inr (rd_mem rd ! rd_cursor rd, advance 1 rd)"
    using assms by (simp add: read_byte_def peek_byte_def)
  have d1: "bounded 4 (advance 1 rd) (decode_displacement bits (advance 1 rd) i) fst" if "bits \<noteq> 64" for bits i
    by (rule displacement_bounded) (use assms that in simp_all)
  have a: "ebind (address_32_64 a md rm (advance 1 rd) i2) (\<lambda>(bits, rd2, i3). decode_displacement bits rd2 i3) \<noteq> Inl Overrun
      \<and> (\<forall>x. ebind (address_32_64 a md rm (advance 1 rd) i2) (\<lambda>(bits, rd2, i3). decode_displacement bits rd2 i3) = Inr x
           \<longrightarrow> rd_mem (fst x) = rd_mem rd \<and> rd_cursor (fst x) \<le> rd_cursor rd + 6)" for a md rm i2
  proof (cases "address_32_64 a md rm (advance 1 rd) i2")
    case (Inl e)
    then have False
      using assms by (auto simp: address_32_64_def read_byte_def peek_byte_def Let_def split: prod.splits if_splits)
    then show ?thesis ..
  next
    case (Inr x)
    obtain bits rd2 i3 where x: "x = (bits, rd2, i3)" by (cases x)
    note r = address_32_64_result [OF Inr [unfolded x]]
    have "bits \<noteq> 64" unfolding r(3) by simp
    have rd2: "rd_mem rd2 = rd_mem rd" "rd_cursor rd2 \<le> rd_cursor rd + 2" unfolding r(1) by simp_all
    have "rd_cursor rd2 + 4 \<le> length (rd_mem rd2)" using rd2 assms by simp
    from displacement_bounded [OF this \<open>bits \<noteq> 64\<close>, of i3]
    have "bounded 4 rd2 (decode_displacement bits rd2 i3) fst" .
    then show ?thesis
      unfolding Inr x ebind_simps prod.case bounded_def using rd2 by force
  qed
  have b16: "decode_displacement (fst q) (advance 1 rd) (snd q) \<noteq> Inl Overrun
      \<and> (\<forall>x. decode_displacement (fst q) (advance 1 rd) (snd q) = Inr x
           \<longrightarrow> rd_mem (fst x) = rd_mem rd \<and> rd_cursor (fst x) \<le> rd_cursor rd + 6)"
    if "q = address_16 md rm i2" for q md rm i2
  proof -
    have "fst q \<noteq> 64" using address_16_bits [of md rm i2 "fst q" "snd q"] that by simp
    from d1 [OF this, of "snd q"] show ?thesis unfolding bounded_def by force
  qed
  let ?m = "rd_mem rd ! rd_cursor rd"
  note d = x86_insn_decode_modrm_sib_def b0 ebind_simps prod.case Let_def
  show ?thesis
  proof (cases "modrm_mode ?m = 3")
    case True
    then show ?thesis unfolding bounded_def d by auto
  next
    case md: False
    show ?thesis
    proof (cases "effective_address_bits mode (i_prefix insn)")
      case (Inl e)
      then have "e = Fatal" by (auto simp: effective_address_bits_def split: if_splits)
      then show ?thesis using md unfolding bounded_def d Inl by simp
    next
      case (Inr bits)
      show ?thesis
      proof (cases "bits = 16")
        case True
        show ?thesis
          using md True b16 [OF refl] unfolding bounded_def d Inr case_prod_beta by simp
      next
        case False
        then show ?thesis using md a unfolding bounded_def d Inr by simp
      qed
    qed
  qed
qed

lemma immediate_bounded:
  assumes "rd_cursor rd + 8 \<le> length (rd_mem rd)" and "x86_insn_has_immediate (insn_spec insn)"
  shows "x86_insn_decode_immediate rd insn mode \<noteq> Inl Overrun"
proof -
  obtain t where "x86_insn_immediate_type (insn_spec insn) = Inr t" using immediate_found [OF assms(2)] ..
  then show ?thesis
    using assms(1)
    by (auto simp: x86_insn_decode_immediate_def x86_insn_imm_bits_def x86_insn_decode_number_def read_qword_def
        read_dword_def read_word_def read_byte_def peek_byte_def load_def split: if_splits)
qed

text \<open>The prefix bytes at the head of an instruction, a REX byte ending them.\<close>

fun prefix_bytes :: "nat \<Rightarrow> byte list \<Rightarrow> nat" where
  "prefix_bytes mode [] = 0"
| "prefix_bytes mode (b # bs) =
     (if mode = 64 \<and> 0x40 \<le> b \<and> b \<le> 0x4f then 1
      else if legacy_prefix b \<noteq> INSN_PREFIX_NONE then Suc (prefix_bytes mode bs) else 0)"

lemma prefix_loop_cursor:
  assumes "rd_cursor rd + prefix_bytes mode (drop (rd_cursor rd) (rd_mem rd)) < length (rd_mem rd)"
  shows "\<exists>p i. decode_prefix_loop mode p0 rd insn
    = Inr (p, advance (prefix_bytes mode (drop (rd_cursor rd) (rd_mem rd))) rd, i)"
  using assms
proof (induction mode p0 rd insn rule: decode_prefix_loop.induct)
  case (1 mode p0 rd insn)
  let ?c = "rd_mem rd ! rd_cursor rd"
  have lt: "rd_cursor rd < length (rd_mem rd)" using "1.prems" by simp
  then have dr: "drop (rd_cursor rd) (rd_mem rd) = ?c # drop (Suc (rd_cursor rd)) (rd_mem rd)"
    by (simp add: Cons_nth_drop_Suc)
  have pk: "peek_byte rd = Inr ?c" using lt by (simp add: peek_byte_def)
  show ?case
  proof (cases "mode = 64 \<and> 0x40 \<le> ?c \<and> ?c \<le> 0x4f")
    case True
    then show ?thesis using lt pk unfolding dr
      by (subst decode_prefix_loop.simps) (simp add: read_byte_def Let_def)
  next
    case rex: False
    show ?thesis
    proof (cases "legacy_prefix ?c = INSN_PREFIX_NONE")
      case True
      then show ?thesis using rex pk unfolding dr
        by (subst decode_prefix_loop.simps) (auto simp: Let_def)
    next
      case False
      have step: "decode_prefix_loop mode p0 rd insn
          = decode_prefix_loop mode (p0 OR prefix_code (legacy_prefix ?c)) (advance 1 rd) insn"
        using rex pk False by (subst decode_prefix_loop.simps) (auto simp: Let_def)
      have "rd_cursor (advance 1 rd) + prefix_bytes mode (drop (rd_cursor (advance 1 rd)) (rd_mem (advance 1 rd)))
          < length (rd_mem (advance 1 rd))"
        using "1.prems" rex False unfolding dr by auto
      from "1.IH" [OF pk rex refl False this] show ?thesis
        unfolding step dr using rex False by auto
    qed
  qed
qed

lemma prefix_bytes_append: "prefix_bytes mode xs < length xs \<Longrightarrow> prefix_bytes mode (xs @ ys) = prefix_bytes mode xs"
  by (induction xs) auto

text \<open>C37: with at most four prefix bytes the decoder never reads outside the 20 bytes of its
  local buffer, in 32-bit and in 64-bit mode, whatever the bytes are.\<close>

theorem decode_in_bounds:
  assumes "15 \<le> length code" and "prefix_bytes mode (take 15 code) \<le> 4"
  shows "x86_insn_decode insn code mode \<noteq> Inl Overrun"
proof -
  define rd where "rd = \<lparr>rd_mem = window code, rd_prefix = 0, rd_opcode = 0, rd_modrm = 0, rd_cursor = 0\<rparr>"
  define n where "n = prefix_bytes mode (window code)"
  have init: "init_reader code 15 = Inr rd"
    using assms(1) by (simp add: init_reader_def rd_def window_def eval_nat_numeral)
  have len: "length (window code) = 20" using assms(1) by (simp add: window_def)
  have n: "n \<le> 4" using prefix_bytes_append [of mode "take 15 code"] assms by (simp add: n_def window_def)
  obtain p i1 where pre: "x86_insn_decode_prefix rd insn mode = Inr (p, advance n rd, i1)"
    using prefix_loop_cursor [of rd mode 0 insn] n len
    by (auto simp: x86_insn_decode_prefix_def rd_def n_def)
  define rd1 where "rd1 = advance n rd"
  have rd1: "rd_mem rd1 = window code" "rd_cursor rd1 \<le> 4" using n by (simp_all add: rd1_def rd_def)
  have op: "bounded 2 rd1 (x86_insn_decode_opcode rd1 (i1\<lparr>i_prefix := p\<rparr>)) fst"
    by (rule opcode_bounded) (use rd1 len in simp)
  show ?thesis
  proof (cases "x86_insn_decode_opcode rd1 (i1\<lparr>i_prefix := p\<rparr>)")
    case (Inl e)
    then show ?thesis using op by (simp add: x86_insn_decode_def init pre bounded_def flip: rd1_def)
  next
    case (Inr x)
    obtain rd2 i2 where x: "x = (rd2, i2)" by force
    have rd2: "rd_mem rd2 = window code" "rd_cursor rd2 \<le> 6" using op Inr x rd1 by (auto simp: bounded_def)
    have mr: "bounded 6 rd2 (if x86_insn_has_modrm_byte (insn_spec i2) then x86_insn_decode_modrm_sib rd2 i2 mode
        else Inr (rd2, i2)) fst" (is "bounded 6 rd2 ?mr fst")
      using modrm_bounded [of rd2 i2 mode] rd2 len by (simp add: bounded_def)
    show ?thesis
    proof (cases ?mr)
      case (Inl e)
      then show ?thesis using mr Inr x by (simp add: x86_insn_decode_def init pre bounded_def flip: rd1_def)
    next
      case mr_ok: (Inr y)
      obtain rd3 i3 where y: "y = (rd3, i3)" by force
      have rd3: "rd_cursor rd3 + 8 \<le> length (rd_mem rd3)" using mr mr_ok y rd2 len by (auto simp: bounded_def)
      have "x86_insn_decode_immediate rd3 i3 mode \<noteq> Inl Overrun" if "x86_insn_has_immediate (insn_spec i3)"
        by (rule immediate_bounded [OF rd3 that])
      then show ?thesis using Inr x mr_ok y
        by (auto simp: x86_insn_decode_def init pre ebind_def simp flip: rd1_def split: sum.splits)
    qed
  qed
qed

section \<open>Witnesses and counterexamples\<close>

text \<open>\<open>mov eax, [rsi + rcx]\<close>, \<open>mov eax, [rdi + rcx]\<close> and \<open>mov rax, imm64\<close>, over padding.\<close>

definition mov_rsi_rcx :: "byte list" where "mov_rsi_rcx = [0x8b, 0x04, 0x0e] @ replicate 12 0x90"
definition mov_rdi_rcx :: "byte list" where "mov_rdi_rcx = [0x8b, 0x04, 0x0f] @ replicate 12 0x90"
definition mov_rax_imm64 :: "byte list" where
  "mov_rax_imm64 = [0x48, 0xb8, 1, 2, 3, 4, 5, 6, 7, 8] @ replicate 5 0x90"
definition jmp_rip :: "byte list" where "jmp_rip = [0xff, 0x25, 0, 0, 0, 0] @ replicate 9 0x90"

definition decoded_length :: "byte list \<Rightarrow> u32 option" where
  "decoded_length code = (case x86_insn_decode zero_insn code 64 of Inl e \<Rightarrow> None | Inr i \<Rightarrow> Some (i_length i))"

lemma mov_rsi_rcx_length: "decoded_length mov_rsi_rcx = Some 3"
  by code_simp

text \<open>Four instructions as decoded: one right length and three wrong ones, where the manual
  says 3 (a SIB base of 7), 10 (a 64-bit immediate) and 6 (a group opcode without operands in
  the table).\<close>

theorem decoded_lengths:
  "decoded_length mov_rsi_rcx = Some 3 \<and> decoded_length mov_rdi_rcx = Some 7
     \<and> decoded_length mov_rax_imm64 = Some 6 \<and> decoded_length jmp_rip = Some 1"
  by code_simp

lemma one_byte_length_witness:
  "\<exists>insn. x86_insn_decode zero_insn mov_rsi_rcx 64 = Inr insn \<and> i_length insn = 3"
proof -
  obtain insn where r: "x86_insn_decode zero_insn mov_rsi_rcx 64 = Inr insn"
    using mov_rsi_rcx_length by (auto simp: decoded_length_def split: sum.splits)
  have f: "plain_opcode (mov_rsi_rcx ! 0)" "\<not> modrm_wrong (mov_rsi_rcx ! 0)" "\<not> imm_wrong (mov_rsi_rcx ! 0)"
    "\<not> sib_confused 64 0 (mov_rsi_rcx ! 1) (mov_rsi_rcx ! 2)" "15 \<le> length mov_rsi_rcx" "\<not> intel_invalid (mov_rsi_rcx ! 0)"
    "1 + (if intel_has_modrm (mov_rsi_rcx ! 0) then intel_modrm_bytes (mov_rsi_rcx ! 1) (mov_rsi_rcx ! 2) else 0)
       + intel_imm_bytes (mov_rsi_rcx ! 0) (mov_rsi_rcx ! 1) = 3"
    by code_simp+
  have "i_length insn = of_nat 3" using one_byte_length [OF r f(5) f(1-3) f(6)] f(4) unfolding f(7) .
  then show ?thesis using r by simp
qed

lemma decode_in_bounds_witness: "x86_insn_decode zero_insn mov_rsi_rcx 64 \<noteq> Inl Overrun"
  by (rule decode_in_bounds) code_simp+

text \<open>The ModR/M decoder on the bytes after the opcode of \<open>mov_rsi_rcx\<close>.\<close>

definition modrm_reader :: x86_insn_reader where
  "modrm_reader = \<lparr>rd_mem = [0x04, 0x0e], rd_prefix = 0, rd_opcode = 0, rd_modrm = 0, rd_cursor = 0\<rparr>"

lemma modrm_length_iff_witness:
  "\<exists>rd' i'. x86_insn_decode_modrm_sib modrm_reader zero_insn 64 = Inr (rd', i')
     \<and> rd_cursor rd' = intel_modrm_bytes 0x04 0x0e"
proof -
  have "(case x86_insn_decode_modrm_sib modrm_reader zero_insn 64 of Inl e \<Rightarrow> False | Inr x \<Rightarrow> True)" by code_simp
  then obtain rd' i' where r: "x86_insn_decode_modrm_sib modrm_reader zero_insn 64 = Inr (rd', i')"
    by (auto split: sum.splits)
  have a: "effective_address_bits 64 (i_prefix zero_insn) = Inr 64" by code_simp
  have n: "(64 :: byte) \<noteq> 16" by code_simp
  have s: "\<not> sib_confused 64 0 0x04 0x0e" by code_simp
  from modrm_length_iff [OF r a n] r s show ?thesis by (simp add: modrm_reader_def zero_insn_def)
qed

text \<open>
  \<open>vzeroupper\<close> is the two-byte VEX prefix \<open>C5 F8\<close> and the opcode \<open>77\<close>, three bytes: the decoder sees
  \<open>LDS\<close> with the ModR/M byte \<open>F8\<close>, which 64-bit mode does not have, and leaves the \<open>77\<close> for the next
  instruction, a short jump. \<open>vmovaps zmm0, zmm1\<close> is six bytes, of which \<open>BOUND\<close> takes two.
\<close>

lemma vex_taken_for_lds:
  "decoded_length ([0xC5, 0xF8, 0x77] @ replicate 12 0x90) = Some 2
     \<and> decoded_length ([0x62, 0xF1, 0x7C, 0x48, 0x28, 0xC1] @ replicate 9 0x90) = Some 2"
  by code_simp

text \<open>Thirteen prefixes and an \<open>imul\<close> with all its fields: the immediate is read past the buffer.\<close>

lemma many_prefixes_overrun:
  "x86_insn_decode zero_insn (replicate 13 0x66 @ [0x69, 0x84]) 64 = Inl Overrun"
  by code_simp

text \<open>16-bit addressing without displacement aborts.\<close>

lemma address_16_aborts:
  "x86_insn_decode zero_insn ([0x67, 0x8b, 0x00] @ replicate 12 0x90) 32 = Inl Unreachable"
  by code_simp

end
