(* ===== verification/Arm64_Bits.thy ===== *)
theory Arm64_Bits
  imports Prelude
begin

text \<open>
  The bit macros of \<open>utility_macro.h\<close> and the immediate fields of
  \<open>InstructionRelocation/arm64/inst_decode_encode_kit.h\<close>: the field a branch or literal load
  keeps its byte offset in, read and written. A \<open>uint32_t\<close> instruction is a \<open>u32\<close>; an
  \<open>int64_t\<close> offset is a \<open>u64\<close> read with \<open>sint\<close>, so that every operation wraps as in the code.
  The lemmas give each macro as \<open>take_bit\<close>, \<open>drop_bit\<close> and \<open>push_bit\<close>, and each field as a
  pair of inverse functions on the offsets it can hold.
\<close>

unbundle bit_operations_syntax

named_theorems field_simps \<open>the bits of instruction fields\<close>

section \<open>The macros\<close>

definition LeftShift :: "'a :: len word \<Rightarrow> nat \<Rightarrow> nat \<Rightarrow> 'a word" where
  "LeftShift a b c = push_bit c (a AND (push_bit b 1 - 1))"

definition submask :: "nat \<Rightarrow> 'a :: len word" where
  "submask x = push_bit (x + 1) 1 - 1"

definition bits :: "'a :: len word \<Rightarrow> nat \<Rightarrow> nat \<Rightarrow> 'a word" where
  "bits obj st fn = drop_bit st obj AND submask (fn - st)"

definition bit_at :: "'a :: len word \<Rightarrow> nat \<Rightarrow> 'a word" where
  "bit_at obj st = drop_bit st obj AND 1"

definition set_bit_to :: "'a :: len word \<Rightarrow> nat \<Rightarrow> 'a word \<Rightarrow> 'a word" where
  "set_bit_to obj st b = (NOT (push_bit st 1) AND obj) OR push_bit st b"

definition set_bits_to :: "'a :: len word \<Rightarrow> nat \<Rightarrow> nat \<Rightarrow> 'a word \<Rightarrow> 'a word" where
  "set_bits_to obj st fn bs = (NOT (push_bit st (submask (fn - st))) AND obj) OR push_bit st bs"

definition ALIGN_FLOOR :: "u64 \<Rightarrow> u64 \<Rightarrow> u64" where
  "ALIGN_FLOOR address rng = address AND NOT (rng - 1)"

definition ALIGN_CEIL :: "u64 \<Rightarrow> u64 \<Rightarrow> u64" where
  "ALIGN_CEIL address rng = (address + rng - 1) AND NOT (rng - 1)"

lemma low_mask: "push_bit n (1 :: 'a :: len word) - 1 = mask n"
  by (simp add: mask_eq_exp_minus_1)

lemma submask_mask: "submask n = mask (Suc n)"
  by (simp only: submask_def low_mask Suc_eq_plus1)

lemma LeftShift_eq [field_simps]: "LeftShift a b c = push_bit c (take_bit b a)"
  by (simp only: LeftShift_def low_mask take_bit_eq_mask)

lemma bits_eq [field_simps]: "bits w st fn = take_bit (Suc (fn - st)) (drop_bit st w)"
  by (simp only: bits_def submask_mask take_bit_eq_mask)

lemma bit_at_eq [field_simps]: "bit_at w st = of_bool (bit w st)"
  by (simp add: bit_at_def and_one_eq odd_iff_mod_2_eq_one [symmetric] bit_iff_odd_drop_bit
      mod_2_eq_odd)

lemma bit_take_bit_self: "take_bit n w = w \<Longrightarrow> bit w k \<Longrightarrow> k < n"
  by (metis bit_take_bit_iff)

lemma bit_set_bits_to [field_simps]:
  fixes w :: "'a :: len word"
  assumes "st \<le> fn" and "take_bit (Suc (fn - st)) bs = bs"
  shows "bit (set_bits_to w st fn bs) n \<longleftrightarrow>
    (if st \<le> n \<and> n \<le> fn then n < LENGTH('a) \<and> bit bs (n - st) else bit w n)"
proof (cases "n < LENGTH('a)")
  case True
  have "bit bs (n - st) \<Longrightarrow> n - st \<le> fn - st"
    using bit_take_bit_self [OF assms(2), of "n - st"] by simp
  with True assms(1) show ?thesis
    by (auto simp: set_bits_to_def submask_mask bit_or_iff bit_and_iff bit_not_iff bit_push_bit_iff bit_mask_iff)
next
  case False
  then have "\<not> bit v n" for v :: "'a word" using bit_imp_le_length [of v n] by auto
  with False show ?thesis by simp
qed

lemma bit_set_bit_to [field_simps]:
  fixes w :: "'a :: len word"
  shows "bit (set_bit_to w st (of_bool b)) n \<longleftrightarrow> (if n = st then n < LENGTH('a) \<and> b else bit w n)"
  by (auto simp: set_bit_to_def bit_simps dest: bit_imp_le_length)

lemma ALIGN_FLOOR_page: "ALIGN_FLOOR a 0x1000 = push_bit 12 (drop_bit 12 a)"
proof -
  have "(0x1000 :: u64) - 1 = mask 12" by (simp add: mask_numeral)
  then have "ALIGN_FLOOR a 0x1000 = a AND NOT (mask 12)" by (simp add: ALIGN_FLOOR_def)
  also have "\<dots> = push_bit 12 (drop_bit 12 a)"
    by (rule bit_word_eqI) (auto simp: bit_simps not_less)
  finally show ?thesis .
qed

section \<open>Fields of an instruction\<close>

definition SignExtend :: "u64 \<Rightarrow> nat \<Rightarrow> nat \<Rightarrow> u64" where
  "SignExtend x M N =
     (let sign_bit = bit_at x (M - 1); sign_mask = 0 - sign_bit
      in x OR push_bit M (drop_bit M sign_mask))"

definition decode_imm14_offset :: "u32 \<Rightarrow> u64" where
  "decode_imm14_offset instr =
     (let imm14 = ucast (bits instr 5 18); offset = push_bit 2 imm14
      in SignExtend offset (2 + 14) 64)"

definition encode_imm14_offset :: "u32 \<Rightarrow> u64 \<Rightarrow> u32" where
  "encode_imm14_offset instr offset =
     (let imm14 = ucast (bits (signed_drop_bit 2 offset) 0 13) in set_bits_to instr 5 18 imm14)"

definition decode_imm19_offset :: "u32 \<Rightarrow> u64" where
  "decode_imm19_offset instr =
     (let imm19 = ucast (bits instr 5 23); offset = push_bit 2 imm19
      in SignExtend offset (2 + 19) 64)"

definition encode_imm19_offset :: "u32 \<Rightarrow> u64 \<Rightarrow> u32" where
  "encode_imm19_offset instr offset =
     (let imm19 = ucast (bits (signed_drop_bit 2 offset) 0 18) in set_bits_to instr 5 23 imm19)"

definition decode_imm26_offset :: "u32 \<Rightarrow> u64" where
  "decode_imm26_offset instr =
     (let imm26 = ucast (bits instr 0 25); offset = push_bit 2 imm26
      in SignExtend offset (2 + 26) 64)"

definition encode_imm26_offset :: "u32 \<Rightarrow> u64 \<Rightarrow> u32" where
  "encode_imm26_offset instr offset =
     (let imm26 = ucast (bits (signed_drop_bit 2 offset) 0 25) in set_bits_to instr 0 25 imm26)"

text \<open>
  The bit-field structure of the \<open>adr\<close> functions: \<open>Rd\<close> in bits 0 to 4, \<open>immhi\<close> in 5 to 23,
  five fixed bits, \<open>immlo\<close> in 29 and 30, \<open>op\<close> in 31. A store into a field keeps as many low
  bits of the value as the field has.
\<close>

definition field_immhi :: "u32 \<Rightarrow> u32" where
  "field_immhi w = take_bit 19 (drop_bit 5 w)"

definition field_immlo :: "u32 \<Rightarrow> u32" where
  "field_immlo w = take_bit 2 (drop_bit 29 w)"

definition put_immhi :: "u32 \<Rightarrow> u32 \<Rightarrow> u32" where
  "put_immhi v w = (w AND NOT (push_bit 5 (mask 19))) OR push_bit 5 (take_bit 19 v)"

definition put_immlo :: "u32 \<Rightarrow> u32 \<Rightarrow> u32" where
  "put_immlo v w = (w AND NOT (push_bit 29 (mask 2))) OR push_bit 29 (take_bit 2 v)"

definition decode_immhi_immlo_offset :: "u32 \<Rightarrow> u64" where
  "decode_immhi_immlo_offset instr =
     (let imm = ucast (field_immlo instr + push_bit 2 (field_immhi instr))
      in SignExtend imm (2 + 19) 64)"

definition encode_immhi_immlo_offset :: "u32 \<Rightarrow> u64 \<Rightarrow> u32" where
  "encode_immhi_immlo_offset instr offset =
     put_immhi (ucast (bits offset 2 (2 + 19))) (put_immlo (ucast (bits offset 0 2)) instr)"

definition decode_immhi_immlo_zero12_offset :: "u32 \<Rightarrow> u64" where
  "decode_immhi_immlo_zero12_offset instr = push_bit 12 (decode_immhi_immlo_offset instr)"

definition encode_immhi_immlo_zero12_offset :: "u32 \<Rightarrow> u64 \<Rightarrow> u32" where
  "encode_immhi_immlo_zero12_offset instr offset =
     encode_immhi_immlo_offset instr (signed_drop_bit 12 offset)"

definition decode_rt :: "u32 \<Rightarrow> u32" where
  "decode_rt instr = bits instr 0 4"

definition decode_rd :: "u32 \<Rightarrow> u32" where
  "decode_rd instr = bits instr 0 4"

section \<open>Fields and offsets\<close>

text \<open>Sign extension, bit by bit and as the signed value of the low \<open>m\<close> bits.\<close>

lemma bit_SignExtend:
  assumes "0 < m" and "m \<le> 64"
  shows "bit (SignExtend x m n) k \<longleftrightarrow> k < 64 \<and> (bit x k \<or> m \<le> k \<and> bit x (m - 1))"
  using assms
  by (cases "bit x (m - 1)") (auto simp: SignExtend_def bit_at_eq bit_simps dest: bit_imp_le_length)

lemma SignExtend_eq:
  assumes "take_bit m x = x" and "0 < m" and "m \<le> 64"
  shows "SignExtend x m n = signed_take_bit (m - 1) x"
proof (rule bit_word_eqI)
  fix k
  assume "k < LENGTH(64)"
  then show "bit (SignExtend x m n) k \<longleftrightarrow> bit (signed_take_bit (m - 1) x) k"
    using bit_take_bit_self [OF assms(1), of k] assms(2,3)
    by (cases "k = m - 1") (auto simp: bit_SignExtend bit_signed_take_bit_iff min_def)
qed

text \<open>
  The offsets a field of \<open>m\<close> bits (the two low zero bits included) can hold, on integers and
  on bits.
\<close>

definition fits_branch :: "nat \<Rightarrow> u64 \<Rightarrow> bool" where
  "fits_branch m off \<longleftrightarrow> - (2 ^ (m - 1)) \<le> sint off \<and> sint off < 2 ^ (m - 1) \<and> sint off mod 4 = 0"

definition fits_signed :: "nat \<Rightarrow> u64 \<Rightarrow> bool" where
  "fits_signed m off \<longleftrightarrow> - (2 ^ (m - 1)) \<le> sint off \<and> sint off < 2 ^ (m - 1)"

lemma bit_sint_min: "bit (sint (w :: u64)) k \<longleftrightarrow> bit w (min k 63)"
  by (auto simp: bit_sint_iff min_def dest: bit_imp_le_length)

lemma fits_signed_bits:
  assumes "0 < m" and "m \<le> 64"
  shows "fits_signed m off \<longleftrightarrow> (\<forall>k < 64. bit off k \<longleftrightarrow> bit off (min k (m - 1)))"
proof -
  have "fits_signed m off \<longleftrightarrow> signed_take_bit (m - 1) (sint off) = sint off"
    by (simp add: fits_signed_def signed_take_bit_int_eq_self_iff)
  also have "\<dots> \<longleftrightarrow> (\<forall>k. bit (sint off) (min k (m - 1)) \<longleftrightarrow> bit (sint off) k)"
    by (simp add: bit_eq_iff bit_signed_take_bit_iff min.commute)
  also have "\<dots> \<longleftrightarrow> (\<forall>k < 64. bit off k \<longleftrightarrow> bit off (min k (m - 1)))" (is "?L \<longleftrightarrow> ?R")
  proof
    assume L: ?L
    show ?R
    proof (intro allI impI)
      fix k :: nat
      assume "k < 64"
      then show "bit off k \<longleftrightarrow> bit off (min k (m - 1))"
        using spec [OF L, of k] assms by (simp add: bit_sint_min)
    qed
  next
    assume R: ?R
    show ?L
    proof
      fix k
      show "bit (sint off) (min k (m - 1)) \<longleftrightarrow> bit (sint off) k"
        using spec [OF R, of "min k 63"] assms by (simp add: bit_sint_min min.left_commute min.commute)
    qed
  qed
  finally show ?thesis .
qed

lemma fits_branch_bits:
  assumes "2 < m" and "m \<le> 64"
  shows "fits_branch m off \<longleftrightarrow> (\<forall>k < 64. bit off k \<longleftrightarrow> 2 \<le> k \<and> bit off (min k (m - 1)))"
proof -
  have "sint off mod 4 = 0 \<longleftrightarrow> take_bit 2 (sint off) = 0" by (simp add: take_bit_eq_mod)
  also have "\<dots> \<longleftrightarrow> (\<forall>k. bit (take_bit 2 (sint off)) k \<longleftrightarrow> bit (0 :: int) k)"
    by (simp only: bit_eq_iff possible_bit_int simp_thms)
  also have "\<dots> \<longleftrightarrow> \<not> bit off 0 \<and> \<not> bit off 1"
    by (auto simp: bit_take_bit_iff bit_sint_iff numeral_2_eq_2 less_Suc_eq intro!: gr0I)
  finally have m: "sint off mod 4 = 0 \<longleftrightarrow> \<not> bit off 0 \<and> \<not> bit off 1" .
  have sb: "fits_signed m off \<longleftrightarrow> (\<forall>k < 64. bit off k \<longleftrightarrow> bit off (min k (m - 1)))"
    using assms by (intro fits_signed_bits) simp_all
  have "fits_branch m off \<longleftrightarrow> fits_signed m off \<and> sint off mod 4 = 0"
    by (auto simp: fits_branch_def fits_signed_def)
  also have "\<dots> \<longleftrightarrow> (\<forall>k < 64. bit off k \<longleftrightarrow> 2 \<le> k \<and> bit off (min k (m - 1)))" (is "_ \<longleftrightarrow> ?R")
  proof
    assume L: "fits_signed m off \<and> sint off mod 4 = 0"
    show ?R
    proof (intro allI impI)
      fix k :: nat
      assume k: "k < 64"
      have "k < 2 \<Longrightarrow> \<not> bit off k" using L m by (auto simp: less_2_cases_iff)
      then show "bit off k \<longleftrightarrow> 2 \<le> k \<and> bit off (min k (m - 1))"
        using sb [THEN iffD1, OF conjunct1 [OF L], rule_format, OF k] by (cases "k < 2") auto
    qed
  next
    assume R: ?R
    have "\<not> bit off 0" "\<not> bit off 1" using spec [OF R, of 0] spec [OF R, of 1] by simp_all
    moreover have "bit off k \<longleftrightarrow> bit off (min k (m - 1))" if "k < 64" for k
    proof (cases "k < 2")
      case True
      with assms have "min k (m - 1) = k" by simp
      then show ?thesis by simp
    next
      case False
      with spec [OF R, of k] that show ?thesis by simp
    qed
    ultimately show "fits_signed m off \<and> sint off mod 4 = 0"
      using m by (blast intro: sb [THEN iffD2])
  qed
  finally show ?thesis .
qed

text \<open>The bits of decoded offsets and of encoded instructions.\<close>

lemma bit_decode_imm14 [field_simps]:
  "bit (decode_imm14_offset w) k \<longleftrightarrow> 2 \<le> k \<and> k < 64 \<and> bit w (min (k - 2) 13 + 5)"
  by (auto simp: decode_imm14_offset_def bit_SignExtend bits_eq bit_simps min_def add.commute)

lemma bit_decode_imm19 [field_simps]:
  "bit (decode_imm19_offset w) k \<longleftrightarrow> 2 \<le> k \<and> k < 64 \<and> bit w (min (k - 2) 18 + 5)"
  by (auto simp: decode_imm19_offset_def bit_SignExtend bits_eq bit_simps min_def add.commute)

lemma bit_decode_imm26 [field_simps]:
  "bit (decode_imm26_offset w) k \<longleftrightarrow> 2 \<le> k \<and> k < 64 \<and> bit w (min (k - 2) 25)"
  by (auto simp: decode_imm26_offset_def bit_SignExtend bits_eq bit_simps min_def)

lemma bit_encode_imm14 [field_simps]:
  "bit (encode_imm14_offset w off) k \<longleftrightarrow> (if 5 \<le> k \<and> k < 5 + 14 then bit off (k - 5 + 2) else bit w k)"
  unfolding encode_imm14_offset_def Let_def
  by (subst bit_set_bits_to) (auto simp: bits_eq bit_simps min_def not_less intro!: bit_word_eqI)

lemma bit_encode_imm19 [field_simps]:
  "bit (encode_imm19_offset w off) k \<longleftrightarrow> (if 5 \<le> k \<and> k < 5 + 19 then bit off (k - 5 + 2) else bit w k)"
  unfolding encode_imm19_offset_def Let_def
  by (subst bit_set_bits_to) (auto simp: bits_eq bit_simps min_def not_less intro!: bit_word_eqI)

lemma bit_encode_imm26 [field_simps]:
  "bit (encode_imm26_offset w off) k \<longleftrightarrow> (if k < 26 then bit off (k + 2) else bit w k)"
  unfolding encode_imm26_offset_def Let_def
  by (subst bit_set_bits_to) (auto simp: bits_eq bit_simps min_def not_less intro!: bit_word_eqI)

section \<open>The contract of a branch field\<close>

text \<open>
  \<open>n\<close> bits at position \<open>lo\<close> hold the byte offset without its two low bits. From where the bits
  go follow the round trips in both directions and what a store leaves alone.
\<close>

locale branch_field =
  fixes dec :: "u32 \<Rightarrow> u64" and enc :: "u32 \<Rightarrow> u64 \<Rightarrow> u32" and lo n :: nat
  assumes dec_bits: "bit (dec w) k \<longleftrightarrow> 2 \<le> k \<and> k < 64 \<and> bit w (min (k - 2) (n - 1) + lo)"
    and enc_bits: "bit (enc w off) k \<longleftrightarrow> (if lo \<le> k \<and> k < lo + n then bit off (k - lo + 2) else bit w k)"
    and field_size: "0 < n" "lo + n \<le> 32"
begin

lemma dec_fits: "fits_branch (n + 2) (dec w)"
proof (subst fits_branch_bits, goal_cases)
  case 3
  show ?case
  proof (intro allI impI)
    fix k :: nat
    assume "k < 64"
    moreover have "min (min k (n + 1) - 2) (n - 1) = min (k - 2) (n - 1)" by simp
    ultimately show "bit (dec w) k \<longleftrightarrow> 2 \<le> k \<and> bit (dec w) (min k (n + 2 - 1))"
      using field_size by (auto simp: dec_bits)
  qed
qed (use field_size in simp_all)

lemma dec_enc_iff: "dec (enc w off) = off \<longleftrightarrow> fits_branch (n + 2) off"
proof -
  have b: "bit (dec (enc w off)) k \<longleftrightarrow> 2 \<le> k \<and> bit off (min k (n + 1))" if "k < 64" for k
  proof (cases "2 \<le> k")
    case True
    then have "min (k - 2) (n - 1) + 2 = min k (n + 1)" and "min (k - 2) (n - 1) < n"
      using field_size by simp_all
    with True that field_size show ?thesis by (simp add: dec_bits enc_bits)
  qed (simp add: dec_bits)
  have "dec (enc w off) = off \<longleftrightarrow> (\<forall>k < 64. bit (dec (enc w off)) k \<longleftrightarrow> bit off k)"
    by (auto intro: bit_word_eqI)
  also have "\<dots> \<longleftrightarrow> fits_branch (n + 2) off"
    using b field_size by (subst fits_branch_bits) auto
  finally show ?thesis .
qed

lemma enc_dec [simp]: "enc w (dec w) = w"
proof (rule bit_word_eqI)
  fix k
  assume "k < LENGTH(32)"
  then show "bit (enc w (dec w)) k \<longleftrightarrow> bit w k"
    using field_size by (cases "lo \<le> k \<and> k < lo + n") (auto simp: enc_bits dec_bits min_def)
qed

lemma enc_frame: "k < lo \<or> lo + n \<le> k \<Longrightarrow> bit (enc w off) k \<longleftrightarrow> bit w k"
  by (auto simp: enc_bits)

end

interpretation imm14: branch_field decode_imm14_offset encode_imm14_offset 5 14
  by unfold_locales (simp_all add: bit_decode_imm14 bit_encode_imm14)

interpretation imm19: branch_field decode_imm19_offset encode_imm19_offset 5 19
  by unfold_locales (simp_all add: bit_decode_imm19 bit_encode_imm19)

interpretation imm26: branch_field decode_imm26_offset encode_imm26_offset 0 26
  by unfold_locales (simp_all add: bit_decode_imm26 bit_encode_imm26)

text \<open>The page field of \<open>adr\<close> and \<open>adrp\<close>: 21 bits, the low two at position 29.\<close>

lemma bit_decode_adr [field_simps]:
  "bit (decode_immhi_immlo_offset w) k \<longleftrightarrow>
     k < 64 \<and> (if k < 2 then bit w (k + 29) else bit w (min (k - 2) 18 + 5))"
proof -
  have "field_immlo w AND push_bit 2 (field_immhi w) = 0"
    by (rule bit_word_eqI) (auto simp: field_immlo_def bit_simps)
  then have "field_immlo w + push_bit 2 (field_immhi w) = field_immlo w OR push_bit 2 (field_immhi w)"
    by (rule disjunctive_add_eq_or)
  then show ?thesis
    by (auto simp: decode_immhi_immlo_offset_def bit_SignExtend field_immlo_def field_immhi_def
        bit_simps min_def not_less add.commute)
qed

lemma bit_encode_adr [field_simps]:
  "bit (encode_immhi_immlo_offset w off) k \<longleftrightarrow>
     (if 5 \<le> k \<and> k < 24 then bit off (k - 5 + 2) else if 29 \<le> k \<and> k < 31 then bit off (k - 29) else bit w k)"
proof (cases "k < 32")
  case True
  then show ?thesis
    by (auto simp: encode_immhi_immlo_offset_def put_immhi_def put_immlo_def bits_eq bit_simps not_less)
next
  case False
  then have "\<not> bit v k" for v :: u32 using bit_imp_le_length [of v k] by auto
  with False show ?thesis by simp
qed

lemma encode_decode_adr [simp]: "encode_immhi_immlo_offset w (decode_immhi_immlo_offset w) = w"
  by (rule bit_word_eqI) (auto simp: bit_encode_adr bit_decode_adr min_def not_less)

lemma decode_encode_adr:
  "decode_immhi_immlo_offset (encode_immhi_immlo_offset w off) = signed_take_bit 20 off"
proof (rule bit_word_eqI)
  fix k
  assume k: "k < LENGTH(64)"
  show "bit (decode_immhi_immlo_offset (encode_immhi_immlo_offset w off)) k \<longleftrightarrow> bit (signed_take_bit 20 off) k"
  proof (cases "k < 2")
    case False
    then have "min (k - 2) 18 + 2 = min k 20" and "min (k - 2) 18 < 19" by simp_all
    with False k show ?thesis by (simp add: bit_decode_adr bit_encode_adr bit_signed_take_bit_iff min.commute)
  qed (use k in \<open>simp add: bit_decode_adr bit_encode_adr bit_signed_take_bit_iff\<close>)
qed

lemma decode_encode_adr_iff:
  "decode_immhi_immlo_offset (encode_immhi_immlo_offset w off) = off \<longleftrightarrow> fits_signed 21 off"
proof -
  have "signed_take_bit 20 off = off \<longleftrightarrow> (\<forall>k < 64. bit (signed_take_bit 20 off) k \<longleftrightarrow> bit off k)"
    by (auto intro: bit_word_eqI)
  also have "\<dots> \<longleftrightarrow> fits_signed 21 off"
    by (subst fits_signed_bits) (auto simp: bit_signed_take_bit_iff min.commute)
  finally show ?thesis by (simp add: decode_encode_adr)
qed

end
