(* ===== verification/Arm64_Constants.thy ===== *)
theory Arm64_Constants
  imports Arm64_Bits
begin

text \<open>
  The instruction encodings of \<open>core/arch/arm64/constants-arm64.h\<close> and of
  \<open>InstructionRelocation/arm64/inst_constants.h\<close>. An enumerator of an encoding is a \<open>u32\<close>; the
  lists the header expands with macros are datatypes with the fields of each entry, so that
  every enumeration built from them is one function. Enumerators the language would confuse
  with its own operators carry the suffix \<open>_op\<close>.
\<close>

unbundle bit_operations_syntax

named_theorems opcode_defs \<open>encodings as numerals\<close>

section \<open>Operand kinds\<close>

datatype Shift = NO_SHIFT | LSL | LSR | ASR | ROR | MSL

primrec shift_code :: "Shift \<Rightarrow> u32" where
  "shift_code NO_SHIFT = -1"
| "shift_code LSL = 0"
| "shift_code LSR = 1"
| "shift_code ASR = 2"
| "shift_code ROR = 3"
| "shift_code MSL = 4"

datatype Extend = NO_EXTEND | UXTB | UXTH | UXTW | UXTX | SXTB | SXTH | SXTW | SXTX

datatype AddrMode = Offset | PreIndex | PostIndex

text \<open>Positions of the register fields.\<close>

abbreviation (input) "kRdShift \<equiv> 0 :: nat"
abbreviation (input) "kRnShift \<equiv> 5 :: nat"
abbreviation (input) "kRmShift \<equiv> 16 :: nat"
abbreviation (input) "kRtShift \<equiv> 0 :: nat"
abbreviation (input) "kRt2Shift \<equiv> 10 :: nat"

section \<open>Branches, exceptions, literals\<close>

definition ExceptionFixed :: u32 where [opcode_defs]: "ExceptionFixed = 0xD4000000"
definition BRK :: u32 where [opcode_defs]: "BRK = ExceptionFixed OR 0x00200000"

definition UnconditionalBranchFixed :: u32 where [opcode_defs]: "UnconditionalBranchFixed = 0x14000000"
definition UnconditionalBranchFixedMask :: u32 where [opcode_defs]: "UnconditionalBranchFixedMask = 0x7C000000"
definition UnconditionalBranchMask :: u32 where [opcode_defs]: "UnconditionalBranchMask = 0xFC000000"
definition B_op :: u32 where [opcode_defs]: "B_op = UnconditionalBranchFixed OR 0x00000000"
definition BL_op :: u32 where [opcode_defs]: "BL_op = UnconditionalBranchFixed OR 0x80000000"

definition UnconditionalBranchToRegisterFixed :: u32 where [opcode_defs]: "UnconditionalBranchToRegisterFixed = 0xD6000000"
definition UnconditionalBranchToRegisterFixedMask :: u32 where [opcode_defs]: "UnconditionalBranchToRegisterFixedMask = 0xFE000000"
definition UnconditionalBranchToRegisterMask :: u32 where [opcode_defs]: "UnconditionalBranchToRegisterMask = 0xFFFFFC1F"
definition BR_op :: u32 where [opcode_defs]: "BR_op = UnconditionalBranchToRegisterFixed OR 0x001F0000"
definition BLR_op :: u32 where [opcode_defs]: "BLR_op = UnconditionalBranchToRegisterFixed OR 0x003F0000"
definition RET_op :: u32 where [opcode_defs]: "RET_op = UnconditionalBranchToRegisterFixed OR 0x005F0000"

definition CompareBranchFixed :: u32 where [opcode_defs]: "CompareBranchFixed = 0x34000000"
definition CompareBranchFixedMask :: u32 where [opcode_defs]: "CompareBranchFixedMask = 0x7E000000"

definition ConditionalBranchFixed :: u32 where [opcode_defs]: "ConditionalBranchFixed = 0x54000000"
definition ConditionalBranchFixedMask :: u32 where [opcode_defs]: "ConditionalBranchFixedMask = 0xFE000000"

definition TestBranchFixed :: u32 where [opcode_defs]: "TestBranchFixed = 0x36000000"
definition TestBranchFixedMask :: u32 where [opcode_defs]: "TestBranchFixedMask = 0x7E000000"

definition PCRelAddressingFixed :: u32 where [opcode_defs]: "PCRelAddressingFixed = 0x10000000"
definition PCRelAddressingFixedMask :: u32 where [opcode_defs]: "PCRelAddressingFixedMask = 0x1F000000"
definition PCRelAddressingMask :: u32 where [opcode_defs]: "PCRelAddressingMask = 0x9F000000"
definition ADR_op :: u32 where [opcode_defs]: "ADR_op = PCRelAddressingFixed OR 0x00000000"
definition ADRP_op :: u32 where [opcode_defs]: "ADRP_op = PCRelAddressingFixed OR 0x80000000"

definition LoadRegLiteralFixed :: u32 where [opcode_defs]: "LoadRegLiteralFixed = 0x18000000"
definition LoadRegLiteralFixedMask :: u32 where [opcode_defs]: "LoadRegLiteralFixedMask = 0x3B000000"

definition LoadRegLiteralSub :: "u32 \<Rightarrow> u32 \<Rightarrow> u32" where
  "LoadRegLiteralSub opc V = LoadRegLiteralFixed OR LeftShift opc 2 30 OR LeftShift V 1 26"

datatype LoadRegLiteralOp =
  LDR_w_literal | LDR_x_literal | LDRSW_literal | PRFM_literal | LDR_s_literal | LDR_d_literal | LDR_q_literal

primrec literal_op :: "LoadRegLiteralOp \<Rightarrow> u32" where
  "literal_op LDR_w_literal = LoadRegLiteralSub 0b00 0"
| "literal_op LDR_x_literal = LoadRegLiteralSub 0b01 0"
| "literal_op LDRSW_literal = LoadRegLiteralSub 0b10 0"
| "literal_op PRFM_literal = LoadRegLiteralSub 0b11 0"
| "literal_op LDR_s_literal = LoadRegLiteralSub 0b00 1"
| "literal_op LDR_d_literal = LoadRegLiteralSub 0b01 1"
| "literal_op LDR_q_literal = LoadRegLiteralSub 0b10 1"

section \<open>Loads and stores\<close>

text \<open>The operations of \<open>LOAD_STORE_OP_LIST\<close> with their size, V and opc fields.\<close>

datatype LoadStoreOp =
    STRB_w | LDRB_w | LDRSB_x | LDRSB_w | STR_b | LDR_b
  | STR_q | LDR_q | STRH_w | LDRH_w | LDRSH_x | LDRSH_w
  | STR_h | LDR_h | STR_w | LDR_w | LDRSW | STR_s
  | LDR_s | STR_x | LDR_x | PRFM | STR_d | LDR_d

primrec load_store_fields :: "LoadStoreOp \<Rightarrow> u32 \<times> u32 \<times> u32" where
  "load_store_fields STRB_w = (0, 0, 0)"
| "load_store_fields LDRB_w = (0, 0, 1)"
| "load_store_fields LDRSB_x = (0, 0, 2)"
| "load_store_fields LDRSB_w = (0, 0, 3)"
| "load_store_fields STR_b = (0, 1, 0)"
| "load_store_fields LDR_b = (0, 1, 1)"
| "load_store_fields STR_q = (0, 1, 2)"
| "load_store_fields LDR_q = (0, 1, 3)"
| "load_store_fields STRH_w = (1, 0, 0)"
| "load_store_fields LDRH_w = (1, 0, 1)"
| "load_store_fields LDRSH_x = (1, 0, 2)"
| "load_store_fields LDRSH_w = (1, 0, 3)"
| "load_store_fields STR_h = (1, 1, 0)"
| "load_store_fields LDR_h = (1, 1, 1)"
| "load_store_fields STR_w = (2, 0, 0)"
| "load_store_fields LDR_w = (2, 0, 1)"
| "load_store_fields LDRSW = (2, 0, 2)"
| "load_store_fields STR_s = (2, 1, 0)"
| "load_store_fields LDR_s = (2, 1, 1)"
| "load_store_fields STR_x = (3, 0, 0)"
| "load_store_fields LDR_x = (3, 0, 1)"
| "load_store_fields PRFM = (3, 0, 2)"
| "load_store_fields STR_d = (3, 1, 0)"
| "load_store_fields LDR_d = (3, 1, 1)"

definition LoadStoreOpSub :: "u32 \<Rightarrow> u32 \<Rightarrow> u32 \<Rightarrow> u32" where
  "LoadStoreOpSub sz V opc = LeftShift sz 2 30 OR LeftShift V 1 26 OR LeftShift opc 2 22"

definition load_store_op :: "LoadStoreOp \<Rightarrow> u32" where
  "load_store_op op = (case load_store_fields op of (sz, V, opc) \<Rightarrow> LoadStoreOpSub sz V opc)"

definition LoadStoreRegisterOffsetFixed :: u32 where [opcode_defs]: "LoadStoreRegisterOffsetFixed = 0x38200800"
definition LoadStoreRegisterOffsetFixedMask :: u32 where [opcode_defs]: "LoadStoreRegisterOffsetFixedMask = 0x3B200C00"

definition load_store_register :: "LoadStoreOp \<Rightarrow> u32" where
  "load_store_register op =
     (case load_store_fields op of (sz, V, opc) \<Rightarrow>
        LoadStoreRegisterOffsetFixed OR LeftShift sz 2 30 OR LeftShift V 1 26 OR LeftShift opc 2 22)"

definition LoadStoreUnscaledOffsetFixed :: u32 where [opcode_defs]: "LoadStoreUnscaledOffsetFixed = 0x38000000"
definition LoadStoreUnscaledOffsetFixedMask :: u32 where [opcode_defs]: "LoadStoreUnscaledOffsetFixedMask = 0x3B200C00"

definition load_store_unscaled :: "LoadStoreOp \<Rightarrow> u32" where
  "load_store_unscaled op =
     (case load_store_fields op of (sz, V, opc) \<Rightarrow>
        LoadStoreUnscaledOffsetFixed OR LeftShift sz 2 30 OR LeftShift V 1 26 OR LeftShift opc 2 22)"

definition LoadStoreUnsignedOffsetFixed :: u32 where [opcode_defs]: "LoadStoreUnsignedOffsetFixed = 0x39000000"
definition LoadStoreUnsignedOffsetFixedMask :: u32 where [opcode_defs]: "LoadStoreUnsignedOffsetFixedMask = 0x3B000000"

definition load_store_unsigned :: "LoadStoreOp \<Rightarrow> u32" where
  "load_store_unsigned op =
     (case load_store_fields op of (sz, V, opc) \<Rightarrow>
        LoadStoreUnsignedOffsetFixed OR LeftShift sz 2 30 OR LeftShift V 1 26 OR LeftShift opc 2 22)"

text \<open>The operations of \<open>LOAD_STORE_PAIR_OP_LIST\<close> with their opc, V and L fields.\<close>

datatype LoadStorePairOp =
    STP_w | LDP_w | STP_s | LDP_s | LDPSW | STP_d
  | LDP_d | STP_x | LDP_x | STP_q | LDP_q

primrec load_store_pair_fields :: "LoadStorePairOp \<Rightarrow> u32 \<times> u32 \<times> u32" where
  "load_store_pair_fields STP_w = (0, 0, 0)"
| "load_store_pair_fields LDP_w = (0, 0, 1)"
| "load_store_pair_fields STP_s = (0, 1, 0)"
| "load_store_pair_fields LDP_s = (0, 1, 1)"
| "load_store_pair_fields LDPSW = (1, 0, 1)"
| "load_store_pair_fields STP_d = (1, 1, 0)"
| "load_store_pair_fields LDP_d = (1, 1, 1)"
| "load_store_pair_fields STP_x = (2, 0, 0)"
| "load_store_pair_fields LDP_x = (2, 0, 1)"
| "load_store_pair_fields STP_q = (2, 1, 0)"
| "load_store_pair_fields LDP_q = (2, 1, 1)"

definition LoadStorePairOpSub :: "u32 \<Rightarrow> u32 \<Rightarrow> u32 \<Rightarrow> u32" where
  "LoadStorePairOpSub opc V L = LeftShift opc 2 30 OR LeftShift V 1 26 OR LeftShift L 1 22"

definition load_store_pair_op :: "LoadStorePairOp \<Rightarrow> u32" where
  "load_store_pair_op op = (case load_store_pair_fields op of (opc, V, L) \<Rightarrow> LoadStorePairOpSub opc V L)"

definition LoadStorePairOffsetFixed :: u32 where [opcode_defs]: "LoadStorePairOffsetFixed = 0x29000000"

definition load_store_pair_offset :: "LoadStorePairOp \<Rightarrow> u32" where
  "load_store_pair_offset op =
     (case load_store_pair_fields op of (opc, V, L) \<Rightarrow>
        LoadStorePairOffsetFixed OR LeftShift opc 2 30 OR LeftShift V 1 26 OR LeftShift L 1 22)"

definition LoadStorePairPostIndexFixed :: u32 where [opcode_defs]: "LoadStorePairPostIndexFixed = 0x28800000"

definition load_store_pair_post :: "LoadStorePairOp \<Rightarrow> u32" where
  "load_store_pair_post op =
     (case load_store_pair_fields op of (opc, V, L) \<Rightarrow>
        LoadStorePairPostIndexFixed OR LeftShift opc 2 30 OR LeftShift V 1 26 OR LeftShift L 1 22)"

definition LoadStorePairPreIndexFixed :: u32 where [opcode_defs]: "LoadStorePairPreIndexFixed = 0x29800000"

definition load_store_pair_pre :: "LoadStorePairOp \<Rightarrow> u32" where
  "load_store_pair_pre op =
     (case load_store_pair_fields op of (opc, V, L) \<Rightarrow>
        LoadStorePairPreIndexFixed OR LeftShift opc 2 30 OR LeftShift V 1 26 OR LeftShift L 1 22)"

definition LoadStorePairFixedMask :: u32 where [opcode_defs]: "LoadStorePairFixedMask = 0x3B800000"

section \<open>Moves, arithmetic, logic\<close>

definition SixtyFourBits :: u32 where [opcode_defs]: "SixtyFourBits = 0x80000000"
definition ThirtyTwoBits :: u32 where [opcode_defs]: "ThirtyTwoBits = 0x00000000"

definition MoveWideImmediateFixed :: u32 where [opcode_defs]: "MoveWideImmediateFixed = 0x12800000"
definition MoveWideImmediateFixedMask :: u32 where [opcode_defs]: "MoveWideImmediateFixedMask = 0x1F800000"
definition MOVN :: u32 where [opcode_defs]: "MOVN = 0x00000000"
definition MOVZ :: u32 where [opcode_defs]: "MOVZ = 0x40000000"
definition MOVK :: u32 where [opcode_defs]: "MOVK = 0x60000000"

definition MOVN_w :: u32 where [opcode_defs]: "MOVN_w = MoveWideImmediateFixed OR MOVN"
definition MOVZ_w :: u32 where [opcode_defs]: "MOVZ_w = MoveWideImmediateFixed OR MOVZ"
definition MOVK_w :: u32 where [opcode_defs]: "MOVK_w = MoveWideImmediateFixed OR MOVK"
definition MOVN_x :: u32 where [opcode_defs]: "MOVN_x = MoveWideImmediateFixed OR MOVN OR SixtyFourBits"
definition MOVZ_x :: u32 where [opcode_defs]: "MOVZ_x = MoveWideImmediateFixed OR MOVZ OR SixtyFourBits"
definition MOVK_x :: u32 where [opcode_defs]: "MOVK_x = MoveWideImmediateFixed OR MOVK OR SixtyFourBits"

datatype AddSubOp = ADD_w | ADDS_w | SUB_w | SUBS_w | ADD_x | ADDS_x | SUB_x | SUBS_x

text \<open>The sf, op and S fields the three enumerations share.\<close>

primrec add_sub_fields :: "AddSubOp \<Rightarrow> u32 \<times> u32 \<times> u32" where
  "add_sub_fields ADD_w = (0, 0, 0)"
| "add_sub_fields ADDS_w = (0, 0, 1)"
| "add_sub_fields SUB_w = (0, 1, 0)"
| "add_sub_fields SUBS_w = (0, 1, 1)"
| "add_sub_fields ADD_x = (1, 0, 0)"
| "add_sub_fields ADDS_x = (1, 0, 1)"
| "add_sub_fields SUB_x = (1, 1, 0)"
| "add_sub_fields SUBS_x = (1, 1, 1)"

definition AddSubImmediateFixed :: u32 where [opcode_defs]: "AddSubImmediateFixed = 0x11000000"
definition AddSubImmediateFixedMask :: u32 where [opcode_defs]: "AddSubImmediateFixedMask = 0x1F000000"

definition add_sub_imm :: "AddSubOp \<Rightarrow> u32" where
  "add_sub_imm oper =
     (case add_sub_fields oper of (sf, op, S) \<Rightarrow>
        AddSubImmediateFixed OR LeftShift sf 1 31 OR LeftShift op 1 30 OR LeftShift S 1 29)"

definition AddSubShiftedFixed :: u32 where [opcode_defs]: "AddSubShiftedFixed = 0x0B000000"
definition AddSubShiftedFixedMask :: u32 where [opcode_defs]: "AddSubShiftedFixedMask = 0x1F200000"

definition add_sub_shift :: "AddSubOp \<Rightarrow> u32" where
  "add_sub_shift oper =
     (case add_sub_fields oper of (sf, op, S) \<Rightarrow>
        AddSubShiftedFixed OR LeftShift sf 1 31 OR LeftShift op 1 30 OR LeftShift S 1 29)"

definition AddSubExtendedFixed :: u32 where [opcode_defs]: "AddSubExtendedFixed = 0x0B200000"
definition AddSubExtendedFixedMask :: u32 where [opcode_defs]: "AddSubExtendedFixedMask = 0x1F200000"

definition add_sub_extend :: "AddSubOp \<Rightarrow> u32" where
  "add_sub_extend oper =
     (case add_sub_fields oper of (sf, op, S) \<Rightarrow>
        AddSubExtendedFixed OR LeftShift sf 1 31 OR LeftShift op 1 30 OR LeftShift S 1 29)"

definition LogicalOpMask :: u32 where [opcode_defs]: "LogicalOpMask = 0x60200000"
definition NOT_op :: u32 where [opcode_defs]: "NOT_op = 0x00200000"
definition AND_op :: u32 where [opcode_defs]: "AND_op = 0x00000000"
definition BIC_op :: u32 where [opcode_defs]: "BIC_op = AND_op OR NOT_op"
definition ORR_op :: u32 where [opcode_defs]: "ORR_op = 0x20000000"
definition ORN_op :: u32 where [opcode_defs]: "ORN_op = ORR_op OR NOT_op"
definition EOR_op :: u32 where [opcode_defs]: "EOR_op = 0x40000000"
definition EON_op :: u32 where [opcode_defs]: "EON_op = EOR_op OR NOT_op"
definition ANDS_op :: u32 where [opcode_defs]: "ANDS_op = 0x60000000"
definition BICS_op :: u32 where [opcode_defs]: "BICS_op = ANDS_op OR NOT_op"

definition LogicalImmediateFixed :: u32 where [opcode_defs]: "LogicalImmediateFixed = 0x12000000"
definition LogicalShiftedFixed :: u32 where [opcode_defs]: "LogicalShiftedFixed = 0x0A000000"
definition LogicalShiftedFixedMask :: u32 where [opcode_defs]: "LogicalShiftedFixedMask = 0x1F000000"

end
