(* ===== verification/Code_Buffer.thy ===== *)
theory Code_Buffer
  imports Prelude
begin

text \<open>
  The code buffers of \<open>MemoryAllocator/CodeBuffer\<close>: a growing vector of bytes that assemblers
  append instructions to, and that label binding later loads and rewrites at an offset. The
  vector is its list of bytes; a load or store past its size, undefined in the code, is \<open>None\<close>.
  Little-endian bytes of a word give the unaligned accesses. The locale states what label
  binding relies on, once for every cell width.
\<close>

unbundle bit_operations_syntax

type_synonym code_buffer = "byte list"

text \<open>
  How the hooking library can fail: \<open>UNREACHABLE\<close> and \<open>UNIMPLEMENTED\<close>, a failed \<open>CHECK\<close>, and
  the accesses C++ leaves undefined, outside an object or through a null pointer. The first three log
  and then \<open>assert\<close>; built with \<open>NDEBUG\<close>, as the application ships it, the assertion is empty and the
  code runs on. The relocation of a literal load of unknown kind is modelled as that build has it;
  everywhere else a value of this type marks the point where the code is out of its contract, and the
  theorems speak of the runs that do not get there.
\<close>

datatype dobby_error = Unreachable | Unimplemented | Check | Wild | Null

section \<open>Words as bytes\<close>

definition bytes16 :: "u16 \<Rightarrow> byte list" where
  "bytes16 w = [ucast w, ucast (drop_bit 8 w)]"

definition bytes32 :: "u32 \<Rightarrow> byte list" where
  "bytes32 w = [ucast w, ucast (drop_bit 8 w), ucast (drop_bit 16 w), ucast (drop_bit 24 w)]"

definition bytes64 :: "u64 \<Rightarrow> byte list" where
  "bytes64 w = bytes32 (ucast w) @ bytes32 (ucast (drop_bit 32 w))"

definition word16_of :: "byte list \<Rightarrow> u16" where
  "word16_of bs = ucast (bs ! 0) OR push_bit 8 (ucast (bs ! 1))"

definition word32_of :: "byte list \<Rightarrow> u32" where
  "word32_of bs = ucast (bs ! 0) OR push_bit 8 (ucast (bs ! 1)) OR push_bit 16 (ucast (bs ! 2))
     OR push_bit 24 (ucast (bs ! 3))"

definition word64_of :: "byte list \<Rightarrow> u64" where
  "word64_of bs = ucast (word32_of bs) OR push_bit 32 (ucast (word32_of (drop 4 bs)))"

lemma length_bytes [simp]: "length (bytes16 w) = 2" "length (bytes32 v) = 4" "length (bytes64 u) = 8"
  by (simp_all add: bytes16_def bytes32_def bytes64_def)

lemma word16_of_bytes16 [simp]: "word16_of (bytes16 w @ bs) = w"
  by (rule bit_word_eqI) (auto simp: word16_of_def bytes16_def bit_simps not_less not_le)

lemma word32_of_bytes32 [simp]: "word32_of (bytes32 w @ bs) = w"
proof (rule bit_word_eqI)
  fix k
  assume "k < LENGTH(32)"
  moreover have "k - a + a = k" if "a \<le> k" for a using that by simp
  ultimately show "bit (word32_of (bytes32 w @ bs)) k \<longleftrightarrow> bit w k"
    by (cases "k < 8"; cases "k < 16"; cases "k < 24")
      (auto simp: word32_of_def bytes32_def bit_simps not_less not_le less_diff_conv2)
qed

lemma word64_of_bytes64 [simp]: "word64_of (bytes64 w @ bs) = w"
proof -
  have "drop 4 (bytes32 v @ xs) = xs" for v xs by simp
  then have "word64_of (bytes64 w @ bs) = ucast (ucast w :: u32) OR push_bit 32 (ucast (ucast (drop_bit 32 w) :: u32))"
    by (simp add: word64_of_def bytes64_def)
  also have "\<dots> = w" by (rule bit_word_eqI) (auto simp: bit_simps not_less)
  finally show ?thesis .
qed

section \<open>The buffer\<close>

definition EmitBuffer :: "byte list \<Rightarrow> code_buffer \<Rightarrow> code_buffer" where
  "EmitBuffer bs buf = buf @ bs"

definition Emit8 :: "byte \<Rightarrow> code_buffer \<Rightarrow> code_buffer" where
  "Emit8 d buf = EmitBuffer [d] buf"

definition Emit16 :: "u16 \<Rightarrow> code_buffer \<Rightarrow> code_buffer" where
  "Emit16 d buf = EmitBuffer (bytes16 d) buf"

definition Emit32 :: "u32 \<Rightarrow> code_buffer \<Rightarrow> code_buffer" where
  "Emit32 d buf = EmitBuffer (bytes32 d) buf"

definition Emit64 :: "u64 \<Rightarrow> code_buffer \<Rightarrow> code_buffer" where
  "Emit64 d buf = EmitBuffer (bytes64 d) buf"

definition GetBufferSize :: "code_buffer \<Rightarrow> nat" where
  "GetBufferSize buf = length buf"

definition Copy :: "code_buffer \<Rightarrow> code_buffer" where
  "Copy buf = EmitBuffer buf []"

text \<open>\<open>*(T *) (data + offset)\<close> as a load and as the target of a store.\<close>

definition load_cell :: "nat \<Rightarrow> (byte list \<Rightarrow> 'a) \<Rightarrow> nat \<Rightarrow> code_buffer \<Rightarrow> 'a option" where
  "load_cell w get i buf = (if i + w \<le> length buf then Some (get (take w (drop i buf))) else None)"

definition store_cell :: "nat \<Rightarrow> ('a \<Rightarrow> byte list) \<Rightarrow> nat \<Rightarrow> 'a \<Rightarrow> code_buffer \<Rightarrow> code_buffer option" where
  "store_cell w put i v buf =
     (if i + w \<le> length buf then Some (take i buf @ put v @ drop (i + w) buf) else None)"

text \<open>\<open>code_buffer_arm64.h\<close>: instructions are 32-bit words.\<close>

definition LoadInst :: "nat \<Rightarrow> code_buffer \<Rightarrow> u32 option" where
  "LoadInst offset buf = load_cell 4 word32_of offset buf"

definition RewriteInst :: "nat \<Rightarrow> u32 \<Rightarrow> code_buffer \<Rightarrow> code_buffer option" where
  "RewriteInst offset instr buf = store_cell 4 bytes32 offset instr buf"

text \<open>\<open>code_buffer_arm.h\<close>: ARM and Thumb-2 instructions of 32, Thumb-1 instructions of 16 bits.\<close>

definition LoadARMInst :: "nat \<Rightarrow> code_buffer \<Rightarrow> u32 option" where
  "LoadARMInst offset buf = load_cell 4 word32_of offset buf"

definition LoadThumb1Inst :: "nat \<Rightarrow> code_buffer \<Rightarrow> u16 option" where
  "LoadThumb1Inst offset buf = load_cell 2 word16_of offset buf"

definition LoadThumb2Inst :: "nat \<Rightarrow> code_buffer \<Rightarrow> u32 option" where
  "LoadThumb2Inst offset buf = load_cell 4 word32_of offset buf"

definition RewriteAddr :: "nat \<Rightarrow> u32 \<Rightarrow> code_buffer \<Rightarrow> code_buffer option" where
  "RewriteAddr offset address buf = store_cell 4 bytes32 offset address buf"

definition RewriteARMInst :: "nat \<Rightarrow> u32 \<Rightarrow> code_buffer \<Rightarrow> code_buffer option" where
  "RewriteARMInst offset instr buf = store_cell 4 bytes32 offset instr buf"

definition RewriteThumb1Inst :: "nat \<Rightarrow> u16 \<Rightarrow> code_buffer \<Rightarrow> code_buffer option" where
  "RewriteThumb1Inst offset instr buf = store_cell 2 bytes16 offset instr buf"

definition RewriteThumb2Inst :: "nat \<Rightarrow> u32 \<Rightarrow> code_buffer \<Rightarrow> code_buffer option" where
  "RewriteThumb2Inst offset instr buf = store_cell 4 bytes32 offset instr buf"

text \<open>\<open>code_buffer_x64.h\<close> and \<open>code_buffer_x86.h\<close>: displacements.\<close>

definition FixBindLabel :: "nat \<Rightarrow> u32 \<Rightarrow> code_buffer \<Rightarrow> code_buffer option" where
  "FixBindLabel offset disp buf = store_cell 4 bytes32 offset disp buf"

section \<open>The contract of a cell\<close>

text \<open>
  What a client relies on: the bytes of a value are read back, whatever follows them. From it,
  loads after stores, after appends and from a list of values appended one by one.
\<close>

locale cell =
  fixes w :: nat and put :: "'a \<Rightarrow> byte list" and get :: "byte list \<Rightarrow> 'a"
  assumes length_put: "length (put v) = w"
    and get_put: "get (put v @ bs) = v"
begin

abbreviation load :: "nat \<Rightarrow> code_buffer \<Rightarrow> 'a option" where
  "load \<equiv> load_cell w get"

abbreviation store :: "nat \<Rightarrow> 'a \<Rightarrow> code_buffer \<Rightarrow> code_buffer option" where
  "store \<equiv> store_cell w put"

lemma get_put_self: "get (put v) = v"
  using get_put [of v "[]"] by simp

lemma load_ok_iff: "load i buf \<noteq> None \<longleftrightarrow> i + w \<le> length buf"
  by (simp add: load_cell_def)

lemma store_ok_iff: "store i v buf \<noteq> None \<longleftrightarrow> i + w \<le> length buf"
  by (simp add: store_cell_def)

lemma load_append: "i + w \<le> length buf \<Longrightarrow> load i (buf @ bs) = load i buf"
  by (simp add: load_cell_def)

lemma load_emitted: "load (length buf) (buf @ put v @ bs) = Some v"
  by (simp add: load_cell_def length_put get_put_self)

lemma length_store: "store i v buf = Some buf' \<Longrightarrow> length buf' = length buf"
  by (auto simp: store_cell_def length_put split: if_splits)

lemma store_load_same:
  assumes "store i v buf = Some buf'"
  shows "load i buf' = Some v"
proof -
  have i: "i + w \<le> length buf" using assms by (simp add: store_cell_def split: if_splits)
  then have "load (length (take i buf)) (take i buf @ put v @ drop (i + w) buf) = Some v"
    by (rule_tac load_emitted)
  with i assms show ?thesis by (simp add: store_cell_def)
qed

lemma store_frame:
  assumes "store i v buf = Some buf'" and "k < i \<or> i + w \<le> k"
  shows "buf' ! k = buf ! k"
proof -
  have b: "i + w \<le> length buf" "buf' = take i buf @ put v @ drop (i + w) buf"
    using assms(1) by (simp_all add: store_cell_def split: if_splits)
  show ?thesis
  proof (cases "k < i")
    case True
    with b show ?thesis by (simp add: nth_append)
  next
    case False
    with assms(2) have "i + w \<le> k" by simp
    moreover have "length (take i buf @ put v) = i + w" using b(1) by (simp add: length_put)
    ultimately have "((take i buf @ put v) @ drop (i + w) buf) ! k = drop (i + w) buf ! (k - (i + w))"
      by (simp only: nth_append) simp
    with b \<open>i + w \<le> k\<close> show ?thesis by (simp add: le_add_diff_inverse)
  qed
qed

lemma store_load_other:
  assumes "store i v buf = Some buf'" and "j + w \<le> i \<or> i + w \<le> j"
  shows "load j buf' = load j buf"
proof (cases "j + w \<le> length buf")
  case True
  have "take w (drop j buf') = take w (drop j buf)"
  proof (rule nth_equalityI)
    show "length (take w (drop j buf')) = length (take w (drop j buf))"
      using length_store [OF assms(1)] by simp
    fix k
    assume "k < length (take w (drop j buf'))"
    then show "take w (drop j buf') ! k = take w (drop j buf) ! k"
      using store_frame [OF assms(1), of "j + k"] assms(2) True length_store [OF assms(1)]
      by auto
  qed
  with True show ?thesis by (simp add: load_cell_def length_store [OF assms(1)])
qed (simp add: load_cell_def length_store [OF assms(1)])

lemma load_sequence:
  assumes "i < length vs"
  shows "load (length buf + w * i) (buf @ concat (map put vs) @ bs) = Some (vs ! i)"
proof -
  have c: "length (concat (map put us)) = w * length us" for us
    by (induction us) (simp_all add: length_put)
  have "vs = take i vs @ vs ! i # drop (Suc i) vs" using assms by (rule id_take_nth_drop)
  then have "buf @ concat (map put vs) @ bs =
      (buf @ concat (map put (take i vs))) @ put (vs ! i) @ concat (map put (drop (Suc i) vs)) @ bs"
    by (metis append.assoc concat.simps(2) concat_append list.simps(9) map_append)
  moreover have "length buf + w * i = length (buf @ concat (map put (take i vs)))"
    using assms by (simp only: length_append c) simp
  ultimately show ?thesis by (metis load_emitted)
qed

end

interpretation cell8: cell 1 "\<lambda>b. [b]" hd
  by unfold_locales simp_all

interpretation cell16: cell 2 bytes16 word16_of
  by unfold_locales simp_all

interpretation cell32: cell 4 bytes32 word32_of
  by unfold_locales simp_all

interpretation cell64: cell 8 bytes64 word64_of
  by unfold_locales simp_all

end
