(* ===== verification/Arm64_Assembler.thy ===== *)
theory Arm64_Assembler
  imports Arm64_Constants Code_Buffer
begin

text \<open>
  The ARM64 assembler: registers (\<open>registers-arm64.h\<close>), operands, \<open>Assembler\<close> and
  \<open>TurboAssembler\<close> (\<open>assembler-arm64.h\<close>), labels (\<open>AssemblerPseudoLabel.h\<close>) and their binding
  (\<open>assembler.cc\<close>, \<open>assembler-arm64.cc\<close>). The assembler is a record of its buffer, of the
  labels that exist (a label pointer is an index into them) and of the pointers in
  \<open>data_labels_\<close>. Member functions have the prefix \<open>asm_\<close>. \<open>UNREACHABLE\<close> and \<open>UNIMPLEMENTED\<close>
  end the program and are errors; \<open>DCHECK\<close> does nothing in the builds without \<open>LOGGING_DEBUG\<close>
  and has no counterpart.
\<close>

unbundle bit_operations_syntax

section \<open>Registers\<close>

datatype RegisterType = kRegister_32 | kRegister_64 | kRegister | kVRegister
  | kSIMD_FP_Register_8 | kSIMD_FP_Register_16 | kSIMD_FP_Register_32 | kSIMD_FP_Register_64
  | kSIMD_FP_Register_128 | kInvalid

text \<open>The order of the enumeration, which \<open>IsRegister\<close> and \<open>IsVRegister\<close> compare.\<close>

primrec register_rank :: "RegisterType \<Rightarrow> nat" where
  "register_rank kRegister_32 = 0"
| "register_rank kRegister_64 = 1"
| "register_rank kRegister = 2"
| "register_rank kVRegister = 3"
| "register_rank kSIMD_FP_Register_8 = 4"
| "register_rank kSIMD_FP_Register_16 = 5"
| "register_rank kSIMD_FP_Register_32 = 6"
| "register_rank kSIMD_FP_Register_64 = 7"
| "register_rank kSIMD_FP_Register_128 = 8"
| "register_rank kInvalid = 9"

instantiation RegisterType :: linorder
begin

definition less_eq_RegisterType :: "RegisterType \<Rightarrow> RegisterType \<Rightarrow> bool" where
  "less_eq_RegisterType a b \<longleftrightarrow> register_rank a \<le> register_rank b"

definition less_RegisterType :: "RegisterType \<Rightarrow> RegisterType \<Rightarrow> bool" where
  "less_RegisterType a b \<longleftrightarrow> register_rank a < register_rank b"

instance
proof
  fix x y z :: RegisterType
  show "x = y" if "x \<le> y" "y \<le> x"
    using that by (cases x; cases y) (simp_all add: less_eq_RegisterType_def)
qed (auto simp: less_eq_RegisterType_def less_RegisterType_def)

end

record CPURegister =
  reg_code :: u32
  reg_size :: nat
  reg_type :: RegisterType

definition X_reg :: "u32 \<Rightarrow> CPURegister" where
  "X_reg c = \<lparr>reg_code = c, reg_size = 64, reg_type = kRegister_64\<rparr>"

definition W_reg :: "u32 \<Rightarrow> CPURegister" where
  "W_reg c = \<lparr>reg_code = c, reg_size = 32, reg_type = kRegister_32\<rparr>"

definition Q_reg :: "u32 \<Rightarrow> CPURegister" where
  "Q_reg c = \<lparr>reg_code = c, reg_size = 128, reg_type = kSIMD_FP_Register_128\<rparr>"

definition InvalidRegister :: CPURegister where
  "InvalidRegister = \<lparr>reg_code = 0, reg_size = 0, reg_type = kInvalid\<rparr>"

definition reg_Is :: "CPURegister \<Rightarrow> CPURegister \<Rightarrow> bool" where
  "reg_Is r s \<longleftrightarrow> reg_code s = reg_code r"

definition Is64Bits :: "CPURegister \<Rightarrow> bool" where
  "Is64Bits r \<longleftrightarrow> reg_size r = 64"

definition IsRegister :: "CPURegister \<Rightarrow> bool" where
  "IsRegister r \<longleftrightarrow> reg_type r < kRegister"

definition IsVRegister :: "CPURegister \<Rightarrow> bool" where
  "IsVRegister r \<longleftrightarrow> kVRegister < reg_type r"

definition wzr :: CPURegister where "wzr = W_reg 31"
definition xzr :: CPURegister where "xzr = X_reg 31"
definition SP_reg :: CPURegister where "SP_reg = X_reg 31"
definition TMP_REG_0 :: CPURegister where "TMP_REG_0 = X_reg 17"

lemmas register_defs = X_reg_def W_reg_def Q_reg_def InvalidRegister_def wzr_def xzr_def SP_reg_def TMP_REG_0_def

definition Rd :: "CPURegister \<Rightarrow> u32" where "Rd rd = push_bit kRdShift (reg_code rd)"
definition Rt :: "CPURegister \<Rightarrow> u32" where "Rt rt = push_bit kRtShift (reg_code rt)"
definition Rt2 :: "CPURegister \<Rightarrow> u32" where "Rt2 rt = push_bit kRt2Shift (reg_code rt)"
definition Rn :: "CPURegister \<Rightarrow> u32" where "Rn rn = push_bit kRnShift (reg_code rn)"
definition Rm :: "CPURegister \<Rightarrow> u32" where "Rm rm = push_bit kRmShift (reg_code rm)"

section \<open>Operands\<close>

record Operand =
  op_immediate :: u64
  op_reg :: CPURegister
  op_shift :: Shift
  op_extend :: Extend
  op_shift_imm :: u32

definition Operand_imm :: "u64 \<Rightarrow> Operand" where
  "Operand_imm imm = \<lparr>op_immediate = imm, op_reg = InvalidRegister, op_shift = NO_SHIFT,
     op_extend = NO_EXTEND, op_shift_imm = 0\<rparr>"

definition Operand_shifted :: "CPURegister \<Rightarrow> Shift \<Rightarrow> u32 \<Rightarrow> Operand" where
  "Operand_shifted r sh n = \<lparr>op_immediate = 0, op_reg = r, op_shift = sh, op_extend = NO_EXTEND, op_shift_imm = n\<rparr>"

definition Operand_extended :: "CPURegister \<Rightarrow> Extend \<Rightarrow> u32 \<Rightarrow> Operand" where
  "Operand_extended r ex n = \<lparr>op_immediate = 0, op_reg = r, op_shift = NO_SHIFT, op_extend = ex, op_shift_imm = n\<rparr>"

definition IsImmediate :: "Operand \<Rightarrow> bool" where
  "IsImmediate p \<longleftrightarrow> reg_Is (op_reg p) InvalidRegister"

definition IsShiftedRegister :: "Operand \<Rightarrow> bool" where
  "IsShiftedRegister p \<longleftrightarrow> op_shift p \<noteq> NO_SHIFT"

definition IsExtendedRegister :: "Operand \<Rightarrow> bool" where
  "IsExtendedRegister p \<longleftrightarrow> op_extend p \<noteq> NO_EXTEND"

record MemOperand =
  mo_base :: CPURegister
  mo_regoffset :: CPURegister
  mo_offset :: u64
  mo_shift :: Shift
  mo_extend :: Extend
  mo_shift_imm :: u32
  mo_addrmode :: AddrMode

definition MemOperand_imm :: "CPURegister \<Rightarrow> u64 \<Rightarrow> AddrMode \<Rightarrow> MemOperand" where
  "MemOperand_imm base offset addrmode =
     \<lparr>mo_base = base, mo_regoffset = InvalidRegister, mo_offset = offset, mo_shift = NO_SHIFT,
      mo_extend = NO_EXTEND, mo_shift_imm = 0, mo_addrmode = addrmode\<rparr>"

definition MemOperand_extended :: "CPURegister \<Rightarrow> CPURegister \<Rightarrow> Extend \<Rightarrow> u32 \<Rightarrow> MemOperand" where
  "MemOperand_extended base regoffset ext n =
     \<lparr>mo_base = base, mo_regoffset = regoffset, mo_offset = 0, mo_shift = NO_SHIFT,
      mo_extend = ext, mo_shift_imm = n, mo_addrmode = Offset\<rparr>"

definition MemOperand_shifted :: "CPURegister \<Rightarrow> CPURegister \<Rightarrow> Shift \<Rightarrow> u32 \<Rightarrow> MemOperand" where
  "MemOperand_shifted base regoffset sh n =
     \<lparr>mo_base = base, mo_regoffset = regoffset, mo_offset = 0, mo_shift = sh,
      mo_extend = NO_EXTEND, mo_shift_imm = n, mo_addrmode = Offset\<rparr>"

definition IsImmediateOffset :: "MemOperand \<Rightarrow> bool" where
  "IsImmediateOffset m \<longleftrightarrow> mo_addrmode m = Offset"

definition IsRegisterOffset :: "MemOperand \<Rightarrow> bool" where
  "IsRegisterOffset m \<longleftrightarrow> mo_addrmode m = Offset"

definition IsPreIndex :: "MemOperand \<Rightarrow> bool" where
  "IsPreIndex m \<longleftrightarrow> mo_addrmode m = PreIndex"

definition IsPostIndex :: "MemOperand \<Rightarrow> bool" where
  "IsPostIndex m \<longleftrightarrow> mo_addrmode m = PostIndex"

section \<open>Encoding helpers\<close>

definition enc_sf :: "CPURegister \<Rightarrow> u32" where
  "enc_sf reg = (if Is64Bits reg then LeftShift 1 1 31 else 0)"

definition enc_V :: "CPURegister \<Rightarrow> u32" where
  "enc_V reg = (if IsVRegister reg then LeftShift 1 1 26 else 0)"

definition enc_L :: "bool \<Rightarrow> u32" where
  "enc_L load_or_store = (if load_or_store then LeftShift 1 1 22 else 0)"

definition enc_shift :: "Shift \<Rightarrow> u32" where
  "enc_shift sh = LeftShift (shift_code sh) 2 22"

definition EncodeLogicalImmediate :: "CPURegister \<Rightarrow> CPURegister \<Rightarrow> Operand \<Rightarrow> u32" where
  "EncodeLogicalImmediate rd rn operand =
     (let imm = op_immediate operand; immr = ucast (bits imm 0 5); imms = ucast (bits imm 6 11)
      in enc_sf rd OR LeftShift immr 6 16 OR LeftShift imms 6 10 OR Rd rd OR Rn rn)"

definition EncodeLogicalShift :: "CPURegister \<Rightarrow> CPURegister \<Rightarrow> Operand \<Rightarrow> u32" where
  "EncodeLogicalShift rd rn operand =
     enc_sf rd OR enc_shift (op_shift operand) OR Rm (op_reg operand)
       OR LeftShift (op_shift_imm operand) 6 10 OR Rn rn OR Rd rd"

definition enc_LoadStorePair :: "u32 \<Rightarrow> CPURegister \<Rightarrow> CPURegister \<Rightarrow> MemOperand \<Rightarrow> u32" where
  "enc_LoadStorePair op rt rt2 addr =
     (let opc = bits op 30 31;
          scale = (if IsRegister rt then 2 + unat (bit_at opc 1)
                   else if IsVRegister rt then 2 + unat opc else 2);
          imm7 = ucast (signed_drop_bit scale (mo_offset addr))
      in LeftShift imm7 7 15)"

definition enc_scale :: "u32 \<Rightarrow> nat" where
  "enc_scale op =
     (if op AND LoadStoreUnsignedOffsetFixed = LoadStoreUnsignedOffsetFixed then unat (bits op 30 31) else 0)"

section \<open>Labels\<close>

abbreviation (input) "kLabelImm19 \<equiv> 0 :: nat"

record ref_label_inst =
  ref_type :: nat
  ref_vmaddr :: u64
  ref_offset :: nat

record reloc_label =
  lb_pos :: u64
  lb_relocated_pos :: u64
  lb_refs :: "ref_label_inst list"
  lb_data :: "byte list"

definition new_RelocLabel :: "u64 \<Rightarrow> reloc_label" where
  "new_RelocLabel value = \<lparr>lb_pos = 0, lb_relocated_pos = 0, lb_refs = [], lb_data = bytes64 value\<rparr>"

definition has_confused_instructions :: "reloc_label \<Rightarrow> bool" where
  "has_confused_instructions l \<longleftrightarrow> length (lb_refs l) \<noteq> 0"

definition link_to :: "nat \<Rightarrow> u64 \<Rightarrow> nat \<Rightarrow> reloc_label \<Rightarrow> reloc_label" where
  "link_to type inst_vmaddr offset l =
     l\<lparr>lb_refs := lb_refs l @ [\<lparr>ref_type = type, ref_vmaddr = inst_vmaddr, ref_offset = offset\<rparr>]\<rparr>"

definition bind_to :: "u64 \<Rightarrow> reloc_label \<Rightarrow> reloc_label" where
  "bind_to a l = l\<lparr>lb_relocated_pos := a\<rparr>"

section \<open>The assembler\<close>

record assembler =
  realized_addr :: u64
  asm_buffer :: code_buffer
  labels :: "reloc_label list"
  data_labels :: "nat list"

definition new_assembler :: "u64 \<Rightarrow> assembler" where
  "new_assembler address = \<lparr>realized_addr = address, asm_buffer = [], labels = [], data_labels = []\<rparr>"

definition SetRealizedAddress :: "u64 \<Rightarrow> assembler \<Rightarrow> assembler" where
  "SetRealizedAddress address a = a\<lparr>realized_addr := address\<rparr>"

definition pc_offset :: "assembler \<Rightarrow> nat" where
  "pc_offset a = GetBufferSize (asm_buffer a)"

text \<open>\<open>new RelocLabel (value)\<close> and \<open>AppendRelocLabel\<close>.\<close>

definition alloc_label :: "u64 \<Rightarrow> assembler \<Rightarrow> nat \<times> assembler" where
  "alloc_label value a = (length (labels a), a\<lparr>labels := labels a @ [new_RelocLabel value]\<rparr>)"

definition AppendRelocLabel :: "nat \<Rightarrow> assembler \<Rightarrow> assembler" where
  "AppendRelocLabel l a = a\<lparr>data_labels := data_labels a @ [l]\<rparr>"

definition asm_Emit :: "u32 \<Rightarrow> assembler \<Rightarrow> assembler" where
  "asm_Emit v a = a\<lparr>asm_buffer := Emit32 v (asm_buffer a)\<rparr>"

definition asm_EmitInt64 :: "u64 \<Rightarrow> assembler \<Rightarrow> assembler" where
  "asm_EmitInt64 v a = a\<lparr>asm_buffer := Emit64 v (asm_buffer a)\<rparr>"

definition asm_nop :: "assembler \<Rightarrow> assembler" where
  "asm_nop = asm_Emit 0xD503201F"

definition asm_brk :: "u32 \<Rightarrow> assembler \<Rightarrow> assembler" where
  "asm_brk c = asm_Emit (BRK OR LeftShift c 16 5)"

definition asm_ret :: "assembler \<Rightarrow> assembler" where
  "asm_ret = asm_Emit 0xD65F03C0"

definition asm_adrp :: "CPURegister \<Rightarrow> u64 \<Rightarrow> assembler \<Rightarrow> assembler" where
  "asm_adrp rd imm =
     (let immlo = ucast (LeftShift (bits (signed_drop_bit 12 imm) 0 1) 2 29);
          immhi = ucast (LeftShift (bits (signed_drop_bit 12 imm) 2 20) 19 5)
      in asm_Emit (ADRP_op OR Rd rd OR immlo OR immhi))"

definition AddSubImmediate ::
  "CPURegister \<Rightarrow> CPURegister \<Rightarrow> Operand \<Rightarrow> u32 \<Rightarrow> assembler \<Rightarrow> dobby_error + assembler" where
  "AddSubImmediate rd rn operand op a =
     (if IsImmediate operand
      then let imm12 = ucast (LeftShift (op_immediate operand) 12 10)
           in Inr (asm_Emit (op OR Rd rd OR Rn rn OR imm12) a)
      else Inl Unreachable)"

definition asm_add :: "CPURegister \<Rightarrow> CPURegister \<Rightarrow> u64 \<Rightarrow> assembler \<Rightarrow> dobby_error + assembler" where
  "asm_add rd rn imm =
     (if Is64Bits rd \<and> Is64Bits rn then AddSubImmediate rd rn (Operand_imm imm) (add_sub_imm ADD_x)
      else AddSubImmediate rd rn (Operand_imm imm) (add_sub_imm ADD_w))"

definition asm_sub :: "CPURegister \<Rightarrow> CPURegister \<Rightarrow> u64 \<Rightarrow> assembler \<Rightarrow> dobby_error + assembler" where
  "asm_sub rd rn imm =
     (if Is64Bits rd \<and> Is64Bits rn then AddSubImmediate rd rn (Operand_imm imm) (add_sub_imm SUB_x)
      else AddSubImmediate rd rn (Operand_imm imm) (add_sub_imm SUB_w))"

definition asm_adds :: "CPURegister \<Rightarrow> CPURegister \<Rightarrow> u64 \<Rightarrow> assembler \<Rightarrow> dobby_error + assembler" where
  "asm_adds rd rn imm a = Inl Unreachable"

definition asm_subs :: "CPURegister \<Rightarrow> CPURegister \<Rightarrow> u64 \<Rightarrow> assembler \<Rightarrow> dobby_error + assembler" where
  "asm_subs rd rn imm a = Inl Unreachable"

definition asm_b :: "u64 \<Rightarrow> assembler \<Rightarrow> assembler" where
  "asm_b imm = (let imm26 = ucast (bits (signed_drop_bit 2 imm) 0 25) in asm_Emit (B_op OR imm26))"

definition asm_br :: "CPURegister \<Rightarrow> assembler \<Rightarrow> assembler" where
  "asm_br rn = asm_Emit (BR_op OR Rn rn)"

definition asm_blr :: "CPURegister \<Rightarrow> assembler \<Rightarrow> assembler" where
  "asm_blr rn = asm_Emit (BLR_op OR Rn rn)"

definition EmitLoadRegLiteral :: "LoadRegLiteralOp \<Rightarrow> CPURegister \<Rightarrow> u64 \<Rightarrow> assembler \<Rightarrow> assembler" where
  "EmitLoadRegLiteral op rt imm =
     asm_Emit (ucast (ucast (literal_op op) OR LeftShift imm 26 5 OR ucast (Rt rt)))"

definition asm_ldr_literal :: "CPURegister \<Rightarrow> u64 \<Rightarrow> assembler \<Rightarrow> dobby_error + assembler" where
  "asm_ldr_literal rt imm a =
     (case reg_type rt of
        kRegister_32 \<Rightarrow> Inr (EmitLoadRegLiteral LDR_w_literal rt imm a)
      | kRegister_64 \<Rightarrow> Inr (EmitLoadRegLiteral LDR_x_literal rt imm a)
      | kSIMD_FP_Register_32 \<Rightarrow> Inr (EmitLoadRegLiteral LDR_s_literal rt imm a)
      | kSIMD_FP_Register_64 \<Rightarrow> Inr (EmitLoadRegLiteral LDR_d_literal rt imm a)
      | kSIMD_FP_Register_128 \<Rightarrow> Inr (EmitLoadRegLiteral LDR_q_literal rt imm a)
      | _ \<Rightarrow> Inl Unreachable)"

definition asm_LoadStore :: "LoadStoreOp \<Rightarrow> CPURegister \<Rightarrow> MemOperand \<Rightarrow> assembler \<Rightarrow> dobby_error + assembler" where
  "asm_LoadStore op rt addr a =
     (if IsImmediateOffset addr
      then let imm12 = signed_drop_bit (enc_scale (LoadStoreUnsignedOffsetFixed OR load_store_op op)) (mo_offset addr)
           in Inr (asm_Emit (ucast (ucast (LoadStoreUnsignedOffsetFixed OR load_store_op op)
                OR LeftShift imm12 12 10 OR ucast (Rn (mo_base addr)) OR ucast (Rt rt) :: u64)) a)
      else Inl Unreachable)"

definition asm_ldr :: "CPURegister \<Rightarrow> MemOperand \<Rightarrow> assembler \<Rightarrow> dobby_error + assembler" where
  "asm_ldr rt src = asm_LoadStore LDR_x rt src"

definition asm_str :: "CPURegister \<Rightarrow> MemOperand \<Rightarrow> assembler \<Rightarrow> dobby_error + assembler" where
  "asm_str rt src = asm_LoadStore STR_x rt src"

definition asm_LoadStorePair ::
  "LoadStorePairOp \<Rightarrow> CPURegister \<Rightarrow> CPURegister \<Rightarrow> MemOperand \<Rightarrow> assembler \<Rightarrow> assembler" where
  "asm_LoadStorePair op rt rt2 addr =
     (let fields = enc_LoadStorePair (load_store_pair_op op) rt rt2 addr OR Rt2 rt2 OR Rn (mo_base addr) OR Rt rt;
          addrmodeop = (if IsImmediateOffset addr then LoadStorePairOffsetFixed
                        else if IsPreIndex addr then LoadStorePairPreIndexFixed
                        else LoadStorePairPostIndexFixed)
      in asm_Emit (load_store_pair_op op OR addrmodeop OR fields))"

definition asm_ldp ::
  "CPURegister \<Rightarrow> CPURegister \<Rightarrow> MemOperand \<Rightarrow> assembler \<Rightarrow> dobby_error + assembler" where
  "asm_ldp rt rt2 src a =
     (if reg_type rt = kSIMD_FP_Register_128 then Inr (asm_LoadStorePair LDP_q rt rt2 src a)
      else if reg_type rt = kRegister_64 then Inr (asm_LoadStorePair LDP_x rt rt2 src a)
      else Inl Unreachable)"

definition asm_stp ::
  "CPURegister \<Rightarrow> CPURegister \<Rightarrow> MemOperand \<Rightarrow> assembler \<Rightarrow> dobby_error + assembler" where
  "asm_stp rt rt2 dst a =
     (if reg_type rt = kSIMD_FP_Register_128 then Inr (asm_LoadStorePair STP_q rt rt2 dst a)
      else if reg_type rt = kRegister_64 then Inr (asm_LoadStorePair STP_x rt rt2 dst a)
      else Inl Unreachable)"

definition asm_LogicalImmediate :: "CPURegister \<Rightarrow> CPURegister \<Rightarrow> Operand \<Rightarrow> u32 \<Rightarrow> assembler \<Rightarrow> assembler" where
  "asm_LogicalImmediate rd rn operand op = asm_Emit (op OR EncodeLogicalImmediate rd rn operand)"

definition asm_LogicalShift :: "CPURegister \<Rightarrow> CPURegister \<Rightarrow> Operand \<Rightarrow> u32 \<Rightarrow> assembler \<Rightarrow> assembler" where
  "asm_LogicalShift rd rn operand op =
     asm_Emit (op OR LogicalShiftedFixed OR EncodeLogicalShift rd rn operand)"

definition asm_Logical :: "CPURegister \<Rightarrow> CPURegister \<Rightarrow> Operand \<Rightarrow> u32 \<Rightarrow> assembler \<Rightarrow> assembler" where
  "asm_Logical rd rn operand op =
     (if IsImmediate operand then asm_LogicalImmediate rd rn operand op
      else asm_LogicalShift rd rn operand op)"

definition asm_orr :: "CPURegister \<Rightarrow> CPURegister \<Rightarrow> Operand \<Rightarrow> assembler \<Rightarrow> assembler" where
  "asm_orr rd rn operand = asm_Logical rd rn operand ORR_op"

definition asm_mov :: "CPURegister \<Rightarrow> CPURegister \<Rightarrow> assembler \<Rightarrow> dobby_error + assembler" where
  "asm_mov rd rn a =
     (if reg_Is rd SP_reg \<or> reg_Is rn SP_reg then asm_add rd rn 0 a
      else if Is64Bits rd then Inr (asm_orr rd xzr (Operand_shifted rn LSL 0) a)
      else Inr (asm_orr rd wzr (Operand_shifted rn LSL 0) a))"

definition asm_MoveWide :: "CPURegister \<Rightarrow> u64 \<Rightarrow> int \<Rightarrow> u32 \<Rightarrow> assembler \<Rightarrow> assembler" where
  "asm_MoveWide rd imm sh op =
     (let hw = (if 0 < sh then sh div 16 else 0); imm16 = ucast (LeftShift imm 16 5)
      in asm_Emit (MoveWideImmediateFixed OR op OR enc_sf rd OR LeftShift (of_int hw) 2 21 OR imm16 OR Rd rd))"

definition asm_movk :: "CPURegister \<Rightarrow> u64 \<Rightarrow> int \<Rightarrow> assembler \<Rightarrow> assembler" where
  "asm_movk rd imm sh = asm_MoveWide rd imm sh MOVK"

definition asm_movn :: "CPURegister \<Rightarrow> u64 \<Rightarrow> int \<Rightarrow> assembler \<Rightarrow> assembler" where
  "asm_movn rd imm sh = asm_MoveWide rd imm sh MOVN"

definition asm_movz :: "CPURegister \<Rightarrow> u64 \<Rightarrow> int \<Rightarrow> assembler \<Rightarrow> assembler" where
  "asm_movz rd imm sh = asm_MoveWide rd imm sh MOVZ"

section \<open>The turbo assembler\<close>

definition Low16Bits :: "u32 \<Rightarrow> u16" where "Low16Bits v = ucast (v AND 0xffff)"
definition High16Bits :: "u32 \<Rightarrow> u16" where "High16Bits v = ucast (drop_bit 16 v)"
definition Low32Bits :: "u64 \<Rightarrow> u32" where "Low32Bits v = ucast v"
definition High32Bits :: "u64 \<Rightarrow> u32" where "High32Bits v = ucast (drop_bit 32 v)"

definition asm_Mov :: "CPURegister \<Rightarrow> u64 \<Rightarrow> assembler \<Rightarrow> assembler" where
  "asm_Mov rd imm a =
     (let w0 = Low32Bits imm; w1 = High32Bits imm;
          h0 = Low16Bits w0; h1 = High16Bits w0; h2 = Low16Bits w1; h3 = High16Bits w1;
          a1 = asm_movz rd (ucast h0) 0 a;
          a2 = asm_movk rd (ucast h1) 16 a1;
          a3 = asm_movk rd (ucast h2) 32 a2
      in asm_movk rd (ucast h3) 48 a3)"

definition asm_CallFunction :: "u64 \<Rightarrow> assembler \<Rightarrow> assembler" where
  "asm_CallFunction function a = asm_blr TMP_REG_0 (asm_Mov TMP_REG_0 function a)"

text \<open>
  \<open>Ldr (rt, label)\<close>: a bound label gives the distance from here, an unbound one is linked. The
  label pointer indexes \<open>labels\<close>; \<open>Wild\<close> is a dangling one. The distance passes through an \<open>int\<close>.
\<close>

definition asm_Ldr_label :: "CPURegister \<Rightarrow> nat \<Rightarrow> assembler \<Rightarrow> dobby_error + assembler" where
  "asm_Ldr_label rt l a =
     (if \<not> l < length (labels a) then Inl Wild
      else if lb_relocated_pos (labels a ! l) \<noteq> 0
      then let offset = ucast (lb_relocated_pos (labels a ! l) - of_nat (pc_offset a)) :: u32
           in asm_ldr_literal rt (scast offset) a
      else asm_ldr_literal rt 0
             (a\<lparr>labels := (labels a)[l := link_to kLabelImm19 0 (pc_offset a) (labels a ! l)]\<rparr>))"

definition asm_AdrpAdd :: "CPURegister \<Rightarrow> u64 \<Rightarrow> u64 \<Rightarrow> assembler \<Rightarrow> dobby_error + assembler" where
  "asm_AdrpAdd rd from_addr to_addr a =
     (let from_PAGE = ALIGN_FLOOR from_addr 0x1000; to_PAGE = ALIGN_FLOOR to_addr 0x1000;
          to_PAGEOFF = to_addr mod 0x1000
      in asm_add rd rd to_PAGEOFF (asm_adrp rd (to_PAGE - from_PAGE) a))"

text \<open>\<open>CodeGen::LiteralLdrBranch\<close> of \<open>codegen-arm64.cc\<close>.\<close>

definition LiteralLdrBranch :: "u64 \<Rightarrow> assembler \<Rightarrow> dobby_error + assembler" where
  "LiteralLdrBranch address a =
     (let (l, a1) = alloc_label address a;
          a2 = AppendRelocLabel l a1
      in ebind (asm_Ldr_label TMP_REG_0 l a2) (\<lambda>a3. Inr (asm_br TMP_REG_0 a3)))"

section \<open>Binding labels\<close>

text \<open>\<open>link_confused_instructions\<close>: every linked instruction gets the distance to the label.\<close>

definition link_instruction :: "u64 \<Rightarrow> ref_label_inst \<Rightarrow> code_buffer \<Rightarrow> dobby_error + code_buffer" where
  "link_instruction pos r buf =
     (let fixup_offset = pos - of_nat (ref_offset r)
      in case LoadInst (ref_offset r) buf of
           None \<Rightarrow> Inl Wild
         | Some inst \<Rightarrow>
             let new_inst = (if ref_type r = kLabelImm19 then encode_imm19_offset inst fixup_offset else 0)
             in case RewriteInst (ref_offset r) new_inst buf of
                  None \<Rightarrow> Inl Wild
                | Some buf' \<Rightarrow> Inr buf')"

fun link_confused_instructions :: "u64 \<Rightarrow> ref_label_inst list \<Rightarrow> code_buffer \<Rightarrow> dobby_error + code_buffer" where
  "link_confused_instructions pos [] buf = Inr buf"
| "link_confused_instructions pos (r # rs) buf =
     ebind (link_instruction pos r buf) (link_confused_instructions pos rs)"

definition PseudoBind :: "nat \<Rightarrow> assembler \<Rightarrow> dobby_error + assembler" where
  "PseudoBind l a =
     (if \<not> l < length (labels a) then Inl Wild
      else let bound_offset = of_nat (GetBufferSize (asm_buffer a));
               lab = bind_to bound_offset (labels a ! l);
               a1 = a\<lparr>labels := (labels a)[l := lab]\<rparr>
           in if has_confused_instructions lab
              then ebind (link_confused_instructions (lb_relocated_pos lab) (lb_refs lab) (asm_buffer a1))
                     (\<lambda>buf. Inr (a1\<lparr>asm_buffer := buf\<rparr>))
              else Inr a1)"

fun RelocBind_loop :: "nat list \<Rightarrow> assembler \<Rightarrow> dobby_error + assembler" where
  "RelocBind_loop [] a = Inr a"
| "RelocBind_loop (l # ls) a =
     ebind (PseudoBind l a) (\<lambda>a1.
       RelocBind_loop ls (a1\<lparr>asm_buffer := EmitBuffer (lb_data (labels a1 ! l)) (asm_buffer a1)\<rparr>))"

definition RelocBind :: "assembler \<Rightarrow> dobby_error + assembler" where
  "RelocBind a = RelocBind_loop (data_labels a) a"

end
