(* ===== verification/Arm64_Machine.thy ===== *)
theory Arm64_Machine
  imports Code_Buffer
begin

text \<open>
  The part of the ARM64 architecture the hooks rewrite and emit, as the Arm manual describes it:
  general and vector registers, the program counter, the flags and a byte memory that holds
  code and data. It is the reference the encoders and the relocation are compared with, and is
  written from the manual's fields, without the macros and constants of the code. An
  instruction outside it has no step (\<open>None\<close>).
\<close>

unbundle bit_operations_syntax

section \<open>State\<close>

record a64 =
  xreg :: "nat \<Rightarrow> u64"
  spreg :: u64
  vreg :: "nat \<Rightarrow> 128 word"
  pc :: u64
  flagN :: bool
  flagZ :: bool
  flagC :: bool
  flagV :: bool
  mem :: "u64 \<Rightarrow> byte"

text \<open>The field of bits \<open>lo\<close> to \<open>hi\<close> of an instruction, and its sign-extended value.\<close>

definition fld :: "nat \<Rightarrow> nat \<Rightarrow> u32 \<Rightarrow> u32" where
  "fld hi lo w = take_bit (Suc hi - lo) (drop_bit lo w)"

definition fldn :: "nat \<Rightarrow> nat \<Rightarrow> u32 \<Rightarrow> nat" where
  "fldn hi lo w = unat (fld hi lo w)"

definition sfld :: "nat \<Rightarrow> nat \<Rightarrow> u32 \<Rightarrow> u64" where
  "sfld hi lo w = signed_take_bit (hi - lo) (ucast (fld hi lo w))"

definition mem_read :: "(u64 \<Rightarrow> byte) \<Rightarrow> u64 \<Rightarrow> nat \<Rightarrow> byte list" where
  "mem_read m a n = map (\<lambda>i. m (a + of_nat i)) [0..<n]"

definition read32 :: "(u64 \<Rightarrow> byte) \<Rightarrow> u64 \<Rightarrow> u32" where
  "read32 m a = word32_of (mem_read m a 4)"

definition read64 :: "(u64 \<Rightarrow> byte) \<Rightarrow> u64 \<Rightarrow> u64" where
  "read64 m a = word64_of (mem_read m a 8)"

definition read128 :: "(u64 \<Rightarrow> byte) \<Rightarrow> u64 \<Rightarrow> 128 word" where
  "read128 m a = ucast (read64 m a) OR push_bit 64 (ucast (read64 m (a + 8)))"

text \<open>Bytes written from an address on; addresses wrap.\<close>

definition mem_write :: "u64 \<Rightarrow> byte list \<Rightarrow> (u64 \<Rightarrow> byte) \<Rightarrow> u64 \<Rightarrow> byte" where
  "mem_write a bs m = (\<lambda>x. if unat (x - a) < length bs then bs ! unat (x - a) else m x)"

definition write32 :: "u64 \<Rightarrow> u32 \<Rightarrow> a64 \<Rightarrow> a64" where
  "write32 a v s = s\<lparr>mem := mem_write a (bytes32 v) (mem s)\<rparr>"

definition write64 :: "u64 \<Rightarrow> u64 \<Rightarrow> a64 \<Rightarrow> a64" where
  "write64 a v s = s\<lparr>mem := mem_write a (bytes64 v) (mem s)\<rparr>"

definition write128 :: "u64 \<Rightarrow> 128 word \<Rightarrow> a64 \<Rightarrow> a64" where
  "write128 a v s = write64 (a + 8) (ucast (drop_bit 64 v)) (write64 a (ucast v) s)"

text \<open>Register 31 is the zero register in these instructions, the stack pointer in arithmetic.\<close>

definition rd_x :: "a64 \<Rightarrow> nat \<Rightarrow> u64" where
  "rd_x s n = (if n = 31 then 0 else xreg s n)"

definition wr_x :: "nat \<Rightarrow> u64 \<Rightarrow> a64 \<Rightarrow> a64" where
  "wr_x n v s = (if n = 31 then s else s\<lparr>xreg := (xreg s)(n := v)\<rparr>)"

definition rd_sp :: "a64 \<Rightarrow> nat \<Rightarrow> u64" where
  "rd_sp s n = (if n = 31 then spreg s else xreg s n)"

definition wr_sp :: "nat \<Rightarrow> u64 \<Rightarrow> a64 \<Rightarrow> a64" where
  "wr_sp n v s = (if n = 31 then s\<lparr>spreg := v\<rparr> else s\<lparr>xreg := (xreg s)(n := v)\<rparr>)"

definition next_pc :: "a64 \<Rightarrow> a64" where
  "next_pc s = s\<lparr>pc := pc s + 4\<rparr>"

definition jump :: "u64 \<Rightarrow> a64 \<Rightarrow> a64" where
  "jump a s = s\<lparr>pc := a\<rparr>"

definition branch_if :: "bool \<Rightarrow> u64 \<Rightarrow> a64 \<Rightarrow> a64" where
  "branch_if c off s = (if c then jump (pc s + off) s else next_pc s)"

section \<open>Instructions\<close>

text \<open>The condition field of a conditional branch; 15 means always, like 14.\<close>

definition cond_base :: "nat \<Rightarrow> a64 \<Rightarrow> bool" where
  "cond_base c s =
     (if c = 0 then flagZ s
      else if c = 1 then flagC s
      else if c = 2 then flagN s
      else if c = 3 then flagV s
      else if c = 4 then flagC s \<and> \<not> flagZ s
      else if c = 5 then flagN s = flagV s
      else if c = 6 then flagN s = flagV s \<and> \<not> flagZ s
      else True)"

definition cond_holds :: "u32 \<Rightarrow> a64 \<Rightarrow> bool" where
  "cond_holds c s = (let r = cond_base (unat (drop_bit 1 c)) s in if bit c 0 \<and> c \<noteq> 15 then \<not> r else r)"

definition is_uncond :: "u32 \<Rightarrow> bool" where "is_uncond w \<longleftrightarrow> fld 30 26 w = 0b00101"
definition is_bcond :: "u32 \<Rightarrow> bool" where "is_bcond w \<longleftrightarrow> fld 31 25 w = 0b0101010 \<and> fld 24 24 w = 0 \<and> fld 4 4 w = 0"
definition is_cmpb :: "u32 \<Rightarrow> bool" where "is_cmpb w \<longleftrightarrow> fld 30 25 w = 0b011010"
definition is_testb :: "u32 \<Rightarrow> bool" where "is_testb w \<longleftrightarrow> fld 30 25 w = 0b011011"
definition is_breg :: "u32 \<Rightarrow> bool" where
  "is_breg w \<longleftrightarrow> fld 31 25 w = 0b1101011 \<and> fld 24 23 w = 0 \<and> fld 20 16 w = 0b11111 \<and> fld 15 10 w = 0 \<and> fld 4 0 w = 0"
definition is_literal :: "u32 \<Rightarrow> bool" where "is_literal w \<longleftrightarrow> fld 29 27 w = 0b011 \<and> fld 25 24 w = 0b00"
definition is_ldst_uimm :: "u32 \<Rightarrow> bool" where "is_ldst_uimm w \<longleftrightarrow> fld 29 27 w = 0b111 \<and> fld 25 24 w = 0b01"
definition is_pcrel :: "u32 \<Rightarrow> bool" where "is_pcrel w \<longleftrightarrow> fld 28 24 w = 0b10000"
definition is_addsub_imm :: "u32 \<Rightarrow> bool" where "is_addsub_imm w \<longleftrightarrow> fld 28 23 w = 0b100010 \<and> fld 29 29 w = 0"
definition is_addsubs_imm :: "u32 \<Rightarrow> bool" where "is_addsubs_imm w \<longleftrightarrow> fld 28 23 w = 0b100010 \<and> fld 29 29 w = 1"
definition is_pair :: "u32 \<Rightarrow> bool" where "is_pair w \<longleftrightarrow> fld 29 27 w = 0b101 \<and> fld 25 25 w = 0 \<and> fld 24 23 w \<noteq> 0"
definition is_movewide :: "u32 \<Rightarrow> bool" where "is_movewide w \<longleftrightarrow> fld 28 23 w = 0b100101"
definition is_orr_shifted :: "u32 \<Rightarrow> bool" where
  "is_orr_shifted w \<longleftrightarrow> fld 30 24 w = 0b0101010 \<and> fld 23 21 w = 0 \<and> fld 15 10 w = 0"

definition ex_uncond :: "u32 \<Rightarrow> a64 \<Rightarrow> a64" where
  "ex_uncond w s =
     (let off = push_bit 2 (sfld 25 0 w); s1 = (if fld 31 31 w = 1 then wr_x 30 (pc s + 4) s else s)
      in jump (pc s + off) s1)"

definition ex_bcond :: "u32 \<Rightarrow> a64 \<Rightarrow> a64" where
  "ex_bcond w s = branch_if (cond_holds (fld 3 0 w) s) (push_bit 2 (sfld 23 5 w)) s"

definition ex_cmpb :: "u32 \<Rightarrow> a64 \<Rightarrow> a64" where
  "ex_cmpb w s =
     (let v = rd_x s (fldn 4 0 w); z = (if fld 31 31 w = 1 then v = 0 else (ucast v :: u32) = 0)
      in branch_if (if fld 24 24 w = 1 then \<not> z else z) (push_bit 2 (sfld 23 5 w)) s)"

definition ex_testb :: "u32 \<Rightarrow> a64 \<Rightarrow> a64" where
  "ex_testb w s =
     (let b = bit (rd_x s (fldn 4 0 w)) (32 * fldn 31 31 w + fldn 23 19 w)
      in branch_if (if fld 24 24 w = 1 then b else \<not> b) (push_bit 2 (sfld 18 5 w)) s)"

definition ex_breg :: "u32 \<Rightarrow> a64 \<Rightarrow> a64 option" where
  "ex_breg w s =
     (let t = rd_x s (fldn 9 5 w)
      in if fld 22 21 w = 0 \<or> fld 22 21 w = 2 then Some (jump t s)
         else if fld 22 21 w = 1 then Some (jump t (wr_x 30 (pc s + 4) s))
         else None)"

definition ex_literal :: "u32 \<Rightarrow> a64 \<Rightarrow> a64" where
  "ex_literal w s =
     (let a = pc s + push_bit 2 (sfld 23 5 w); t = fldn 4 0 w
      in next_pc
          (if fld 26 26 w = 0
           then (if fld 31 30 w = 0 then wr_x t (ucast (read32 (mem s) a)) s
                 else if fld 31 30 w = 1 then wr_x t (read64 (mem s) a) s
                 else if fld 31 30 w = 2 then wr_x t (scast (read32 (mem s) a)) s
                 else s)
           else s\<lparr>vreg := (vreg s)(t := (if fld 31 30 w = 0 then ucast (read32 (mem s) a)
                                       else if fld 31 30 w = 1 then ucast (read64 (mem s) a)
                                       else read128 (mem s) a))\<rparr>))"

text \<open>Loads and stores of a general register with an unsigned offset, of 64 or 32 bits.\<close>

definition ex_ldr_uimm :: "u32 \<Rightarrow> a64 \<Rightarrow> a64 option" where
  "ex_ldr_uimm w s =
     (let b = rd_sp s (fldn 9 5 w); t = fldn 4 0 w; imm = ucast (fld 21 10 w) :: u64
      in if fld 26 26 w = 0 \<and> fld 23 22 w = 1
         then (if fld 31 30 w = 3 then Some (next_pc (wr_x t (read64 (mem s) (b + push_bit 3 imm)) s))
               else if fld 31 30 w = 2 then Some (next_pc (wr_x t (ucast (read32 (mem s) (b + push_bit 2 imm))) s))
               else None)
         else if fld 26 26 w = 0 \<and> fld 23 22 w = 0
         then (if fld 31 30 w = 3 then Some (next_pc (write64 (b + push_bit 3 imm) (rd_x s t) s))
               else if fld 31 30 w = 2 then Some (next_pc (write32 (b + push_bit 2 imm) (ucast (rd_x s t)) s))
               else None)
         else None)"

text \<open>
  Loads and stores of a pair, of two X or two Q registers: bits 24 and 23 are 01 for the post-index, 10 for
  the signed offset, 11 for the pre-index. A load into two equal registers, or into the base it writes
  back, is left out.
\<close>

definition ex_pair :: "u32 \<Rightarrow> a64 \<Rightarrow> a64 option" where
  "ex_pair w s =
     (let n = fldn 9 5 w; t = fldn 4 0 w; t2 = fldn 14 10 w; vector = (fld 26 26 w = 1); load = (fld 22 22 w = 1);
          mode = fld 24 23 w; off = push_bit (if vector then 4 else 3) (sfld 21 15 w); base = rd_sp s n;
          a = (if mode = 1 then base else base + off);
          s1 = (if vector
                then (if load then s\<lparr>vreg := (vreg s)(t := read128 (mem s) a, t2 := read128 (mem s) (a + 16))\<rparr>
                      else write128 (a + 16) (vreg s t2) (write128 a (vreg s t) s))
                else (if load then wr_x t2 (read64 (mem s) (a + 8)) (wr_x t (read64 (mem s) a) s)
                      else write64 (a + 8) (rd_x s t2) (write64 a (rd_x s t) s)))
      in if fld 31 30 w \<noteq> 2 \<or> load \<and> t = t2 \<or> \<not> vector \<and> mode \<noteq> 2 \<and> n \<noteq> 31 \<and> (n = t \<or> n = t2) then None
         else Some (next_pc (if mode = 2 then s1 else wr_sp n (base + off) s1)))"

definition pcrel_imm :: "u32 \<Rightarrow> u64" where
  "pcrel_imm w = signed_take_bit 20 (ucast (fld 30 29 w OR push_bit 2 (fld 23 5 w)))"

definition ex_pcrel :: "u32 \<Rightarrow> a64 \<Rightarrow> a64" where
  "ex_pcrel w s =
     next_pc (wr_x (fldn 4 0 w)
       (if fld 31 31 w = 0 then pc s + pcrel_imm w
        else push_bit 12 (drop_bit 12 (pc s)) + push_bit 12 (pcrel_imm w)) s)"

definition ex_addsub_imm :: "u32 \<Rightarrow> a64 \<Rightarrow> a64" where
  "ex_addsub_imm w s =
     (let a = rd_sp s (fldn 9 5 w); imm = push_bit (if fld 22 22 w = 1 then 12 else 0) (ucast (fld 21 10 w)) :: u64;
          r = (if fld 30 30 w = 0 then a + imm else a - imm)
      in next_pc (wr_sp (fldn 4 0 w) (if fld 31 31 w = 1 then r else take_bit 32 r) s))"

text \<open>With the flags: carry and overflow as of an addition of the operand or its complement.\<close>

definition set_flags :: "bool \<Rightarrow> bool \<Rightarrow> bool \<Rightarrow> bool \<Rightarrow> a64 \<Rightarrow> a64" where
  "set_flags n z c v s = s\<lparr>flagN := n, flagZ := z, flagC := c, flagV := v\<rparr>"

definition ex_addsubs_imm :: "u32 \<Rightarrow> a64 \<Rightarrow> a64" where
  "ex_addsubs_imm w s =
     (let a = rd_sp s (fldn 9 5 w); imm = push_bit (if fld 22 22 w = 1 then 12 else 0) (ucast (fld 21 10 w)) :: u64;
          sub = (fld 30 30 w = 1); y = (if sub then NOT imm else imm); d = fldn 4 0 w
      in next_pc
          (if fld 31 31 w = 1
           then (let r = a + y + of_bool sub
                 in set_flags (bit r 63) (r = 0) (2 ^ 64 \<le> uint a + uint y + of_bool sub)
                      (sint r \<noteq> sint a + sint y + of_bool sub) (wr_x d r s))
           else (let a' = ucast a :: u32; y' = ucast y; r = a' + y' + of_bool sub
                 in set_flags (bit r 31) (r = 0) (2 ^ 32 \<le> uint a' + uint y' + of_bool sub)
                      (sint r \<noteq> sint a' + sint y' + of_bool sub) (wr_x d (ucast r) s))))"

definition ex_movewide :: "u32 \<Rightarrow> a64 \<Rightarrow> a64 option" where
  "ex_movewide w s =
     (let t = fldn 4 0 w; sh = 16 * fldn 22 21 w; imm = push_bit sh (ucast (fld 20 5 w)) :: u64;
          r = (if fld 30 29 w = 0 then NOT imm
               else if fld 30 29 w = 2 then imm
               else (rd_x s t AND NOT (push_bit sh 0xffff)) OR imm)
      in if fld 30 29 w = 1 then None
         else if fld 31 31 w = 0 \<and> 32 \<le> sh then None
         else Some (next_pc (wr_x t (if fld 31 31 w = 1 then r else take_bit 32 r) s)))"

definition ex_orr_shifted :: "u32 \<Rightarrow> a64 \<Rightarrow> a64" where
  "ex_orr_shifted w s =
     (let r = rd_x s (fldn 9 5 w) OR rd_x s (fldn 20 16 w)
      in next_pc (wr_x (fldn 4 0 w) (if fld 31 31 w = 1 then r else take_bit 32 r) s))"

definition a64_exec :: "u32 \<Rightarrow> a64 \<Rightarrow> a64 option" where
  "a64_exec w s =
     (if is_uncond w then Some (ex_uncond w s)
      else if is_bcond w then Some (ex_bcond w s)
      else if is_cmpb w then Some (ex_cmpb w s)
      else if is_testb w then Some (ex_testb w s)
      else if is_breg w then ex_breg w s
      else if is_literal w then Some (ex_literal w s)
      else if is_ldst_uimm w then ex_ldr_uimm w s
      else if is_pcrel w then Some (ex_pcrel w s)
      else if is_addsub_imm w then Some (ex_addsub_imm w s)
      else if is_movewide w then ex_movewide w s
      else if is_orr_shifted w then Some (ex_orr_shifted w s)
      else if is_addsubs_imm w then Some (ex_addsubs_imm w s)
      else if is_pair w then ex_pair w s
      else if w = 0xD503201F then Some (next_pc s)
      else None)"

text \<open>One step, and a fixed number of them.\<close>

definition a64_step :: "a64 \<Rightarrow> a64 option" where
  "a64_step s = a64_exec (read32 (mem s) (pc s)) s"

fun a64_steps :: "nat \<Rightarrow> a64 \<Rightarrow> a64 option" where
  "a64_steps 0 s = Some s"
| "a64_steps (Suc n) s = Option.bind (a64_step s) (a64_steps n)"

lemma a64_steps_add: "a64_steps (m + n) s = Option.bind (a64_steps m s) (a64_steps n)"
  by (induction m arbitrary: s) (auto simp: bind_eq_None_conv split: Option.bind_splits)

text \<open>\<open>code\<close> is the memory from address \<open>a\<close> on.\<close>

definition placed :: "byte list \<Rightarrow> u64 \<Rightarrow> (u64 \<Rightarrow> byte) \<Rightarrow> bool" where
  "placed code a m \<longleftrightarrow> (\<forall>i < length code. m (a + of_nat i) = code ! i)"

lemma placed_cell:
  assumes "placed code a m" and "load_cell n get i code = Some v"
  shows "get (mem_read m (a + of_nat i) n) = v"
proof -
  have i: "i + n \<le> length code" and v: "v = get (take n (drop i code))"
    using assms(2) by (simp_all add: load_cell_def split: if_splits)
  have "mem_read m (a + of_nat i) n = take n (drop i code)"
    using i assms(1) by (intro nth_equalityI) (auto simp: mem_read_def placed_def add.assoc simp flip: of_nat_add)
  with v show ?thesis by simp
qed

lemma placed_read32:
  "placed code a m \<Longrightarrow> load_cell 4 word32_of i code = Some v \<Longrightarrow> read32 m (a + of_nat i) = v"
  by (simp add: read32_def placed_cell)

lemma placed_read64:
  "placed code a m \<Longrightarrow> load_cell 8 word64_of i code = Some v \<Longrightarrow> read64 m (a + of_nat i) = v"
  by (simp add: read64_def placed_cell)

end
