(* ===== verification/Arm64_Encode.thy ===== *)
theory Arm64_Encode
  imports Arm64_Assembler Arm64_Machine
begin

text \<open>
  What the emitted instructions do: every encoder the trampolines and the relocation use, run
  on the machine. A word is a disjunction of fields at fixed places; \<open>fld_simps\<close> computes the
  manual's fields of such a word, so that decoding an emitted instruction is rewriting.
\<close>

unbundle bit_operations_syntax

named_theorems fld_simps \<open>fields of assembled words\<close>

lemma fld_or [fld_simps]: "fld hi lo (a OR b) = fld hi lo a OR fld hi lo b"
  by (simp add: fld_def take_bit_or drop_bit_or)

lemma bit_fld: "bit (fld hi lo w) k \<longleftrightarrow> k < Suc hi - lo \<and> bit w (lo + k)"
  by (simp add: fld_def bit_simps)

lemma fld_push_above [fld_simps]: "hi < c \<Longrightarrow> fld hi lo (push_bit c v) = 0"
  by (rule bit_word_eqI) (auto simp: bit_fld bit_simps)

lemma fld_push_below [fld_simps]: "c + n \<le> lo \<Longrightarrow> fld hi lo (push_bit c (take_bit n v)) = 0"
  by (rule bit_word_eqI) (auto simp: bit_fld bit_simps)

lemma fld_push_same [fld_simps]:
  "n = Suc hi - lo \<Longrightarrow> hi < 32 \<Longrightarrow> fld hi lo (push_bit lo (take_bit n v)) = take_bit n v"
  by (rule bit_word_eqI) (auto simp: bit_fld bit_simps)

lemma fld_take_same [fld_simps]: "n = Suc hi \<Longrightarrow> hi < 32 \<Longrightarrow> fld hi 0 (take_bit n v) = take_bit n v"
  by (rule bit_word_eqI) (auto simp: bit_fld bit_simps)

lemma fld_take_below [fld_simps]: "n \<le> lo \<Longrightarrow> fld hi lo (take_bit n v) = 0"
  by (rule bit_word_eqI) (auto simp: bit_fld bit_simps)

lemma fld_numeral [fld_simps]: "fld hi lo (numeral n) = take_bit (Suc hi - lo) (drop_bit lo (numeral n))"
  "fld hi lo 0 = 0"
  by (simp_all add: fld_def)

lemmas word_defs = opcode_defs LeftShift_eq Rd_def Rn_def Rt_def Rm_def Rt2_def enc_sf_def Is64Bits_def

lemma br17: "BR_op OR Rn TMP_REG_0 = 0xD61F0220" and blr17: "BLR_op OR Rn TMP_REG_0 = 0xD63F0220"
  by (simp_all add: word_defs register_defs)

lemmas class_defs = is_uncond_def is_bcond_def is_cmpb_def is_testb_def is_breg_def is_literal_def
  is_ldst_uimm_def is_pcrel_def is_addsub_imm_def is_movewide_def is_orr_shifted_def is_addsubs_imm_def is_pair_def

text \<open>The classes exclude each other: their fixed bits differ.\<close>

lemma fld_bit: "fld hi lo w = v \<Longrightarrow> lo \<le> n \<Longrightarrow> n \<le> hi \<Longrightarrow> bit w n \<longleftrightarrow> bit v (n - lo)"
  by (metis bit_fld le_add_diff_inverse less_Suc_eq_le diff_less_mono)

lemma class_bits:
  "is_uncond w \<Longrightarrow> \<not> bit w 30 \<and> \<not> bit w 29 \<and> bit w 28 \<and> \<not> bit w 27 \<and> bit w 26"
  "is_bcond w \<Longrightarrow> \<not> bit w 31 \<and> bit w 30 \<and> \<not> bit w 29 \<and> bit w 28 \<and> \<not> bit w 27 \<and> bit w 26 \<and> \<not> bit w 25"
  "is_cmpb w \<Longrightarrow> \<not> bit w 30 \<and> bit w 29 \<and> bit w 28 \<and> \<not> bit w 27 \<and> bit w 26 \<and> \<not> bit w 25"
  "is_testb w \<Longrightarrow> \<not> bit w 30 \<and> bit w 29 \<and> bit w 28 \<and> \<not> bit w 27 \<and> bit w 26 \<and> bit w 25"
  "is_breg w \<Longrightarrow> bit w 31 \<and> bit w 30 \<and> \<not> bit w 29 \<and> bit w 28 \<and> \<not> bit w 27 \<and> bit w 26 \<and> bit w 25"
  "is_literal w \<Longrightarrow> \<not> bit w 29 \<and> bit w 28 \<and> bit w 27 \<and> \<not> bit w 25 \<and> \<not> bit w 24"
  "is_ldst_uimm w \<Longrightarrow> bit w 29 \<and> bit w 28 \<and> bit w 27 \<and> \<not> bit w 25 \<and> bit w 24"
  "is_pcrel w \<Longrightarrow> bit w 28 \<and> \<not> bit w 27 \<and> \<not> bit w 26 \<and> \<not> bit w 25 \<and> \<not> bit w 24"
  "is_addsub_imm w \<Longrightarrow> \<not> bit w 29 \<and> bit w 28 \<and> \<not> bit w 27 \<and> \<not> bit w 26 \<and> \<not> bit w 25 \<and> bit w 24 \<and> \<not> bit w 23"
  "is_movewide w \<Longrightarrow> bit w 28 \<and> \<not> bit w 27 \<and> \<not> bit w 26 \<and> bit w 25 \<and> \<not> bit w 24 \<and> bit w 23"
  "is_orr_shifted w \<Longrightarrow> \<not> bit w 28 \<and> bit w 27 \<and> bit w 25"
  "is_addsubs_imm w \<Longrightarrow> bit w 29 \<and> bit w 28 \<and> \<not> bit w 27 \<and> \<not> bit w 26 \<and> \<not> bit w 25 \<and> bit w 24 \<and> \<not> bit w 23"
  "is_pair w \<Longrightarrow> bit w 29 \<and> \<not> bit w 28 \<and> bit w 27 \<and> \<not> bit w 25"
  unfolding class_defs by (auto simp: fld_bit)

lemma exec_classes:
  "is_uncond w \<Longrightarrow> a64_exec w s = Some (ex_uncond w s)"
  "is_bcond w \<Longrightarrow> a64_exec w s = Some (ex_bcond w s)"
  "is_cmpb w \<Longrightarrow> a64_exec w s = Some (ex_cmpb w s)"
  "is_testb w \<Longrightarrow> a64_exec w s = Some (ex_testb w s)"
  "is_literal w \<Longrightarrow> a64_exec w s = Some (ex_literal w s)"
  "is_ldst_uimm w \<Longrightarrow> a64_exec w s = ex_ldr_uimm w s"
  "is_pcrel w \<Longrightarrow> a64_exec w s = Some (ex_pcrel w s)"
  "is_addsub_imm w \<Longrightarrow> a64_exec w s = Some (ex_addsub_imm w s)"
  "is_movewide w \<Longrightarrow> a64_exec w s = ex_movewide w s"
  "is_addsubs_imm w \<Longrightarrow> a64_exec w s = Some (ex_addsubs_imm w s)"
  "is_pair w \<Longrightarrow> a64_exec w s = ex_pair w s"
  unfolding a64_exec_def by (auto dest!: class_bits)

lemma exec_br17: "a64_exec 0xD61F0220 s = Some (jump (xreg s 17) s)"
  by (simp add: a64_exec_def class_defs fld_simps ex_breg_def fldn_def rd_x_def)

lemma exec_blr17: "a64_exec 0xD63F0220 s = Some (jump (xreg s 17) (wr_x 30 (pc s + 4) s))"
  by (simp add: a64_exec_def class_defs fld_simps ex_breg_def fldn_def rd_x_def)

section \<open>The decoders read the manual's fields\<close>

lemma bit_sfld: "lo \<le> hi \<Longrightarrow> hi < 32 \<Longrightarrow> bit (sfld hi lo w) k \<longleftrightarrow> k < 64 \<and> bit w (lo + min k (hi - lo))"
  by (auto simp: sfld_def bit_simps bit_fld min_def)

lemma decode_imm14_fields: "decode_imm14_offset w = push_bit 2 (sfld 18 5 w)"
  by (rule bit_word_eqI) (auto simp: bit_decode_imm14 bit_sfld bit_push_bit_iff add.commute)

lemma decode_imm19_fields: "decode_imm19_offset w = push_bit 2 (sfld 23 5 w)"
  by (rule bit_word_eqI) (auto simp: bit_decode_imm19 bit_sfld bit_push_bit_iff add.commute)

lemma decode_imm26_fields: "decode_imm26_offset w = push_bit 2 (sfld 25 0 w)"
  by (rule bit_word_eqI) (auto simp: bit_decode_imm26 bit_sfld bit_push_bit_iff add.commute)

lemma decode_adr_fields: "decode_immhi_immlo_offset w = pcrel_imm w"
proof (rule bit_word_eqI)
  fix k
  assume "k < LENGTH(64)"
  then show "bit (decode_immhi_immlo_offset w) k \<longleftrightarrow> bit (pcrel_imm w) k"
    by (cases "k \<le> 20")
      (auto simp: bit_decode_adr pcrel_imm_def bit_fld bit_simps not_less not_le min_absorb1 min_absorb2 add.commute)
qed

lemma decode_rt_fields: "decode_rt w = fld 4 0 w" "decode_rd w = fld 4 0 w"
  by (simp_all add: decode_rt_def decode_rd_def fld_def bits_eq)

section \<open>Linked literal loads\<close>

definition ldr17 :: u32 where
  "ldr17 = 0x58000011"

lemma asm_ldr17: "asm_ldr_literal TMP_REG_0 0 a = Inr (asm_Emit ldr17 a)"
  by (simp add: asm_ldr_literal_def EmitLoadRegLiteral_def ldr17_def LoadRegLiteralSub_def word_defs register_defs)

lemma fld_encode_imm19 [fld_simps]:
  "hi < 5 \<or> 24 \<le> lo \<Longrightarrow> fld hi lo (encode_imm19_offset w off) = fld hi lo w"
  by (rule bit_word_eqI) (auto simp: bit_fld bit_encode_imm19)

lemma exec_ldr17:
  assumes "fits_branch 21 off"
  shows "a64_exec (encode_imm19_offset ldr17 off) s =
    Some (next_pc (s\<lparr>xreg := (xreg s)(17 := read64 (mem s) (pc s + off))\<rparr>))"
proof -
  have "push_bit 2 (sfld 23 5 (encode_imm19_offset ldr17 off)) = off"
    using imm19.dec_enc_iff [of ldr17 off] assms by (simp add: decode_imm19_fields)
  then show ?thesis
    by (simp add: a64_exec_def class_defs fld_simps ldr17_def ex_literal_def fldn_def wr_x_def)
qed

section \<open>Moves\<close>

definition movewide_word :: "u32 \<Rightarrow> u32 \<Rightarrow> u16 \<Rightarrow> u32 \<Rightarrow> u32" where
  "movewide_word op hw h c =
     MoveWideImmediateFixed OR op OR LeftShift 1 1 31 OR LeftShift hw 2 21 OR push_bit 5 (take_bit 16 (ucast h))
       OR take_bit 5 c"

lemma imm16_field: "ucast (LeftShift (ucast (h :: u16) :: u64) 16 5) = (push_bit 5 (take_bit 16 (ucast h)) :: u32)"
  by (rule bit_word_eqI) (auto simp: LeftShift_eq bit_simps)

lemma take_bit_5: "c < 32 \<Longrightarrow> take_bit 5 c = (c :: u32)"
  by (simp add: word_unat_eq_iff unsigned_take_bit_eq take_bit_nat_eq_self word_less_nat_alt)

lemma take_bit_ucast16: "take_bit 16 (ucast (h :: u16)) = (ucast h :: u32)"
  by (rule bit_word_eqI) (auto simp: bit_simps dest: bit_imp_le_length)

lemma asm_MoveWide_X:
  assumes "c < 32"
  shows "asm_MoveWide (X_reg c) (ucast h) sh op =
    asm_Emit (movewide_word op (of_int (if 0 < sh then sh div 16 else 0)) h c)"
proof -
  have "take_bit 5 c = c" using assms by (rule take_bit_5)
  then show ?thesis
    by (simp add: asm_MoveWide_def movewide_word_def imm16_field enc_sf_def Is64Bits_def X_reg_def Rd_def or.assoc)
qed

lemma fld_movewide:
  assumes "op = MOVZ \<or> op = MOVK"
  shows "fld 31 31 (movewide_word op hw h c) = 1" "fld 28 23 (movewide_word op hw h c) = 0b100101"
    "fld 30 29 (movewide_word op hw h c) = (if op = MOVZ then 2 else 3)"
    "fld 22 21 (movewide_word op hw h c) = take_bit 2 hw"
    "fld 20 5 (movewide_word op hw h c) = take_bit 16 (ucast h)"
    "fld 4 0 (movewide_word op hw h c) = take_bit 5 c"
    "fld 30 26 (movewide_word op hw h c) = (if op = MOVZ then 0b10100 else 0b11100)"
  using assms by (auto simp: movewide_word_def word_defs fld_simps)

lemma movewide_class:
  "op = MOVZ \<or> op = MOVK \<Longrightarrow> a64_exec (movewide_word op hw h c) s = ex_movewide (movewide_word op hw h c) s"
  by (rule exec_classes) (simp add: is_movewide_def fld_movewide)

lemma exec_movewide:
  assumes "op = MOVZ \<or> op = MOVK" and "c < 32" and "hw < 4"
  shows "a64_exec (movewide_word op hw h c) s = Some (next_pc (wr_x (unat c)
    (if op = MOVZ then push_bit (16 * unat hw) (ucast h)
     else (rd_x s (unat c) AND NOT (push_bit (16 * unat hw) 0xffff)) OR push_bit (16 * unat hw) (ucast h)) s))"
proof -
  have hw: "take_bit 2 hw = hw"
    using assms(3) by (simp add: word_unat_eq_iff unsigned_take_bit_eq take_bit_nat_eq_self word_less_nat_alt)
  have ne: "(2 :: u32) \<noteq> 0" "(3 :: u32) \<noteq> 0" "(3 :: u32) \<noteq> 2" "(2 :: u32) \<noteq> 1" "(3 :: u32) \<noteq> 1" "(1 :: u32) \<noteq> 0"
    by simp_all
  have u: "(ucast (ucast h :: u32) :: u64) = ucast h"
    by (rule bit_word_eqI) (auto simp: bit_simps dest: bit_imp_le_length)
  show ?thesis
    unfolding movewide_class [OF assms(1)] ex_movewide_def Let_def fldn_def fld_movewide [OF assms(1)]
      take_bit_5 [OF assms(2)] hw take_bit_ucast16 u
    using assms(1) ne by (cases "op = MOVZ") simp_all
qed

text \<open>\<open>Mov\<close>: four instructions build the 64-bit value in any general register.\<close>

definition mov_words :: "u32 \<Rightarrow> u64 \<Rightarrow> u32 list" where
  "mov_words c v =
     [movewide_word MOVZ 0 (ucast v) c, movewide_word MOVK 1 (ucast (drop_bit 16 v)) c,
      movewide_word MOVK 2 (ucast (drop_bit 32 v)) c, movewide_word MOVK 3 (ucast (drop_bit 48 v)) c]"

lemma halves:
  "Low16Bits (Low32Bits v) = ucast v" "High16Bits (Low32Bits v) = ucast (drop_bit 16 v)"
  "Low16Bits (High32Bits v) = ucast (drop_bit 32 v)" "High16Bits (High32Bits v) = ucast (drop_bit 48 v)"
proof -
  have ff: "(0xffff :: u32) = mask 16" by (simp add: mask_numeral)
  show "Low16Bits (Low32Bits v) = ucast v" "High16Bits (Low32Bits v) = ucast (drop_bit 16 v)"
    "Low16Bits (High32Bits v) = ucast (drop_bit 32 v)" "High16Bits (High32Bits v) = ucast (drop_bit 48 v)"
    by (rule bit_word_eqI; auto simp: Low16Bits_def High16Bits_def Low32Bits_def High32Bits_def ff bit_simps)+
qed

lemma asm_Mov_X:
  assumes "c < 32"
  shows "asm_Mov (X_reg c) v a = a\<lparr>asm_buffer := asm_buffer a @ concat (map bytes32 (mov_words c v))\<rparr>"
  by (simp add: asm_Mov_def asm_movz_def asm_movk_def asm_MoveWide_X [OF assms] halves mov_words_def
      asm_Emit_def Emit32_def EmitBuffer_def)

lemma mov_value:
  fixes v :: u64
  defines "p k x \<equiv> push_bit (16 * k) (ucast (x :: u16)) :: u64"
  shows "((((p 0 (ucast v) AND NOT (push_bit 16 0xffff)) OR p 1 (ucast (drop_bit 16 v)))
      AND NOT (push_bit 32 0xffff)) OR p 2 (ucast (drop_bit 32 v)))
      AND NOT (push_bit 48 0xffff) OR p 3 (ucast (drop_bit 48 v)) = v"
proof (rule bit_word_eqI)
  have ff: "(0xffff :: u64) = mask 16" by (simp add: mask_numeral)
  fix k
  assume "k < LENGTH(64)"
  then show "bit (((((p 0 (ucast v) AND NOT (push_bit 16 0xffff)) OR p 1 (ucast (drop_bit 16 v)))
      AND NOT (push_bit 32 0xffff)) OR p 2 (ucast (drop_bit 32 v)))
      AND NOT (push_bit 48 0xffff) OR p 3 (ucast (drop_bit 48 v))) k \<longleftrightarrow> bit v k"
    by (cases "k < 16"; cases "k < 32"; cases "k < 48")
      (auto simp: p_def ff bit_simps not_less not_le less_diff_conv2)
qed

section \<open>Running emitted code\<close>

text \<open>\<open>running ws code i a s\<close>: the words \<open>ws\<close> stand at offset \<open>i\<close> of code placed at \<open>a\<close>, and the
  next one to run is the first of them.\<close>

definition words_at :: "u32 list \<Rightarrow> nat \<Rightarrow> code_buffer \<Rightarrow> bool" where
  "words_at ws i code \<longleftrightarrow> (\<forall>k < length ws. load_cell 4 word32_of (i + 4 * k) code = Some (ws ! k))"

lemma words_at_Cons: "words_at (w # ws) i code \<longleftrightarrow> load_cell 4 word32_of i code = Some w \<and> words_at ws (i + 4) code"
  unfolding words_at_def
  by (auto simp: less_Suc_eq_0_disj nth_Cons' add.assoc gr0_conv_Suc)

lemma words_at_Nil [simp]: "words_at [] i code"
  by (simp add: words_at_def)

lemma words_at_append: "words_at (us @ ws) i code \<longleftrightarrow> words_at us i code \<and> words_at ws (i + 4 * length us) code"
  by (induction us arbitrary: i) (simp_all add: words_at_Cons add.assoc)

lemma words_at_emitted: "words_at ws (length buf) (buf @ concat (map bytes32 ws) @ bs)"
  unfolding words_at_def by (simp add: cell32.load_sequence)

lemma words_at_extend: "words_at ws i code \<Longrightarrow> words_at ws i (code @ bs)"
  unfolding words_at_def
  by (metis cell32.load_append cell32.load_ok_iff option.distinct(1))

lemma step_at:
  assumes "placed code a (mem s)" and "load_cell 4 word32_of i code = Some w" and "pc s = a + of_nat i"
  shows "a64_step s = a64_exec w s"
  using placed_read32 [OF assms(1,2)] assms(3) by (simp add: a64_step_def)

lemma next_pc_simps [simp]:
  "pc (next_pc s) = pc s + 4" "mem (next_pc s) = mem s" "xreg (next_pc s) = xreg s" "spreg (next_pc s) = spreg s"
  "pc (wr_x n v s) = pc s" "mem (wr_x n v s) = mem s" "pc (jump a s) = a" "xreg (jump a s) = xreg s" "mem (jump a s) = mem s"
  by (simp_all add: next_pc_def wr_x_def jump_def)

lemma rd_wr_x [simp]: "rd_x (wr_x n v s) m = (if m = n \<and> n \<noteq> 31 then v else rd_x s m)" "rd_x (next_pc s) m = rd_x s m"
  by (auto simp: rd_x_def wr_x_def)

lemma wr_x_next: "wr_x n v (next_pc s) = next_pc (wr_x n v s)" "wr_x n v (wr_x n u s) = wr_x n v s"
  by (simp_all add: wr_x_def next_pc_def)

definition keep_half :: "nat \<Rightarrow> u16 \<Rightarrow> u64 \<Rightarrow> u64" where
  "keep_half k h u = (u AND NOT (push_bit (16 * k) 0xffff)) OR push_bit (16 * k) (ucast h)"

text \<open>\<open>Mov\<close> in memory: after its four instructions the register holds the value.\<close>

lemma run_mov:
  assumes "placed code a (mem s)" and "words_at (mov_words c v) i code" and "pc s = a + of_nat i" and "c < 32"
  shows "a64_steps 4 s = Some ((wr_x (unat c) v s)\<lparr>pc := pc s + 16\<rparr>)"
proof -
  note w = assms(2) [unfolded mov_words_def words_at_Cons]
  have ne: "MOVK \<noteq> MOVZ" by (simp add: opcode_defs)
  have lt: "(1 :: u32) < 4" "(2 :: u32) < 4" "(3 :: u32) < 4" by (simp_all add: word_less_nat_alt)
  let ?c = "unat c"
  have z: "a64_step t = Some (next_pc (wr_x ?c (push_bit 0 (ucast h)) t))"
    if "load_cell 4 word32_of j code = Some (movewide_word MOVZ 0 h c)" "mem t = mem s" "pc t = a + of_nat j"
    for t h j
    using step_at [of code a t j] that assms(1) exec_movewide [OF disjI1 [OF refl] assms(4), of 0] by simp
  have k: "a64_step t = Some (next_pc (wr_x ?c (keep_half (unat hw) h u) t))"
    if "load_cell 4 word32_of j code = Some (movewide_word MOVK hw h c)" "hw < 4"
      "mem t = mem s" "pc t = a + of_nat j" "?c \<noteq> 31 \<Longrightarrow> rd_x t ?c = u" for t hw h j u
  proof -
    have "a64_step t = Some (next_pc (wr_x ?c (keep_half (unat hw) h (rd_x t ?c)) t))"
      using step_at [of code a t j] that(1,3,4) assms(1) ne
        exec_movewide [OF disjI2 [OF refl] assms(4) that(2)] by (simp add: keep_half_def)
    then show ?thesis using that(5) by (cases "?c = 31") (simp_all add: wr_x_def)
  qed
  define v1 where "v1 = (push_bit 0 (ucast (ucast v :: u16)) :: u64)"
  define v2 where "v2 = keep_half (unat (1 :: u32)) (ucast (drop_bit 16 v)) v1"
  define v3 where "v3 = keep_half (unat (2 :: u32)) (ucast (drop_bit 32 v)) v2"
  define s1 where "s1 = next_pc (wr_x ?c v1 s)"
  define s2 where "s2 = next_pc (wr_x ?c v2 s1)"
  define s3 where "s3 = next_pc (wr_x ?c v3 s2)"
  define s4 where "s4 = next_pc (wr_x ?c v s3)"
  note sd = s1_def s2_def s3_def
  have vv: "keep_half (unat (3 :: u32)) (ucast (drop_bit 48 v)) v3 = v"
    using mov_value [of v] by (simp add: v1_def v2_def v3_def keep_half_def)
  have "a64_step s = Some s1" using z [of i _ s] w assms(3) by (simp add: s1_def v1_def)
  moreover have "a64_step s1 = Some s2" unfolding s2_def v2_def
    by (rule k [where j = "i + 4"]) (use w assms(3) lt in \<open>simp_all add: sd add.commute\<close>)
  moreover have "a64_step s2 = Some s3" unfolding s3_def v3_def
    by (rule k [where j = "i + 8"]) (use w assms(3) lt in \<open>simp_all add: sd add.commute\<close>)
  moreover have "a64_step s3 = Some (next_pc (wr_x ?c (keep_half (unat (3 :: u32)) (ucast (drop_bit 48 v)) v3) s3))"
    by (rule k [where j = "i + 12"]) (use w assms(3) lt in \<open>simp_all add: sd add.commute\<close>)
  then have "a64_step s3 = Some s4" by (simp only: vv s4_def)
  moreover have "s4 = (wr_x ?c v s)\<lparr>pc := pc s + 16\<rparr>"
    by (simp add: s4_def sd wr_x_next) (simp add: next_pc_def wr_x_def)
  ultimately show ?thesis by (simp add: eval_nat_numeral)
qed

section \<open>Page addresses, branches, loads\<close>

text \<open>The word \<open>asm_adrp\<close> emits is the \<open>adrp\<close> opcode with its page field written.\<close>

definition adrp17 :: "u64 \<Rightarrow> u32" where
  "adrp17 pages = encode_immhi_immlo_offset 0x90000011 pages"

lemma asm_adrp17:
  assumes "pages = signed_drop_bit 12 imm"
  shows "asm_adrp TMP_REG_0 imm = asm_Emit (adrp17 pages)"
proof -
  have "ADRP_op OR Rd TMP_REG_0 = 0x90000011" by (simp add: word_defs register_defs)
  moreover have "0x90000011 OR ucast (LeftShift (bits pages 0 1) 2 29) OR ucast (LeftShift (bits pages 2 20) 19 5)
      = adrp17 pages"
  proof (rule bit_word_eqI)
    fix k
    assume k: "k < LENGTH(32)"
    have z: "\<not> bit (0x90000011 :: u32) k" if "5 \<le> k \<and> k < 24 \<or> 29 \<le> k \<and> k < 31"
      using that fld_bit [of 23 5 "0x90000011" 0 k] fld_bit [of 30 29 "0x90000011" 0 k] by (auto simp: fld_def)
    show "bit (0x90000011 OR ucast (LeftShift (bits pages 0 1) 2 29) OR ucast (LeftShift (bits pages 2 20) 19 5) :: u32) k
      \<longleftrightarrow> bit (adrp17 pages) k"
      using k z unfolding adrp17_def bit_encode_adr
      by (simp add: bit_or_iff bit_unsigned_iff LeftShift_eq bits_eq bit_push_bit_iff bit_take_bit_iff bit_drop_bit_eq)
        (auto simp: less_diff_conv2)
  qed
  ultimately show ?thesis
    by (simp add: asm_adrp_def assms or.assoc [symmetric])
qed

lemma exec_adrp17:
  "a64_exec (adrp17 pages) s =
    Some (next_pc (s\<lparr>xreg := (xreg s)(17 := push_bit 12 (drop_bit 12 (pc s)) + push_bit 12 (signed_take_bit 20 pages))\<rparr>))"
proof -
  have f: "fld hi lo (adrp17 pages) = fld hi lo 0x90000011" if "hi < 5 \<or> 24 \<le> lo \<and> hi < 29 \<or> 31 \<le> lo" for hi lo
    using that by (intro bit_word_eqI) (auto simp: bit_fld adrp17_def bit_encode_adr)
  have "pcrel_imm (adrp17 pages) = signed_take_bit 20 pages"
    using decode_encode_adr [of "0x90000011" pages] by (simp add: adrp17_def decode_adr_fields)
  moreover have "is_pcrel (adrp17 pages)" by (simp add: is_pcrel_def f fld_simps)
  ultimately show ?thesis by (simp add: exec_classes ex_pcrel_def fldn_def f fld_simps wr_x_def)
qed

definition add17 :: "u64 \<Rightarrow> u32" where
  "add17 imm = 0x91000231 OR push_bit 10 (take_bit 12 (ucast imm))"

lemma asm_add17: "asm_add TMP_REG_0 TMP_REG_0 imm a = Inr (asm_Emit (add17 imm) a)"
proof -
  have "ucast (LeftShift imm 12 10) = (push_bit 10 (take_bit 12 (ucast imm)) :: u32)"
    by (rule bit_word_eqI) (auto simp: LeftShift_eq bit_simps)
  moreover have "add_sub_imm ADD_x OR Rd TMP_REG_0 OR Rn TMP_REG_0 = 0x91000231"
    by (simp add: add_sub_imm_def word_defs register_defs)
  ultimately show ?thesis
    by (simp add: asm_add_def AddSubImmediate_def IsImmediate_def Operand_imm_def reg_Is_def Is64Bits_def
        register_defs add17_def or.assoc [symmetric])
qed

lemma exec_add17:
  "a64_exec (add17 imm) s = Some (next_pc (s\<lparr>xreg := (xreg s)(17 := xreg s 17 + take_bit 12 imm)\<rparr>))"
proof -
  have c: "fld 28 23 (add17 imm) = 0b100010" "fld 29 29 (add17 imm) = 0" "fld 9 5 (add17 imm) = 17"
    "fld 22 22 (add17 imm) = 0" "fld 30 30 (add17 imm) = 0" "fld 31 31 (add17 imm) = 1" "fld 4 0 (add17 imm) = 17"
    "fld 21 10 (add17 imm) = take_bit 12 (ucast imm)"
    by (simp_all add: add17_def fld_simps)
  moreover have "(ucast (take_bit 12 (ucast imm :: u32)) :: u64) = take_bit 12 imm"
    by (rule bit_word_eqI) (auto simp: bit_simps)
  ultimately show ?thesis
    by (simp add: exec_classes is_addsub_imm_def ex_addsub_imm_def fldn_def rd_sp_def wr_sp_def)
qed

lemma asm_b_word: "asm_b imm = asm_Emit (encode_imm26_offset B_op imm)"
proof -
  have "B_op OR ucast (bits (signed_drop_bit 2 imm) 0 25) = encode_imm26_offset B_op imm"
  proof (rule bit_word_eqI)
    fix k
    assume k: "k < LENGTH(32)"
    have "\<not> bit B_op k" if "k < 26"
      using that fld_bit [of 25 0 B_op 0 k] by (simp add: fld_def word_defs)
    with k show "bit (B_op OR ucast (bits (signed_drop_bit 2 imm) 0 25)) k \<longleftrightarrow> bit (encode_imm26_offset B_op imm) k"
      unfolding bit_encode_imm26 by (auto simp: bits_eq bit_simps)
  qed
  then show ?thesis by (simp add: asm_b_def)
qed

lemma exec_b:
  assumes "fits_branch 28 imm"
  shows "a64_exec (encode_imm26_offset B_op imm) s = Some (jump (pc s + imm) s)"
proof -
  have f: "fld hi lo (encode_imm26_offset B_op imm) = fld hi lo B_op" if "26 \<le> lo" for hi lo
    using that by (intro bit_word_eqI) (auto simp: bit_fld bit_encode_imm26)
  have "push_bit 2 (sfld 25 0 (encode_imm26_offset B_op imm)) = imm"
    using imm26.dec_enc_iff [of B_op imm] assms by (simp add: decode_imm26_fields)
  moreover have "fld 30 26 B_op = 0b00101" "fld 31 31 B_op = 0" by (simp_all add: fld_simps word_defs)
  ultimately show ?thesis by (simp add: exec_classes is_uncond_def f ex_uncond_def)
qed

lemma ucast_ucast_up: "(ucast (ucast (c :: u32) :: u64) :: u32) = c"
  by (rule bit_word_eqI) (auto simp: bit_simps)

text \<open>The load through the scratch register, the same word for both register widths.\<close>

definition ldr_via17 :: "u32 \<Rightarrow> u32" where
  "ldr_via17 c = 0xF9400220 OR take_bit 5 c"

lemma asm_ldr_via17:
  assumes "r = X_reg c \<or> r = W_reg c" and "c < 32"
  shows "asm_ldr r (MemOperand_imm TMP_REG_0 0 Offset) a = Inr (asm_Emit (ldr_via17 c) a)"
proof -
  have w: "LoadStoreUnsignedOffsetFixed OR load_store_op LDR_x = 0xF9400000"
    by (simp add: word_defs load_store_op_def LoadStoreOpSub_def)
  have rn: "Rn TMP_REG_0 = 0x220" by (simp add: word_defs register_defs)
  have "(ucast (0xF9400000 OR (0x220 OR ucast c) :: u64) :: u32) = 0xF9400220 OR c"
    by (simp add: unsigned_or_eq or.assoc [symmetric] ucast_ucast_up)
  with assms show ?thesis
    by (auto simp: asm_ldr_def asm_LoadStore_def IsImmediateOffset_def MemOperand_imm_def w rn ldr_via17_def
        take_bit_5 X_reg_def W_reg_def Rt_def LeftShift_eq)
qed

lemma exec_ldr_via17:
  assumes "c < 32"
  shows "a64_exec (ldr_via17 c) s = Some (next_pc (wr_x (unat c) (read64 (mem s) (xreg s 17)) s))"
proof -
  have c: "fld 29 27 (ldr_via17 c) = 0b111" "fld 25 24 (ldr_via17 c) = 0b01" "fld 9 5 (ldr_via17 c) = 17"
    "fld 26 26 (ldr_via17 c) = 0" "fld 23 22 (ldr_via17 c) = 1" "fld 31 30 (ldr_via17 c) = 3"
    "fld 21 10 (ldr_via17 c) = 0" "fld 4 0 (ldr_via17 c) = take_bit 5 c"
    by (simp_all add: ldr_via17_def fld_simps)
  then show ?thesis
    by (simp add: exec_classes is_ldst_uimm_def ex_ldr_uimm_def fldn_def rd_sp_def take_bit_5 [OF assms])
qed

end
