(* ===== verification/Arm64_Binding.thy ===== *)
theory Arm64_Binding
  imports Arm64_Encode
begin

text \<open>
  What \<open>RelocBind\<close> makes of the linked instructions: the data of every label is appended to the
  buffer, and the literal load linked to it gets the distance to that data. \<open>bound\<close> is the result
  as a function of the buffer and of the links; the lemmas say what any load from it gives.
\<close>

unbundle bit_operations_syntax

definition linked_label :: "nat \<Rightarrow> u64 \<Rightarrow> reloc_label" where
  "linked_label off target = link_to kLabelImm19 0 off (new_RelocLabel target)"

definition link_word :: "nat \<Rightarrow> code_buffer \<Rightarrow> u32" where
  "link_word off b = encode_imm19_offset (word32_of (take 4 (drop off b))) (of_nat (length b) - of_nat off)"

definition patch :: "nat \<Rightarrow> u32 \<Rightarrow> code_buffer \<Rightarrow> code_buffer" where
  "patch off w b = take off b @ bytes32 w @ drop (off + 4) b"

fun bound :: "(nat \<times> u64) list \<Rightarrow> code_buffer \<Rightarrow> code_buffer" where
  "bound [] b = b"
| "bound ((off, target) # ls) b = bound ls (patch off (link_word off b) b @ bytes64 target)"

lemma store_patch: "off + 4 \<le> length b \<Longrightarrow> store_cell 4 bytes32 off w b = Some (patch off w b)"
  by (simp add: store_cell_def patch_def)

lemma length_patch [simp]: "off + 4 \<le> length b \<Longrightarrow> length (patch off w b) = length b"
  by (simp add: patch_def)

lemma PseudoBind_linked:
  assumes "l < length (labels a)" and "labels a ! l = linked_label off target" and "off + 4 \<le> length (asm_buffer a)"
  shows "PseudoBind l a = Inr (a\<lparr>asm_buffer := patch off (link_word off (asm_buffer a)) (asm_buffer a),
    labels := (labels a)[l := bind_to (of_nat (length (asm_buffer a))) (linked_label off target)]\<rparr>)"
  using assms
  by (simp add: PseudoBind_def linked_label_def link_to_def bind_to_def new_RelocLabel_def GetBufferSize_def
      has_confused_instructions_def link_instruction_def LoadInst_def RewriteInst_def load_cell_def
      store_patch link_word_def Let_def)

text \<open>The loop over \<open>data_labels_\<close>, from any state in which the remaining labels are linked.\<close>

lemma RelocBind_loop_bound:
  assumes "distinct ls"
    and "\<forall>l \<in> set ls. l < length (labels a) \<and> labels a ! l = linked_label (off l) (target l) \<and> off l + 4 \<le> length (asm_buffer a)"
  shows "\<exists>labs. RelocBind_loop ls a =
    Inr (a\<lparr>asm_buffer := bound (map (\<lambda>l. (off l, target l)) ls) (asm_buffer a), labels := labs\<rparr>)"
  using assms
proof (induction ls arbitrary: a)
  case Nil
  have "a = a\<lparr>asm_buffer := asm_buffer a, labels := labels a\<rparr>" by simp
  then show ?case by (intro exI [of _ "labels a"]) simp
next
  case (Cons l ls)
  define a1 where "a1 = a\<lparr>asm_buffer := patch (off l) (link_word (off l) (asm_buffer a)) (asm_buffer a),
    labels := (labels a)[l := bind_to (of_nat (length (asm_buffer a))) (linked_label (off l) (target l))]\<rparr>"
  define a2 where "a2 = a1\<lparr>asm_buffer := asm_buffer a1 @ bytes64 (target l)\<rparr>"
  have "PseudoBind l a = Inr a1" using Cons.prems(2) unfolding a1_def by (intro PseudoBind_linked) auto
  moreover have "lb_data (labels a1 ! l) = bytes64 (target l)"
    using Cons.prems(2) by (simp add: a1_def bind_to_def linked_label_def link_to_def new_RelocLabel_def)
  ultimately have step: "RelocBind_loop (l # ls) a = RelocBind_loop ls a2"
    by (simp add: a2_def EmitBuffer_def)
  have "\<forall>k \<in> set ls. k < length (labels a2) \<and> labels a2 ! k = linked_label (off k) (target k)
      \<and> off k + 4 \<le> length (asm_buffer a2)"
  proof
    fix k
    assume k: "k \<in> set ls"
    with Cons.prems(1) have "k \<noteq> l" by auto
    with k Cons.prems(2) show "k < length (labels a2) \<and> labels a2 ! k = linked_label (off k) (target k)
        \<and> off k + 4 \<le> length (asm_buffer a2)"
      by (auto simp: a2_def a1_def intro: trans_le_add1)
  qed
  then obtain labs where "RelocBind_loop ls a2 =
      Inr (a2\<lparr>asm_buffer := bound (map (\<lambda>l. (off l, target l)) ls) (asm_buffer a2), labels := labs\<rparr>)"
    using Cons.IH [of a2] Cons.prems(1) by auto
  then show ?case unfolding step by (intro exI [of _ labs]) (simp add: a2_def a1_def)
qed

section \<open>Loads from the bound buffer\<close>

lemma length_bound:
  assumes "\<forall>x \<in> set ls. fst x + 4 \<le> length b"
  shows "length (bound ls b) = length b + 8 * length ls"
  using assms
proof (induction ls b rule: bound.induct)
  case (2 off target ls b)
  then have "length (bound ls (patch off (link_word off b) b @ bytes64 target))
      = length (patch off (link_word off b) b @ bytes64 target) + 8 * length ls"
    by (intro "2.IH") (auto simp: trans_le_add1)
  with "2.prems" show ?case by simp
qed simp

lemma patch_load_other:
  "off + 4 \<le> length b \<Longrightarrow> j + w \<le> length b \<Longrightarrow> j + w \<le> off \<or> off + 4 \<le> j \<Longrightarrow>
    take w (drop j (patch off v b)) = take w (drop j b)"
proof (rule nth_equalityI)
  assume a: "off + 4 \<le> length b" "j + w \<le> length b" "j + w \<le> off \<or> off + 4 \<le> j"
  then show "length (take w (drop j (patch off v b))) = length (take w (drop j b))" by simp
  fix k
  assume "k < length (take w (drop j (patch off v b)))"
  with a show "take w (drop j (patch off v b)) ! k = take w (drop j b) ! k"
    using cell32.store_frame [OF store_patch [OF a(1)], of "j + k" v] by auto
qed

lemma bound_load_other:
  assumes "\<forall>(off, target) \<in> set ls. off + 4 \<le> length b \<and> (j + w \<le> off \<or> off + 4 \<le> j)" and "j + w \<le> length b"
  shows "load_cell w get j (bound ls b) = load_cell w get j b"
  using assms
proof (induction ls b rule: bound.induct)
  case (2 off target ls b)
  have "load_cell w get j (bound ((off, target) # ls) b) =
      load_cell w get j (patch off (link_word off b) b @ bytes64 target)"
    unfolding bound.simps by (rule "2.IH") (use "2.prems" in auto)
  also have "\<dots> = load_cell w get j b"
    using "2.prems" patch_load_other [of off b j w] by (simp add: load_cell_def)
  finally show ?case .
qed simp

text \<open>A link: its load has the distance to its data, and its data is the target.\<close>

definition links_apart :: "(nat \<times> u64) list \<Rightarrow> nat \<Rightarrow> bool" where
  "links_apart ls n \<longleftrightarrow> (\<forall>(off, target) \<in> set ls. off + 4 \<le> n)
     \<and> sorted_wrt (\<lambda>x y. fst x + 4 \<le> fst y) ls"

lemma patch_load_same:
  assumes "off + 4 \<le> length b"
  shows "load_cell 4 word32_of off (patch off w b @ bs) = Some w"
proof -
  have "load_cell 4 word32_of off (patch off w b) = Some w"
    using assms by (intro cell32.store_load_same [OF store_patch])
  with assms show ?thesis by (simp add: cell32.load_append)
qed

lemma links_apart_Cons:
  "links_apart ((off, target) # ls) n \<longleftrightarrow> off + 4 \<le> n \<and> links_apart ls n \<and> (\<forall>(o', t') \<in> set ls. off + 4 \<le> o')"
  by (auto simp: links_apart_def)

lemma links_apart_mono: "links_apart ls n \<Longrightarrow> n \<le> m \<Longrightarrow> links_apart ls m"
  by (auto simp: links_apart_def)

lemma bound_link:
  assumes "links_apart ls (length b)" and "i < length ls" and "ls ! i = (off, target)"
  shows "load_cell 4 word32_of off (bound ls b) = Some (encode_imm19_offset (word32_of (take 4 (drop off b)))
      (of_nat (length b + 8 * i) - of_nat off)) \<and>
    load_cell 8 word64_of (length b + 8 * i) (bound ls b) = Some target"
  using assms
proof (induction ls b arbitrary: i rule: bound.induct)
  case (2 off0 target0 ls b)
  define b1 where "b1 = patch off0 (link_word off0 b) b"
  have o0: "off0 + 4 \<le> length b" and ap: "links_apart ls (length b)" and above: "\<forall>(o', t') \<in> set ls. off0 + 4 \<le> o'"
    using "2.prems"(1) by (simp_all add: links_apart_Cons)
  have l1: "length (b1 @ bytes64 target0) = length b + 8" using o0 by (simp add: b1_def)
  have below: "\<forall>(o', t') \<in> set ls. o' + 4 \<le> length b" using ap by (auto simp: links_apart_def)
  show ?case
  proof (cases i)
    case 0
    then have e: "off0 = off" "target0 = target" using "2.prems"(3) by simp_all
    have "load_cell 4 word32_of off (bound ls (b1 @ bytes64 target0)) = load_cell 4 word32_of off (b1 @ bytes64 target0)"
      by (rule bound_load_other) (use above below l1 o0 e in auto)
    moreover have "load_cell 8 word64_of (length b) (bound ls (b1 @ bytes64 target0))
        = load_cell 8 word64_of (length b) (b1 @ bytes64 target0)"
      by (rule bound_load_other) (use below l1 in auto)
    moreover have "load_cell 8 word64_of (length b) (b1 @ bytes64 target0) = Some target0"
      using cell64.load_emitted [of b1 target0 "[]"] o0 by (simp add: b1_def)
    ultimately show ?thesis using 0 e o0 by (simp add: b1_def patch_load_same link_word_def)
  next
    case (Suc k)
    have ot: "(off, target) \<in> set ls" using "2.prems"(2,3) Suc by (metis nth_Cons_Suc nth_mem Suc_less_eq length_Cons)
    have "links_apart ls (length (b1 @ bytes64 target0))" using links_apart_mono [OF ap] l1 by simp
    from "2.IH" [folded b1_def, OF this, of k] "2.prems"(2,3) Suc l1
    have "load_cell 4 word32_of off (bound ls (b1 @ bytes64 target0)) =
        Some (encode_imm19_offset (word32_of (take 4 (drop off (b1 @ bytes64 target0)))) (of_nat (length b + 8 * i) - of_nat off))
      \<and> load_cell 8 word64_of (length b + 8 * i) (bound ls (b1 @ bytes64 target0)) = Some target"
      by (simp add: algebra_simps)
    moreover have "off + 4 \<le> length b" "off0 + 4 \<le> off" using ot above below by auto
    then have "take 4 (drop off (b1 @ bytes64 target0)) = take 4 (drop off b)"
      using patch_load_other [OF o0, of off 4] o0 by (simp add: b1_def)
    ultimately show ?thesis by (simp add: b1_def)
  qed
qed simp

section \<open>Assemblers with linked labels\<close>

text \<open>
  The invariant between emission and binding: the labels are exactly the links made so far, each
  for one literal load in the buffer.
\<close>

definition linked :: "(nat \<times> u64) list \<Rightarrow> assembler \<Rightarrow> bool" where
  "linked links a \<longleftrightarrow> labels a = map (\<lambda>(off, target). linked_label off target) links
     \<and> data_labels a = [0..<length links] \<and> links_apart links (length (asm_buffer a))"

definition emit_link :: "u64 \<Rightarrow> assembler \<Rightarrow> assembler" where
  "emit_link target a = asm_Emit ldr17 (a\<lparr>labels := labels a @ [linked_label (length (asm_buffer a)) target],
     data_labels := data_labels a @ [length (labels a)]\<rparr>)"

definition emits :: "u32 list \<Rightarrow> assembler \<Rightarrow> assembler" where
  "emits ws a = a\<lparr>asm_buffer := asm_buffer a @ concat (map bytes32 ws)\<rparr>"

lemma asm_Emit_emits: "asm_Emit w = emits [w]" "emits vs (emits us a) = emits (us @ vs) a" "emits [] a = a"
  by (auto simp: emits_def asm_Emit_def Emit32_def EmitBuffer_def)

lemma emits_simps [simp]:
  "asm_buffer (emits ws a) = asm_buffer a @ concat (map bytes32 ws)"
  "labels (emits ws a) = labels a" "data_labels (emits ws a) = data_labels a"
  by (simp_all add: emits_def)

lemma length_words [simp]: "length (concat (map bytes32 ws)) = 4 * length ws"
  by (induction ws) simp_all

lemma linked_new: "linked [] (new_assembler a)"
  by (simp add: linked_def new_assembler_def links_apart_def)

lemma linked_emits: "linked links a \<Longrightarrow> linked links (emits ws a)"
  by (auto simp: linked_def elim: links_apart_mono)

lemma linked_emit_link: "linked links a \<Longrightarrow> linked (links @ [(length (asm_buffer a), target)]) (emit_link target a)"
  by (auto simp: linked_def emit_link_def asm_Emit_emits(1) emits_def links_apart_def sorted_wrt_append)

lemma emit_link_buffer: "asm_buffer (emit_link target a) = asm_buffer a @ bytes32 ldr17"
  by (simp add: emit_link_def asm_Emit_def Emit32_def EmitBuffer_def)

text \<open>\<open>new RelocLabel\<close>, \<open>AppendRelocLabel\<close> and \<open>Ldr\<close> in a row make one link.\<close>

lemma link_sequence:
  "asm_Ldr_label TMP_REG_0 (length (labels a))
     (AppendRelocLabel (length (labels a)) (a\<lparr>labels := labels a @ [new_RelocLabel target]\<rparr>)) = Inr (emit_link target a)"
  by (simp add: asm_Ldr_label_def AppendRelocLabel_def new_RelocLabel_def asm_ldr17 emit_link_def linked_label_def
      pc_offset_def GetBufferSize_def asm_Emit_def)

lemma LiteralLdrBranch_link: "LiteralLdrBranch target a = Inr (emits [0xD61F0220] (emit_link target a))"
  by (simp add: LiteralLdrBranch_def alloc_label_def link_sequence asm_br_def br17 asm_Emit_emits)

lemma RelocBind_linked:
  assumes "linked links a"
  shows "\<exists>labs. RelocBind a = Inr (a\<lparr>asm_buffer := bound links (asm_buffer a), labels := labs\<rparr>)"
proof -
  have "\<forall>l \<in> set [0..<length links]. l < length (labels a) \<and>
      labels a ! l = linked_label (fst (links ! l)) (snd (links ! l)) \<and> fst (links ! l) + 4 \<le> length (asm_buffer a)"
    using assms by (fastforce simp: linked_def links_apart_def split_beta)
  from RelocBind_loop_bound [OF distinct_upt this] show ?thesis
    using assms by (simp add: RelocBind_def linked_def map_nth)
qed

end
