(* ===== verification/Memory_Allocator.thy ===== *)
theory Memory_Allocator
  imports Arm64_Bits Arm64_Machine
begin

text \<open>
  The memory the generated code lives in: blocks and arenas (\<open>MemoryAllocator.h\<close>), the bump
  allocator over them (\<open>MemoryAllocator.cc\<close>), the wrappers of the kernel calls
  (\<open>platform-posix.cc\<close>) and \<open>DobbyCodePatch\<close> (\<open>code-patch-tool-posix.cc\<close>). The kernel is a
  parameter: \<open>mmap\<close>, \<open>mprotect\<close> and the page size are functions on a world that contains the
  memory. Sizes and addresses are words, so every sum wraps as in the code.
\<close>

unbundle bit_operations_syntax

section \<open>The kernel\<close>

datatype MemoryPermission = kNoAccess | kRead | kReadWrite | kReadWriteExecute | kReadExecute

text \<open>\<open>GetProtectionFromMemoryPermission\<close>: the bits \<open>PROT_READ\<close> 1, \<open>PROT_WRITE\<close> 2, \<open>PROT_EXEC\<close> 4.\<close>

primrec protection :: "MemoryPermission \<Rightarrow> u32" where
  "protection kNoAccess = 0"
| "protection kRead = 1"
| "protection kReadWrite = 3"
| "protection kReadWriteExecute = 7"
| "protection kReadExecute = 5"

record 'o world =
  w_mem :: "u64 \<Rightarrow> byte"
  w_os :: 'o

text \<open>\<open>k_mmap addr size prot fixed\<close>; \<open>fixed\<close> is the flag \<open>MAP_FIXED\<close>, the others never change.\<close>

record 'o kernel =
  k_page_size :: u64
  k_mmap :: "u64 \<Rightarrow> u64 \<Rightarrow> u32 \<Rightarrow> bool \<Rightarrow> 'o world \<Rightarrow> u64 \<times> 'o world"
  k_mprotect :: "u64 \<Rightarrow> u64 \<Rightarrow> u32 \<Rightarrow> 'o world \<Rightarrow> int \<times> 'o world"

abbreviation (input) "MAP_FAILED \<equiv> - 1 :: u64"

definition OSMemory_Allocate ::
  "'o kernel \<Rightarrow> u64 \<Rightarrow> MemoryPermission \<Rightarrow> u64 \<Rightarrow> 'o world \<Rightarrow> u64 \<times> 'o world" where
  "OSMemory_Allocate K sz access fixed_address w =
     (let (result, w1) = k_mmap K fixed_address sz (protection access) (fixed_address \<noteq> 0) w
      in if result = MAP_FAILED then (0, w1) else (result, w1))"

definition OSMemory_SetPermission ::
  "'o kernel \<Rightarrow> u64 \<Rightarrow> u64 \<Rightarrow> MemoryPermission \<Rightarrow> 'o world \<Rightarrow> bool \<times> 'o world" where
  "OSMemory_SetPermission K address sz access w =
     (let (ret, w1) = k_mprotect K address sz (protection access) w in (ret = 0, w1))"

definition DobbyCodePatch :: "'o kernel \<Rightarrow> u64 \<Rightarrow> byte list \<Rightarrow> 'o world \<Rightarrow> 'o world" where
  "DobbyCodePatch K address buffer w =
     (let page_size = k_page_size K;
          patch_page = ALIGN_FLOOR address page_size;
          patch_end_page = ALIGN_FLOOR (address + of_nat (length buffer)) page_size;
          w1 = snd (k_mprotect K patch_page page_size 7 w);
          w2 = (if patch_page \<noteq> patch_end_page then snd (k_mprotect K patch_end_page page_size 7 w1) else w1);
          w3 = w2\<lparr>w_mem := mem_write address buffer (w_mem w2)\<rparr>;
          w4 = snd (k_mprotect K patch_page page_size 5 w3)
      in if patch_page \<noteq> patch_end_page then snd (k_mprotect K patch_end_page page_size 5 w4) else w4)"

section \<open>Blocks and arenas\<close>

record mem_block =
  mb_start :: u64
  mb_end :: u64
  mb_size :: u64
  mb_addr :: u64

definition MemBlock :: "u64 \<Rightarrow> u64 \<Rightarrow> mem_block" where
  "MemBlock address sz = \<lparr>mb_start = address, mb_end = address + sz, mb_size = sz, mb_addr = address\<rparr>"

definition MemBlock_reset :: "u64 \<Rightarrow> u64 \<Rightarrow> mem_block \<Rightarrow> mem_block" where
  "MemBlock_reset address sz b = b\<lparr>mb_start := address, mb_size := sz, mb_end := address + sz, mb_addr := address\<rparr>"

record arena =
  ar_start :: u64
  ar_end :: u64
  ar_size :: u64
  ar_addr :: u64
  ar_cursor :: u64

definition MemoryArena :: "u64 \<Rightarrow> u64 \<Rightarrow> arena" where
  "MemoryArena address sz =
     \<lparr>ar_start = address, ar_end = address + sz, ar_size = sz, ar_addr = address, ar_cursor = address\<rparr>"

definition allocMemBlock :: "u64 \<Rightarrow> arena \<Rightarrow> mem_block option \<times> arena" where
  "allocMemBlock sz ar =
     (if ar_end ar - ar_cursor ar < sz then (None, ar)
      else (Some (MemBlock (ar_cursor ar) sz), ar\<lparr>ar_cursor := ar_cursor ar + sz\<rparr>))"

section \<open>The allocator\<close>

record allocator =
  code_arenas :: "arena list"
  data_arenas :: "arena list"

text \<open>The loop of both block functions: the first arena with enough room.\<close>

fun alloc_first :: "u64 \<Rightarrow> arena list \<Rightarrow> (mem_block \<times> arena list) option" where
  "alloc_first sz [] = None"
| "alloc_first sz (ar # ars) =
     (case allocMemBlock sz ar of
        (Some b, ar') \<Rightarrow> Some (b, ar' # ars)
      | (None, ar') \<Rightarrow> map_option (\<lambda>(b, ars'). (b, ar' # ars')) (alloc_first sz ars))"

definition allocateCodeMemoryArena ::
  "'o kernel \<Rightarrow> u32 \<Rightarrow> allocator \<Rightarrow> 'o world \<Rightarrow> dobby_error + (arena \<times> allocator \<times> 'o world)" where
  "allocateCodeMemoryArena K sz al w =
     (if (ucast sz :: u64) mod k_page_size K \<noteq> 0 then Inl Check
      else let (arena_addr, w1) = OSMemory_Allocate K (ucast sz) kNoAccess 0 w;
               (_, w2) = OSMemory_SetPermission K arena_addr (ucast sz) kReadExecute w1;
               result = MemoryArena arena_addr (ucast sz)
           in Inr (result, al\<lparr>code_arenas := code_arenas al @ [result]\<rparr>, w2))"

text \<open>The new arena of the block functions is the last one; \<open>CHECK_NOT_NULL\<close> looks at its block.\<close>

definition alloc_last :: "u64 \<Rightarrow> allocator \<Rightarrow> dobby_error + (mem_block \<times> allocator)" where
  "alloc_last sz al =
     (case allocMemBlock sz (last (code_arenas al)) of
        (None, _) \<Rightarrow> Inl Check
      | (Some b, ar') \<Rightarrow> Inr (b, al\<lparr>code_arenas := butlast (code_arenas al) @ [ar']\<rparr>))"

definition allocateExecBlock ::
  "'o kernel \<Rightarrow> u32 \<Rightarrow> allocator \<Rightarrow> 'o world \<Rightarrow> dobby_error + (mem_block \<times> allocator \<times> 'o world)" where
  "allocateExecBlock K sz al w =
     (case alloc_first (ucast sz) (code_arenas al) of
        Some (b, ars) \<Rightarrow> Inr (b, al\<lparr>code_arenas := ars\<rparr>, w)
      | None \<Rightarrow>
          let arena_size = ALIGN_CEIL (ucast sz) (k_page_size K)
          in ebind (allocateCodeMemoryArena K (ucast arena_size) al w) (\<lambda>(_, al1, w1).
             ebind (alloc_last (ucast sz) al1) (\<lambda>(b, al2). Inr (b, al2, w1))))"

definition allocateExecMemory ::
  "'o kernel \<Rightarrow> u32 \<Rightarrow> allocator \<Rightarrow> 'o world \<Rightarrow> dobby_error + (u64 \<times> allocator \<times> 'o world)" where
  "allocateExecMemory K sz al w =
     ebind (allocateExecBlock K sz al w) (\<lambda>(b, al', w'). Inr (mb_addr b, al', w'))"

definition allocateExecMemory_buffer ::
  "'o kernel \<Rightarrow> byte list \<Rightarrow> allocator \<Rightarrow> 'o world \<Rightarrow> dobby_error + (u64 \<times> allocator \<times> 'o world)" where
  "allocateExecMemory_buffer K buffer al w =
     ebind (allocateExecMemory K (of_nat (length buffer)) al w) (\<lambda>(m, al', w').
       Inr (m, al', DobbyCodePatch K m buffer w'))"

definition allocateDataMemoryArena ::
  "'o kernel \<Rightarrow> u32 \<Rightarrow> allocator \<Rightarrow> 'o world \<Rightarrow> arena \<times> allocator \<times> 'o world" where
  "allocateDataMemoryArena K sz al w =
     (let buffer_size = ucast (ALIGN_CEIL (ucast sz) (k_page_size K)) :: u32;
          (buffer, w1) = OSMemory_Allocate K (ucast buffer_size) kNoAccess 0 w;
          (_, w2) = OSMemory_SetPermission K buffer (ucast buffer_size) kReadWrite w1;
          result = MemoryArena buffer (ucast buffer_size)
      in (result, al\<lparr>data_arenas := data_arenas al @ [result]\<rparr>, w2))"

definition allocateDataBlock ::
  "'o kernel \<Rightarrow> u32 \<Rightarrow> allocator \<Rightarrow> 'o world \<Rightarrow> dobby_error + (mem_block \<times> allocator \<times> 'o world)" where
  "allocateDataBlock K sz al w =
     (case alloc_first (ucast sz) (data_arenas al) of
        Some (b, ars) \<Rightarrow> Inr (b, al\<lparr>data_arenas := ars\<rparr>, w)
      | None \<Rightarrow>
          ebind (allocateCodeMemoryArena K sz al w) (\<lambda>(_, al1, w1).
          ebind (alloc_last (ucast sz) al1) (\<lambda>(b, al2). Inr (b, al2, w1))))"

definition allocateDataMemory ::
  "'o kernel \<Rightarrow> u32 \<Rightarrow> allocator \<Rightarrow> 'o world \<Rightarrow> dobby_error + (u64 \<times> allocator \<times> 'o world)" where
  "allocateDataMemory K sz al w =
     ebind (allocateDataBlock K sz al w) (\<lambda>(b, al', w'). Inr (mb_addr b, al', w'))"

definition allocateDataMemory_buffer ::
  "'o kernel \<Rightarrow> byte list \<Rightarrow> allocator \<Rightarrow> 'o world \<Rightarrow> dobby_error + (u64 \<times> allocator \<times> 'o world)" where
  "allocateDataMemory_buffer K buffer al w =
     ebind (allocateDataMemory K (of_nat (length buffer)) al w) (\<lambda>(m, al', w').
       Inr (m, al', w'\<lparr>w_mem := mem_write m buffer (w_mem w')\<rparr>))"

end
