(* ===== verification/Arm64_Relocation.thy ===== *)
theory Arm64_Relocation
  imports Arm64_Binding Memory_Allocator
begin

text \<open>
  \<open>InstructionRelocationARM64.cc\<close>: the instructions a trampoline will overwrite are translated so
  that they run elsewhere. Every instruction that reads the program counter becomes a sequence
  that computes the original address; the others are copied. \<open>AssemblyCodeBuilder.cc\<close> puts the
  result into executable memory. The bytes at \<open>buffer\<close> are a list (the readable memory from there
  on); the origin and relocated blocks are returned, where the code updates them in place.
\<close>

unbundle bit_operations_syntax

section \<open>Recognising instructions\<close>

definition inst_is_b_bl :: "u32 \<Rightarrow> bool" where
  "inst_is_b_bl instr \<longleftrightarrow> instr AND UnconditionalBranchFixedMask = UnconditionalBranchFixed"

definition inst_is_ldr_literal :: "u32 \<Rightarrow> bool" where
  "inst_is_ldr_literal instr \<longleftrightarrow> instr AND LoadRegLiteralFixedMask = LoadRegLiteralFixed"

definition inst_is_adr :: "u32 \<Rightarrow> bool" where
  "inst_is_adr instr \<longleftrightarrow> instr AND PCRelAddressingFixedMask = PCRelAddressingFixed \<and> instr AND PCRelAddressingMask = ADR_op"

definition inst_is_adrp :: "u32 \<Rightarrow> bool" where
  "inst_is_adrp instr \<longleftrightarrow> instr AND PCRelAddressingFixedMask = PCRelAddressingFixed \<and> instr AND PCRelAddressingMask = ADRP_op"

definition inst_is_b_cond :: "u32 \<Rightarrow> bool" where
  "inst_is_b_cond instr \<longleftrightarrow> instr AND ConditionalBranchFixedMask = ConditionalBranchFixed"

definition inst_is_compare_b :: "u32 \<Rightarrow> bool" where
  "inst_is_compare_b instr \<longleftrightarrow> instr AND CompareBranchFixedMask = CompareBranchFixed"

definition inst_is_test_b :: "u32 \<Rightarrow> bool" where
  "inst_is_test_b instr \<longleftrightarrow> instr AND TestBranchFixedMask = TestBranchFixed"

section \<open>One instruction\<close>

text \<open>The seven branches of the loop body, for the instruction at address \<open>pc\<close>.\<close>

definition relo_b_bl :: "u64 \<Rightarrow> u32 \<Rightarrow> assembler \<Rightarrow> dobby_error + assembler" where
  "relo_b_bl cur inst a =
     (let offset = decode_imm26_offset inst;
          dst_vmaddr = cur + offset;
          (dst_label, a1) = alloc_label dst_vmaddr a;
          a2 = AppendRelocLabel dst_label a1
      in ebind (asm_Ldr_label TMP_REG_0 dst_label a2) (\<lambda>a3.
         Inr (if inst AND UnconditionalBranchMask = BL_op then asm_blr TMP_REG_0 a3 else asm_br TMP_REG_0 a3)))"

text \<open>
  A literal load of another kind runs into \<open>UNIMPLEMENTED\<close>, a message and an assertion; the library is
  built without assertions (\<open>CMAKE_BUILD_TYPE=Release\<close>), so that only the address is emitted and the
  loop goes on.
\<close>

definition relo_ldr_literal :: "u64 \<Rightarrow> u32 \<Rightarrow> assembler \<Rightarrow> dobby_error + assembler" where
  "relo_ldr_literal cur inst a =
     (let offset = decode_imm19_offset inst;
          dst_vmaddr = cur + offset;
          rt = decode_rt inst;
          opc = bits inst 30 31;
          a1 = asm_Mov TMP_REG_0 dst_vmaddr a
      in if opc = 0b00 then asm_ldr (W_reg rt) (MemOperand_imm TMP_REG_0 0 Offset) a1
         else if opc = 0b01 then asm_ldr (X_reg rt) (MemOperand_imm TMP_REG_0 0 Offset) a1
         else Inr a1)"

definition relo_adr :: "u64 \<Rightarrow> u32 \<Rightarrow> assembler \<Rightarrow> assembler" where
  "relo_adr cur inst a =
     (let offset = decode_immhi_immlo_offset inst;
          dst_vmaddr = cur + offset;
          rd = decode_rd inst
      in asm_Mov (X_reg rd) dst_vmaddr a)"

definition arm64_trunc_page :: "u64 \<Rightarrow> u64" where
  "arm64_trunc_page x = x AND NOT (0x1000 - 1)"

definition relo_adrp :: "u64 \<Rightarrow> u32 \<Rightarrow> assembler \<Rightarrow> assembler" where
  "relo_adrp cur inst a =
     (let offset = decode_immhi_immlo_zero12_offset inst;
          dst_vmaddr = arm64_trunc_page (cur + offset);
          rd = decode_rd inst
      in asm_Mov (X_reg rd) dst_vmaddr a)"

text \<open>The inverted branch over the next two words, then the literal branch.\<close>

definition branch_instr_b_cond :: "u32 \<Rightarrow> u32" where
  "branch_instr_b_cond inst =
     (let cond = bits inst 0 3 XOR 1; i1 = set_bits_to inst 0 3 cond; imm19 = drop_bit 2 (4 * 3)
      in set_bits_to i1 5 23 imm19)"

definition branch_instr_compare_b :: "u32 \<Rightarrow> u32" where
  "branch_instr_compare_b inst =
     (let op = bit_at inst 24 XOR 1; i1 = set_bit_to inst 24 op; imm19 = drop_bit 2 (4 * 3)
      in set_bits_to i1 5 23 imm19)"

definition branch_instr_test_b :: "u32 \<Rightarrow> u32" where
  "branch_instr_test_b inst =
     (let op = bit_at inst 24 XOR 1; i1 = set_bit_to inst 24 op; imm14 = drop_bit 2 (4 * 3)
      in set_bits_to i1 5 18 imm14)"

definition relo_branch_over :: "u32 \<Rightarrow> u64 \<Rightarrow> assembler \<Rightarrow> dobby_error + assembler" where
  "relo_branch_over branch_instr dst_vmaddr a =
     (let (dst_label, a1) = alloc_label dst_vmaddr a;
          a2 = AppendRelocLabel dst_label a1;
          a3 = asm_Emit branch_instr a2
      in ebind (asm_Ldr_label TMP_REG_0 dst_label a3) (\<lambda>a4. Inr (asm_br TMP_REG_0 a4)))"

definition relo_inst :: "u64 \<Rightarrow> u32 \<Rightarrow> assembler \<Rightarrow> dobby_error + assembler" where
  "relo_inst cur inst a =
     (if inst_is_b_bl inst then relo_b_bl cur inst a
      else if inst_is_ldr_literal inst then relo_ldr_literal cur inst a
      else if inst_is_adr inst then Inr (relo_adr cur inst a)
      else if inst_is_adrp inst then Inr (relo_adrp cur inst a)
      else if inst_is_b_cond inst then relo_branch_over (branch_instr_b_cond inst) (cur + decode_imm19_offset inst) a
      else if inst_is_compare_b inst then relo_branch_over (branch_instr_compare_b inst) (cur + decode_imm19_offset inst) a
      else if inst_is_test_b inst then relo_branch_over (branch_instr_test_b inst) (cur + decode_imm14_offset inst) a
      else Inr (asm_Emit inst a))"

section \<open>The loop\<close>

record relo_ctx =
  rc_buffer :: "byte list"
  rc_cursor :: nat
  rc_buffer_size :: nat
  rc_src_vmaddr :: u64
  rc_dst_vmaddr :: u64
  rc_offset_map :: "nat \<rightharpoonup> nat"

definition relo_cur_src_vmaddr :: "relo_ctx \<Rightarrow> u64" where
  "relo_cur_src_vmaddr ctx = rc_src_vmaddr ctx + of_nat (rc_cursor ctx)"

function relo_loop :: "relo_ctx \<Rightarrow> assembler \<Rightarrow> dobby_error + (relo_ctx \<times> assembler)" where
  "relo_loop ctx a =
     (if rc_cursor ctx < rc_buffer_size ctx
      then let ctx1 = ctx\<lparr>rc_offset_map := (rc_offset_map ctx)(rc_cursor ctx \<mapsto> GetBufferSize (asm_buffer a))\<rparr>
           in case load_cell 4 word32_of (rc_cursor ctx) (rc_buffer ctx) of
                None \<Rightarrow> Inl Wild
              | Some inst \<Rightarrow>
                  ebind (relo_inst (relo_cur_src_vmaddr ctx1) inst a) (\<lambda>a1.
                    relo_loop (ctx1\<lparr>rc_cursor := rc_cursor ctx1 + 4\<rparr>) a1)
      else Inr (ctx, a))"
  by pat_completeness auto
termination
  by (relation "measure (\<lambda>(ctx, a). rc_buffer_size ctx - rc_cursor ctx)") auto

declare relo_loop.simps [simp del]

section \<open>The routine\<close>

text \<open>\<open>FinalizeFromTurboAssembler\<close>: without an address the code gets a new block.\<close>

definition FinalizeFromTurboAssembler ::
  "'o kernel \<Rightarrow> assembler \<Rightarrow> allocator \<Rightarrow> 'o world \<Rightarrow> dobby_error + (mem_block \<times> assembler \<times> allocator \<times> 'o world)" where
  "FinalizeFromTurboAssembler K a al w =
     (let buffer = asm_buffer a
      in ebind (if realized_addr a = 0
                then ebind (allocateExecBlock K (of_nat (GetBufferSize buffer)) al w) (\<lambda>(block, al1, w1).
                       Inr (SetRealizedAddress (mb_addr block) a, al1, w1))
                else Inr (a, al, w)) (\<lambda>(a1, al1, w1).
         let w2 = DobbyCodePatch K (realized_addr a1) buffer w1
         in Inr (MemBlock (realized_addr a1) (of_nat (GetBufferSize buffer)), a1, al1, w2)))"

text \<open>The generated code, before it gets a place: the context after the loop and the assembler.\<close>

definition relo_generate :: "relo_ctx \<Rightarrow> mem_block \<Rightarrow> bool \<Rightarrow> dobby_error + (relo_ctx \<times> mem_block \<times> assembler)" where
  "relo_generate ctx origin branch =
     ebind (relo_loop ctx (new_assembler 0)) (\<lambda>(ctx1, a1).
       let new_origin_len = rc_cursor ctx1;
           origin1 = MemBlock_reset (mb_addr origin) (of_nat new_origin_len) origin
       in ebind (if branch then LiteralLdrBranch (mb_addr origin1 + mb_size origin1) a1 else Inr a1) (\<lambda>a2.
          ebind (RelocBind a2) (\<lambda>a3. Inr (ctx1, origin1, a3))))"

definition relo_relocate ::
  "'o kernel \<Rightarrow> relo_ctx \<Rightarrow> mem_block \<Rightarrow> bool \<Rightarrow> allocator \<Rightarrow> 'o world
     \<Rightarrow> dobby_error + (mem_block \<times> mem_block \<times> allocator \<times> 'o world)" where
  "relo_relocate K ctx origin branch al w =
     ebind (relo_generate ctx origin branch) (\<lambda>(ctx1, origin1, a3).
     ebind (FinalizeFromTurboAssembler K a3 al w) (\<lambda>(code, _, al1, w1).
       Inr (origin1, code, al1, w1)))"

definition GenRelocateCode ::
  "'o kernel \<Rightarrow> byte list \<Rightarrow> mem_block \<Rightarrow> mem_block \<Rightarrow> bool \<Rightarrow> allocator \<Rightarrow> 'o world
     \<Rightarrow> dobby_error + (mem_block \<times> mem_block \<times> allocator \<times> 'o world)" where
  "GenRelocateCode K buffer origin relocated branch al w =
     (let ctx = \<lparr>rc_buffer = buffer, rc_cursor = 0, rc_buffer_size = unat (mb_size origin),
                 rc_src_vmaddr = mb_addr origin, rc_dst_vmaddr = mb_addr relocated, rc_offset_map = Map.empty\<rparr>
      in ebind (relo_relocate K ctx origin branch al w) (\<lambda>(origin1, code, al1, w1).
         Inr (origin1, MemBlock_reset (mb_addr code) (mb_size code) relocated, al1, w1)))"

definition GenRelocateCodeAndBranch ::
  "'o kernel \<Rightarrow> byte list \<Rightarrow> mem_block \<Rightarrow> mem_block \<Rightarrow> allocator \<Rightarrow> 'o world
     \<Rightarrow> dobby_error + (mem_block \<times> mem_block \<times> allocator \<times> 'o world)" where
  "GenRelocateCodeAndBranch K buffer origin relocated = GenRelocateCode K buffer origin relocated True"

end
