(* ===== verification/Arm64_Reloc_Layout.thy ===== *)
theory Arm64_Reloc_Layout
  imports Arm64_Relocation
begin

text \<open>
  The shape of relocated code. Each instruction becomes a snippet: words, and at most one linked
  literal load among them. The emitters of \<open>InstructionRelocationARM64.cc\<close> are snippets put one
  after the other (\<open>relo_inst_snippet\<close>), the offset map records where each begins, and after
  \<open>RelocBind\<close> every snippet stands in the code with its load bound to its target
  (\<open>generated_layout\<close>).
\<close>

unbundle bit_operations_syntax

section \<open>Snippets\<close>

text \<open>The words before the linked load, and its target with the words after it.\<close>

type_synonym snippet = "u32 list \<times> (u64 \<times> u32 list) option"

fun emit_snippet :: "snippet \<Rightarrow> assembler \<Rightarrow> assembler" where
  "emit_snippet (ws, None) a = emits ws a"
| "emit_snippet (ws, Some (target, post)) a = emits post (emit_link target (emits ws a))"

fun snippet_size :: "snippet \<Rightarrow> nat" where
  "snippet_size (ws, None) = 4 * length ws"
| "snippet_size (ws, Some (target, post)) = 4 * length ws + 4 + 4 * length post"

definition branch_over :: "u32 \<Rightarrow> u64 \<Rightarrow> snippet" where
  "branch_over i target = ([i], Some (target, [0xD61F0220]))"

definition relo_snippet :: "u64 \<Rightarrow> u32 \<Rightarrow> dobby_error + snippet" where
  "relo_snippet cur i =
     (if inst_is_b_bl i then
        Inr ([], Some (cur + decode_imm26_offset i, [if i AND UnconditionalBranchMask = BL_op then 0xD63F0220 else 0xD61F0220]))
      else if inst_is_ldr_literal i then
        Inr (mov_words 17 (cur + decode_imm19_offset i)
             @ (if bits i 30 31 = 0 \<or> bits i 30 31 = 1 then [ldr_via17 (decode_rt i)] else []), None)
      else if inst_is_adr i then Inr (mov_words (decode_rd i) (cur + decode_immhi_immlo_offset i), None)
      else if inst_is_adrp i then
        Inr (mov_words (decode_rd i) (arm64_trunc_page (cur + decode_immhi_immlo_zero12_offset i)), None)
      else if inst_is_b_cond i then Inr (branch_over (branch_instr_b_cond i) (cur + decode_imm19_offset i))
      else if inst_is_compare_b i then Inr (branch_over (branch_instr_compare_b i) (cur + decode_imm19_offset i))
      else if inst_is_test_b i then Inr (branch_over (branch_instr_test_b i) (cur + decode_imm14_offset i))
      else Inr ([i], None))"

lemma decode_r_less: "decode_rt i < 32" "decode_rd i < 32"
  unfolding decode_rt_def decode_rd_def bits_eq
  by (simp_all add: word_less_nat_alt unsigned_take_bit_eq take_bit_nat_def)

lemma tmp_is_x17: "TMP_REG_0 = X_reg 17"
  by (rule TMP_REG_0_def)

lemma relo_branch_over_snippet: "relo_branch_over i target a = Inr (emit_snippet (branch_over i target) a)"
proof -
  have "asm_Emit i (AppendRelocLabel (length (labels a)) (a\<lparr>labels := labels a @ [new_RelocLabel target]\<rparr>))
      = AppendRelocLabel (length (labels (emits [i] a)))
          ((emits [i] a)\<lparr>labels := labels (emits [i] a) @ [new_RelocLabel target]\<rparr>)"
    by (simp add: asm_Emit_emits AppendRelocLabel_def emits_def)
  then show ?thesis
    unfolding relo_branch_over_def alloc_label_def Let_def prod.case
    using link_sequence [of "emits [i] a" target]
    by (simp add: branch_over_def asm_br_def br17 asm_Emit_emits(1))
qed

lemma asm_Mov_emits: "c < 32 \<Longrightarrow> asm_Mov (X_reg c) v = emits (mov_words c v)"
  by (rule ext) (simp add: asm_Mov_X emits_def)

lemma relo_b_bl_snippet:
  "relo_b_bl cur i a = Inr (emit_snippet ([], Some (cur + decode_imm26_offset i,
     [if i AND UnconditionalBranchMask = BL_op then 0xD63F0220 else 0xD61F0220])) a)"
  by (simp add: relo_b_bl_def alloc_label_def link_sequence asm_br_def br17 asm_blr_def blr17 asm_Emit_emits(1,3))

lemma relo_ldr_literal_snippet:
  "relo_ldr_literal cur i a =
    Inr (emit_snippet (mov_words 17 (cur + decode_imm19_offset i)
      @ (if bits i 30 31 = 0 \<or> bits i 30 31 = 1 then [ldr_via17 (decode_rt i)] else []), None) a)"
proof -
  have l: "(17 :: u32) < 32" by (simp add: word_less_nat_alt)
  have ldr: "asm_ldr r (MemOperand_imm TMP_REG_0 0 Offset) (emits (mov_words 17 v) a)
      = Inr (emits (mov_words 17 v @ [ldr_via17 (decode_rt i)]) a)"
    if "r = X_reg (decode_rt i) \<or> r = W_reg (decode_rt i)" for r v
    using asm_ldr_via17 [OF that decode_r_less(1)] by (simp add: asm_Emit_emits(1,2))
  have "bits i 30 31 = 0b00 \<longleftrightarrow> bits i 30 31 = 0" "bits i 30 31 = 0b01 \<longleftrightarrow> bits i 30 31 = 1" by simp_all
  moreover have "asm_Mov TMP_REG_0 v a = emits (mov_words 17 v) a" for v
    unfolding tmp_is_x17 by (simp only: asm_Mov_emits [OF l])
  ultimately show ?thesis by (simp add: relo_ldr_literal_def Let_def ldr)
qed

lemma relo_inst_snippet:
  "relo_inst cur i a = ebind (relo_snippet cur i) (\<lambda>sn. Inr (emit_snippet sn a))"
  by (simp add: relo_inst_def relo_snippet_def relo_b_bl_snippet relo_ldr_literal_snippet relo_adr_def relo_adrp_def
      relo_branch_over_snippet asm_Mov_emits decode_r_less asm_Emit_emits(1) Let_def del: emit_snippet.simps)
    (simp add: asm_Mov_emits decode_r_less)

lemma emit_snippet_length: "length (asm_buffer (emit_snippet sn a)) = length (asm_buffer a) + snippet_size sn"
  by (cases "(sn, a)" rule: emit_snippet.cases) (simp_all add: emit_link_buffer)

section \<open>Where snippets stand\<close>

definition plain_words :: "u32 list \<Rightarrow> nat \<Rightarrow> code_buffer \<Rightarrow> (nat \<times> u64) list \<Rightarrow> bool" where
  "plain_words ws off b L \<longleftrightarrow> words_at ws off b \<and> (\<forall>k < length ws. off + 4 * k \<notin> fst ` set L)"

fun standing :: "snippet \<Rightarrow> nat \<Rightarrow> code_buffer \<Rightarrow> (nat \<times> u64) list \<Rightarrow> bool" where
  "standing (ws, None) off b L \<longleftrightarrow> 4 dvd off \<and> plain_words ws off b L"
| "standing (ws, Some (target, post)) off b L \<longleftrightarrow> 4 dvd off \<and> plain_words ws off b L
     \<and> (off + 4 * length ws, target) \<in> set L \<and> plain_words post (off + 4 * length ws + 4) b L"

text \<open>The invariant of the emission: the snippets so far, and the loads linked by them.\<close>

definition laid :: "(nat \<times> snippet) set \<Rightarrow> (nat \<times> u64) list \<Rightarrow> assembler \<Rightarrow> bool" where
  "laid P L a \<longleftrightarrow> linked L a \<and> 4 dvd length (asm_buffer a)
     \<and> (\<forall>(off, target) \<in> set L. 4 dvd off \<and> load_cell 4 word32_of off (asm_buffer a) = Some ldr17)
     \<and> (\<forall>(off, sn) \<in> P. standing sn off (asm_buffer a) L)"

lemma words_at_bound: "words_at ws off b \<Longrightarrow> ws \<noteq> [] \<Longrightarrow> off + 4 * length ws \<le> length b"
proof -
  assume w: "words_at ws off b" and n: "ws \<noteq> []"
  then obtain k where k: "length ws = Suc k" by (cases ws) auto
  with w have "load_cell 4 word32_of (off + 4 * k) b \<noteq> None" by (simp add: words_at_def)
  then show ?thesis using k cell32.load_ok_iff [of "off + 4 * k" b] by simp
qed

lemma plain_words_extend:
  assumes "plain_words ws off b L" and "\<forall>l \<in> set L'. length b \<le> fst l"
  shows "plain_words ws off (b @ bs) (L @ L')"
proof (cases "ws = []")
  case False
  then have "off + 4 * length ws \<le> length b"
    using assms(1) by (auto simp: plain_words_def dest: words_at_bound)
  then show ?thesis
    using assms by (fastforce simp: plain_words_def words_at_extend)
qed (simp add: plain_words_def)

lemma standing_extend:
  assumes "standing sn off b L" and "\<forall>l \<in> set L'. length b \<le> fst l"
  shows "standing sn off (b @ bs) (L @ L')"
  using assms
  by (cases "(sn, off, b, L)" rule: standing.cases) (auto intro: plain_words_extend)

lemma plain_words_new:
  assumes "\<forall>l \<in> set L. fst l + 4 \<le> length b"
  shows "plain_words ws (length b) (b @ concat (map bytes32 ws) @ bs) L"
  unfolding plain_words_def using words_at_emitted [of ws b bs] assms by fastforce

lemma load_extend: "load_cell 4 word32_of off b = Some v \<Longrightarrow> load_cell 4 word32_of off (b @ bs) = Some v"
  using cell32.load_append cell32.load_ok_iff by (metis option.distinct(1))

lemma laid_emit:
  assumes "laid P L a"
  shows "\<exists>L'. laid (insert (length (asm_buffer a), sn) P) L' (emit_snippet sn a)
    \<and> length L' \<le> Suc (length L)"
proof -
  let ?b = "asm_buffer a"
  have lk: "linked L a" and al: "4 dvd length ?b"
    and ld: "\<And>off target. (off, target) \<in> set L \<Longrightarrow> 4 dvd off \<and> load_cell 4 word32_of off ?b = Some ldr17"
    and st: "\<And>off sn. (off, sn) \<in> P \<Longrightarrow> standing sn off ?b L"
    using assms by (auto simp: laid_def)
  have below: "\<forall>l \<in> set L. fst l + 4 \<le> length ?b"
    using lk by (auto simp: linked_def links_apart_def)
  obtain ws lo where sn: "sn = (ws, lo)" by (cases sn)
  show ?thesis
  proof (cases lo)
    case None
    have "standing s o' (?b @ concat (map bytes32 ws)) (L @ [])" if "(o', s) \<in> P" for o' s
      by (rule standing_extend [OF st [OF that]]) simp
    moreover have "plain_words ws (length ?b) (?b @ concat (map bytes32 ws)) L"
      using plain_words_new [OF below, of ws "[]"] by simp
    ultimately have "laid (insert (length ?b, sn) P) L (emit_snippet sn a)"
      using lk al ld sn None by (auto simp: laid_def linked_emits dvd_add load_extend)
    then show ?thesis by (intro exI [of _ L]) simp
  next
    case (Some tp)
    obtain target post where lo: "lo = Some (target, post)" using Some by (cases tp) auto
    define c where "c = ?b @ concat (map bytes32 ws)"
    have lc: "length c = length ?b + 4 * length ws" by (simp add: c_def)
    have buf: "asm_buffer (emit_snippet sn a) = c @ bytes32 ldr17 @ concat (map bytes32 post)"
      by (simp add: sn lo c_def emit_link_buffer)
    let ?L = "L @ [(length c, target)]"
    have "linked ?L (emit_snippet sn a)"
      using linked_emits [OF linked_emit_link [OF linked_emits [OF lk, of ws], of target], of post]
      by (simp add: sn lo c_def)
    moreover have "4 dvd length (asm_buffer (emit_snippet sn a))"
      using al by (simp add: sn lo emit_link_buffer)
    moreover have "4 dvd o' \<and> load_cell 4 word32_of o' (asm_buffer (emit_snippet sn a)) = Some ldr17"
      if "(o', t') \<in> set ?L" for o' t'
    proof (cases "(o', t') \<in> set L")
      case True
      then show ?thesis using ld [OF True] by (simp add: buf c_def load_extend)
    next
      case False
      with that have "o' = length c" by auto
      then show ?thesis
        using al lc cell32.load_emitted [of c ldr17 "concat (map bytes32 post)"] by (simp add: buf)
    qed
    moreover have "standing s o' (asm_buffer (emit_snippet sn a)) ?L" if "(o', s) \<in> P" for o' s
      unfolding buf c_def append_assoc by (rule standing_extend [OF st [OF that]]) simp
    moreover have "standing sn (length ?b) (asm_buffer (emit_snippet sn a)) ?L"
    proof -
      have "plain_words ws (length ?b) (c @ bytes32 ldr17 @ concat (map bytes32 post)) (L @ [(length c, target)])"
        by (rule plain_words_extend) (use plain_words_new [OF below, of ws "[]"] in \<open>simp_all add: c_def\<close>)
      moreover have "plain_words post (length (c @ bytes32 ldr17)) ((c @ bytes32 ldr17) @ concat (map bytes32 post) @ []) ?L"
        by (rule plain_words_new) (use below lc in auto)
      ultimately show ?thesis using al lc unfolding buf by (simp add: sn lo add.assoc)
    qed
    ultimately have "laid (insert (length ?b, sn) P) ?L (emit_snippet sn a)"
      by (auto simp: laid_def)
    then show ?thesis by (intro exI [of _ ?L]) simp
  qed
qed


section \<open>After binding\<close>

fun snippet_in :: "snippet \<Rightarrow> nat \<Rightarrow> code_buffer \<Rightarrow> bool" where
  "snippet_in (ws, None) off code \<longleftrightarrow> words_at ws off code"
| "snippet_in (ws, Some (target, post)) off code \<longleftrightarrow> words_at ws off code
     \<and> (\<exists>d. fits_branch 21 (of_nat d)
          \<and> load_cell 4 word32_of (off + 4 * length ws) code = Some (encode_imm19_offset ldr17 (of_nat d))
          \<and> load_cell 8 word64_of (off + 4 * length ws + d) code = Some target)
     \<and> words_at post (off + 4 * length ws + 4) code"

lemma plain_words_bound:
  assumes "plain_words ws off b L" and "4 dvd off" and "\<forall>(o', t') \<in> set L. 4 dvd o' \<and> o' + 4 \<le> length b"
  shows "words_at ws off (bound L b)"
  unfolding words_at_def
proof (intro allI impI)
  fix k
  assume k: "k < length ws"
  have w: "load_cell 4 word32_of (off + 4 * k) b = Some (ws ! k)"
    using assms(1) k by (simp add: plain_words_def words_at_def)
  then have "off + 4 * k + 4 \<le> length b" using cell32.load_ok_iff [of "off + 4 * k" b] by simp
  moreover have "o' + 4 \<le> length b \<and> (off + 4 * k + 4 \<le> o' \<or> o' + 4 \<le> off + 4 * k)" if "(o', t') \<in> set L" for o' t'
  proof -
    have "off + 4 * k \<noteq> o'" using assms(1) k that by (force simp: plain_words_def)
    moreover have "4 dvd o'" "o' + 4 \<le> length b" using assms(3) that by auto
    ultimately show ?thesis using assms(2) by (auto elim!: dvdE) presburger+
  qed
  ultimately have "load_cell 4 word32_of (off + 4 * k) (bound L b) = load_cell 4 word32_of (off + 4 * k) b"
    by (intro bound_load_other) auto
  with w show "load_cell 4 word32_of (off + 4 * k) (bound L b) = Some (ws ! k)" by simp
qed

lemma fits_distance: "d < 2 ^ 20 \<Longrightarrow> 4 dvd d \<Longrightarrow> fits_branch 21 (of_nat d)"
proof -
  assume d: "d < 2 ^ 20" "4 dvd d"
  have "sint (of_nat d :: u64) = int d"
    using d(1) by (simp add: signed_of_nat signed_take_bit_int_eq_self)
  moreover have "int d mod 4 = 0" using d(2) by (auto elim!: dvdE)
  ultimately show ?thesis using d(1) by (simp add: fits_branch_def)
qed

lemma standing_bound:
  assumes "laid P L a" and "(off, sn) \<in> P" and "length (asm_buffer a) + 8 * length L < 2 ^ 20"
  shows "snippet_in sn off (bound L (asm_buffer a))"
proof -
  let ?b = "asm_buffer a"
  have st: "standing sn off ?b L" and lk: "linked L a" and al: "4 dvd length ?b"
    and ld: "\<And>o' t'. (o', t') \<in> set L \<Longrightarrow> 4 dvd o' \<and> load_cell 4 word32_of o' ?b = Some ldr17"
    using assms(1,2) by (auto simp: laid_def)
  have below: "\<forall>(o', t') \<in> set L. 4 dvd o' \<and> o' + 4 \<le> length ?b"
    using ld lk by (auto simp: linked_def links_apart_def)
  obtain ws lo where sn: "sn = (ws, lo)" by (cases sn)
  show ?thesis
  proof (cases lo)
    case None
    with st sn below show ?thesis by (simp add: plain_words_bound)
  next
    case (Some tp)
    obtain target post where lo: "lo = Some (target, post)" using Some by (cases tp) auto
    define p where "p = off + 4 * length ws"
    have o4: "4 dvd off" "4 dvd p" and pw: "plain_words ws off ?b L" "plain_words post (p + 4) ?b L"
      and inL: "(p, target) \<in> set L"
      using st by (auto simp: sn lo p_def)
    then obtain i where i: "i < length L" "L ! i = (p, target)" by (meson in_set_conv_nth)
    define d where "d = length ?b + 8 * i - p"
    have pb: "p + 4 \<le> length ?b" using below inL by auto
    have dd: "of_nat (length ?b + 8 * i) - of_nat p = (of_nat d :: u64)" "p + d = length ?b + 8 * i"
      using pb by (simp_all add: d_def of_nat_diff)
    have w: "word32_of (take 4 (drop p ?b)) = ldr17"
      using ld [OF inL] pb by (simp add: load_cell_def)
    have "load_cell 4 word32_of p (bound L ?b) = Some (encode_imm19_offset ldr17 (of_nat d)) \<and>
      load_cell 8 word64_of (p + d) (bound L ?b) = Some target"
      using bound_link [of L ?b, OF _ i] lk unfolding linked_def dd(2) dd(1) w by blast
    moreover have "4 dvd d" using al o4 pb unfolding d_def by (intro dvd_diff_nat dvd_add) auto
    then have "fits_branch 21 (of_nat d)"
      using assms(3) i(1) by (intro fits_distance) (auto simp: d_def)
    ultimately show ?thesis
      using plain_words_bound [OF pw(1) o4(1) below] plain_words_bound [OF pw(2) _ below] o4
      by (auto simp: sn lo simp flip: p_def)
  qed
qed

section \<open>The loop\<close>

text \<open>Where the code after the instruction at \<open>j\<close> begins: the next snippet, or the end \<open>n\<close> of all.\<close>

definition next_off :: "relo_ctx \<Rightarrow> nat \<Rightarrow> nat \<Rightarrow> nat" where
  "next_off ctx n j = (case rc_offset_map ctx (j + 4) of Some off \<Rightarrow> off | None \<Rightarrow> n)"

definition mapped_ok :: "relo_ctx \<Rightarrow> nat \<Rightarrow> (nat \<Rightarrow> snippet \<Rightarrow> bool) \<Rightarrow> bool" where
  "mapped_ok ctx n Q \<longleftrightarrow> 4 dvd rc_cursor ctx
     \<and> dom (rc_offset_map ctx) = {j. 4 dvd j \<and> j < rc_cursor ctx}
     \<and> (\<forall>j off. rc_offset_map ctx j = Some off \<longrightarrow>
          (\<exists>i sn. load_cell 4 word32_of j (rc_buffer ctx) = Some i
             \<and> relo_snippet (rc_src_vmaddr ctx + of_nat j) i = Inr sn \<and> Q off sn
             \<and> off + snippet_size sn = next_off ctx n j))"

definition relo_inv :: "relo_ctx \<Rightarrow> (nat \<times> snippet) set \<Rightarrow> (nat \<times> u64) list \<Rightarrow> assembler \<Rightarrow> bool" where
  "relo_inv ctx P L a \<longleftrightarrow> laid P L a \<and> mapped_ok ctx (length (asm_buffer a)) (\<lambda>off sn. (off, sn) \<in> P)
     \<and> length (asm_buffer a) \<le> 5 * rc_cursor ctx \<and> 4 * length L \<le> rc_cursor ctx
     \<and> (0 < rc_cursor ctx \<longrightarrow> rc_offset_map ctx 0 = Some 0)"

lemma mapped_okD:
  assumes "mapped_ok ctx n Q" and "rc_offset_map ctx j = Some off"
  shows "\<exists>i sn. load_cell 4 word32_of j (rc_buffer ctx) = Some i
    \<and> relo_snippet (rc_src_vmaddr ctx + of_nat j) i = Inr sn \<and> Q off sn \<and> off + snippet_size sn = next_off ctx n j"
  by (rule assms(1) [unfolded mapped_ok_def, THEN conjunct2, THEN conjunct2, THEN spec, THEN spec, THEN mp, OF assms(2)])

lemma mapped_ok_mono: "mapped_ok ctx n Q \<Longrightarrow> (\<And>off sn. Q off sn \<Longrightarrow> R off sn) \<Longrightarrow> mapped_ok ctx n R"
proof -
  assume m: "mapped_ok ctx n Q" and i: "\<And>off sn. Q off sn \<Longrightarrow> R off sn"
  show "mapped_ok ctx n R"
    unfolding mapped_ok_def
  proof (intro conjI allI impI)
    fix j off
    assume "rc_offset_map ctx j = Some off"
    then obtain w sn where "load_cell 4 word32_of j (rc_buffer ctx) = Some w"
      "relo_snippet (rc_src_vmaddr ctx + of_nat j) w = Inr sn" "Q off sn" "off + snippet_size sn = next_off ctx n j"
      using mapped_okD [OF m] by blast
    with i show "\<exists>w sn. load_cell 4 word32_of j (rc_buffer ctx) = Some w
        \<and> relo_snippet (rc_src_vmaddr ctx + of_nat j) w = Inr sn \<and> R off sn \<and> off + snippet_size sn = next_off ctx n j"
      by (intro exI [of _ w] exI [of _ sn]) simp
  qed (use m in \<open>simp_all add: mapped_ok_def\<close>)
qed

definition short_snippet :: "dobby_error + snippet \<Rightarrow> bool" where
  "short_snippet r \<longleftrightarrow> (case r of Inl e \<Rightarrow> True | Inr sn \<Rightarrow> snippet_size sn \<le> 20)"

lemma short_if: "short_snippet a \<Longrightarrow> short_snippet b \<Longrightarrow> short_snippet (if c then a else b)"
  by simp

lemma relo_snippet_size: "relo_snippet cur i = Inr sn \<Longrightarrow> snippet_size sn \<le> 20"
proof -
  have m: "length (mov_words c v) = 4" for c v by (simp add: mov_words_def)
  have "short_snippet (relo_snippet cur i)"
    unfolding relo_snippet_def branch_over_def by (intro short_if) (simp_all add: short_snippet_def m)
  then show "relo_snippet cur i = Inr sn \<Longrightarrow> snippet_size sn \<le> 20" by (simp add: short_snippet_def)
qed

lemma mapped_ok_step:
  assumes ok: "mapped_ok ctx n Q"
    and i: "load_cell 4 word32_of (rc_cursor ctx) (rc_buffer ctx) = Some i"
    and sn: "relo_snippet (relo_cur_src_vmaddr ctx) i = Inr sn"
  defines "ctx' \<equiv> ctx\<lparr>rc_offset_map := (rc_offset_map ctx)(rc_cursor ctx \<mapsto> n), rc_cursor := rc_cursor ctx + 4\<rparr>"
  shows "mapped_ok ctx' (n + snippet_size sn) (\<lambda>off s. Q off s \<or> (off, s) = (n, sn))"
proof -
  let ?c = "rc_cursor ctx"
  have al: "4 dvd ?c" and dm: "dom (rc_offset_map ctx) = {j. 4 dvd j \<and> j < ?c}"
    using ok by (simp_all add: mapped_ok_def)
  have "?c \<notin> dom (rc_offset_map ctx)" "?c + 4 \<notin> dom (rc_offset_map ctx)" unfolding dm by simp_all
  then have none: "rc_offset_map ctx ?c = None" "rc_offset_map ctx (?c + 4) = None"
    by (simp_all add: domIff)
  have d': "dom (rc_offset_map ctx') = {j. 4 dvd j \<and> j < ?c + 4}"
    using al by (auto simp: ctx'_def dm elim!: dvdE)
  have entry: "\<exists>i s. load_cell 4 word32_of j (rc_buffer ctx') = Some i \<and> relo_snippet (rc_src_vmaddr ctx' + of_nat j) i = Inr s
      \<and> (Q off s \<or> (off, s) = (n, sn)) \<and> off + snippet_size s = next_off ctx' (n + snippet_size sn) j"
    if j: "rc_offset_map ctx' j = Some off" for j off
  proof (cases "j = ?c")
    case True
    with j have "off = n" by (simp add: ctx'_def)
    with True i sn none show ?thesis
      by (intro exI [of _ i] exI [of _ sn]) (simp add: ctx'_def next_off_def relo_cur_src_vmaddr_def)
  next
    case False
    with j have m: "rc_offset_map ctx j = Some off" by (simp add: ctx'_def)
    then obtain i' s where e: "load_cell 4 word32_of j (rc_buffer ctx) = Some i'"
        "relo_snippet (rc_src_vmaddr ctx + of_nat j) i' = Inr s" "Q off s" "off + snippet_size s = next_off ctx n j"
      using mapped_okD [OF ok] by blast
    have "j \<in> dom (rc_offset_map ctx)" using m by blast
    then have jc: "4 dvd j" "j < ?c" unfolding dm by simp_all
    have "next_off ctx' (n + snippet_size sn) j = next_off ctx n j"
    proof (cases "j + 4 = ?c")
      case True
      with none show ?thesis by (simp add: next_off_def ctx'_def)
    next
      case False
      with jc al have "j + 4 < ?c" by (auto elim!: dvdE)
      then have "j + 4 \<in> dom (rc_offset_map ctx)" using jc(1) unfolding dm by simp
      with False show ?thesis by (auto simp: next_off_def ctx'_def)
    qed
    with e show ?thesis by (intro exI [of _ i'] exI [of _ s]) (simp add: ctx'_def)
  qed
  have "4 dvd rc_cursor ctx'" "rc_cursor ctx' = ?c + 4" using al by (simp_all add: ctx'_def)
  with d' entry show ?thesis unfolding mapped_ok_def by simp
qed

lemma relo_inv_step:
  assumes inv: "relo_inv ctx P L a"
    and i: "load_cell 4 word32_of (rc_cursor ctx) (rc_buffer ctx) = Some i"
    and sn: "relo_snippet (relo_cur_src_vmaddr ctx) i = Inr sn"
  shows "\<exists>P' L'. relo_inv (ctx\<lparr>rc_offset_map := (rc_offset_map ctx)(rc_cursor ctx \<mapsto> length (asm_buffer a)),
    rc_cursor := rc_cursor ctx + 4\<rparr>) P' L' (emit_snippet sn a)"
proof -
  let ?n = "length (asm_buffer a)"
  obtain L' where L': "laid (insert (?n, sn) P) L' (emit_snippet sn a)" "length L' \<le> Suc (length L)"
    using inv laid_emit unfolding relo_inv_def by blast
  have ok: "mapped_ok ctx ?n (\<lambda>off s. (off, s) \<in> P)" using inv by (simp add: relo_inv_def)
  have "mapped_ok (ctx\<lparr>rc_offset_map := (rc_offset_map ctx)(rc_cursor ctx \<mapsto> ?n), rc_cursor := rc_cursor ctx + 4\<rparr>)
      (length (asm_buffer (emit_snippet sn a))) (\<lambda>off s. (off, s) \<in> insert (?n, sn) P)"
    unfolding emit_snippet_length by (rule mapped_ok_mono [OF mapped_ok_step [OF ok i sn]]) auto
  moreover have "rc_cursor ctx = 0 \<Longrightarrow> ?n = 0" using inv by (simp add: relo_inv_def)
  ultimately show ?thesis using L' inv relo_snippet_size [OF sn]
    by (intro exI [of _ "insert (?n, sn) P"] exI [of _ L']) (simp add: relo_inv_def emit_snippet_length)
qed

lemma relo_loop_step:
  "relo_loop ctx a = (if rc_cursor ctx < rc_buffer_size ctx
    then case load_cell 4 word32_of (rc_cursor ctx) (rc_buffer ctx) of
           None \<Rightarrow> Inl Wild
         | Some i \<Rightarrow> ebind (relo_snippet (relo_cur_src_vmaddr ctx) i) (\<lambda>sn.
             relo_loop (ctx\<lparr>rc_offset_map := (rc_offset_map ctx)(rc_cursor ctx \<mapsto> length (asm_buffer a)),
               rc_cursor := rc_cursor ctx + 4\<rparr>) (emit_snippet sn a))
    else Inr (ctx, a))"
  by (subst relo_loop.simps)
    (auto simp: Let_def relo_inst_snippet relo_cur_src_vmaddr_def GetBufferSize_def ebind_assoc split: option.split)

lemma relo_loop_inv:
  assumes "relo_inv ctx P L a" and "relo_loop ctx a = Inr (ctx1, a1)"
  shows "(\<exists>P' L'. relo_inv ctx1 P' L' a1) \<and> rc_buffer ctx1 = rc_buffer ctx \<and> rc_src_vmaddr ctx1 = rc_src_vmaddr ctx
    \<and> rc_buffer_size ctx1 = rc_buffer_size ctx
    \<and> rc_buffer_size ctx \<le> rc_cursor ctx1 \<and> (rc_cursor ctx1 < rc_buffer_size ctx + 4 \<or> rc_cursor ctx1 = rc_cursor ctx)"
  using assms
proof (induction "rc_buffer_size ctx - rc_cursor ctx" arbitrary: ctx a P L rule: less_induct)
  case less
  show ?case
  proof (cases "rc_cursor ctx < rc_buffer_size ctx")
    case False
    with less.prems show ?thesis by (subst (asm) relo_loop_step) auto
  next
    case True
    let ?ctx = "ctx\<lparr>rc_offset_map := (rc_offset_map ctx)(rc_cursor ctx \<mapsto> length (asm_buffer a)), rc_cursor := rc_cursor ctx + 4\<rparr>"
    from less.prems(2) True obtain i sn where i: "load_cell 4 word32_of (rc_cursor ctx) (rc_buffer ctx) = Some i"
      and sn: "relo_snippet (relo_cur_src_vmaddr ctx) i = Inr sn" and rest: "relo_loop ?ctx (emit_snippet sn a) = Inr (ctx1, a1)"
      by (subst (asm) relo_loop_step) (auto split: option.splits simp: ebind_Inr_iff)
    obtain P' L' where "relo_inv ?ctx P' L' (emit_snippet sn a)" using relo_inv_step [OF less.prems(1) i sn] by blast
    moreover have "rc_buffer_size ?ctx - rc_cursor ?ctx < rc_buffer_size ctx - rc_cursor ctx" using True by simp
    ultimately show ?thesis using less.hyps [OF _ _ rest] True by fastforce
  qed
qed

section \<open>Generated code\<close>

definition fresh_ctx :: "relo_ctx \<Rightarrow> bool" where
  "fresh_ctx ctx \<longleftrightarrow> rc_cursor ctx = 0 \<and> rc_offset_map ctx = Map.empty"

lemma relo_inv_fresh: "fresh_ctx ctx \<Longrightarrow> relo_inv ctx {} [] (new_assembler 0)"
  by (simp add: fresh_ctx_def relo_inv_def laid_def linked_new mapped_ok_def) (simp add: new_assembler_def)

definition tail_snippet :: "u64 \<Rightarrow> snippet" where
  "tail_snippet target = ([], Some (target, [0xD61F0220]))"

lemma LiteralLdrBranch_snippet: "LiteralLdrBranch target a = Inr (emit_snippet (tail_snippet target) a)"
  by (simp add: LiteralLdrBranch_link tail_snippet_def asm_Emit_emits(3))

text \<open>
  The bound 2^15 on the length keeps every literal load within reach of its data: an instruction
  becomes at most 20 bytes and one label of 8.
\<close>

lemma generated_layout:
  assumes "relo_generate ctx origin True = Inr (ctx1, origin1, a)" and "fresh_ctx ctx" and "rc_buffer_size ctx < 2 ^ 15"
  shows "\<exists>body. mapped_ok ctx1 body (\<lambda>off sn. snippet_in sn off (asm_buffer a))
    \<and> snippet_in (tail_snippet (mb_addr origin + of_nat (rc_cursor ctx1))) body (asm_buffer a)
    \<and> rc_buffer ctx1 = rc_buffer ctx \<and> rc_src_vmaddr ctx1 = rc_src_vmaddr ctx
    \<and> origin1 = MemBlock_reset (mb_addr origin) (of_nat (rc_cursor ctx1)) origin
    \<and> rc_buffer_size ctx \<le> rc_cursor ctx1 \<and> rc_cursor ctx1 < rc_buffer_size ctx + 4
    \<and> (0 < rc_cursor ctx1 \<longrightarrow> rc_offset_map ctx1 0 = Some 0) \<and> length (asm_buffer a) < 2 ^ 20"
proof -
  obtain a1 where loop: "relo_loop ctx (new_assembler 0) = Inr (ctx1, a1)"
    and o1: "origin1 = MemBlock_reset (mb_addr origin) (of_nat (rc_cursor ctx1)) origin"
    and bind: "RelocBind (emit_snippet (tail_snippet (mb_addr origin + of_nat (rc_cursor ctx1))) a1) = Inr a"
    using assms(1)
    by (auto simp: relo_generate_def ebind_Inr_iff LiteralLdrBranch_snippet MemBlock_reset_def Let_def)
  let ?t = "tail_snippet (mb_addr origin + of_nat (rc_cursor ctx1))"
  let ?n = "length (asm_buffer a1)"
  obtain P L where inv: "relo_inv ctx1 P L a1" and keep: "rc_buffer ctx1 = rc_buffer ctx" "rc_src_vmaddr ctx1 = rc_src_vmaddr ctx"
    and c: "rc_buffer_size ctx \<le> rc_cursor ctx1" "rc_cursor ctx1 < rc_buffer_size ctx + 4"
      "0 < rc_cursor ctx1 \<longrightarrow> rc_offset_map ctx1 0 = Some 0"
    using relo_loop_inv [OF relo_inv_fresh [OF assms(2)] loop] assms(2) by (auto simp: fresh_ctx_def relo_inv_def)
  obtain L' where laid: "laid (insert (?n, ?t) P) L' (emit_snippet ?t a1)" and L': "length L' \<le> Suc (length L)"
    using inv laid_emit unfolding relo_inv_def by blast
  have small: "length (asm_buffer (emit_snippet ?t a1)) + 8 * length L' < 2 ^ 20"
    using inv L' c assms(3) by (simp add: relo_inv_def emit_snippet_length) (simp add: tail_snippet_def)
  have "linked L' (emit_snippet ?t a1)" using laid by (simp add: laid_def)
  then obtain labs where "RelocBind (emit_snippet ?t a1) =
      Inr ((emit_snippet ?t a1)\<lparr>asm_buffer := bound L' (asm_buffer (emit_snippet ?t a1)), labels := labs\<rparr>)"
    using RelocBind_linked by blast
  then have buf: "asm_buffer a = bound L' (asm_buffer (emit_snippet ?t a1))" using bind by auto
  have "length (asm_buffer a) < 2 ^ 20"
    using small laid unfolding buf by (subst length_bound) (auto simp: laid_def linked_def links_apart_def)
  have "snippet_in sn off (asm_buffer a)" if "(off, sn) \<in> insert (?n, ?t) P" for off sn
    unfolding buf by (rule standing_bound [OF laid that small])
  moreover have "mapped_ok ctx1 ?n (\<lambda>off sn. (off, sn) \<in> P)" using inv by (simp add: relo_inv_def)
  ultimately have "mapped_ok ctx1 ?n (\<lambda>off sn. snippet_in sn off (asm_buffer a)) \<and> snippet_in ?t ?n (asm_buffer a)"
    by (auto intro: mapped_ok_mono)
  with keep o1 c \<open>length (asm_buffer a) < 2 ^ 20\<close> show ?thesis by (intro exI [of _ ?n]) simp
qed

end
