(* ===== verification/Arm64_Reloc_Exec.thy ===== *)
theory Arm64_Reloc_Exec
  imports Arm64_Reloc_Layout
begin

text \<open>
  Running relocated instructions. The recognisers of the relocation are the classes of the
  machine (\<open>recogniser_classes\<close>); each kind of snippet, placed in memory, does what the original
  instruction does, with x17 as scratch.
\<close>

unbundle bit_operations_syntax

section \<open>The recognisers\<close>

lemma masked_field:
  fixes w :: u32
  assumes "take_bit n c = c" and "lo + n \<le> 32"
  shows "w AND push_bit lo (mask n) = push_bit lo c \<longleftrightarrow> take_bit n (drop_bit lo w) = c"
proof -
  have "w AND push_bit lo (mask n) = push_bit lo (take_bit n (drop_bit lo w))"
    by (rule bit_word_eqI) (auto simp: bit_simps)
  moreover have "drop_bit lo (push_bit lo (take_bit n v)) = take_bit n (v :: u32)" for v
    using assms(2) by (intro bit_word_eqI) (auto simp: bit_simps)
  ultimately show ?thesis using assms(1) by metis
qed

lemma masked_split:
  fixes w :: u32
  assumes "a AND b = 0" and "ca AND a = ca" and "cb AND b = cb"
  shows "w AND (a OR b) = ca OR cb \<longleftrightarrow> w AND a = ca \<and> w AND b = cb"
proof -
  have ab: "bit a k \<Longrightarrow> \<not> bit b k" for k using bit_and_iff [of a b k] assms(1) by simp
  have ca: "bit ca k \<Longrightarrow> bit a k" for k using bit_and_iff [of ca a k] assms(2) by simp
  have cb: "bit cb k \<Longrightarrow> bit b k" for k using bit_and_iff [of cb b k] assms(3) by simp
  show ?thesis
  proof
    assume e: "w AND (a OR b) = ca OR cb"
    have k: "bit w k \<and> (bit a k \<or> bit b k) \<longleftrightarrow> bit ca k \<or> bit cb k" for k
      using arg_cong [OF e, of "\<lambda>v. bit v k"] by (simp add: bit_and_iff bit_or_iff)
    have "w AND a = ca" by (rule bit_word_eqI) (use k ab ca cb in \<open>auto simp: bit_and_iff\<close>)
    moreover have "w AND b = cb" by (rule bit_word_eqI) (use k ab ca cb in \<open>auto simp: bit_and_iff\<close>)
    ultimately show "w AND a = ca \<and> w AND b = cb" ..
  next
    assume "w AND a = ca \<and> w AND b = cb"
    then show "w AND (a OR b) = ca OR cb" by (simp add: bit.conj_disj_distrib)
  qed
qed

lemma masked_fields:
  fixes w :: u32
  assumes "take_bit n c = c" and "lo + n \<le> 32" and "take_bit n' c' = c'" and "lo' + n' \<le> lo"
  shows "w AND (push_bit lo (mask n) OR push_bit lo' (mask n')) = push_bit lo c OR push_bit lo' c'
    \<longleftrightarrow> take_bit n (drop_bit lo w) = c \<and> take_bit n' (drop_bit lo' w) = c'"
proof -
  have "push_bit lo (mask n) AND push_bit lo' (mask n') = (0 :: u32)"
    using assms(4) by (intro bit_word_eqI) (auto simp: bit_simps)
  moreover have "push_bit lo c AND push_bit lo (mask n) = (push_bit lo c :: u32)"
    by (subst assms(1) [symmetric]) (rule bit_word_eqI, auto simp: bit_simps assms(1) dest: bit_take_bit_self [OF assms(1)])
  moreover have "push_bit lo' c' AND push_bit lo' (mask n') = (push_bit lo' c' :: u32)"
    by (subst assms(3) [symmetric]) (rule bit_word_eqI, auto simp: bit_simps assms(3) dest: bit_take_bit_self [OF assms(3)])
  ultimately show ?thesis
    using masked_field [OF assms(1,2), of w] masked_field [OF assms(3), of lo' w] assms(2,4)
    by (simp add: masked_split)
qed

lemma recogniser_classes:
  "inst_is_b_bl w \<longleftrightarrow> is_uncond w"
  "inst_is_ldr_literal w \<longleftrightarrow> is_literal w"
  "inst_is_adr w \<longleftrightarrow> is_pcrel w \<and> fld 31 31 w = 0"
  "inst_is_adrp w \<longleftrightarrow> is_pcrel w \<and> fld 31 31 w = 1"
  "inst_is_b_cond w \<longleftrightarrow> fld 31 25 w = 0b0101010"
  "inst_is_compare_b w \<longleftrightarrow> is_cmpb w"
  "inst_is_test_b w \<longleftrightarrow> is_testb w"
proof -
  show "inst_is_b_bl w \<longleftrightarrow> is_uncond w"
    using masked_field [where n = 5 and c = 5 and lo = 26 and w = w]
    by (simp add: inst_is_b_bl_def opcode_defs is_uncond_def fld_def mask_numeral)
  show "inst_is_ldr_literal w \<longleftrightarrow> is_literal w"
    using masked_fields [where n = 3 and c = 3 and lo = 27 and n' = 2 and c' = 0 and lo' = 24 and w = w]
    by (simp add: inst_is_ldr_literal_def opcode_defs is_literal_def fld_def mask_numeral)
  have "w AND PCRelAddressingFixedMask = PCRelAddressingFixed \<longleftrightarrow> is_pcrel w"
    using masked_field [where n = 5 and c = 16 and lo = 24 and w = w]
    by (simp add: opcode_defs is_pcrel_def fld_def mask_numeral mod_2_eq_odd)
  moreover have "w AND PCRelAddressingMask = ADR_op \<longleftrightarrow> is_pcrel w \<and> fld 31 31 w = 0"
    using masked_fields [where n = 1 and c = 0 and lo = 31 and n' = 5 and c' = 16 and lo' = 24 and w = w]
    by (auto simp: opcode_defs is_pcrel_def fld_def mask_numeral mod_2_eq_odd)
  moreover have "w AND PCRelAddressingMask = ADRP_op \<longleftrightarrow> is_pcrel w \<and> fld 31 31 w = 1"
    using masked_fields [where n = 1 and c = 1 and lo = 31 and n' = 5 and c' = 16 and lo' = 24 and w = w]
    by (auto simp: opcode_defs is_pcrel_def fld_def mask_numeral mod_2_eq_odd)
  ultimately show "inst_is_adr w \<longleftrightarrow> is_pcrel w \<and> fld 31 31 w = 0" "inst_is_adrp w \<longleftrightarrow> is_pcrel w \<and> fld 31 31 w = 1"
    by (auto simp: inst_is_adr_def inst_is_adrp_def)
  show "inst_is_b_cond w \<longleftrightarrow> fld 31 25 w = 0b0101010"
    using masked_field [where n = 7 and c = "0b0101010" and lo = 25 and w = w]
    by (simp add: inst_is_b_cond_def opcode_defs fld_def mask_numeral)
  show "inst_is_compare_b w \<longleftrightarrow> is_cmpb w"
    using masked_field [where n = 6 and c = "0b011010" and lo = 25 and w = w]
    by (simp add: inst_is_compare_b_def opcode_defs is_cmpb_def fld_def mask_numeral)
  show "inst_is_test_b w \<longleftrightarrow> is_testb w"
    using masked_field [where n = 6 and c = "0b011011" and lo = 25 and w = w]
    by (simp add: inst_is_test_b_def opcode_defs is_testb_def fld_def mask_numeral)
qed

lemma bl_iff: "is_uncond w \<Longrightarrow> w AND UnconditionalBranchMask = BL_op \<longleftrightarrow> fld 31 31 w = 1"
  using masked_fields [where n = 1 and c = 1 and lo = 31 and n' = 5 and c' = 5 and lo' = 26 and w = w]
  by (simp add: opcode_defs is_uncond_def fld_def mask_numeral)

section \<open>Inverted branches\<close>

lemma bit_three: "bit (3 :: u32) n \<longleftrightarrow> n = 0 \<or> n = 1" "bit (3 :: u64) n \<longleftrightarrow> n = 0 \<or> n = 1"
proof -
  have m: "(3 :: u32) = mask 2" "(3 :: u64) = mask 2" by (simp_all add: mask_numeral)
  show "bit (3 :: u32) n \<longleftrightarrow> n = 0 \<or> n = 1" "bit (3 :: u64) n \<longleftrightarrow> n = 0 \<or> n = 1"
    unfolding m bit_mask_iff by auto
qed

text \<open>Each of the three routines inverts one bit and writes the distance of three words.\<close>

lemma bit_over_field:
  assumes "5 \<le> fn" and "fn \<le> 23" and "6 < fn"
  shows "bit (set_bits_to w 5 fn (3 :: u32)) k \<longleftrightarrow> (if 5 \<le> k \<and> k \<le> fn then k = 5 \<or> k = 6 else bit w k)"
proof -
  have "take_bit (Suc (fn - 5)) (3 :: u32) = 3"
    using assms(3) by (intro bit_word_eqI) (simp only: bit_take_bit_iff bit_three, arith)
  from bit_set_bits_to [OF assms(1) this, of w k] have
    "bit (set_bits_to w 5 fn 3) k \<longleftrightarrow> (if 5 \<le> k \<and> k \<le> fn then k < 32 \<and> (k - 5 = 0 \<or> k - 5 = 1) else bit w k)"
    by (simp only: bit_three) simp
  then show ?thesis using assms(2) by auto
qed

lemma drop_three: "drop_bit 2 (4 * 3) = (3 :: u32)"
  by simp

lemma bit_branch_instr_b_cond:
  "bit (branch_instr_b_cond w) k \<longleftrightarrow>
    (if 5 \<le> k \<and> k \<le> 23 then k = 5 \<or> k = 6 else if k = 0 then \<not> bit w 0 else bit w k)"
proof -
  define v where "v = bits w 0 3 XOR 1"
  have c: "bit v n \<longleftrightarrow> n \<le> 3 \<and> (if n = 0 then \<not> bit w 0 else bit w n)" for n
    by (auto simp: v_def bit_xor_iff bits_eq bit_take_bit_iff bit_1_iff)
  then have "take_bit 4 v = v"
    by (intro bit_word_eqI) (auto simp: bit_take_bit_iff)
  then have "bit (set_bits_to w 0 3 v) k \<longleftrightarrow> (if k \<le> 3 then if k = 0 then \<not> bit w 0 else bit w k else bit w k)"
    by (subst bit_set_bits_to) (auto simp: c)
  then show ?thesis
    unfolding branch_instr_b_cond_def Let_def drop_three v_def by (subst bit_over_field) auto
qed

lemma bit_flip_bit: "bit (set_bit_to (w :: u32) 24 (bit_at w 24 XOR 1)) k \<longleftrightarrow> (if k = 24 then \<not> bit w 24 else bit w k)"
proof -
  have "bit_at w 24 XOR 1 = of_bool (\<not> bit w 24)" by (simp add: bit_at_eq)
  then show ?thesis by (simp add: bit_set_bit_to)
qed

lemma bit_branch_instr_compare_b:
  "bit (branch_instr_compare_b w) k \<longleftrightarrow>
    (if 5 \<le> k \<and> k \<le> 23 then k = 5 \<or> k = 6 else if k = 24 then \<not> bit w 24 else bit w k)"
  unfolding branch_instr_compare_b_def Let_def drop_three by (subst bit_over_field) (auto simp: bit_flip_bit)

lemma bit_branch_instr_test_b:
  "bit (branch_instr_test_b w) k \<longleftrightarrow>
    (if 5 \<le> k \<and> k \<le> 18 then k = 5 \<or> k = 6 else if k = 24 then \<not> bit w 24 else bit w k)"
  unfolding branch_instr_test_b_def Let_def drop_three by (subst bit_over_field) (auto simp: bit_flip_bit)

lemma fld_cong: "(\<And>k. lo \<le> k \<Longrightarrow> k \<le> hi \<Longrightarrow> bit v k \<longleftrightarrow> bit w k) \<Longrightarrow> fld hi lo v = fld hi lo w"
  by (rule bit_word_eqI) (auto simp: bit_fld)

lemma fld_one: "fld n n w = of_bool (bit w n)"
  by (rule bit_word_eqI) (auto simp: bit_fld bit_1_iff)

lemma sfld_three:
  assumes "\<And>k. 5 \<le> k \<Longrightarrow> k \<le> hi \<Longrightarrow> bit w k \<longleftrightarrow> k = 5 \<or> k = 6" and "6 < hi" and "hi < 32"
  shows "push_bit 2 (sfld hi 5 w) = 12"
proof -
  have "sfld hi 5 w = 3"
  proof (rule bit_word_eqI)
    fix k
    assume "k < LENGTH(64)"
    moreover have "bit w (5 + min k (hi - 5)) \<longleftrightarrow> min k (hi - 5) = 0 \<or> min k (hi - 5) = 1"
      using assms by auto
    moreover have "min k (hi - 5) = 0 \<longleftrightarrow> k = 0" "min k (hi - 5) = 1 \<longleftrightarrow> k = 1" using assms(2) by auto
    ultimately show "bit (sfld hi 5 w) k \<longleftrightarrow> bit (3 :: u64) k"
      unfolding bit_three(2) using assms(2,3) by (simp add: bit_sfld)
  qed
  then show ?thesis by simp
qed

lemma cond_inverted:
  assumes "unat c < 14" and "\<And>k. bit c' k \<longleftrightarrow> (if k = 0 then \<not> bit c 0 else bit (c :: u32) k)"
  shows "cond_holds c' s \<longleftrightarrow> \<not> cond_holds c s"
proof -
  have d: "drop_bit 1 c' = drop_bit 1 c" by (rule bit_word_eqI) (simp add: bit_drop_bit_eq assms(2))
  have "c' \<noteq> 15 \<and> c \<noteq> 15"
  proof -
    have "c' \<noteq> 15"
    proof
      assume "c' = 15"
      then have "drop_bit 1 c = 7" using d by simp
      then have "unat (drop_bit 1 c) = 7" by simp
      moreover have "unat (drop_bit 1 c) = unat c div 2" unfolding unat_drop_bit_eq by (simp add: drop_bit_Suc)
      ultimately show False using assms(1) by linarith
    qed
    moreover have "c \<noteq> 15" using assms(1) by auto
    ultimately show ?thesis ..
  qed
  then show ?thesis unfolding cond_holds_def Let_def d by (simp add: assms(2))
qed

lemma exec_branch_instr_b_cond:
  assumes "is_bcond w" and "fldn 3 0 w < 14"
  shows "a64_exec (branch_instr_b_cond w) s = Some (branch_if (\<not> cond_holds (fld 3 0 w) s) 12 s)"
proof -
  have f: "fld hi lo (branch_instr_b_cond w) = fld hi lo w" if "lo = 4 \<and> hi = 4 \<or> 24 \<le> lo" for hi lo
    using that by (intro fld_cong) (auto simp: bit_branch_instr_b_cond)
  have "bit (fld 3 0 (branch_instr_b_cond w)) k \<longleftrightarrow> (if k = 0 then \<not> bit (fld 3 0 w) 0 else bit (fld 3 0 w) k)" for k
    by (auto simp: bit_fld bit_branch_instr_b_cond)
  then have "cond_holds (fld 3 0 (branch_instr_b_cond w)) s \<longleftrightarrow> \<not> cond_holds (fld 3 0 w) s"
    using assms(2) unfolding fldn_def by (intro cond_inverted)
  moreover have "push_bit 2 (sfld 23 5 (branch_instr_b_cond w)) = 12"
    by (rule sfld_three) (auto simp: bit_branch_instr_b_cond)
  moreover have "is_bcond (branch_instr_b_cond w)" using assms(1) by (simp add: is_bcond_def f)
  ultimately show ?thesis by (simp add: exec_classes ex_bcond_def)
qed

lemma fld_24_flip: "fld 24 24 v = 1 \<longleftrightarrow> bit v 24"
  by (simp add: fld_one)

text \<open>When \<open>cbz\<close>, \<open>cbnz\<close>, \<open>tbz\<close>, \<open>tbnz\<close> branch.\<close>

definition cmpb_taken :: "u32 \<Rightarrow> a64 \<Rightarrow> bool" where
  "cmpb_taken w s = ((fld 24 24 w = 1) \<noteq>
     (let v = rd_x s (fldn 4 0 w) in if fld 31 31 w = 1 then v = 0 else (ucast v :: u32) = 0))"

definition testb_taken :: "u32 \<Rightarrow> a64 \<Rightarrow> bool" where
  "testb_taken w s = ((fld 24 24 w = 1) = bit (rd_x s (fldn 4 0 w)) (32 * fldn 31 31 w + fldn 23 19 w))"

lemma exec_cmpb: "is_cmpb w \<Longrightarrow> a64_exec w s = Some (branch_if (cmpb_taken w s) (push_bit 2 (sfld 23 5 w)) s)"
  by (simp add: exec_classes ex_cmpb_def cmpb_taken_def Let_def)

lemma exec_testb: "is_testb w \<Longrightarrow> a64_exec w s = Some (branch_if (testb_taken w s) (push_bit 2 (sfld 18 5 w)) s)"
  by (simp add: exec_classes ex_testb_def testb_taken_def Let_def)

lemma exec_branch_instr_compare_b:
  assumes "is_cmpb w"
  shows "a64_exec (branch_instr_compare_b w) s = Some (branch_if (\<not> cmpb_taken w s) 12 s)"
proof -
  let ?v = "branch_instr_compare_b w"
  have f: "fld hi lo ?v = fld hi lo w" if "hi \<le> 4 \<or> 25 \<le> lo" for hi lo
    using that by (intro fld_cong) (auto simp: bit_branch_instr_compare_b)
  have z: "fld 24 24 ?v = 1 \<longleftrightarrow> fld 24 24 w \<noteq> 1"
    unfolding fld_24_flip by (simp add: bit_branch_instr_compare_b)
  have "push_bit 2 (sfld 23 5 ?v) = 12"
    by (rule sfld_three) (auto simp: bit_branch_instr_compare_b)
  moreover have "is_cmpb ?v" using assms by (simp add: is_cmpb_def f)
  moreover have "cmpb_taken ?v s \<longleftrightarrow> \<not> cmpb_taken w s"
    by (simp add: cmpb_taken_def fldn_def f z)
  ultimately show ?thesis by (simp add: exec_cmpb)
qed

lemma exec_branch_instr_test_b:
  assumes "is_testb w"
  shows "a64_exec (branch_instr_test_b w) s = Some (branch_if (\<not> testb_taken w s) 12 s)"
proof -
  let ?v = "branch_instr_test_b w"
  have f: "fld hi lo ?v = fld hi lo w" if "hi \<le> 4 \<or> 25 \<le> lo \<or> 19 \<le> lo \<and> hi \<le> 23" for hi lo
    using that by (intro fld_cong) (auto simp: bit_branch_instr_test_b)
  have z: "fld 24 24 ?v = 1 \<longleftrightarrow> fld 24 24 w \<noteq> 1"
    unfolding fld_24_flip by (simp add: bit_branch_instr_test_b)
  have "push_bit 2 (sfld 18 5 ?v) = 12"
    by (rule sfld_three) (auto simp: bit_branch_instr_test_b)
  moreover have "is_testb ?v" using assms by (simp add: is_testb_def f)
  moreover have "testb_taken ?v s \<longleftrightarrow> \<not> testb_taken w s"
    unfolding testb_taken_def fldn_def by (simp add: f z) blast
  ultimately show ?thesis by (simp add: exec_testb)
qed

section \<open>Running snippets\<close>

text \<open>States that agree but for the registers in \<open>X\<close> and the program counter.\<close>

definition agree :: "nat set \<Rightarrow> a64 \<Rightarrow> a64 \<Rightarrow> bool" where
  "agree X s t \<longleftrightarrow> (\<forall>n. n \<notin> X \<longrightarrow> xreg s n = xreg t n) \<and> spreg s = spreg t \<and> vreg s = vreg t
     \<and> flagN s = flagN t \<and> flagZ s = flagZ t \<and> flagC s = flagC t \<and> flagV s = flagV t \<and> mem s = mem t"

lemma agree_mono: "agree X s t \<Longrightarrow> X \<subseteq> Y \<Longrightarrow> agree Y s t"
  by (auto simp: agree_def)

lemma agree_pc [simp]: "agree X (s\<lparr>pc := a\<rparr>) t \<longleftrightarrow> agree X s t" "agree X s (t\<lparr>pc := a\<rparr>) \<longleftrightarrow> agree X s t"
  by (simp_all add: agree_def)

lemma agree_next [simp]: "agree X (next_pc s) t \<longleftrightarrow> agree X s t" "agree X s (next_pc t) \<longleftrightarrow> agree X s t"
  "agree X (jump a s) t \<longleftrightarrow> agree X s t" "agree X s (jump a t) \<longleftrightarrow> agree X s t"
  "agree X (branch_if b off s) t \<longleftrightarrow> agree X s t" "agree X s (branch_if b off t) \<longleftrightarrow> agree X s t"
  by (simp_all add: next_pc_def jump_def branch_if_def)

lemma agree_wr: "agree X s t \<Longrightarrow> agree X (wr_x n v s) (wr_x n v t)" "agree X s t \<Longrightarrow> agree X (wr_sp n v s) (wr_sp n v t)"
  by (simp_all add: agree_def wr_x_def wr_sp_def)

lemma agree_scratch: "agree X s t \<Longrightarrow> n \<in> X \<Longrightarrow> agree X s (t\<lparr>xreg := (xreg t)(n := v)\<rparr>)"
  by (auto simp: agree_def)

lemma agree_wr_other: "agree X s t \<Longrightarrow> agree (insert n X) (wr_x n u s) (wr_x n v t)"
  by (auto simp: agree_def wr_x_def)

lemma agree_rd: "agree X s t \<Longrightarrow> n \<notin> X \<Longrightarrow> rd_x s n = rd_x t n" "agree X s t \<Longrightarrow> n \<notin> X \<Longrightarrow> rd_sp s n = rd_sp t n"
  by (auto simp: agree_def rd_x_def rd_sp_def)

lemma agree_mem: "agree X s t \<Longrightarrow> mem s = mem t"
  by (simp add: agree_def)

lemma agree_write:
  assumes "agree X s t"
  shows "agree X (write64 a u s) (write64 a u t)" "agree X (write32 a v s) (write32 a v t)" "agree X (write128 a q s) (write128 a q t)"
    "agree X (set_flags n z c f s) (set_flags n z c f t)" "agree X (s\<lparr>vreg := V\<rparr>) (t\<lparr>vreg := V\<rparr>)" and "vreg s = vreg t"
  using assms by (simp_all add: agree_def write64_def write32_def write128_def set_flags_def)

lemma write_regs [simp]:
  "pc (write64 a u s) = pc s" "pc (write32 a v s) = pc s" "pc (write128 a q s) = pc s" "pc (set_flags n z c f s) = pc s"
  "rd_x (write64 a u s) m = rd_x s m" "rd_x (write128 a q s) m = rd_x s m" "vreg (write64 a u s) = vreg s" "vreg (write128 a q s) = vreg s"
  by (simp_all add: write64_def write32_def write128_def set_flags_def rd_x_def)

lemma agree_taken:
  assumes "agree {17} s t"
  shows "cond_holds c s \<longleftrightarrow> cond_holds c t" "fldn 4 0 w \<noteq> 17 \<Longrightarrow> cmpb_taken w s \<longleftrightarrow> cmpb_taken w t"
    "fldn 4 0 w \<noteq> 17 \<Longrightarrow> testb_taken w s \<longleftrightarrow> testb_taken w t"
  using assms agree_rd(1) [OF assms, of "fldn 4 0 w"]
  by (simp_all add: cond_holds_def cond_base_def Let_def agree_def cmpb_taken_def testb_taken_def)

lemma run_load:
  assumes "placed code a (mem t)" and "pc t = a + of_nat p" and "fits_branch 21 (of_nat d)"
    and "load_cell 4 word32_of p code = Some (encode_imm19_offset ldr17 (of_nat d))"
    and "load_cell 8 word64_of (p + d) code = Some target"
  shows "a64_step t = Some (next_pc (t\<lparr>xreg := (xreg t)(17 := target)\<rparr>))"
proof -
  have "read64 (mem t) (pc t + of_nat d) = target"
    using placed_read64 [OF assms(1,5)] assms(2) by (simp add: add.assoc)
  then show ?thesis using step_at [OF assms(1,4,2)] by (simp add: exec_ldr17 [OF assms(3)])
qed

text \<open>A linked load and a branch through it, at \<open>p\<close>.\<close>

lemma run_far_branch:
  assumes "placed code a (mem t)" and "pc t = a + of_nat p" and "snippet_in ([], Some (target, [w])) p code"
    and "w = 0xD61F0220 \<or> w = 0xD63F0220"
  shows "a64_steps 2 t = Some (let u = t\<lparr>xreg := (xreg t)(17 := target)\<rparr>
    in jump target (if w = 0xD63F0220 then wr_x 30 (pc t + 8) u else u))"
proof -
  obtain d where d: "fits_branch 21 (of_nat d)" "load_cell 4 word32_of p code = Some (encode_imm19_offset ldr17 (of_nat d))"
      "load_cell 8 word64_of (p + d) code = Some target" and w: "load_cell 4 word32_of (p + 4) code = Some w"
    using assms(3) by (auto simp: words_at_Cons)
  define u where "u = t\<lparr>xreg := (xreg t)(17 := target)\<rparr>"
  have "a64_step t = Some (next_pc u)" unfolding u_def by (rule run_load [OF assms(1,2) d])
  moreover have "a64_step (next_pc u) = a64_exec w (next_pc u)"
    using step_at [of code a "next_pc u" "p + 4" w] assms(1,2) w by (simp add: u_def add.assoc)
  moreover have "a64_exec w (next_pc u) = Some (jump target (if w = 0xD63F0220 then wr_x 30 (pc t + 8) u else u))"
    using assms(4) by (auto simp: exec_br17 exec_blr17 u_def) (simp_all add: jump_def next_pc_def wr_x_def add.commute)
  ultimately show ?thesis by (simp add: eval_nat_numeral u_def Let_def)
qed

lemma run_branch_over:
  assumes "placed code a (mem t)" and "pc t = a + of_nat p" and "snippet_in (branch_over i target) p code"
    and "a64_exec i t = Some (branch_if (\<not> b) 12 t)"
  shows "\<exists>n. a64_steps n t = Some (if b then jump target (t\<lparr>xreg := (xreg t)(17 := target)\<rparr>) else jump (pc t + 12) t)"
proof -
  have i: "load_cell 4 word32_of p code = Some i" and far: "snippet_in ([], Some (target, [0xD61F0220])) (p + 4) code"
    using assms(3) by (simp_all add: branch_over_def words_at_Cons)
  have s: "a64_step t = Some (branch_if (\<not> b) 12 t)" using step_at [OF assms(1) i assms(2)] assms(4) by simp
  show ?thesis
  proof (cases b)
    case True
    have "a64_steps 2 (next_pc t) = Some (jump target ((next_pc t)\<lparr>xreg := (xreg t)(17 := target)\<rparr>))"
      using run_far_branch [of code a "next_pc t" "p + 4", OF _ _ far] assms(1,2) by (simp add: Let_def add.assoc)
    with s True have "a64_steps 3 t = Some (jump target (t\<lparr>xreg := (xreg t)(17 := target)\<rparr>))"
      by (simp add: eval_nat_numeral branch_if_def) (simp add: jump_def next_pc_def)
    with True show ?thesis by auto
  next
    case False
    with s show ?thesis by (intro exI [of _ 1]) (simp add: branch_if_def)
  qed
qed

end
