(* ===== verification/Arm64_Reloc_Props.thy ===== *)
theory Arm64_Reloc_Props
  imports Arm64_Reloc_Exec
begin

text \<open>
  Relocated code does what the original code does: one step of an original instruction is a run
  of its snippet, up to the scratch register x17 (\<open>relocated_step\<close>). What the routine does not
  translate correctly is excluded by \<open>relocatable\<close> and shown to be wrong.
\<close>

unbundle bit_operations_syntax

section \<open>Relocatable instructions\<close>

text \<open>Instructions that name the scratch register.\<close>

definition names17 :: "u32 \<Rightarrow> bool" where
  "names17 w \<longleftrightarrow>
     \<not> is_uncond w \<and> \<not> is_bcond w \<and>
     (fldn 4 0 w = 17
      \<or> fldn 9 5 w = 17 \<and> (is_breg w \<or> is_ldst_uimm w \<or> is_addsub_imm w \<or> is_orr_shifted w \<or> is_addsubs_imm w \<or> is_pair w)
      \<or> fldn 20 16 w = 17 \<and> is_orr_shifted w \<or> fldn 14 10 w = 17 \<and> is_pair w)"

text \<open>No always-condition, and of the literal loads only the one of an X register.\<close>

definition relocatable :: "u32 \<Rightarrow> bool" where
  "relocatable w \<longleftrightarrow> \<not> names17 w
     \<and> (is_bcond w \<longrightarrow> fldn 3 0 w < 14)
     \<and> (is_literal w \<longrightarrow> fld 26 26 w = 0 \<and> fld 31 30 w = 1)"

definition is_call :: "u32 \<Rightarrow> bool" where
  "is_call w \<longleftrightarrow> is_uncond w \<and> fld 31 31 w = 1 \<or> is_breg w \<and> fld 22 21 w = 1"

definition clobbers :: "u32 \<Rightarrow> nat set" where
  "clobbers w = (if is_call w then {17, 30} else {17})"

definition jumps :: "u32 \<Rightarrow> bool" where
  "jumps w \<longleftrightarrow> is_uncond w \<or> is_bcond w \<or> is_cmpb w \<or> is_testb w \<or> is_breg w"

text \<open>The step of the original from \<open>s\<close> to \<open>s'\<close>, made by code at \<open>t\<close>; \<open>nxt\<close> is where the next
  snippet begins. A call leaves the address of the next snippet as return address.\<close>

definition simulates :: "u32 \<Rightarrow> a64 \<Rightarrow> a64 \<Rightarrow> a64 \<Rightarrow> u64 \<Rightarrow> bool" where
  "simulates w s s' t nxt \<longleftrightarrow> (\<exists>n t'. a64_steps n t = Some t' \<and> agree (clobbers w) s' t'
     \<and> (jumps w \<and> pc t' = pc s' \<or> pc s' = pc s + 4 \<and> pc t' = nxt)
     \<and> (is_call w \<longrightarrow> xreg s' 30 = pc s + 4 \<and> xreg t' 30 = nxt))"

lemma not_call: "\<not> is_uncond w \<Longrightarrow> \<not> is_breg w \<Longrightarrow> \<not> is_call w \<and> clobbers w = {17}"
  by (simp add: is_call_def clobbers_def)

section \<open>Each kind of instruction\<close>

lemma sim_uncond:
  assumes "is_uncond w" and "agree {17} s t" and "placed code a (mem t)" and "pc t = a + of_nat p"
    and "relo_snippet (pc s) w = Inr sn" and "snippet_in sn p code"
  shows "simulates w s (ex_uncond w s) t (a + of_nat (p + snippet_size sn))"
proof -
  let ?t = "pc s + push_bit 2 (sfld 25 0 w)"
  let ?i = "if fld 31 31 w = 1 then 0xD63F0220 else 0xD61F0220 :: u32"
  have sn: "sn = ([], Some (?t, [?i]))"
    using assms(1,5) by (simp add: relo_snippet_def recogniser_classes bl_iff decode_imm26_fields)
  have ne: "(0xD61F0220 :: u32) \<noteq> 0xD63F0220" by simp
  have run: "a64_steps 2 t = Some (let u = t\<lparr>xreg := (xreg t)(17 := ?t)\<rparr> in
      jump ?t (if ?i = 0xD63F0220 then wr_x 30 (pc t + 8) u else u))"
    by (rule run_far_branch [OF assms(3,4)]) (use assms(6) sn in auto)
  have ag: "agree {17} s (t\<lparr>xreg := (xreg t)(17 := ?t)\<rparr>)" using assms(2) by (rule agree_scratch) simp
  have b: "\<not> is_breg w" using assms(1) by (auto dest!: class_bits)
  show ?thesis
  proof (cases "fld 31 31 w = 1")
    case True
    have c: "is_call w" "clobbers w = {17, 30}" using assms(1) True by (simp_all add: is_call_def clobbers_def)
    have "agree {17, 30} (wr_x 30 (pc s + 4) s) (wr_x 30 (pc t + 8) (t\<lparr>xreg := (xreg t)(17 := ?t)\<rparr>))"
      using agree_wr_other [OF ag, of 30] by (simp add: insert_commute)
    with run True c show ?thesis
      unfolding simulates_def
      by (intro exI [of _ 2] exI [of _ "jump ?t (wr_x 30 (pc t + 8) (t\<lparr>xreg := (xreg t)(17 := ?t)\<rparr>))"])
        (simp add: ex_uncond_def Let_def sn assms(1,4) jumps_def, simp add: jump_def wr_x_def)
  next
    case False
    with b have c: "\<not> is_call w" "clobbers w = {17}" by (simp_all add: is_call_def clobbers_def)
    with run False ag ne show ?thesis
      unfolding simulates_def
      by (intro exI [of _ 2] exI [of _ "jump ?t (t\<lparr>xreg := (xreg t)(17 := ?t)\<rparr>)"]) (simp add: ex_uncond_def Let_def assms(1) jumps_def)
  qed
qed

lemma sim_branch:
  assumes "placed code a (mem t)" and "pc t = a + of_nat p" and "agree {17} s t"
    and "snippet_in (branch_over i (pc s + off)) p code"
    and "a64_exec i t = Some (branch_if (\<not> b) 12 t)" and "\<not> is_call w" and "clobbers w = {17}" and "jumps w"
  shows "simulates w s (branch_if b off s) t (a + of_nat (p + snippet_size (branch_over i (pc s + off))))"
proof -
  obtain n where n: "a64_steps n t = Some (if b then jump (pc s + off) (t\<lparr>xreg := (xreg t)(17 := pc s + off)\<rparr>) else jump (pc t + 12) t)"
    using run_branch_over [OF assms(1,2,4,5)] by blast
  have "agree {17} s (t\<lparr>xreg := (xreg t)(17 := pc s + off)\<rparr>)" using assms(3) by (rule agree_scratch) simp
  with n assms(2,3,6-8) show ?thesis
    unfolding simulates_def branch_over_def by (intro exI [of _ n]) (auto simp: branch_if_def)
qed

lemma sim_bcond:
  assumes "is_bcond w" and "fldn 3 0 w < 14" and "agree {17} s t" and "placed code a (mem t)" and "pc t = a + of_nat p"
    and "relo_snippet (pc s) w = Inr sn" and "snippet_in sn p code"
  shows "simulates w s (ex_bcond w s) t (a + of_nat (p + snippet_size sn))"
proof -
  have o: "\<not> is_uncond w" "\<not> is_literal w" "\<not> is_pcrel w" "\<not> is_breg w" using assms(1) by (auto dest!: class_bits)
  have c: "fld 31 25 w = 0b0101010" using assms(1) by (simp add: is_bcond_def)
  have sn: "sn = branch_over (branch_instr_b_cond w) (pc s + push_bit 2 (sfld 23 5 w))"
    using assms(6) o c by (simp add: relo_snippet_def recogniser_classes decode_imm19_fields)
  have "a64_exec (branch_instr_b_cond w) t = Some (branch_if (\<not> cond_holds (fld 3 0 w) s) 12 t)"
    using exec_branch_instr_b_cond [OF assms(1,2)] agree_taken(1) [OF assms(3)] by simp
  from sim_branch [OF assms(4,5,3) assms(7) [unfolded sn] this] not_call [OF o(1,4)] sn assms(1)
  show ?thesis by (simp add: ex_bcond_def jumps_def)
qed

lemma sim_cmpb:
  assumes "is_cmpb w" and "fldn 4 0 w \<noteq> 17" and "agree {17} s t" and "placed code a (mem t)" and "pc t = a + of_nat p"
    and "relo_snippet (pc s) w = Inr sn" and "snippet_in sn p code"
  shows "simulates w s (branch_if (cmpb_taken w s) (push_bit 2 (sfld 23 5 w)) s) t (a + of_nat (p + snippet_size sn))"
proof -
  have o: "\<not> is_uncond w" "\<not> is_literal w" "\<not> is_pcrel w" "\<not> is_breg w" "\<not> bit w 30"
    using assms(1) by (auto dest!: class_bits)
  then have c: "fld 31 25 w \<noteq> 0b0101010" using fld_bit [of 31 25 w "0b0101010" 30] by auto
  have sn: "sn = branch_over (branch_instr_compare_b w) (pc s + push_bit 2 (sfld 23 5 w))"
    using assms(1,6) o c by (simp add: relo_snippet_def recogniser_classes decode_imm19_fields)
  have "a64_exec (branch_instr_compare_b w) t = Some (branch_if (\<not> cmpb_taken w s) 12 t)"
    using exec_branch_instr_compare_b [OF assms(1)] agree_taken(2) [OF assms(3,2)] by simp
  from sim_branch [OF assms(4,5,3) assms(7) [unfolded sn] this] not_call [OF o(1,4)] sn assms(1)
  show ?thesis by (simp add: jumps_def)
qed

lemma sim_testb:
  assumes "is_testb w" and "fldn 4 0 w \<noteq> 17" and "agree {17} s t" and "placed code a (mem t)" and "pc t = a + of_nat p"
    and "relo_snippet (pc s) w = Inr sn" and "snippet_in sn p code"
  shows "simulates w s (branch_if (testb_taken w s) (push_bit 2 (sfld 18 5 w)) s) t (a + of_nat (p + snippet_size sn))"
proof -
  have o: "\<not> is_uncond w" "\<not> is_literal w" "\<not> is_pcrel w" "\<not> is_breg w" "\<not> is_cmpb w" "\<not> bit w 30"
    using assms(1) by (auto dest!: class_bits)
  then have c: "fld 31 25 w \<noteq> 0b0101010" using fld_bit [of 31 25 w "0b0101010" 30] by auto
  have sn: "sn = branch_over (branch_instr_test_b w) (pc s + push_bit 2 (sfld 18 5 w))"
    using assms(1,6) o c by (simp add: relo_snippet_def recogniser_classes decode_imm14_fields)
  have "a64_exec (branch_instr_test_b w) t = Some (branch_if (\<not> testb_taken w s) 12 t)"
    using exec_branch_instr_test_b [OF assms(1)] agree_taken(3) [OF assms(3,2)] by simp
  from sim_branch [OF assms(4,5,3) assms(7) [unfolded sn] this] not_call [OF o(1,4)] sn assms(1)
  show ?thesis by (simp add: jumps_def)
qed

lemma sim_literal:
  assumes "is_literal w" and "fld 26 26 w = 0" and "fld 31 30 w = 1" and "fldn 4 0 w \<noteq> 17"
    and "agree {17} s t" and "placed code a (mem t)" and "pc t = a + of_nat p"
    and "relo_snippet (pc s) w = Inr sn" and "snippet_in sn p code"
  shows "simulates w s (ex_literal w s) t (a + of_nat (p + snippet_size sn))"
proof -
  let ?v = "pc s + push_bit 2 (sfld 23 5 w)"
  have o: "\<not> is_uncond w" "\<not> is_breg w" using assms(1) by (auto dest!: class_bits)
  have "bits w 30 31 = 1" using assms(3) by (simp add: bits_eq fld_def eval_nat_numeral)
  then have sn: "sn = (mov_words 17 ?v @ [ldr_via17 (decode_rt w)], None)"
    using assms(1,8) o by (simp add: relo_snippet_def recogniser_classes decode_imm19_fields)
  then have ws: "words_at (mov_words 17 ?v) p code" "load_cell 4 word32_of (p + 16) code = Some (ldr_via17 (decode_rt w))"
    using assms(9) by (simp_all add: words_at_append words_at_Cons) (simp_all add: mov_words_def)
  define u where "u = t\<lparr>xreg := (xreg t)(17 := ?v), pc := pc t + 16\<rparr>"
  have "(17 :: u32) < 32" by (simp add: word_less_nat_alt)
  from run_mov [OF assms(6) ws(1) assms(7) this] have m: "a64_steps 4 t = Some u"
    by (simp add: u_def wr_x_def)
  have "a64_step u = a64_exec (ldr_via17 (decode_rt w)) u"
    by (rule step_at [of code a u "p + 16"]) (use assms(6,7) ws(2) in \<open>simp_all add: u_def\<close>)
  also have "\<dots> = Some (next_pc (wr_x (fldn 4 0 w) (read64 (mem t) ?v) u))"
    unfolding exec_ldr_via17 [OF decode_r_less(1)] by (simp add: u_def decode_rt_fields fldn_def)
  finally have st: "a64_steps 5 t = Some (next_pc (wr_x (fldn 4 0 w) (read64 (mem t) ?v) u))"
    using a64_steps_add [of 4 1 t] m by simp
  have "agree {17} s u" using agree_scratch [OF assms(5), of 17 ?v] by (simp add: u_def)
  then have "agree {17} (wr_x (fldn 4 0 w) (read64 (mem t) ?v) s) (wr_x (fldn 4 0 w) (read64 (mem t) ?v) u)"
    by (rule agree_wr)
  with st not_call [OF o] show ?thesis
    unfolding simulates_def
    by (intro exI [of _ 5] exI [of _ "next_pc (wr_x (fldn 4 0 w) (read64 (mem t) ?v) u)"])
      (simp add: ex_literal_def Let_def assms(2,3) agree_mem [OF assms(5)], simp add: sn mov_words_def u_def assms(7))
qed

lemma trunc_page_add: "arm64_trunc_page (x + push_bit 12 y) = push_bit 12 (drop_bit 12 x) + push_bit 12 y"
proof -
  let ?h = "drop_bit 12 x + y"
  have page: "arm64_trunc_page z = push_bit 12 (drop_bit 12 z)" for z
    using ALIGN_FLOOR_page [of z] by (simp add: arm64_trunc_page_def ALIGN_FLOOR_def)
  have h: "push_bit 12 ?h = push_bit 12 (drop_bit 12 x) + push_bit 12 y" by (simp add: push_bit_eq_mult distrib_right)
  have "push_bit 12 ?h AND take_bit 12 x = 0" by (rule bit_word_eqI) (auto simp: bit_simps)
  then have "push_bit 12 ?h + take_bit 12 x = push_bit 12 ?h OR take_bit 12 x" by (rule disjunctive_add_eq_or)
  moreover have "x + push_bit 12 y = push_bit 12 ?h + take_bit 12 x"
    using bits_ident [of 12 x] unfolding h by (simp add: algebra_simps)
  moreover have "push_bit 12 (drop_bit 12 (push_bit 12 ?h OR take_bit 12 x)) = push_bit 12 ?h"
    by (rule bit_word_eqI) (auto simp: bit_simps not_less)
  ultimately show ?thesis by (simp add: page h)
qed

lemma sim_pcrel:
  assumes "is_pcrel w" and "fldn 4 0 w \<noteq> 17"
    and "agree {17} s t" and "placed code a (mem t)" and "pc t = a + of_nat p"
    and "relo_snippet (pc s) w = Inr sn" and "snippet_in sn p code"
  shows "simulates w s (ex_pcrel w s) t (a + of_nat (p + snippet_size sn))"
proof -
  let ?v = "if fld 31 31 w = 0 then pc s + pcrel_imm w else push_bit 12 (drop_bit 12 (pc s)) + push_bit 12 (pcrel_imm w)"
  have o: "\<not> is_uncond w" "\<not> is_breg w" "\<not> is_literal w" using assms(1) by (auto dest!: class_bits)
  have "fld 31 31 w = 0 \<or> fld 31 31 w = 1" by (simp add: fld_one)
  then have sn: "sn = (mov_words (decode_rd w) ?v, None)"
    using assms(1,6) o
    by (auto simp: relo_snippet_def recogniser_classes decode_adr_fields decode_immhi_immlo_zero12_offset_def trunc_page_add)
  define u where "u = wr_x (fldn 4 0 w) ?v t"
  have "a64_steps 4 t = Some (u\<lparr>pc := pc t + 16\<rparr>)"
    using run_mov [OF assms(4) _ assms(5) decode_r_less(2)] assms(7) sn
    by (simp add: u_def decode_rt_fields fldn_def)
  moreover have "agree {17} (wr_x (fldn 4 0 w) ?v s) u" unfolding u_def by (rule agree_wr) (rule assms(3))
  ultimately show ?thesis
    using not_call [OF o(1,2)] unfolding simulates_def
    by (intro exI [of _ 4] exI [of _ "u\<lparr>pc := pc t + 16\<rparr>"]) (simp add: ex_pcrel_def sn mov_words_def assms(5))
qed

text \<open>Everything else is copied; no instruction of the machine outside the cases above reads the
  program counter, but for the return address of \<open>blr\<close>.\<close>

lemma pc_wr_sp [simp]: "pc (wr_sp n v s) = pc s"
  by (simp add: wr_sp_def)

definition copied_ok :: "a64 option \<Rightarrow> a64 option \<Rightarrow> a64 \<Rightarrow> a64 \<Rightarrow> bool" where
  "copied_ok r r' s t \<longleftrightarrow> (case r of None \<Rightarrow> True | Some s' \<Rightarrow>
     (case r' of None \<Rightarrow> False | Some t' \<Rightarrow> agree {17} s' t' \<and> pc s' = pc s + 4 \<and> pc t' = pc t + 4))"

lemma copied_if:
  "(c \<Longrightarrow> copied_ok x x' s t) \<Longrightarrow> (\<not> c \<Longrightarrow> copied_ok y y' s t) \<Longrightarrow>
    copied_ok (if c then x else y) (if c then x' else y') s t"
  by simp

lemma copied_ldr: "agree {17} s t \<Longrightarrow> fldn 9 5 w \<noteq> 17 \<Longrightarrow> fldn 4 0 w \<noteq> 17 \<Longrightarrow> copied_ok (ex_ldr_uimm w s) (ex_ldr_uimm w t) s t"
  using agree_rd(2) [of "{17}" s t "fldn 9 5 w"] agree_rd(1) [of "{17}" s t "fldn 4 0 w"]
  by (simp add: ex_ldr_uimm_def Let_def copied_ok_def agree_wr agree_mem agree_write)

lemma copied_addsubs: "agree {17} s t \<Longrightarrow> fldn 9 5 w \<noteq> 17 \<Longrightarrow> copied_ok (Some (ex_addsubs_imm w s)) (Some (ex_addsubs_imm w t)) s t"
  using agree_rd(2) [of "{17}" s t "fldn 9 5 w"] by (simp add: ex_addsubs_imm_def Let_def copied_ok_def agree_wr agree_write)

lemma copied_pair:
  assumes "agree {17} s t" and "fldn 9 5 w \<noteq> 17" and "fldn 4 0 w \<noteq> 17" and "fldn 14 10 w \<noteq> 17"
  shows "copied_ok (ex_pair w s) (ex_pair w t) s t"
proof -
  have r: "rd_sp s (fldn 9 5 w) = rd_sp t (fldn 9 5 w)" "rd_x s (fldn 4 0 w) = rd_x t (fldn 4 0 w)"
      "rd_x s (fldn 14 10 w) = rd_x t (fldn 14 10 w)"
    using agree_rd [OF assms(1)] assms(2-4) by simp_all
  note eqs = r agree_mem [OF assms(1)] agree_write(6) [OF assms(1)]
  show ?thesis
    unfolding ex_pair_def Let_def eqs
    by (intro copied_if) (simp_all add: copied_ok_def agree_wr agree_write assms(1))
qed

lemma copied_add: "agree {17} s t \<Longrightarrow> fldn 9 5 w \<noteq> 17 \<Longrightarrow> copied_ok (Some (ex_addsub_imm w s)) (Some (ex_addsub_imm w t)) s t"
  using agree_rd(2) [of "{17}" s t "fldn 9 5 w"] by (simp add: ex_addsub_imm_def Let_def copied_ok_def agree_wr)

lemma copied_mov: "agree {17} s t \<Longrightarrow> fldn 4 0 w \<noteq> 17 \<Longrightarrow> copied_ok (ex_movewide w s) (ex_movewide w t) s t"
  using agree_rd(1) [of "{17}" s t "fldn 4 0 w"] by (simp add: ex_movewide_def Let_def copied_ok_def agree_wr)

lemma copied_orr: "agree {17} s t \<Longrightarrow> fldn 9 5 w \<noteq> 17 \<Longrightarrow> fldn 20 16 w \<noteq> 17 \<Longrightarrow>
    copied_ok (Some (ex_orr_shifted w s)) (Some (ex_orr_shifted w t)) s t"
  using agree_rd(1) [of "{17}" s t "fldn 9 5 w"] agree_rd(1) [of "{17}" s t "fldn 20 16 w"]
  by (simp add: ex_orr_shifted_def Let_def copied_ok_def agree_wr)

lemma copied_next: "agree {17} s t \<Longrightarrow> copied_ok (Some (next_pc s)) (Some (next_pc t)) s t"
  by (simp add: copied_ok_def)

lemma exec_breg_copied:
  assumes "ex_breg w s = Some s'" and "is_breg w" and "fldn 9 5 w \<noteq> 17" and "agree {17} s t"
  shows "\<exists>t'. ex_breg w t = Some t' \<and> agree (clobbers w) s' t' \<and> pc t' = pc s'
    \<and> (is_call w \<longrightarrow> xreg s' 30 = pc s + 4 \<and> xreg t' 30 = pc t + 4)"
proof -
  have r: "rd_x s (fldn 9 5 w) = rd_x t (fldn 9 5 w)" using assms(3) agree_rd(1) [OF assms(4)] by simp
  have u: "\<not> is_uncond w" using assms(2) by (auto dest!: class_bits)
  show ?thesis
  proof (cases "fld 22 21 w = 1")
    case True
    then have "clobbers w = {17, 30}" using assms(2) by (simp add: clobbers_def is_call_def)
    moreover have "agree {17, 30} (wr_x 30 (pc s + 4) s) (wr_x 30 (pc t + 4) t)"
      using agree_wr_other [OF assms(4), of 30] by (simp add: insert_commute)
    ultimately show ?thesis using assms(1) True r by (auto simp: ex_breg_def Let_def) (simp_all add: jump_def wr_x_def)
  next
    case False
    with u have "\<not> is_call w" "clobbers w = {17}" by (simp_all add: is_call_def clobbers_def)
    with assms(1,4) r False show ?thesis by (auto simp: ex_breg_def Let_def split: if_splits)
  qed
qed

lemma exec_copied:
  assumes "a64_exec w s = Some s'" and "\<not> names17 w"
    and "\<not> is_uncond w" "\<not> is_bcond w" "\<not> is_cmpb w" "\<not> is_testb w" "\<not> is_literal w" "\<not> is_pcrel w"
    and "agree {17} s t"
  shows "\<exists>t'. a64_exec w t = Some t' \<and> agree (clobbers w) s' t'
    \<and> (jumps w \<and> pc t' = pc s' \<or> pc s' = pc s + 4 \<and> pc t' = pc t + 4)
    \<and> (is_call w \<longrightarrow> xreg s' 30 = pc s + 4 \<and> xreg t' 30 = pc t + 4)"
proof (cases "is_breg w")
  case True
  have e: "a64_exec w u = ex_breg w u" for u using True assms(3-6) by (simp add: a64_exec_def)
  have "fldn 9 5 w \<noteq> 17" using assms(2,3,4) True by (simp add: names17_def)
  from exec_breg_copied [OF assms(1) [unfolded e] True this assms(9)] True show ?thesis unfolding e jumps_def by blast
next
  case False
  then have c: "\<not> is_call w" "clobbers w = {17}" using assms(3) by (simp_all add: is_call_def clobbers_def)
  note no17 = assms(2) [unfolded names17_def]
  have "copied_ok (a64_exec w s) (a64_exec w t) s t"
    unfolding a64_exec_def
    by (intro copied_if)
      (use assms(3-8) False no17 in \<open>simp_all add: copied_ldr copied_add copied_mov copied_orr copied_addsubs copied_pair copied_next assms(9)\<close>,
        simp add: copied_ok_def)
  then obtain t' where "a64_exec w t = Some t'" "agree {17} s' t'" "pc s' = pc s + 4" "pc t' = pc t + 4"
    unfolding copied_ok_def assms(1) by (auto split: option.splits)
  with c show ?thesis by auto
qed


section \<open>Relocated code\<close>

lemma sim_instruction:
  assumes "a64_exec w s = Some s'" and "relocatable w" and "agree {17} s t" and "placed code a (mem t)"
    and "pc t = a + of_nat p" and "relo_snippet (pc s) w = Inr sn" and "snippet_in sn p code"
  shows "simulates w s s' t (a + of_nat (p + snippet_size sn))"
proof -
  note r = assms(2) [unfolded relocatable_def names17_def]
  consider "is_uncond w" | "is_literal w" | "is_pcrel w" | "is_bcond w" | "is_cmpb w" | "is_testb w"
    | "\<not> is_uncond w" "\<not> is_literal w" "\<not> is_pcrel w" "\<not> is_bcond w" "\<not> is_cmpb w" "\<not> is_testb w"
    by blast
  then show ?thesis
  proof cases
    case 1
    then show ?thesis using sim_uncond [OF 1 assms(3-7)] assms(1) by (simp add: exec_classes)
  next
    case 2
    moreover have "\<not> is_uncond w" "\<not> is_bcond w" using 2 by (auto dest!: class_bits)
    ultimately show ?thesis using sim_literal [OF 2 _ _ _ assms(3-7)] assms(1) r by (simp add: exec_classes)
  next
    case 3
    moreover have "\<not> is_uncond w" "\<not> is_bcond w" using 3 by (auto dest!: class_bits)
    ultimately show ?thesis using sim_pcrel [OF 3 _ assms(3-7)] assms(1) r by (simp add: exec_classes)
  next
    case 4
    then show ?thesis using sim_bcond [OF 4 _ assms(3-7)] assms(1) r by (simp add: exec_classes)
  next
    case 5
    moreover have "\<not> is_uncond w" "\<not> is_bcond w" using 5 by (auto dest!: class_bits)
    ultimately show ?thesis using sim_cmpb [OF 5 _ assms(3-7)] assms(1) r by (simp add: exec_cmpb)
  next
    case 6
    moreover have "\<not> is_uncond w" "\<not> is_bcond w" using 6 by (auto dest!: class_bits)
    ultimately show ?thesis using sim_testb [OF 6 _ assms(3-7)] assms(1) r by (simp add: exec_testb)
  next
    case 7
    have n: "\<not> names17 w" using assms(2) by (simp add: relocatable_def)
    obtain t' where t': "a64_exec w t = Some t'" "agree (clobbers w) s' t'"
        "jumps w \<and> pc t' = pc s' \<or> pc s' = pc s + 4 \<and> pc t' = pc t + 4"
        "is_call w \<longrightarrow> xreg s' 30 = pc s + 4 \<and> xreg t' 30 = pc t + 4"
      using exec_copied [OF assms(1) n 7(1,4,5,6,2,3) assms(3)] by blast
    have "fld 31 25 w \<noteq> 0b0101010"
    proof
      assume c: "fld 31 25 w = 0b0101010"
      then have b: "\<not> bit w 31 \<and> bit w 30 \<and> \<not> bit w 29 \<and> bit w 28 \<and> \<not> bit w 27 \<and> bit w 26 \<and> \<not> bit w 25"
        by (auto simp: fld_bit)
      then have "\<not> is_breg w" "\<not> is_ldst_uimm w" "\<not> is_addsub_imm w" "\<not> is_movewide w" "\<not> is_orr_shifted w"
        "\<not> is_addsubs_imm w" "\<not> is_pair w"
        by (auto dest!: class_bits)
      moreover have "fld 31 25 (0xD503201F) \<noteq> 0b0101010" by (simp add: fld_def)
      then have "w \<noteq> 0xD503201F" using c by metis
      ultimately show False using assms(1) 7 by (simp add: a64_exec_def)
    qed
    then have sn: "sn = ([w], None)"
      using assms(6) 7 by (simp add: relo_snippet_def recogniser_classes)
    then have "load_cell 4 word32_of p code = Some w" using assms(7) by (simp add: words_at_Cons)
    then have "a64_step t = Some t'" using step_at [OF assms(4) _ assms(5)] t'(1) by simp
    with t' assms(5) show ?thesis
      unfolding simulates_def by (intro exI [of _ 1] exI [of _ t']) (simp add: sn add.assoc)
  qed
qed

text \<open>\<open>r\<close> is where relocated code goes on after the instruction at \<open>j\<close>: the next snippet, or,
  after the last one, code that goes back to the instruction after the overwritten ones.\<close>

definition resumes :: "relo_ctx \<Rightarrow> code_buffer \<Rightarrow> u64 \<Rightarrow> u64 \<Rightarrow> nat \<Rightarrow> u64 \<Rightarrow> bool" where
  "resumes ctx code base src j r \<longleftrightarrow>
     (case rc_offset_map ctx (j + 4) of
        Some off \<Rightarrow> r = base + of_nat off
      | None \<Rightarrow> \<forall>u. placed code base (mem u) \<and> pc u = r \<longrightarrow>
          (\<exists>n u'. a64_steps n u = Some u' \<and> agree {17} u u' \<and> pc u' = src + of_nat (j + 4)))"

lemma resumes_next:
  assumes "mapped_ok ctx body Q" and "snippet_in (tail_snippet (src + of_nat (rc_cursor ctx))) body code"
    and "rc_offset_map ctx j = Some off"
  shows "resumes ctx code base src j (base + of_nat (next_off ctx body j))"
proof (cases "rc_offset_map ctx (j + 4)")
  case (Some off')
  then show ?thesis by (simp add: resumes_def next_off_def)
next
  case None
  have dm: "dom (rc_offset_map ctx) = {j. 4 dvd j \<and> j < rc_cursor ctx}" "4 dvd rc_cursor ctx"
    using assms(1) by (simp_all add: mapped_ok_def)
  have "j \<in> dom (rc_offset_map ctx)" "j + 4 \<notin> dom (rc_offset_map ctx)" using assms(3) None by auto
  then have "4 dvd j" "j < rc_cursor ctx" "\<not> j + 4 < rc_cursor ctx" unfolding dm(1) by simp_all
  with dm(2) have c: "rc_cursor ctx = j + 4" by (auto elim!: dvdE)
  have tail: "snippet_in ([], Some (src + of_nat (j + 4), [0xD61F0220])) body code"
    using assms(2) unfolding tail_snippet_def c .
  have "\<exists>n u'. a64_steps n u = Some u' \<and> agree {17} u u' \<and> pc u' = src + of_nat (j + 4)"
    if "placed code base (mem u)" "pc u = base + of_nat body" for u
  proof -
    have "agree {17} u (u\<lparr>xreg := (xreg u)(17 := src + of_nat (j + 4))\<rparr>)" by (simp add: agree_def)
    then show ?thesis
      using run_far_branch [OF that tail] by (intro exI [of _ 2]) (simp add: Let_def)
  qed
  with None show ?thesis by (simp add: resumes_def next_off_def)
qed

lemma relocated_step_lemma:
  assumes "relo_generate ctx origin True = Inr (ctx1, origin1, a)" and "fresh_ctx ctx"
    and "rc_buffer_size ctx < 2 ^ 15" and "rc_src_vmaddr ctx = mb_addr origin"
    and "rc_offset_map ctx1 j = Some off" and "load_cell 4 word32_of j (rc_buffer ctx) = Some w" and "relocatable w"
    and "a64_exec w s = Some s'" and "pc s = mb_addr origin + of_nat j"
    and "agree {17} s t" and "placed (asm_buffer a) base (mem t)" and "pc t = base + of_nat off"
  shows "\<exists>n t'. a64_steps n t = Some t' \<and> agree (clobbers w) s' t'
    \<and> (jumps w \<and> pc t' = pc s'
       \<or> pc s' = pc s + 4 \<and> resumes ctx1 (asm_buffer a) base (mb_addr origin) j (pc t'))
    \<and> (is_call w \<longrightarrow> xreg s' 30 = pc s + 4 \<and> resumes ctx1 (asm_buffer a) base (mb_addr origin) j (xreg t' 30))"
proof -
  obtain body where ok: "mapped_ok ctx1 body (\<lambda>off sn. snippet_in sn off (asm_buffer a))"
    and tail: "snippet_in (tail_snippet (mb_addr origin + of_nat (rc_cursor ctx1))) body (asm_buffer a)"
    and keep: "rc_buffer ctx1 = rc_buffer ctx" "rc_src_vmaddr ctx1 = rc_src_vmaddr ctx"
    using generated_layout [OF assms(1-3)] by blast
  obtain sn where sn: "relo_snippet (pc s) w = Inr sn" "snippet_in sn off (asm_buffer a)" "off + snippet_size sn = next_off ctx1 body j"
    using mapped_okD [OF ok assms(5)] assms(4,6,9) keep by auto
  from sim_instruction [OF assms(8,7,10-12) sn(1,2), unfolded sn(3)] obtain n t' where
    "a64_steps n t = Some t'" "agree (clobbers w) s' t'"
    "jumps w \<and> pc t' = pc s' \<or> pc s' = pc s + 4 \<and> pc t' = base + of_nat (next_off ctx1 body j)"
    "is_call w \<longrightarrow> xreg s' 30 = pc s + 4 \<and> xreg t' 30 = base + of_nat (next_off ctx1 body j)"
    unfolding simulates_def by blast
  with resumes_next [OF ok tail assms(5), of base] show ?thesis
    by (intro exI [of _ n] exI [of _ t']) auto
qed

text \<open>C8: one step of an instruction of the overwritten prologue is matched by the relocated code at the
  mapped offset: the states agree but for x17 (and the return address of a call), and control is at
  the same target, or both go on with the next instruction.\<close>

theorem relocated_step:
  assumes "relo_generate ctx origin True = Inr (ctx1, origin1, a)" and "fresh_ctx ctx"
    and "rc_buffer_size ctx < 2 ^ 15" and "rc_src_vmaddr ctx = mb_addr origin"
    and "rc_offset_map ctx1 j = Some off" and "load_cell 4 word32_of j (rc_buffer ctx) = Some w" and "relocatable w"
    and "a64_exec w s = Some s'" and "pc s = mb_addr origin + of_nat j"
    and "agree {17} s t" and "placed (asm_buffer a) base (mem t)" and "pc t = base + of_nat off"
  shows "\<exists>n t'. a64_steps n t = Some t' \<and> agree (clobbers w) s' t'
    \<and> (jumps w \<and> pc t' = pc s'
       \<or> pc s' = pc s + 4 \<and> resumes ctx1 (asm_buffer a) base (mb_addr origin) j (pc t'))
    \<and> (is_call w \<longrightarrow> xreg s' 30 = pc s + 4 \<and> resumes ctx1 (asm_buffer a) base (mb_addr origin) j (xreg t' 30))"
  using assms by (rule relocated_step_lemma)

section \<open>The whole prologue\<close>

lemma agree_trans: "agree X s t \<Longrightarrow> agree X t u \<Longrightarrow> agree X s u"
  by (auto simp: agree_def)

text \<open>The position after \<open>i\<close> instructions, and the induction over them.\<close>

lemma relocated_prefix:
  assumes gen: "relo_generate ctx origin True = Inr (ctx1, origin1, a)" and "fresh_ctx ctx"
    and "rc_buffer_size ctx = 4 * n" and "4 * n < 2 ^ 15" and "rc_src_vmaddr ctx = mb_addr origin"
    and run: "\<And>i. i < n \<Longrightarrow> load_cell 4 word32_of (4 * i) (rc_buffer ctx) = Some (w i) \<and> relocatable (w i)
      \<and> \<not> jumps (w i) \<and> a64_exec (w i) (f i) = Some (f (Suc i)) \<and> pc (f i) = mb_addr origin + of_nat (4 * i)"
    and "agree {17} (f 0) t" and "\<And>i. i \<le> n \<Longrightarrow> placed (asm_buffer a) base (mem (f i))" and "pc t = base"
    and "i < n"
  shows "\<exists>m u off. a64_steps m t = Some u \<and> agree {17} (f i) u
    \<and> rc_offset_map ctx1 (4 * i) = Some off \<and> pc u = base + of_nat off"
  using \<open>i < n\<close>
proof (induction i)
  case 0
  obtain body where "0 < rc_cursor ctx1 \<longrightarrow> rc_offset_map ctx1 0 = Some 0" "rc_buffer_size ctx \<le> rc_cursor ctx1"
    using generated_layout [OF assms(1,2)] assms(3,4) by auto
  with 0 assms(3,7,9) show ?case by (intro exI [of _ 0] exI [of _ t] exI [of _ 0]) simp
next
  case (Suc i)
  then have i: "i < n" by simp
  from Suc obtain m u off where u: "a64_steps m t = Some u" "agree {17} (f i) u"
      "rc_offset_map ctx1 (4 * i) = Some off" "pc u = base + of_nat off" by auto
  note r = run [OF i]
  have sz: "rc_buffer_size ctx < 2 ^ 15" using assms(3,4) by simp
  have pl: "placed (asm_buffer a) base (mem u)" using assms(8) [of i] i agree_mem [OF u(2)] by simp
  obtain k v where v: "a64_steps k u = Some v" "agree (clobbers (w i)) (f (Suc i)) v"
      "resumes ctx1 (asm_buffer a) base (mb_addr origin) (4 * i) (pc v)"
    using relocated_step_lemma [OF assms(1,2) sz assms(5) u(3) _ _ _ _ u(2) pl u(4)] r by blast
  have "4 * Suc i \<in> dom (rc_offset_map ctx1)"
    using generated_layout [OF assms(1,2) sz] assms(3) Suc.prems by (auto simp: mapped_ok_def)
  then obtain off' where off': "rc_offset_map ctx1 (4 * i + 4) = Some off'" by (auto simp: add.commute)
  have "clobbers (w i) = {17}" using r by (intro conjunct2 [OF not_call]) (auto simp: jumps_def)
  moreover have "a64_steps (m + k) t = Some v" using u(1) v(1) by (simp add: a64_steps_add)
  ultimately have "a64_steps (m + k) t = Some v \<and> agree {17} (f (Suc i)) v
      \<and> rc_offset_map ctx1 (4 * Suc i) = Some off' \<and> pc v = base + of_nat off'"
    using v off' by (simp add: resumes_def add.commute)
  then show ?case by blast
qed

lemma relocated_prologue_lemma:
  assumes "relo_generate ctx origin True = Inr (ctx1, origin1, a)" and "fresh_ctx ctx"
    and "rc_buffer_size ctx = 4 * n" and "0 < n" and "4 * n < 2 ^ 15" and "rc_src_vmaddr ctx = mb_addr origin"
    and "\<And>i. i < n \<Longrightarrow> load_cell 4 word32_of (4 * i) (rc_buffer ctx) = Some (w i) \<and> relocatable (w i)
      \<and> \<not> jumps (w i) \<and> a64_exec (w i) (f i) = Some (f (Suc i)) \<and> pc (f i) = mb_addr origin + of_nat (4 * i)"
    and "agree {17} (f 0) t" and "\<And>i. i \<le> n \<Longrightarrow> placed (asm_buffer a) base (mem (f i))" and "pc t = base"
  shows "\<exists>m u. a64_steps m t = Some u \<and> agree {17} (f n) u \<and> pc u = mb_addr origin + of_nat (4 * n)"
proof -
  obtain i where n: "n = Suc i" using assms(4) by (cases n) auto
  then have i: "i < n" by simp
  obtain m u off where u: "a64_steps m t = Some u" "agree {17} (f i) u"
      "rc_offset_map ctx1 (4 * i) = Some off" "pc u = base + of_nat off"
    using relocated_prefix [OF assms(1-3,5,6) assms(7) assms(8-10) i] by blast
  note r = assms(7) [OF i]
  have sz: "rc_buffer_size ctx < 2 ^ 15" using assms(3,5) by simp
  have pl: "placed (asm_buffer a) base (mem u)" using assms(9) [of i] i agree_mem [OF u(2)] by simp
  obtain k v where v: "a64_steps k u = Some v" "agree (clobbers (w i)) (f (Suc i)) v"
      "resumes ctx1 (asm_buffer a) base (mb_addr origin) (4 * i) (pc v)"
    using relocated_step_lemma [OF assms(1,2) sz assms(6) u(3) _ _ _ _ u(2) pl u(4)] r by blast
  have c: "clobbers (w i) = {17}" using r by (intro conjunct2 [OF not_call]) (auto simp: jumps_def)
  have pv: "placed (asm_buffer a) base (mem v)" using assms(9) [of n] agree_mem [OF v(2)] n by simp
  obtain body where l: "mapped_ok ctx1 body (\<lambda>off sn. snippet_in sn off (asm_buffer a))"
      "rc_buffer_size ctx \<le> rc_cursor ctx1" "rc_cursor ctx1 < rc_buffer_size ctx + 4"
    using generated_layout [OF assms(1,2) sz] by blast
  then have "rc_cursor ctx1 = 4 * n" using assms(3) by (auto simp: mapped_ok_def elim!: dvdE)
  then have "4 * i + 4 \<notin> dom (rc_offset_map ctx1)" using l(1) n by (simp add: mapped_ok_def)
  then have "rc_offset_map ctx1 (4 * i + 4) = None" by blast
  with v(3) pv obtain h u' where "a64_steps h v = Some u'" "agree {17} v u'" "pc u' = mb_addr origin + of_nat (4 * i + 4)"
    by (auto simp: resumes_def)
  moreover from this u v have "a64_steps (m + (k + h)) t = Some u'" by (simp add: a64_steps_add)
  moreover have "agree {17} (f n) u'" using agree_trans v(2) c calculation(2) n by metis
  ultimately show ?thesis using n by (intro exI [of _ "m + (k + h)"] exI [of _ u']) (simp add: add.commute)
qed

text \<open>C9: when every overwritten instruction is relocatable, none branches and none writes over the relocated
  code, running that code from its beginning has the effect of the whole prologue, and goes on after
  the overwritten region.\<close>

theorem relocated_prologue:
  assumes "relo_generate ctx origin True = Inr (ctx1, origin1, a)" and "fresh_ctx ctx"
    and "rc_buffer_size ctx = 4 * n" and "0 < n" and "4 * n < 2 ^ 15" and "rc_src_vmaddr ctx = mb_addr origin"
    and "\<And>i. i < n \<Longrightarrow> load_cell 4 word32_of (4 * i) (rc_buffer ctx) = Some (w i) \<and> relocatable (w i)
      \<and> \<not> jumps (w i) \<and> a64_exec (w i) (f i) = Some (f (Suc i)) \<and> pc (f i) = mb_addr origin + of_nat (4 * i)"
    and "agree {17} (f 0) t" and "\<And>i. i \<le> n \<Longrightarrow> placed (asm_buffer a) base (mem (f i))" and "pc t = base"
  shows "\<exists>m u. a64_steps m t = Some u \<and> agree {17} (f n) u \<and> pc u = mb_addr origin + of_nat (4 * n)"
  using assms by (rule relocated_prologue_lemma)

section \<open>Relocation always returns\<close>

lemma relo_snippet_total: "\<exists>sn. relo_snippet cur w = Inr sn"
  by (simp add: relo_snippet_def)

lemma relo_loop_total:
  assumes "4 dvd rc_cursor ctx" and "rc_buffer_size ctx = 4 * n" and "4 * n \<le> length (rc_buffer ctx)"
  shows "\<exists>ctx1 a1. relo_loop ctx a = Inr (ctx1, a1)"
  using assms
proof (induction "4 * n - rc_cursor ctx" arbitrary: ctx a rule: less_induct)
  case less
  show ?case
  proof (cases "rc_cursor ctx < 4 * n")
    case False
    with less.prems show ?thesis by (subst relo_loop_step) auto
  next
    case True
    obtain c where c: "rc_cursor ctx = 4 * c" using less.prems(1) by (auto elim: dvdE)
    obtain v where ld: "load_cell 4 word32_of (rc_cursor ctx) (rc_buffer ctx) = Some v"
      using less.prems True c by (simp add: load_cell_def)
    obtain sn where sn: "relo_snippet (relo_cur_src_vmaddr ctx) v = Inr sn" using relo_snippet_total by blast
    let ?ctx = "ctx\<lparr>rc_offset_map := (rc_offset_map ctx)(rc_cursor ctx \<mapsto> length (asm_buffer a)), rc_cursor := rc_cursor ctx + 4\<rparr>"
    have "relo_loop ctx a = relo_loop ?ctx (emit_snippet sn a)"
      using True less.prems(2) by (subst relo_loop_step) (simp add: ld sn)
    moreover have "\<exists>ctx1 a1. relo_loop ?ctx (emit_snippet sn a) = Inr (ctx1, a1)"
      by (rule less.hyps) (use less.prems True in auto)
    ultimately show ?thesis by simp
  qed
qed

lemma relocation_returns:
  assumes "fresh_ctx ctx" and "rc_buffer_size ctx = 4 * n" and "4 * n \<le> length (rc_buffer ctx)"
  shows "\<exists>ctx1 origin1 a. relo_generate ctx origin True = Inr (ctx1, origin1, a)"
proof -
  obtain ctx1 a1 where l: "relo_loop ctx (new_assembler 0) = Inr (ctx1, a1)"
    using relo_loop_total [OF _ assms(2,3), of "new_assembler 0"] assms(1) unfolding fresh_ctx_def by auto
  let ?tail = "tail_snippet (mb_addr origin + of_nat (rc_cursor ctx1))"
  obtain P L where "relo_inv ctx1 P L a1" using relo_loop_inv [OF relo_inv_fresh [OF assms(1)] l] by blast
  then have "laid P L a1" by (simp add: relo_inv_def)
  then obtain L' where "laid (insert (length (asm_buffer a1), ?tail) P) L' (emit_snippet ?tail a1)"
    using laid_emit by blast
  then have "linked L' (emit_snippet ?tail a1)" by (simp add: laid_def)
  from RelocBind_linked [OF this] show ?thesis
    by (auto simp: relo_generate_def l LiteralLdrBranch_snippet MemBlock_reset_def Let_def)
qed

text \<open>The literal loads the routine does not know: LDRSW, PRFM and the 128-bit load.\<close>

definition unsupported :: "u32 \<Rightarrow> bool" where
  "unsupported w \<longleftrightarrow> is_literal w \<and> bit w 31"

lemma opc_known_iff: "bits w 30 31 = 0 \<or> bits w 30 31 = 1 \<longleftrightarrow> \<not> bit w 31"
proof -
  have b: "bit (bits w 30 31) k \<longleftrightarrow> k = 0 \<and> bit w 30 \<or> k = 1 \<and> bit w 31" for k
    by (cases "k = 0"; cases "k = 1") (auto simp: bits_eq bit_take_bit_iff bit_drop_bit_eq)
  show ?thesis
  proof
    assume "bits w 30 31 = 0 \<or> bits w 30 31 = 1"
    then show "\<not> bit w 31" using b [of 1] by (auto simp: bit_1_iff)
  next
    assume n: "\<not> bit w 31"
    have "bits w 30 31 = of_bool (bit w 30)" by (rule bit_word_eqI) (use b n in \<open>auto simp: bit_1_iff\<close>)
    then show "bits w 30 31 = 0 \<or> bits w 30 31 = 1" by simp
  qed
qed

lemma literal_snippet:
  assumes "is_literal w"
  shows "relo_snippet cur w = Inr (mov_words 17 (cur + decode_imm19_offset w)
    @ (if unsupported w then [] else [ldr_via17 (decode_rt w)]), None)"
proof -
  have "\<not> is_uncond w" using assms by (auto dest!: class_bits)
  then show ?thesis using assms by (simp add: relo_snippet_def recogniser_classes unsupported_def opc_known_iff)
qed

text \<open>C12: relocation of fewer than \<open>2 ^ 13\<close> whole instructions that can be read always returns code, whatever the words
  are: all of them are consumed and each has an offset in the map. The literal loads the routine does
  not know do not stop it: at their offset stands the address in x17 and nothing else, followed at
  once by the next instruction, so that the load itself is lost.\<close>

theorem relocation_total:
  assumes "fresh_ctx ctx" and "rc_buffer_size ctx = 4 * n" and "4 * n \<le> length (rc_buffer ctx)" and "4 * n < 2 ^ 15"
  shows "\<exists>ctx1 origin1 a. relo_generate ctx origin True = Inr (ctx1, origin1, a) \<and> rc_cursor ctx1 = 4 * n
    \<and> (\<forall>i < n. let w = word32_of (take 4 (drop (4 * i) (rc_buffer ctx)));
                   address = mov_words 17 (rc_src_vmaddr ctx + of_nat (4 * i) + decode_imm19_offset w)
               in \<exists>off. rc_offset_map ctx1 (4 * i) = Some off
                    \<and> (unsupported w \<longrightarrow> words_at address off (asm_buffer a)
                         \<and> (Suc i < n \<longrightarrow> rc_offset_map ctx1 (4 * i + 4) = Some (off + 4 * length address))))"
proof -
  obtain ctx1 origin1 a where gen: "relo_generate ctx origin True = Inr (ctx1, origin1, a)"
    using relocation_returns [OF assms(1-3)] by blast
  have "rc_buffer_size ctx < 2 ^ 15" using assms(2,4) by simp
  from generated_layout [OF gen assms(1) this] obtain body where
      ok: "mapped_ok ctx1 body (\<lambda>off sn. snippet_in sn off (asm_buffer a))"
    and keep: "rc_buffer ctx1 = rc_buffer ctx" "rc_src_vmaddr ctx1 = rc_src_vmaddr ctx"
    and c: "rc_buffer_size ctx \<le> rc_cursor ctx1" "rc_cursor ctx1 < rc_buffer_size ctx + 4" by blast
  have cur: "rc_cursor ctx1 = 4 * n" using c assms(2) ok by (auto simp: mapped_ok_def elim!: dvdE)
  then have dm: "dom (rc_offset_map ctx1) = {j. 4 dvd j \<and> j < 4 * n}" using ok by (simp add: mapped_ok_def)
  have "let w = word32_of (take 4 (drop (4 * i) (rc_buffer ctx)));
            address = mov_words 17 (rc_src_vmaddr ctx + of_nat (4 * i) + decode_imm19_offset w)
        in \<exists>off. rc_offset_map ctx1 (4 * i) = Some off
             \<and> (unsupported w \<longrightarrow> words_at address off (asm_buffer a)
                  \<and> (Suc i < n \<longrightarrow> rc_offset_map ctx1 (4 * i + 4) = Some (off + 4 * length address)))"
    if "i < n" for i
  proof -
    let ?w = "word32_of (take 4 (drop (4 * i) (rc_buffer ctx)))"
    have "4 * i \<in> dom (rc_offset_map ctx1)" unfolding dm using that by simp
    then obtain off where off: "rc_offset_map ctx1 (4 * i) = Some off" by blast
    obtain v sn where sn: "load_cell 4 word32_of (4 * i) (rc_buffer ctx) = Some v"
        "relo_snippet (rc_src_vmaddr ctx + of_nat (4 * i)) v = Inr sn" "snippet_in sn off (asm_buffer a)"
        "off + snippet_size sn = next_off ctx1 body (4 * i)"
      using mapped_okD [OF ok off] unfolding keep by blast
    have v: "v = ?w" using sn(1) by (simp add: load_cell_def split: if_splits)
    have nxt: "\<exists>off'. rc_offset_map ctx1 (4 * i + 4) = Some off'" if "Suc i < n"
    proof -
      have "4 * i + 4 \<in> dom (rc_offset_map ctx1)" unfolding dm using that by simp
      then show ?thesis by blast
    qed
    show ?thesis
      using off sn(2-4) literal_snippet [of ?w] nxt
      by (auto simp: v Let_def unsupported_def next_off_def intro!: exI [of _ off] split: option.splits)
  qed
  with gen cur show ?thesis by blast
qed

text \<open>Instructions the machine has no step for (stores, pairs, vector code) are covered by the layout:
  what is not recognised stands unchanged at its mapped offset.\<close>

definition recognised :: "u32 \<Rightarrow> bool" where
  "recognised w \<longleftrightarrow> inst_is_b_bl w \<or> inst_is_ldr_literal w \<or> inst_is_adr w \<or> inst_is_adrp w \<or> inst_is_b_cond w
     \<or> inst_is_compare_b w \<or> inst_is_test_b w"

text \<open>C19: an instruction that is none of the seven kinds is copied: its word stands at the offset the map
  gives for it, unchanged by the binding of the labels.\<close>

theorem relocated_verbatim:
  assumes "relo_generate ctx origin True = Inr (ctx1, origin1, a)" and "fresh_ctx ctx" and "rc_buffer_size ctx < 2 ^ 15"
    and "rc_offset_map ctx1 j = Some off" and "load_cell 4 word32_of j (rc_buffer ctx) = Some w" and "\<not> recognised w"
  shows "load_cell 4 word32_of off (asm_buffer a) = Some w"
proof -
  obtain body where "mapped_ok ctx1 body (\<lambda>off sn. snippet_in sn off (asm_buffer a))" "rc_buffer ctx1 = rc_buffer ctx"
    using generated_layout [OF assms(1-3)] by blast
  then obtain sn where "relo_snippet (rc_src_vmaddr ctx1 + of_nat j) w = Inr sn" "snippet_in sn off (asm_buffer a)"
    using mapped_okD assms(4,5) by fastforce
  then show ?thesis using assms(6) by (auto simp: relo_snippet_def recognised_def words_at_Cons)
qed

section \<open>Instructions that are translated wrongly\<close>

text \<open>C40: \<open>b.al\<close>, which always branches, becomes code that never does: the inverted condition is the
  other always-condition, and jumps over the branch.\<close>

theorem always_branch_lost:
  assumes "is_bcond w" and "fld 3 0 w = 14"
  shows "a64_exec w s = Some (jump (pc s + decode_imm19_offset w) s)
    \<and> a64_exec (branch_instr_b_cond w) s = Some (jump (pc s + 12) s)"
proof -
  have f: "fld hi lo (branch_instr_b_cond w) = fld hi lo w" if "lo = 4 \<and> hi = 4 \<or> 24 \<le> lo" for hi lo
    using that by (intro fld_cong) (auto simp: bit_branch_instr_b_cond)
  have al: "cond_holds 14 s" "cond_holds 15 s" by (simp_all add: cond_holds_def cond_base_def)
  have b14: "bit (14 :: u32) k \<longleftrightarrow> k = 1 \<or> k = 2 \<or> k = 3" for k
  proof -
    have m: "(14 :: u32) = push_bit 1 (mask 3)" by (simp add: mask_numeral)
    show ?thesis unfolding m bit_push_bit_iff bit_mask_iff by auto
  qed
  have b15: "bit (15 :: u32) k \<longleftrightarrow> k < 4" for k
  proof -
    have m: "(15 :: u32) = mask 4" by (simp add: mask_numeral)
    show ?thesis unfolding m by (auto simp: bit_mask_iff)
  qed
  have "fld 3 0 (branch_instr_b_cond w) = 15"
  proof (rule bit_word_eqI)
    fix k
    assume "k < LENGTH(32)"
    have "bit (fld 3 0 w) k \<longleftrightarrow> k = 1 \<or> k = 2 \<or> k = 3" unfolding assms(2) by (rule b14)
    then show "bit (fld 3 0 (branch_instr_b_cond w)) k \<longleftrightarrow> bit (15 :: u32) k"
      unfolding b15 by (cases "k = 0") (auto simp: bit_fld bit_branch_instr_b_cond)
  qed
  moreover have "push_bit 2 (sfld 23 5 (branch_instr_b_cond w)) = 12"
    by (rule sfld_three) (auto simp: bit_branch_instr_b_cond)
  moreover have "is_bcond (branch_instr_b_cond w)" using assms(1) by (simp add: is_bcond_def f)
  ultimately show ?thesis
    using assms al by (simp add: exec_classes ex_bcond_def branch_if_def decode_imm19_fields)
qed

text \<open>The code made for a literal load does not depend on the kind of load: of two supported literal
  loads with the same register number and distance, the one of a W register and the one of a vector
  register become the same 64-bit load of a general register as the one of an X register.\<close>

theorem literal_kind_lost:
  assumes "is_literal w" and "is_literal v" and "\<not> unsupported w" and "\<not> unsupported v"
    and "fld 23 0 w = fld 23 0 v"
  shows "relo_inst cur w a = relo_inst cur v a"
proof -
  have bit: "bit w k \<longleftrightarrow> bit v k" if "k < 24" for k
    using arg_cong [OF assms(5), of "\<lambda>x. bit x k"] that by (simp add: bit_fld)
  have "decode_imm19_offset w = decode_imm19_offset v"
    by (rule bit_word_eqI) (auto simp: bit_decode_imm19 bit)
  moreover have "decode_rt w = decode_rt v"
    unfolding decode_rt_fields by (rule fld_cong) (simp add: bit)
  moreover have "relo_snippet cur x = Inr (mov_words 17 (cur + decode_imm19_offset x) @ [ldr_via17 (decode_rt x)], None)"
    if "is_literal x" "\<not> unsupported x" for x
    using literal_snippet [OF that(1)] that(2) by simp
  ultimately show ?thesis using assms by (simp add: relo_inst_snippet)
qed

section \<open>The code in memory\<close>

lemma placed_mem_write: "length bs \<le> 2 ^ 64 \<Longrightarrow> placed bs a (mem_write a bs m)"
  by (auto simp: placed_def mem_write_def unat_of_nat)

definition keeps_memory :: "'o kernel \<Rightarrow> bool" where
  "keeps_memory K \<longleftrightarrow> (\<forall>a n p w. w_mem (snd (k_mprotect K a n p w)) = w_mem w)"

lemma DobbyCodePatch_mem:
  "keeps_memory K \<Longrightarrow> w_mem (DobbyCodePatch K a bs w) = mem_write a bs (w_mem w)"
  by (simp add: DobbyCodePatch_def Let_def keeps_memory_def)

text \<open>C20: \<open>GenRelocateCodeAndBranch\<close> leaves the generated code in memory at the block it reports, with its
  exact size, and reports as origin the bytes it really consumed, a multiple of the instruction size.\<close>

theorem relocated_code_placed:
  assumes "GenRelocateCodeAndBranch K buffer origin relocated al w = Inr (origin1, r, al1, w1)"
    and "keeps_memory K" and "unat (mb_size origin) < 2 ^ 15"
  shows "\<exists>ctx1 a. relo_generate \<lparr>rc_buffer = buffer, rc_cursor = 0, rc_buffer_size = unat (mb_size origin),
        rc_src_vmaddr = mb_addr origin, rc_dst_vmaddr = mb_addr relocated, rc_offset_map = Map.empty\<rparr> origin True
      = Inr (ctx1, origin1, a)
    \<and> placed (asm_buffer a) (mb_addr r) (w_mem w1) \<and> mb_size r = of_nat (length (asm_buffer a))
    \<and> mb_addr origin1 = mb_addr origin \<and> mb_size origin1 mod 4 = 0 \<and> mb_size origin \<le> mb_size origin1"
proof -
  let ?ctx = "\<lparr>rc_buffer = buffer, rc_cursor = 0, rc_buffer_size = unat (mb_size origin),
        rc_src_vmaddr = mb_addr origin, rc_dst_vmaddr = mb_addr relocated, rc_offset_map = Map.empty\<rparr>"
  have f: "fresh_ctx ?ctx" by (simp add: fresh_ctx_def)
  obtain ctx1 a code w2 al2 where gen: "relo_generate ?ctx origin True = Inr (ctx1, origin1, a)"
    and fin: "FinalizeFromTurboAssembler K a al w = Inr code"
    and r: "r = MemBlock_reset (mb_addr (fst code)) (mb_size (fst code)) relocated" "w1 = snd (snd (snd code))"
    using assms(1)
    by (auto simp: GenRelocateCodeAndBranch_def GenRelocateCode_def relo_relocate_def ebind_Inr_iff Let_def)
  have sz: "rc_buffer_size ?ctx < 2 ^ 15" using assms(3) by simp
  obtain body where l: "mapped_ok ctx1 body (\<lambda>off sn. snippet_in sn off (asm_buffer a))"
      "origin1 = MemBlock_reset (mb_addr origin) (of_nat (rc_cursor ctx1)) origin"
      "rc_buffer_size ?ctx \<le> rc_cursor ctx1" "rc_cursor ctx1 < rc_buffer_size ?ctx + 4" "length (asm_buffer a) < 2 ^ 20"
    using generated_layout [OF gen f sz] by blast
  have d: "4 dvd rc_cursor ctx1" using l(1) by (simp add: mapped_ok_def)
  have u: "unat (of_nat (rc_cursor ctx1) :: u64) = rc_cursor ctx1" using l(4) assms(3) by (simp add: unat_of_nat)
  have "unat (mb_size origin1 mod 4) = 0" using d by (simp add: l(2) MemBlock_reset_def unat_mod u)
  then have "mb_size origin1 mod 4 = 0" by (simp only: unat_eq_zero)
  moreover have "mb_size origin \<le> mb_size origin1" "mb_addr origin1 = mb_addr origin"
    using l(3) by (simp_all add: l(2) MemBlock_reset_def word_le_nat_alt u)
  moreover have "placed (asm_buffer a) (mb_addr r) (w_mem w1) \<and> mb_size r = of_nat (length (asm_buffer a))"
    using fin l(5) unfolding r FinalizeFromTurboAssembler_def Let_def
    by (auto simp: ebind_Inr_iff MemBlock_reset_def MemBlock_def DobbyCodePatch_mem [OF assms(2)] placed_mem_write GetBufferSize_def)
  ultimately show ?thesis using gen by (intro exI [of _ ctx1] exI [of _ a]) simp
qed

end
