(* ===== verification/Arm64_Reloc_Demo.thy ===== *)
theory Arm64_Reloc_Demo
  imports Arm64_Reloc_Props
begin

text \<open>
  The theorems on relocation at a concrete prologue: \<open>adr x0, 8\<close> and \<open>nop\<close> at 0x1000, relocated to
  0x2000, and the instructions of the failing cases.
\<close>

unbundle bit_operations_syntax

definition demo_ctx :: "byte list \<Rightarrow> relo_ctx" where
  "demo_ctx bs = \<lparr>rc_buffer = bs, rc_cursor = 0, rc_buffer_size = length bs, rc_src_vmaddr = 0x1000,
     rc_dst_vmaddr = 0, rc_offset_map = Map.empty\<rparr>"

definition demo_state :: "code_buffer \<Rightarrow> u64 \<Rightarrow> a64" where
  "demo_state code a = \<lparr>xreg = (\<lambda>_. 0), spreg = 0, vreg = (\<lambda>_. 0), pc = a, flagN = False, flagZ = False, flagC = False,
     flagV = False, mem = mem_write 0x2000 code (\<lambda>_. 0)\<rparr>"

definition demo_bytes :: "byte list" where
  "demo_bytes = bytes32 0x10000040 @ bytes32 0xD503201F"

lemma demo_fresh: "fresh_ctx (demo_ctx bs)"
  by (simp add: fresh_ctx_def demo_ctx_def)

lemma demo_words:
  "load_cell 4 word32_of 0 demo_bytes = Some 0x10000040" "load_cell 4 word32_of 4 demo_bytes = Some 0xD503201F"
  "length demo_bytes = 8"
  using words_at_emitted [of "[0x10000040, 0xD503201F]" "[]" "[]"]
  by (simp_all add: demo_bytes_def words_at_Cons)

lemma demo_classes:
  "is_pcrel 0x10000040" "fldn 4 0 0x10000040 = 0" "\<not> is_uncond 0x10000040" "\<not> is_bcond 0x10000040" "\<not> is_breg 0x10000040"
  "\<not> is_ldst_uimm 0x10000040" "\<not> is_addsub_imm 0x10000040" "\<not> is_orr_shifted 0x10000040" "\<not> is_literal 0x10000040"
  "\<not> is_cmpb 0x10000040" "\<not> is_testb 0x10000040" "fld 31 31 0x10000040 = 0" "\<not> is_addsubs_imm 0x10000040" "\<not> is_pair 0x10000040"
  by (simp_all add: class_defs fld_def fldn_def)

lemma nop_classes:
  "\<not> is_uncond 0xD503201F" "\<not> is_bcond 0xD503201F" "\<not> is_breg 0xD503201F" "\<not> is_pcrel 0xD503201F" "\<not> is_movewide 0xD503201F"
  "\<not> is_ldst_uimm 0xD503201F" "\<not> is_addsub_imm 0xD503201F" "\<not> is_orr_shifted 0xD503201F" "\<not> is_literal 0xD503201F"
  "\<not> is_cmpb 0xD503201F" "\<not> is_testb 0xD503201F"
  "\<not> is_addsubs_imm 0xD503201F" "\<not> is_pair 0xD503201F" "fldn 4 0 0xD503201F = 31"
  by (simp_all add: class_defs fld_def fldn_def)

lemma demo_relocatable: "relocatable 0x10000040" "\<not> jumps 0x10000040" "relocatable 0xD503201F" "\<not> jumps 0xD503201F"
  by (simp_all add: relocatable_def names17_def jumps_def demo_classes nop_classes)

lemma demo_exec:
  "a64_exec 0x10000040 s = Some (ex_pcrel 0x10000040 s)" "a64_exec 0xD503201F s = Some (next_pc s)"
  by (simp_all add: a64_exec_def demo_classes nop_classes)

lemma demo_generates:
  "\<exists>ctx1 origin1 a. relo_generate (demo_ctx demo_bytes) (MemBlock 0x1000 8) True = Inr (ctx1, origin1, a)"
  by (rule relocation_returns [OF demo_fresh, of _ 2]) (simp_all add: demo_ctx_def demo_words)

theorem relocated_step_witness:
  "\<exists>ctx1 origin1 a. relo_generate (demo_ctx demo_bytes) (MemBlock 0x1000 8) True = Inr (ctx1, origin1, a) \<and>
    (\<exists>n t'. a64_steps n (demo_state (asm_buffer a) 0x2000) = Some t'
      \<and> agree {17} (ex_pcrel 0x10000040 (demo_state (asm_buffer a) 0x1000)) t')"
proof -
  obtain ctx1 origin1 a where g: "relo_generate (demo_ctx demo_bytes) (MemBlock 0x1000 8) True = Inr (ctx1, origin1, a)"
    using demo_generates by blast
  let ?s = "demo_state (asm_buffer a)"
  have b: "rc_buffer_size (demo_ctx demo_bytes) < 2 ^ 15" "0 < rc_buffer_size (demo_ctx demo_bytes)"
    by (simp_all add: demo_ctx_def demo_words)
  have l: "rc_offset_map ctx1 0 = Some 0" "length (asm_buffer a) < 2 ^ 20"
    using generated_layout [OF g demo_fresh b(1)] b(2) by auto
  have p: "placed (asm_buffer a) 0x2000 (mem (?s x))" for x
    using l(2) by (simp add: demo_state_def placed_mem_write)
  have c: "clobbers 0x10000040 = {17}" by (simp add: clobbers_def is_call_def demo_classes)
  have "\<exists>n t'. a64_steps n (?s 0x2000) = Some t' \<and> agree (clobbers 0x10000040) (ex_pcrel 0x10000040 (?s 0x1000)) t'
    \<and> (jumps 0x10000040 \<and> pc t' = pc (ex_pcrel 0x10000040 (?s 0x1000))
       \<or> pc (ex_pcrel 0x10000040 (?s 0x1000)) = pc (?s 0x1000) + 4
         \<and> resumes ctx1 (asm_buffer a) 0x2000 (mb_addr (MemBlock 0x1000 8)) 0 (pc t'))
    \<and> (is_call 0x10000040 \<longrightarrow> xreg (ex_pcrel 0x10000040 (?s 0x1000)) 30 = pc (?s 0x1000) + 4
         \<and> resumes ctx1 (asm_buffer a) 0x2000 (mb_addr (MemBlock 0x1000 8)) 0 (xreg t' 30))"
    by (rule relocated_step [OF g demo_fresh b(1) _ l(1) _ demo_relocatable(1) demo_exec(1) _ _ p])
      (simp_all add: demo_ctx_def MemBlock_def demo_words demo_state_def agree_def)
  then show ?thesis using g unfolding c by blast
qed

definition demo_word :: "nat \<Rightarrow> u32" where
  "demo_word i = (if i = 0 then 0x10000040 else 0xD503201F)"

definition demo_run :: "code_buffer \<Rightarrow> nat \<Rightarrow> a64" where
  "demo_run code i = (if i = 0 then demo_state code 0x1000
     else if i = 1 then ex_pcrel 0x10000040 (demo_state code 0x1000)
     else next_pc (ex_pcrel 0x10000040 (demo_state code 0x1000)))"

theorem relocated_prologue_witness:
  "\<exists>ctx1 origin1 a. relo_generate (demo_ctx demo_bytes) (MemBlock 0x1000 8) True = Inr (ctx1, origin1, a) \<and>
    (\<exists>m u. a64_steps m (demo_state (asm_buffer a) 0x2000) = Some u \<and> agree {17} (demo_run (asm_buffer a) 2) u \<and> pc u = 0x1008)"
proof -
  obtain ctx1 origin1 a where g: "relo_generate (demo_ctx demo_bytes) (MemBlock 0x1000 8) True = Inr (ctx1, origin1, a)"
    using demo_generates by blast
  let ?s = "demo_state (asm_buffer a)"
  have "length (asm_buffer a) < 2 ^ 20"
    using generated_layout [OF g demo_fresh] by (auto simp: demo_ctx_def demo_words)
  then have p: "placed (asm_buffer a) 0x2000 (mem (?s x))" for x
    by (simp add: demo_state_def placed_mem_write)
  have r: "load_cell 4 word32_of (4 * i) (rc_buffer (demo_ctx demo_bytes)) = Some (demo_word i) \<and> relocatable (demo_word i)
      \<and> \<not> jumps (demo_word i) \<and> a64_exec (demo_word i) (demo_run (asm_buffer a) i) = Some (demo_run (asm_buffer a) (Suc i))
      \<and> pc (demo_run (asm_buffer a) i) = mb_addr (MemBlock 0x1000 8) + of_nat (4 * i)" if "i < 2" for i
    using that
    by (auto simp: less_2_cases_iff demo_word_def demo_run_def demo_relocatable demo_exec demo_words demo_ctx_def
        ex_pcrel_def demo_state_def MemBlock_def)
  have q: "placed (asm_buffer a) 0x2000 (mem (demo_run (asm_buffer a) i))" for i
    using p by (simp add: demo_run_def ex_pcrel_def next_pc_def wr_x_def)
  have "\<exists>m u. a64_steps m (?s 0x2000) = Some u \<and> agree {17} (demo_run (asm_buffer a) 2) u
      \<and> pc u = mb_addr (MemBlock 0x1000 8) + of_nat (4 * 2)"
    by (rule relocated_prologue [OF g demo_fresh _ _ _ _ r _ q])
      (simp_all add: demo_ctx_def MemBlock_def demo_words demo_run_def demo_state_def agree_def)
  then show ?thesis using g by (simp add: MemBlock_def)
qed

theorem relocated_verbatim_witness:
  "\<exists>ctx1 origin1 a off. relo_generate (demo_ctx (bytes32 0xD503201F)) (MemBlock 0x1000 4) True = Inr (ctx1, origin1, a)
    \<and> rc_offset_map ctx1 0 = Some off \<and> load_cell 4 word32_of off (asm_buffer a) = Some 0xD503201F"
proof -
  let ?ctx = "demo_ctx (bytes32 0xD503201F)"
  have w: "load_cell 4 word32_of 0 (bytes32 0xD503201F) = Some 0xD503201F"
    using words_at_emitted [of "[0xD503201F]" "[]" "[]"] by (simp add: words_at_Cons)
  obtain ctx1 origin1 a where g: "relo_generate ?ctx (MemBlock 0x1000 4) True = Inr (ctx1, origin1, a)"
    using relocation_returns [OF demo_fresh, of "bytes32 0xD503201F" 1 "MemBlock 0x1000 4"] by (auto simp: demo_ctx_def)
  have b: "rc_buffer_size ?ctx < 2 ^ 15" "0 < rc_buffer_size ?ctx" by (simp_all add: demo_ctx_def)
  then have o: "rc_offset_map ctx1 0 = Some 0" using generated_layout [OF g demo_fresh b(1)] by auto
  have "fld 31 25 (0xD503201F) \<noteq> 0b0101010" by (simp add: fld_def)
  then have n: "\<not> recognised 0xD503201F" by (simp add: recognised_def recogniser_classes nop_classes)
  have l: "load_cell 4 word32_of 0 (rc_buffer ?ctx) = Some 0xD503201F" using w by (simp add: demo_ctx_def)
  show ?thesis using relocated_verbatim [OF g demo_fresh b(1) o l n] g o by blast
qed

text \<open>The word of \<open>ldrsw x0, #8\<close>: no load comes out of it.\<close>

theorem relocation_total_witness:
  "\<exists>ctx1 origin1 a off. relo_generate (demo_ctx (bytes32 0x98000040)) (MemBlock 0x1000 4) True = Inr (ctx1, origin1, a)
    \<and> rc_offset_map ctx1 0 = Some off
    \<and> words_at (mov_words 17 (0x1000 + decode_imm19_offset 0x98000040)) off (asm_buffer a)"
proof -
  have "load_cell 4 word32_of 0 (bytes32 0x98000040) = Some 0x98000040"
    using words_at_emitted [of "[0x98000040]" "[]" "[]"] by (simp add: words_at_Cons)
  then have w: "word32_of (take 4 (bytes32 0x98000040)) = 0x98000040" by (simp add: load_cell_def split: if_splits)
  have "fld 31 31 0x98000040 = 1" by (simp add: fld_def)
  then have "unsupported 0x98000040" by (simp add: unsupported_def is_literal_def fld_one) (simp add: fld_def)
  then show ?thesis
    using relocation_total [OF demo_fresh, of "bytes32 0x98000040" 1 "MemBlock 0x1000 4"] w
    by (auto simp: demo_ctx_def Let_def)
qed

theorem always_branch_lost_witness:
  "a64_exec 0x5400004E (demo_state [] 0x1000) = Some (jump (0x1000 + decode_imm19_offset 0x5400004E) (demo_state [] 0x1000))
    \<and> a64_exec (branch_instr_b_cond 0x5400004E) (demo_state [] 0x1000) = Some (jump 0x100C (demo_state [] 0x1000))"
proof -
  have "is_bcond 0x5400004E" "fld 3 0 0x5400004E = 14" by (simp_all add: is_bcond_def fld_def)
  from always_branch_lost [OF this, of "demo_state [] 0x1000"] show ?thesis by (simp add: demo_state_def)
qed

theorem literal_kind_lost_witness:
  "relo_inst 0x1000 0x18000040 (new_assembler 0) = relo_inst 0x1000 0x58000040 (new_assembler 0)"
proof -
  have "fld 31 31 0x18000040 = 0" "fld 31 31 0x58000040 = 0" by (simp_all add: fld_def)
  then have "\<not> unsupported 0x18000040" "\<not> unsupported 0x58000040" by (simp_all add: unsupported_def fld_one)
  moreover have "is_literal 0x18000040" "is_literal 0x58000040" "fld 23 0 0x18000040 = fld 23 0 0x58000040"
    by (simp_all add: is_literal_def fld_def)
  ultimately show ?thesis by (intro literal_kind_lost)
qed

definition demo_kernel :: "unit kernel" where
  "demo_kernel = \<lparr>k_page_size = 0x1000, k_mmap = (\<lambda>a n p f w. (0x7000000, w)), k_mprotect = (\<lambda>a n p w. (0, w))\<rparr>"

definition demo_world :: "unit world" where
  "demo_world = \<lparr>w_mem = (\<lambda>_. 0), w_os = ()\<rparr>"

definition demo_allocator :: allocator where
  "demo_allocator = \<lparr>code_arenas = [MemoryArena 0x2000 0x40000000], data_arenas = []\<rparr>"

theorem relocated_code_placed_witness:
  "\<exists>origin1 r al1 w1 ctx1 a. GenRelocateCodeAndBranch demo_kernel demo_bytes (MemBlock 0x1000 8) (MemBlock 0 0) demo_allocator
      demo_world = Inr (origin1, r, al1, w1)
    \<and> relo_generate (demo_ctx demo_bytes) (MemBlock 0x1000 8) True = Inr (ctx1, origin1, a)
    \<and> placed (asm_buffer a) (mb_addr r) (w_mem w1)"
proof -
  obtain ctx1 origin1 a where g: "relo_generate (demo_ctx demo_bytes) (MemBlock 0x1000 8) True = Inr (ctx1, origin1, a)"
    using demo_generates by blast
  have c: "demo_ctx demo_bytes = \<lparr>rc_buffer = demo_bytes, rc_cursor = 0, rc_buffer_size = unat (mb_size (MemBlock 0x1000 8)),
        rc_src_vmaddr = mb_addr (MemBlock 0x1000 8), rc_dst_vmaddr = mb_addr (MemBlock 0 0), rc_offset_map = Map.empty\<rparr>"
    by (simp add: demo_ctx_def demo_words MemBlock_def)
  have len: "length (asm_buffer a) < 2 ^ 20"
    using generated_layout [OF g demo_fresh] by (auto simp: demo_ctx_def demo_words)
  have "unat (ucast (of_nat (length (asm_buffer a)) :: u32) :: u64) < 2 ^ 20"
    using len by (simp add: unsigned_ucast_eq unat_of_nat unsigned_of_nat take_bit_nat_eq_self)
  then have "\<not> (0x40000000 :: u64) < ucast (of_nat (length (asm_buffer a)) :: u32)"
    by (simp add: word_less_nat_alt)
  then have "\<exists>y. FinalizeFromTurboAssembler demo_kernel a demo_allocator demo_world = Inr y"
    by (simp add: FinalizeFromTurboAssembler_def Let_def allocateExecBlock_def demo_allocator_def MemoryArena_def allocMemBlock_def
        GetBufferSize_def)
  then obtain y where "FinalizeFromTurboAssembler demo_kernel a demo_allocator demo_world = Inr y" by blast
  then have "\<exists>r al1 w1. GenRelocateCodeAndBranch demo_kernel demo_bytes (MemBlock 0x1000 8) (MemBlock 0 0) demo_allocator
      demo_world = Inr (origin1, r, al1, w1)"
    using g by (cases y) (simp add: GenRelocateCodeAndBranch_def GenRelocateCode_def relo_relocate_def Let_def flip: c)
  then obtain r al1 w1 where e: "GenRelocateCodeAndBranch demo_kernel demo_bytes (MemBlock 0x1000 8) (MemBlock 0 0) demo_allocator
      demo_world = Inr (origin1, r, al1, w1)" by blast
  have k: "keeps_memory demo_kernel" by (simp add: keeps_memory_def demo_kernel_def)
  have "unat (mb_size (MemBlock 0x1000 8)) < 2 ^ 15" by (simp add: MemBlock_def)
  from relocated_code_placed [OF e k this, folded c] show ?thesis using e by blast
qed

end
