(* ===== verification/Arm64_Trampoline.thy ===== *)
theory Arm64_Trampoline
  imports Arm64_Binding
begin

text \<open>
  The trampolines of \<open>trampoline_arm64.cc\<close>: the code written over the first instructions of a
  hooked function, which must send control from \<open>from\<close> to \<open>to\<close>. The lemmas compute the bytes of
  both forms and run them on the machine; the only deviation from the intended target, at the
  edge of the range of \<open>adrp\<close>, is stated exactly.
\<close>

unbundle bit_operations_syntax

section \<open>The generator\<close>

text \<open>\<open>llabs ((int64_t)(from - to))\<close>.\<close>

definition abs_distance :: "u64 \<Rightarrow> u64 \<Rightarrow> u64" where
  "abs_distance from_addr to_addr = word_of_int \<bar>sint (from_addr - to_addr)\<bar>"

definition adrp_range :: u64 where
  "adrp_range = push_bit (2 + 19 + 12 - 1) 1"

definition GenerateNormalTrampolineBuffer :: "u64 \<Rightarrow> u64 \<Rightarrow> dobby_error + code_buffer" where
  "GenerateNormalTrampolineBuffer from_addr to_addr =
     (let a0 = new_assembler from_addr;
          distance = abs_distance from_addr to_addr
      in ebind (if distance < adrp_range
                then ebind (asm_AdrpAdd TMP_REG_0 from_addr to_addr a0) (\<lambda>a. Inr (asm_br TMP_REG_0 a))
                else LiteralLdrBranch to_addr a0) (\<lambda>a1.
         ebind (RelocBind a1) (\<lambda>a2. Inr (Copy (asm_buffer a2)))))"

section \<open>Its code\<close>

definition page_pages :: "u64 \<Rightarrow> u64 \<Rightarrow> u64" where
  "page_pages from_addr to_addr = signed_drop_bit 12 (ALIGN_FLOOR to_addr 0x1000 - ALIGN_FLOOR from_addr 0x1000)"

definition adrp_add_br :: "u64 \<Rightarrow> u64 \<Rightarrow> u32 list" where
  "adrp_add_br from_addr to_addr = [adrp17 (page_pages from_addr to_addr), add17 (to_addr mod 0x1000), 0xD61F0220]"

definition ldr_br :: "u64 \<Rightarrow> u32 list" where
  "ldr_br off = [encode_imm19_offset ldr17 off, 0xD61F0220]"

lemma asm_AdrpAdd17:
  "asm_AdrpAdd TMP_REG_0 from_addr to_addr a =
     Inr (asm_Emit (add17 (to_addr mod 0x1000)) (asm_Emit (adrp17 (page_pages from_addr to_addr)) a))"
  by (simp add: asm_AdrpAdd_def Let_def asm_add17 page_pages_def asm_adrp17 [OF refl])

lemma asm_br17: "asm_br TMP_REG_0 = asm_Emit 0xD61F0220"
  by (simp add: asm_br_def br17)

lemma trampoline_code:
  "GenerateNormalTrampolineBuffer from_addr to_addr = Inr
     (if abs_distance from_addr to_addr < adrp_range then concat (map bytes32 (adrp_add_br from_addr to_addr))
      else bound [(0, to_addr)] (concat (map bytes32 [ldr17, 0xD61F0220])))"
proof (cases "abs_distance from_addr to_addr < adrp_range")
  case True
  then show ?thesis
    by (simp add: GenerateNormalTrampolineBuffer_def Let_def asm_AdrpAdd17 asm_br17 RelocBind_def
        new_assembler_def asm_Emit_def Emit32_def EmitBuffer_def Copy_def adrp_add_br_def)
next
  case False
  define a where "a = emits [0xD61F0220] (emit_link to_addr (new_assembler from_addr))"
  have "linked [(0, to_addr)] a" and b: "asm_buffer a = concat (map bytes32 [ldr17, 0xD61F0220])"
    using linked_emits [OF linked_emit_link [OF linked_new]]
    by (simp_all add: a_def emit_link_buffer new_assembler_def)
  then obtain labs where "RelocBind a = Inr (a\<lparr>asm_buffer := bound [(0, to_addr)] (asm_buffer a), labels := labs\<rparr>)"
    using RelocBind_linked by blast
  with False b show ?thesis
    by (simp add: GenerateNormalTrampolineBuffer_def Let_def LiteralLdrBranch_link Copy_def EmitBuffer_def flip: a_def)
qed

section \<open>Running it\<close>

text \<open>The distance of the two pages, as the signed value the code computes.\<close>

definition page_gap :: "u64 \<Rightarrow> u64 \<Rightarrow> int" where
  "page_gap from_addr to_addr = sint (ALIGN_FLOOR to_addr 0x1000 - ALIGN_FLOOR from_addr 0x1000)"

lemma run_adrp_add_br:
  assumes "placed code a (mem s)" and "words_at [adrp17 pages, add17 off, 0xD61F0220] i code" and "pc s = a + of_nat i"
  shows "a64_steps 3 s = Some (let t = push_bit 12 (drop_bit 12 (pc s)) + push_bit 12 (signed_take_bit 20 pages) + take_bit 12 off
    in s\<lparr>xreg := (xreg s)(17 := t), pc := t\<rparr>)"
proof -
  note w = assms(2) [unfolded words_at_Cons]
  let ?p = "push_bit 12 (drop_bit 12 (pc s)) + push_bit 12 (signed_take_bit 20 pages)"
  define s1 where "s1 = next_pc (s\<lparr>xreg := (xreg s)(17 := ?p)\<rparr>)"
  define s2 where "s2 = next_pc (s1\<lparr>xreg := (xreg s1)(17 := ?p + take_bit 12 off)\<rparr>)"
  have "a64_step s = Some s1"
    using step_at [OF assms(1) _ assms(3)] w by (simp add: exec_adrp17 s1_def)
  moreover have "a64_step s1 = Some s2"
    using step_at [of code a s1 "i + 4"] w assms(1,3) by (simp add: exec_add17 s2_def s1_def add.commute)
  moreover have "a64_step s2 = Some (jump (?p + take_bit 12 off) s2)"
    using step_at [of code a s2 "i + 4 + 4"] w assms(1,3) by (simp add: exec_br17 s2_def s1_def add.commute)
  moreover have "jump (?p + take_bit 12 off) s2 =
      s\<lparr>xreg := (xreg s)(17 := ?p + take_bit 12 off), pc := ?p + take_bit 12 off\<rparr>"
    by (simp add: s2_def s1_def jump_def next_pc_def)
  ultimately show ?thesis by (simp add: eval_nat_numeral Let_def)
qed

lemma run_ldr_br:
  assumes "placed code a (mem s)" and "words_at [encode_imm19_offset ldr17 off, 0xD61F0220] i code" and "pc s = a + of_nat i"
    and "fits_branch 21 off" and "read64 (mem s) (pc s + off) = t"
  shows "a64_steps 2 s = Some (s\<lparr>xreg := (xreg s)(17 := t), pc := t\<rparr>)"
proof -
  note w = assms(2) [unfolded words_at_Cons]
  define s1 where "s1 = next_pc (s\<lparr>xreg := (xreg s)(17 := t)\<rparr>)"
  have "a64_step s = Some s1"
    using step_at [OF assms(1) _ assms(3)] w assms(5) by (simp add: exec_ldr17 [OF assms(4)] s1_def)
  moreover have "a64_step s1 = Some (jump t s1)"
    using step_at [of code a s1 "i + 4"] w assms(1,3) by (simp add: exec_br17 s1_def add.commute)
  moreover have "jump t s1 = s\<lparr>xreg := (xreg s)(17 := t), pc := t\<rparr>"
    by (simp add: s1_def jump_def next_pc_def)
  ultimately show ?thesis by (simp add: eval_nat_numeral)
qed

section \<open>The page arithmetic\<close>

lemma sint_small: "- (2 ^ 63) \<le> k \<Longrightarrow> k < 2 ^ 63 \<Longrightarrow> sint (word_of_int k :: u64) = k"
  by (simp add: signed_of_int signed_take_bit_int_eq_self_iff)

lemma sint_page_aligned:
  assumes "take_bit 12 (g :: u64) = 0"
  shows "sint g mod 4096 = 0"
proof -
  have "\<not> bit g k" if "k < 12" for k
    using that bit_take_bit_iff [of 12 g k] assms by simp
  then have "take_bit 12 (sint g) = 0"
    by (intro bit_eqI) (auto simp: bit_take_bit_iff bit_sint_min)
  then show ?thesis by (simp add: take_bit_eq_mod)
qed

lemma push_signed_drop:
  assumes "take_bit 12 (g :: u64) = 0"
  shows "push_bit 12 (signed_drop_bit 12 g) = g"
proof (rule bit_word_eqI)
  fix k
  assume "k < LENGTH(64)"
  moreover have "\<not> bit g k" if "k < 12"
    using that bit_take_bit_iff [of 12 g k] assms by simp
  ultimately show "bit (push_bit 12 (signed_drop_bit 12 g)) k \<longleftrightarrow> bit g k"
    by (cases "k < 12") (auto simp: bit_simps)
qed

lemma page_gap_bounds:
  assumes "abs_distance from_addr to_addr < adrp_range"
  shows "\<bar>page_gap from_addr to_addr\<bar> \<le> 2 ^ 32" and "page_gap from_addr to_addr mod 4096 = 0"
proof -
  define d where "d = sint (from_addr - to_addr)"
  define u where "u = uint (take_bit 12 to_addr)"
  define v where "v = uint (take_bit 12 from_addr)"
  have uv: "0 \<le> u" "u < 4096" "0 \<le> v" "v < 4096"
    using take_bit_int_less_exp [of 12 "uint to_addr"] take_bit_int_less_exp [of 12 "uint from_addr"]
    by (simp_all add: u_def v_def unsigned_take_bit_eq)
  have "\<bar>d\<bar> \<le> 2 ^ 63"
    using sint_greater_eq [of "from_addr - to_addr"] sint_less [of "from_addr - to_addr"] by (simp add: d_def)
  moreover have "uint (word_of_int \<bar>d\<bar> :: u64) < 2 ^ 32"
    using assms by (simp add: abs_distance_def adrp_range_def d_def word_less_def)
  ultimately have d: "\<bar>d\<bar> < 2 ^ 32" by (simp add: uint_word_of_int)
  let ?g = "ALIGN_FLOOR to_addr 0x1000 - ALIGN_FLOOR from_addr 0x1000"
  have p: "ALIGN_FLOOR x 0x1000 = x - take_bit 12 x" for x
    using bits_ident [of 12 x] by (simp add: ALIGN_FLOOR_page eq_diff_eq)
  have "?g = word_of_int (- d - (u - v))"
    by (simp add: p d_def u_def v_def)
  moreover have "sint (word_of_int (- d - (u - v)) :: u64) = - d - (u - v)"
    using d uv by (intro sint_small) auto
  ultimately have g: "page_gap from_addr to_addr = - d - (u - v)"
    by (simp add: page_gap_def)
  have "?g = push_bit 12 (drop_bit 12 to_addr - drop_bit 12 from_addr)"
    by (simp add: ALIGN_FLOOR_page push_bit_eq_mult left_diff_distrib)
  then have "take_bit 12 ?g = 0" by (simp add: take_bit_push_bit)
  then show m: "page_gap from_addr to_addr mod 4096 = 0"
    by (simp add: page_gap_def sint_page_aligned)
  obtain q where q: "page_gap from_addr to_addr = 4096 * q" using m by (auto elim: dvdE simp flip: dvd_eq_mod_eq_0)
  then have "\<bar>q\<bar> \<le> 2 ^ 20" using d uv g by auto
  then show "\<bar>page_gap from_addr to_addr\<bar> \<le> 2 ^ 32" unfolding q by auto
qed

lemma adrp_target:
  assumes "abs_distance from_addr to_addr < adrp_range"
  shows "push_bit 12 (drop_bit 12 from_addr) + push_bit 12 (signed_take_bit 20 (page_pages from_addr to_addr))
      + take_bit 12 (to_addr mod 0x1000)
    = (if page_gap from_addr to_addr = 2 ^ 32 then to_addr - 2 ^ 33 else to_addr)"
proof -
  define g where "g = ALIGN_FLOOR to_addr 0x1000 - ALIGN_FLOOR from_addr 0x1000"
  have low: "take_bit 12 (to_addr mod 0x1000) = take_bit 12 to_addr"
    using take_bit_eq_mod [of 12 to_addr] take_bit_take_bit [of 12 12 to_addr] by simp
  have "g = push_bit 12 (drop_bit 12 to_addr - drop_bit 12 from_addr)"
    by (simp add: g_def ALIGN_FLOOR_page push_bit_eq_mult left_diff_distrib)
  then have z: "take_bit 12 g = 0" by (simp add: take_bit_push_bit)
  have sum: "push_bit 12 (drop_bit 12 from_addr) + g + take_bit 12 to_addr = to_addr"
    using bits_ident [of 12 to_addr] by (simp add: g_def ALIGN_FLOOR_page)
  note b = page_gap_bounds [OF assms, unfolded page_gap_def, folded g_def]
  show ?thesis
  proof (cases "sint g = 2 ^ 32")
    case True
    have "g = word_of_int (sint g)" by simp
    also have "\<dots> = 2 ^ 32" unfolding True by simp
    finally have "g = 2 ^ 32" .
    then show ?thesis
      using sum by (simp add: page_gap_def page_pages_def low flip: g_def) (simp add: algebra_simps)
  next
    case False
    have "signed_take_bit 20 (signed_drop_bit 12 g) = signed_drop_bit 12 g"
    proof (rule bit_word_eqI)
      fix k
      assume "k < LENGTH(64)"
      have f: "fits_signed 33 g"
        using b False by (auto simp: fits_signed_def)
      have s: "bit g j \<longleftrightarrow> bit g (min j 32)" if "j < 64" for j
        using fits_signed_bits [of 33 g, THEN iffD1, rule_format, OF _ _ f that] by simp
      have sd: "bit (signed_drop_bit 12 g) j \<longleftrightarrow> bit g (min (j + 12) 63)" if "j < 64" for j
      proof -
        have "(if LENGTH(64) - 12 \<le> j \<and> j < LENGTH(64) then LENGTH(64) - 1 else 12 + j) = min (j + 12) 63"
          using that by (auto simp: min_def)
        then show ?thesis by (simp only: bit_signed_drop_bit_iff)
      qed
      have k64: "k < 64" using \<open>k < LENGTH(64)\<close> by simp
      have m: "min (min (k + 12) 63) 32 = min (min 20 k + 12) 63" by simp
      have "bit (signed_take_bit 20 (signed_drop_bit 12 g)) k \<longleftrightarrow> bit (signed_drop_bit 12 g) (min 20 k)"
        using k64 by (simp only: bit_signed_take_bit_iff) simp
      also have "\<dots> \<longleftrightarrow> bit g (min (min 20 k + 12) 63)" by (rule sd) simp
      also have "\<dots> \<longleftrightarrow> bit g (min (k + 12) 63)"
        unfolding m [symmetric] by (rule s [symmetric]) simp
      also have "\<dots> \<longleftrightarrow> bit (signed_drop_bit 12 g) k" using sd [OF k64] by simp
      finally show "bit (signed_take_bit 20 (signed_drop_bit 12 g)) k \<longleftrightarrow> bit (signed_drop_bit 12 g) k" .
    qed
    then show ?thesis
      using False sum by (simp add: page_gap_def page_pages_def low push_signed_drop [OF z] flip: g_def)
  qed
qed

definition trampoline_target :: "u64 \<Rightarrow> u64 \<Rightarrow> u64" where
  "trampoline_target from_addr to_addr =
     (if abs_distance from_addr to_addr < adrp_range \<and> page_gap from_addr to_addr = 2 ^ 32
      then to_addr - 2 ^ 33 else to_addr)"

text \<open>The words of the two forms.\<close>

lemma trampoline_words:
  assumes "GenerateNormalTrampolineBuffer from_addr to_addr = Inr code"
  shows "abs_distance from_addr to_addr < adrp_range \<Longrightarrow> words_at (adrp_add_br from_addr to_addr) 0 code"
    and "\<not> abs_distance from_addr to_addr < adrp_range \<Longrightarrow> words_at [encode_imm19_offset ldr17 8, 0xD61F0220] 0 code"
    and "\<not> abs_distance from_addr to_addr < adrp_range \<Longrightarrow> load_cell 8 word64_of 8 code = Some to_addr"
proof -
  assume "abs_distance from_addr to_addr < adrp_range"
  then have "code = concat (map bytes32 (adrp_add_br from_addr to_addr))" using assms by (simp add: trampoline_code)
  then show "words_at (adrp_add_br from_addr to_addr) 0 code"
    using words_at_emitted [of "adrp_add_br from_addr to_addr" "[]" "[]"] by simp
next
  assume far: "\<not> abs_distance from_addr to_addr < adrp_range"
  define b where "b = concat (map bytes32 [ldr17, 0xD61F0220])"
  have code: "code = bound [(0, to_addr)] b" using assms far by (simp add: trampoline_code b_def)
  have len: "length b = 8" by (simp add: b_def)
  have "links_apart [(0, to_addr)] (length b)" by (simp add: links_apart_def len)
  from bound_link [OF this, of 0]
  have l: "load_cell 4 word32_of 0 code = Some (encode_imm19_offset ldr17 8)"
    and t: "load_cell 8 word64_of 8 code = Some to_addr"
    using word32_of_bytes32 [of ldr17 "[]"] by (simp_all add: code b_def)
  have "load_cell 4 word32_of 4 code = load_cell 4 word32_of 4 b"
    unfolding code by (rule bound_load_other) (simp_all add: len)
  also have "\<dots> = Some 0xD61F0220"
    using words_at_emitted [of "[ldr17, 0xD61F0220]" "[]" "[]"] by (simp add: b_def words_at_Cons)
  finally show "words_at [encode_imm19_offset ldr17 8, 0xD61F0220] 0 code" using l by (simp add: words_at_Cons)
  show "load_cell 8 word64_of 8 code = Some to_addr" by (rule t)
qed

lemma run_trampoline:
  assumes "GenerateNormalTrampolineBuffer from_addr to_addr = Inr code"
    and "placed code from_addr (mem s)" and "pc s = from_addr"
  shows "\<exists>n. a64_steps n s = Some (s\<lparr>xreg := (xreg s)(17 := trampoline_target from_addr to_addr),
      pc := trampoline_target from_addr to_addr\<rparr>)"
proof (cases "abs_distance from_addr to_addr < adrp_range")
  case True
  from run_adrp_add_br [OF assms(2) trampoline_words(1) [OF assms(1) True, unfolded adrp_add_br_def]] assms(3) adrp_target [OF True] True
  show ?thesis by (intro exI [of _ 3]) (simp add: Let_def trampoline_target_def)
next
  case False
  have "read64 (mem s) (pc s + 8) = to_addr"
    using placed_read64 [OF assms(2) trampoline_words(3) [OF assms(1) False]] assms(3) by simp
  moreover have "fits_branch 21 8" by (simp add: fits_branch_def)
  ultimately show ?thesis
    using run_ldr_br [OF assms(2) trampoline_words(2) [OF assms(1) False], of to_addr] assms(3) False
    by (intro exI [of _ 2]) (simp add: trampoline_target_def)
qed

text \<open>C10: the trampoline written at \<open>from\<close> sends control to \<open>to\<close> and changes only the scratch register
  x17, in both of its forms, unless \<open>adrp\<close> would have to go exactly 2^20 pages forward.\<close>

theorem trampoline_reaches:
  assumes "GenerateNormalTrampolineBuffer from_addr to_addr = Inr code"
    and "placed code from_addr (mem s)" and "pc s = from_addr"
    and "page_gap from_addr to_addr \<noteq> 2 ^ 32"
  shows "\<exists>n. a64_steps n s = Some (s\<lparr>xreg := (xreg s)(17 := to_addr), pc := to_addr\<rparr>)"
  using run_trampoline [OF assms(1-3)] assms(4) by (simp add: trampoline_target_def)

text \<open>C38: at that edge, where the code still chooses \<open>adrp\<close>, the trampoline jumps 8 GiB below its target.\<close>

theorem trampoline_wrong_at_edge:
  assumes "GenerateNormalTrampolineBuffer from_addr to_addr = Inr code"
    and "placed code from_addr (mem s)" and "pc s = from_addr"
    and "abs_distance from_addr to_addr < adrp_range" and "page_gap from_addr to_addr = 2 ^ 32"
  shows "\<exists>n s'. a64_steps n s = Some s' \<and> pc s' = to_addr - 2 ^ 33"
proof -
  obtain n where "a64_steps n s = Some (s\<lparr>xreg := (xreg s)(17 := trampoline_target from_addr to_addr),
      pc := trampoline_target from_addr to_addr\<rparr>)"
    using run_trampoline [OF assms(1-3)] by blast
  then show ?thesis using assms(4,5) by (intro exI conjI) (auto simp: trampoline_target_def)
qed

section \<open>The theorems at concrete inputs\<close>

definition tramp_state :: "code_buffer \<Rightarrow> u64 \<Rightarrow> a64" where
  "tramp_state code a = \<lparr>xreg = (\<lambda>_. 0), spreg = 0, vreg = (\<lambda>_. 0), pc = a, flagN = False, flagZ = False, flagC = False,
     flagV = False, mem = (\<lambda>x. if unat (x - a) < length code then code ! unat (x - a) else 0)\<rparr>"

lemma tramp_placed: "length code \<le> 2 ^ 64 \<Longrightarrow> placed code a (mem (tramp_state code a))"
  by (auto simp: placed_def tramp_state_def unat_of_nat)

lemma trampoline_total:
  obtains code where "GenerateNormalTrampolineBuffer from_addr to_addr = Inr code" and "length code \<le> 16"
proof (cases "abs_distance from_addr to_addr < adrp_range")
  case True
  then show thesis by (intro that [OF trampoline_code]) (simp add: adrp_add_br_def)
next
  case False
  then show thesis by (intro that [OF trampoline_code]) (simp add: length_bound)
qed

theorem trampoline_reaches_witness:
  "\<exists>code n. GenerateNormalTrampolineBuffer 0x1000 0x7123456789 = Inr code
    \<and> a64_steps n (tramp_state code 0x1000) =
        Some ((tramp_state code 0x1000)\<lparr>xreg := (xreg (tramp_state code 0x1000))(17 := 0x7123456789), pc := 0x7123456789\<rparr>)"
proof -
  obtain code where c: "GenerateNormalTrampolineBuffer 0x1000 0x7123456789 = Inr code" "length code \<le> 16"
    by (rule trampoline_total)
  have "page_gap 0x1000 0x7123456789 \<noteq> 2 ^ 32" by (simp add: page_gap_def ALIGN_FLOOR_def)
  with c show ?thesis
    using trampoline_reaches [OF c(1) tramp_placed] by (fastforce simp: tramp_state_def)
qed

theorem trampoline_wrong_at_edge_witness:
  "\<exists>code n s'. GenerateNormalTrampolineBuffer 0x1FFC 0x100001000 = Inr code
    \<and> a64_steps n (tramp_state code 0x1FFC) = Some s' \<and> pc s' = 0x100001000 - 2 ^ 33"
proof -
  obtain code where c: "GenerateNormalTrampolineBuffer 0x1FFC 0x100001000 = Inr code" "length code \<le> 16"
    by (rule trampoline_total)
  have d: "abs_distance 0x1FFC 0x100001000 < adrp_range" "page_gap 0x1FFC 0x100001000 = 2 ^ 32"
    by (simp_all add: abs_distance_def adrp_range_def page_gap_def ALIGN_FLOOR_def)
  show ?thesis
    using trampoline_wrong_at_edge [OF c(1) tramp_placed _ d] c by (fastforce simp: tramp_state_def)
qed

end
