(* ===== verification/Arm64_Props.thy ===== *)
theory Arm64_Props
  imports Arm64_Reloc_Demo Arm64_Trampoline
begin

text \<open>
  Properties of the ARM64 encoders on their own: offsets survive encoding exactly when they fit,
  the opcode words of the lists are distinct and lie in their classes, and moves do what they say.
\<close>

unbundle bit_operations_syntax

section \<open>Offsets\<close>

text \<open>C31: a branch or load offset is read back from the instruction it was written into exactly when it
  fits the field, the page offset of \<open>adr\<close> exactly when it fits 21 bits; writing back what an
  instruction holds gives the instruction.\<close>

theorem offset_roundtrip:
  "(decode_imm14_offset (encode_imm14_offset w off) = off \<longleftrightarrow> fits_branch 16 off)
    \<and> (decode_imm19_offset (encode_imm19_offset w off) = off \<longleftrightarrow> fits_branch 21 off)
    \<and> (decode_imm26_offset (encode_imm26_offset w off) = off \<longleftrightarrow> fits_branch 28 off)
    \<and> (decode_immhi_immlo_offset (encode_immhi_immlo_offset w off) = off \<longleftrightarrow> fits_signed 21 off)
    \<and> encode_imm14_offset w (decode_imm14_offset w) = w \<and> encode_imm19_offset w (decode_imm19_offset w) = w
    \<and> encode_imm26_offset w (decode_imm26_offset w) = w \<and> encode_immhi_immlo_offset w (decode_immhi_immlo_offset w) = w"
  using imm14.dec_enc_iff [of w off] imm19.dec_enc_iff [of w off] imm26.dec_enc_iff [of w off]
  by (simp add: decode_encode_adr_iff)

section \<open>Opcode words\<close>

lemma inj_from_list:
  assumes "\<And>x. x \<in> set xs" and "distinct (map f xs)"
  shows "inj f"
  using assms by (metis UNIV_eq_I distinct_map)

lemma inj_load_store_op: "inj load_store_op"
proof (rule inj_from_list)
  show "x \<in> set [STRB_w, LDRB_w, LDRSB_x, LDRSB_w, STR_b, LDR_b, STR_q, LDR_q, STRH_w, LDRH_w, LDRSH_x, LDRSH_w,
      STR_h, LDR_h, STR_w, LDR_w, LDRSW, STR_s, LDR_s, STR_x, LDR_x, PRFM, STR_d, LDR_d]" for x
    by (cases x) simp_all
qed (simp add: load_store_op_def LoadStoreOpSub_def LeftShift_eq)

lemma inj_load_store_pair_op: "inj load_store_pair_op"
proof (rule inj_from_list)
  show "x \<in> set [STP_w, LDP_w, STP_s, LDP_s, LDPSW, STP_d, LDP_d, STP_x, LDP_x, STP_q, LDP_q]" for x
    by (cases x) simp_all
qed (simp add: load_store_pair_op_def LoadStorePairOpSub_def LeftShift_eq)

lemma inj_literal_op: "inj literal_op"
proof (rule inj_from_list)
  show "x \<in> set [LDR_w_literal, LDR_x_literal, LDRSW_literal, PRFM_literal, LDR_s_literal, LDR_d_literal,
      LDR_q_literal]" for x
    by (cases x) simp_all
qed (simp add: LoadRegLiteralSub_def LeftShift_eq opcode_defs)

text \<open>The words of each opcode list are pairwise distinct, and in every addressing form an opcode keeps
  the fixed bits of that form.\<close>

theorem opcode_words:
  "inj load_store_op \<and> inj load_store_pair_op \<and> inj literal_op
    \<and> (\<forall>op. load_store_unsigned op AND LoadStoreUnsignedOffsetFixedMask = LoadStoreUnsignedOffsetFixed
          \<and> load_store_unscaled op AND LoadStoreUnscaledOffsetFixedMask = LoadStoreUnscaledOffsetFixed
          \<and> load_store_register op AND LoadStoreRegisterOffsetFixedMask = LoadStoreRegisterOffsetFixed)
    \<and> (\<forall>op. load_store_pair_offset op AND LoadStorePairFixedMask = LoadStorePairOffsetFixed
          \<and> load_store_pair_post op AND LoadStorePairFixedMask = LoadStorePairPostIndexFixed
          \<and> load_store_pair_pre op AND LoadStorePairFixedMask = LoadStorePairPreIndexFixed)
    \<and> (\<forall>op. literal_op op AND LoadRegLiteralFixedMask = LoadRegLiteralFixed)"
proof (intro conjI)
  show "inj load_store_op" "inj load_store_pair_op" "inj literal_op"
    by (fact inj_load_store_op inj_load_store_pair_op inj_literal_op)+
  show "\<forall>op. load_store_unsigned op AND LoadStoreUnsignedOffsetFixedMask = LoadStoreUnsignedOffsetFixed
          \<and> load_store_unscaled op AND LoadStoreUnscaledOffsetFixedMask = LoadStoreUnscaledOffsetFixed
          \<and> load_store_register op AND LoadStoreRegisterOffsetFixedMask = LoadStoreRegisterOffsetFixed"
  proof
    fix op
    show "load_store_unsigned op AND LoadStoreUnsignedOffsetFixedMask = LoadStoreUnsignedOffsetFixed
          \<and> load_store_unscaled op AND LoadStoreUnscaledOffsetFixedMask = LoadStoreUnscaledOffsetFixed
          \<and> load_store_register op AND LoadStoreRegisterOffsetFixedMask = LoadStoreRegisterOffsetFixed"
      by (cases op; simp add: load_store_unsigned_def load_store_unscaled_def load_store_register_def LeftShift_eq opcode_defs)
  qed
  show "\<forall>op. load_store_pair_offset op AND LoadStorePairFixedMask = LoadStorePairOffsetFixed
          \<and> load_store_pair_post op AND LoadStorePairFixedMask = LoadStorePairPostIndexFixed
          \<and> load_store_pair_pre op AND LoadStorePairFixedMask = LoadStorePairPreIndexFixed"
  proof
    fix op
    show "load_store_pair_offset op AND LoadStorePairFixedMask = LoadStorePairOffsetFixed
          \<and> load_store_pair_post op AND LoadStorePairFixedMask = LoadStorePairPostIndexFixed
          \<and> load_store_pair_pre op AND LoadStorePairFixedMask = LoadStorePairPreIndexFixed"
      by (cases op; simp add: load_store_pair_offset_def load_store_pair_post_def load_store_pair_pre_def LeftShift_eq opcode_defs)
  qed
  show "\<forall>op. literal_op op AND LoadRegLiteralFixedMask = LoadRegLiteralFixed"
  proof
    fix op
    show "literal_op op AND LoadRegLiteralFixedMask = LoadRegLiteralFixed"
      by (cases op; simp add: LoadRegLiteralSub_def LeftShift_eq opcode_defs)
  qed
qed

section \<open>Register moves\<close>

text \<open>C32: \<open>mov\<close> between two general registers emits the instruction that copies them, unless the source is
  x0: \<open>Operand::IsImmediate\<close> takes register number 0 for no register, and the word emitted then is
  not an instruction of the machine.\<close>

theorem mov_register_iff:
  assumes "d < 31" and "c < 31"
  shows "\<exists>w. asm_mov (X_reg d) (X_reg c) a = Inr (asm_Emit w a)
    \<and> a64_exec w s = (if c = 0 then None else Some (next_pc (wr_x (unat d) (rd_x s (unat c)) s)))"
proof -
  have d5: "take_bit 5 d = d" "take_bit 5 c = c" using assms by (auto intro!: take_bit_5 simp: word_less_nat_alt)
  have u31: "d \<noteq> 31" "c \<noteq> 31" using assms by (auto simp: word_less_nat_alt)
  show ?thesis
  proof (cases "c = 0")
    case True
    define w where "w = 0xA00003E0 OR take_bit 5 d"
    have "asm_mov (X_reg d) (X_reg c) a = Inr (asm_Emit w a)"
      using u31 True
      by (simp add: asm_mov_def reg_Is_def X_reg_def SP_reg_def Is64Bits_def asm_orr_def asm_Logical_def IsImmediate_def
          Operand_shifted_def InvalidRegister_def asm_LogicalImmediate_def EncodeLogicalImmediate_def xzr_def enc_sf_def
          word_defs d5 w_def bits_eq or.assoc or.commute or.left_commute)
    moreover have "a64_exec w s = None"
    proof -
      have "\<not> bit w 28" "bit w 31" "\<not> bit w 27" by (simp_all add: w_def bit_or_iff bit_take_bit_iff)
      then have "\<not> is_uncond w" "\<not> is_bcond w" "\<not> is_cmpb w" "\<not> is_testb w" "\<not> is_breg w" "\<not> is_literal w"
        "\<not> is_ldst_uimm w" "\<not> is_pcrel w" "\<not> is_addsub_imm w" "\<not> is_movewide w" "\<not> is_addsubs_imm w" "\<not> is_pair w"
        by (auto dest!: class_bits)
      moreover have "\<not> is_orr_shifted w" by (simp add: is_orr_shifted_def w_def fld_simps)
      moreover have "w \<noteq> 0xD503201F"
      proof
        assume "w = 0xD503201F"
        with \<open>\<not> bit w 28\<close> show False by simp
      qed
      ultimately show ?thesis by (simp add: a64_exec_def)
    qed
    ultimately show ?thesis using True by auto
  next
    case False
    define w where "w = 0xAA0003E0 OR push_bit 16 (take_bit 5 c) OR take_bit 5 d"
    have "asm_mov (X_reg d) (X_reg c) a = Inr (asm_Emit w a)"
      using u31 False
      by (simp add: asm_mov_def reg_Is_def X_reg_def SP_reg_def Is64Bits_def asm_orr_def asm_Logical_def IsImmediate_def
          Operand_shifted_def InvalidRegister_def asm_LogicalShift_def EncodeLogicalShift_def xzr_def enc_sf_def enc_shift_def
          word_defs d5 w_def or.assoc or.commute or.left_commute)
    moreover have "a64_exec w s = Some (next_pc (wr_x (unat d) (rd_x s (unat c)) s))"
    proof -
      have c: "fld 30 24 w = 0b0101010" "fld 23 21 w = 0" "fld 15 10 w = 0" "fld 31 31 w = 1" "fld 9 5 w = 31"
        "fld 20 16 w = take_bit 5 c" "fld 4 0 w = take_bit 5 d"
        by (simp_all add: w_def fld_simps)
      have "is_orr_shifted w" by (simp add: is_orr_shifted_def c)
      moreover from this have "\<not> bit w 28" by (auto dest!: class_bits)
      then have "\<not> is_uncond w" "\<not> is_bcond w" "\<not> is_cmpb w" "\<not> is_testb w" "\<not> is_breg w" "\<not> is_literal w"
        "\<not> is_ldst_uimm w" "\<not> is_pcrel w" "\<not> is_addsub_imm w" "\<not> is_movewide w"
        by (auto dest!: class_bits)
      ultimately show ?thesis by (simp add: a64_exec_def ex_orr_shifted_def c d5 fldn_def rd_x_def)
    qed
    ultimately show ?thesis using False by auto
  qed
qed

theorem mov_register_iff_witness:
  "(\<exists>w. asm_mov (X_reg 1) (X_reg 0) (new_assembler 0) = Inr (asm_Emit w (new_assembler 0)) \<and> a64_exec w (demo_state [] 0) = None)
    \<and> (\<exists>w. asm_mov (X_reg 1) (X_reg 2) (new_assembler 0) = Inr (asm_Emit w (new_assembler 0))
        \<and> a64_exec w (demo_state [] 0) = Some (next_pc (wr_x 1 0 (demo_state [] 0))))"
  using mov_register_iff [of 1 0 "new_assembler 0" "demo_state [] 0"] mov_register_iff [of 1 2 "new_assembler 0" "demo_state [] 0"]
  by (simp add: word_less_nat_alt rd_x_def demo_state_def)

end
