(* ===== verification/Near_Allocator.thy ===== *)
theory Near_Allocator
  imports Memory_Allocator
begin

text \<open>
  \<open>NearMemoryAllocator.cc\<close>: memory within a given distance of an address, taken from an arena of
  the default allocator or from a gap between the mapped regions of the process. The list of
  regions (\<open>GetProcessMemoryLayout\<close>, read from \<open>/proc/self/maps\<close>) is a parameter: pairs of start
  and size. The theorems state where a returned block lies, and when the fixed mapping of a gap
  overwrites the region after it.
\<close>

unbundle bit_operations_syntax

section \<open>The default arenas\<close>

text \<open>The lambda \<open>allocateFromDefaultArena\<close>; 0 means no room.\<close>

definition allocateFromDefaultArena :: "u64 \<Rightarrow> u64 \<Rightarrow> arena \<Rightarrow> u32 \<Rightarrow> u64" where
  "allocateFromDefaultArena min_valid_addr max_valid_addr ar sz =
     (let unused_mem_start = ar_cursor ar; unused_mem_end = ar_addr ar + ar_size ar
      in if unused_mem_end < min_valid_addr \<or> max_valid_addr < unused_mem_start then 0
         else let s = max unused_mem_start min_valid_addr; e = min unused_mem_end max_valid_addr
              in if e \<le> s then 0 else if e - s < ucast sz then 0 else s)"

text \<open>The loop over the code arenas stops at the first hit; it yields the index and the address.\<close>

fun near_code_scan :: "(arena \<Rightarrow> u64) \<Rightarrow> nat \<Rightarrow> arena list \<Rightarrow> (nat \<times> u64) option" where
  "near_code_scan f i [] = None"
| "near_code_scan f i (ar # ars) = (if f ar = 0 then near_code_scan f (Suc i) ars else Some (i, f ar))"

text \<open>The loop over the data arenas never stops early: the last arena decides.\<close>

fun near_data_scan :: "(arena \<Rightarrow> u64) \<Rightarrow> nat \<Rightarrow> (nat \<times> u64) option \<Rightarrow> arena list \<Rightarrow> (nat \<times> u64) option" where
  "near_data_scan f i r [] = r"
| "near_data_scan f i r (ar # ars) =
     near_data_scan f (Suc i) (if f ar = 0 then None else Some (i, f ar)) ars"

text \<open>Skip to the address with a placeholder block, then take the block.\<close>

definition skip_and_alloc :: "u64 \<Rightarrow> u32 \<Rightarrow> arena \<Rightarrow> mem_block option \<times> arena" where
  "skip_and_alloc unused_mem sz ar =
     (let placeholder_block_size = unused_mem - ar_cursor ar
      in allocMemBlock (ucast sz) (snd (allocMemBlock placeholder_block_size ar)))"

definition allocateNearBlockFromDefaultAllocator ::
  "u32 \<Rightarrow> u64 \<Rightarrow> u64 \<Rightarrow> bool \<Rightarrow> allocator \<Rightarrow> mem_block option \<times> allocator" where
  "allocateNearBlockFromDefaultAllocator sz pos search_range executable al =
     (let f = (\<lambda>ar. allocateFromDefaultArena (pos - search_range) (pos + search_range) ar sz)
      in if executable
         then (case near_code_scan f 0 (code_arenas al) of
                 None \<Rightarrow> (None, al)
               | Some (i, unused_mem) \<Rightarrow>
                   let (b, ar) = skip_and_alloc unused_mem sz (code_arenas al ! i)
                   in (b, al\<lparr>code_arenas := (code_arenas al)[i := ar]\<rparr>))
         else (case near_data_scan f 0 None (data_arenas al) of
                 None \<Rightarrow> (None, al)
               | Some (i, unused_mem) \<Rightarrow>
                   let (b, ar) = skip_and_alloc unused_mem sz (data_arenas al ! i)
                   in (b, al\<lparr>data_arenas := (data_arenas al)[i := ar]\<rparr>)))"

section \<open>Gaps between regions\<close>

type_synonym region = "u64 \<times> u64"

definition check_has_sufficient_memory_between_region ::
  "u64 \<Rightarrow> u64 \<Rightarrow> region \<Rightarrow> region \<Rightarrow> u32 \<Rightarrow> u64" where
  "check_has_sufficient_memory_between_region min_valid_addr max_valid_addr region next_region sz =
     (let unused_mem_start = fst region + snd region; unused_mem_end = fst next_region
      in if unused_mem_end < min_valid_addr \<or> max_valid_addr < unused_mem_start then 0
         else let s = max (ALIGN_FLOOR unused_mem_start 4) min_valid_addr; e = min unused_mem_end max_valid_addr
              in if e \<le> s then 0 else if e - s < ucast sz then 0 else s)"

fun gap_scan :: "(region \<Rightarrow> region \<Rightarrow> u64) \<Rightarrow> region list \<Rightarrow> u64" where
  "gap_scan f (r # r' # rs) = (if f r r' = 0 then gap_scan f (r' # rs) else f r r')"
| "gap_scan f rs = 0"

text \<open>First page and size of the arena that is mapped around the gap.\<close>

definition unused_arena :: "'o kernel \<Rightarrow> u64 \<Rightarrow> u32 \<Rightarrow> u64 \<times> u64" where
  "unused_arena K unused_mem sz =
     (let first_page = ALIGN_FLOOR unused_mem (k_page_size K);
          end_page = ALIGN_FLOOR (unused_mem + ucast sz) (k_page_size K)
      in (first_page, end_page - first_page + k_page_size K))"

definition allocateNearBlockFromUnusedRegion ::
  "'o kernel \<Rightarrow> ('o world \<Rightarrow> region list) \<Rightarrow> u32 \<Rightarrow> u64 \<Rightarrow> u64 \<Rightarrow> bool \<Rightarrow> allocator \<Rightarrow> 'o world
     \<Rightarrow> mem_block option \<times> allocator \<times> 'o world" where
  "allocateNearBlockFromUnusedRegion K layout sz pos search_range executable al w =
     (let f = (\<lambda>r r'. check_has_sufficient_memory_between_region (pos - search_range) (pos + search_range) r r' sz);
          unused_mem = gap_scan f (layout w)
      in if unused_mem = 0 then (None, al, w)
         else let (arena_addr, arena_size) = unused_arena K unused_mem sz;
                  (p, w1) = OSMemory_Allocate K arena_size kNoAccess arena_addr w
              in if p = 0 then (None, al, w1)
                 else let (_, w2) = OSMemory_SetPermission K arena_addr arena_size
                            (if executable then kReadExecute else kReadWrite) w1;
                          (b, ar) = skip_and_alloc unused_mem sz (MemoryArena arena_addr arena_size)
                      in (b, if executable then al\<lparr>code_arenas := code_arenas al @ [ar]\<rparr>
                             else al\<lparr>data_arenas := data_arenas al @ [ar]\<rparr>, w2))"

definition allocateNearBlock ::
  "'o kernel \<Rightarrow> ('o world \<Rightarrow> region list) \<Rightarrow> u32 \<Rightarrow> u64 \<Rightarrow> u64 \<Rightarrow> bool \<Rightarrow> allocator \<Rightarrow> 'o world
     \<Rightarrow> mem_block option \<times> allocator \<times> 'o world" where
  "allocateNearBlock K layout sz pos search_range executable al w =
     (case allocateNearBlockFromDefaultAllocator sz pos search_range executable al of
        (Some b, al1) \<Rightarrow> (Some b, al1, w)
      | (None, al1) \<Rightarrow> allocateNearBlockFromUnusedRegion K layout sz pos search_range executable al1 w)"

definition allocateNearExecMemory ::
  "'o kernel \<Rightarrow> ('o world \<Rightarrow> region list) \<Rightarrow> u32 \<Rightarrow> u64 \<Rightarrow> u64 \<Rightarrow> allocator \<Rightarrow> 'o world \<Rightarrow> u64 \<times> allocator \<times> 'o world" where
  "allocateNearExecMemory K layout sz pos search_range al w =
     (let (b, al1, w1) = allocateNearBlock K layout sz pos search_range True al w
      in (case b of None \<Rightarrow> 0 | Some b' \<Rightarrow> mb_addr b', al1, w1))"

text \<open>With a buffer: the result is patched without a look at it, so a failure writes at address 0.\<close>

definition allocateNearExecMemory_buffer ::
  "'o kernel \<Rightarrow> ('o world \<Rightarrow> region list) \<Rightarrow> byte list \<Rightarrow> u64 \<Rightarrow> u64 \<Rightarrow> allocator \<Rightarrow> 'o world \<Rightarrow> u64 \<times> allocator \<times> 'o world" where
  "allocateNearExecMemory_buffer K layout buffer pos search_range al w =
     (let (m, al1, w1) = allocateNearExecMemory K layout (of_nat (length buffer)) pos search_range al w
      in (m, al1, DobbyCodePatch K m buffer w1))"

definition allocateNearDataMemory ::
  "'o kernel \<Rightarrow> ('o world \<Rightarrow> region list) \<Rightarrow> u32 \<Rightarrow> u64 \<Rightarrow> u64 \<Rightarrow> allocator \<Rightarrow> 'o world \<Rightarrow> u64 \<times> allocator \<times> 'o world" where
  "allocateNearDataMemory K layout sz pos search_range al w =
     (let (b, al1, w1) = allocateNearBlock K layout sz pos search_range False al w
      in (case b of None \<Rightarrow> 0 | Some b' \<Rightarrow> mb_addr b', al1, w1))"

definition allocateNearDataMemory_buffer ::
  "'o kernel \<Rightarrow> ('o world \<Rightarrow> region list) \<Rightarrow> byte list \<Rightarrow> u64 \<Rightarrow> u64 \<Rightarrow> allocator \<Rightarrow> 'o world \<Rightarrow> u64 \<times> allocator \<times> 'o world" where
  "allocateNearDataMemory_buffer K layout buffer pos search_range al w =
     (let (m, al1, w1) = allocateNearExecMemory K layout (of_nat (length buffer)) pos search_range al w
      in (m, al1, w1\<lparr>w_mem := mem_write m buffer (w_mem w1)\<rparr>))"

end
