(* ===== verification/Allocator_Props.thy ===== *)
theory Allocator_Props
  imports Near_Allocator
begin

text \<open>
  The allocators' contracts: the invariant that keeps live blocks apart, blocks asked for near an address lie
  within the range, and the cases in which the code breaks its own contract. Addresses are
  compared as natural numbers; \<open>span a n\<close> is the set of the \<open>n\<close> addresses from \<open>a\<close> on.
\<close>

unbundle bit_operations_syntax

definition span :: "u64 \<Rightarrow> u64 \<Rightarrow> nat set" where
  "span a n = {unat a..<unat a + unat n}"

definition block_span :: "mem_block \<Rightarrow> nat set" where
  "block_span b = span (mb_addr b) (mb_size b)"

definition arena_ok :: "arena \<Rightarrow> bool" where
  "arena_ok ar \<longleftrightarrow> ar_end ar = ar_addr ar + ar_size ar \<and> unat (ar_addr ar) + unat (ar_size ar) < 2 ^ 64
     \<and> unat (ar_addr ar) \<le> unat (ar_cursor ar) \<and> unat (ar_cursor ar) \<le> unat (ar_addr ar) + unat (ar_size ar)"

lemma unat_add_u64: "unat a + unat b < 2 ^ 64 \<Longrightarrow> unat (a + b :: u64) = unat a + unat b"
  by (simp add: unat_word_ariths)

lemma unat_exp_u64: "n < 64 \<Longrightarrow> unat (2 ^ n :: u64) = 2 ^ n"
proof -
  assume "n < 64"
  then have "(2 :: nat) ^ n < 2 ^ LENGTH(64)" by (intro power_strict_increasing) simp_all
  then have "unat (of_nat (2 ^ n) :: u64) = 2 ^ n" by (simp only: unat_of_nat mod_less)
  then show ?thesis by simp
qed

lemma unat_diff_u64: "unat b \<le> unat a \<Longrightarrow> unat (a - b :: u64) = unat a - unat b"
  by (simp add: unat_sub word_le_nat_alt)

section \<open>One block\<close>

lemma allocMemBlock_ok:
  assumes "arena_ok ar"
  shows "allocMemBlock sz ar =
    (if unat (ar_cursor ar) + unat sz \<le> unat (ar_addr ar) + unat (ar_size ar)
     then (Some (MemBlock (ar_cursor ar) sz), ar\<lparr>ar_cursor := ar_cursor ar + sz\<rparr>) else (None, ar))"
proof -
  have "unat (ar_end ar) = unat (ar_addr ar) + unat (ar_size ar)"
    using assms by (simp add: arena_ok_def unat_add_u64)
  then have "unat (ar_end ar - ar_cursor ar) = unat (ar_addr ar) + unat (ar_size ar) - unat (ar_cursor ar)"
    using assms by (subst unat_diff_u64) (simp_all add: arena_ok_def)
  then show ?thesis using assms by (auto simp: allocMemBlock_def word_less_nat_alt arena_ok_def)
qed

lemma allocMemBlock_Some:
  assumes "allocMemBlock sz ar = (Some b, ar')" and "arena_ok ar"
  shows "b = MemBlock (ar_cursor ar) sz" and "ar' = ar\<lparr>ar_cursor := ar_cursor ar + sz\<rparr>" and "arena_ok ar'"
    and "unat (ar_cursor ar') = unat (ar_cursor ar) + unat sz" and "ar_addr ar' = ar_addr ar" "ar_size ar' = ar_size ar"
proof -
  have le: "unat (ar_cursor ar) + unat sz \<le> unat (ar_addr ar) + unat (ar_size ar)"
    and b: "b = MemBlock (ar_cursor ar) sz" "ar' = ar\<lparr>ar_cursor := ar_cursor ar + sz\<rparr>"
    using assms by (simp_all add: allocMemBlock_ok split: if_splits)
  then have "unat (ar_cursor ar + sz) = unat (ar_cursor ar) + unat sz"
    using assms(2) by (intro unat_add_u64) (simp add: arena_ok_def)
  with b le assms(2) show "b = MemBlock (ar_cursor ar) sz" "ar' = ar\<lparr>ar_cursor := ar_cursor ar + sz\<rparr>" "arena_ok ar'"
    "unat (ar_cursor ar') = unat (ar_cursor ar) + unat sz" "ar_addr ar' = ar_addr ar" "ar_size ar' = ar_size ar"
    by (simp_all add: arena_ok_def)
qed

lemma allocMemBlock_None: "allocMemBlock sz ar = (None, ar') \<Longrightarrow> ar' = ar"
  by (auto simp: allocMemBlock_def split: if_splits)

section \<open>A heap of disjoint blocks\<close>

text \<open>
  The invariant: arenas are well formed, mapped and apart; every live block lies below the cursor
  of an arena; live blocks are apart. \<open>regions\<close> reads the mapped addresses off the world.
\<close>

definition arena_span :: "arena \<Rightarrow> nat set" where
  "arena_span ar = span (ar_addr ar) (ar_size ar)"

definition used_span :: "arena \<Rightarrow> nat set" where
  "used_span ar = {unat (ar_addr ar)..<unat (ar_cursor ar)}"

definition apart :: "nat set list \<Rightarrow> bool" where
  "apart = sorted_wrt (\<lambda>s t. s \<inter> t = {})"

definition heap_inv :: "('o world \<Rightarrow> nat set) \<Rightarrow> allocator \<times> 'o world \<times> mem_block list \<Rightarrow> bool" where
  "heap_inv regions st \<longleftrightarrow> (case st of (al, w, bs) \<Rightarrow>
     (\<forall>ar \<in> set (code_arenas al). arena_ok ar \<and> arena_span ar \<subseteq> regions w)
     \<and> apart (map arena_span (code_arenas al))
     \<and> (\<forall>b \<in> set bs. \<exists>ar \<in> set (code_arenas al). block_span b \<subseteq> used_span ar)
     \<and> apart (map block_span bs))"

text \<open>
  What the kernel promises: \<open>mmap\<close> of whole pages without an address, when it does not fail, maps fresh
  addresses other than 0; \<open>mprotect\<close> maps and unmaps nothing.
\<close>

definition mmap_fresh :: "'o kernel \<Rightarrow> ('o world \<Rightarrow> nat set) \<Rightarrow> bool" where
  "mmap_fresh K regions \<longleftrightarrow>
     (\<forall>sz prot w r w'. k_mmap K 0 sz prot False w = (r, w') \<and> sz mod k_page_size K = 0 \<and> r \<noteq> MAP_FAILED \<longrightarrow>
        r \<noteq> 0 \<and> unat r + unat sz < 2 ^ 64 \<and> span r sz \<inter> regions w = {} \<and> regions w' = regions w \<union> span r sz)
     \<and> (\<forall>a sz prot w. regions (snd (k_mprotect K a sz prot w)) = regions w)"

lemma mmap_freshD:
  assumes "mmap_fresh K regions" and "k_mmap K 0 sz prot False w = (r, w')" and "sz mod k_page_size K = 0" and "r \<noteq> MAP_FAILED"
  shows "r \<noteq> 0" and "unat r + unat sz < 2 ^ 64" and "span r sz \<inter> regions w = {}" and "regions w' = regions w \<union> span r sz"
  using assms(1) [unfolded mmap_fresh_def, THEN conjunct1, rule_format, of sz prot w r w'] assms(2-4) by simp_all

lemma apart_nth:
  assumes "apart xs" and "i < length xs" and "j < length xs" and "i \<noteq> j"
  shows "xs ! i \<inter> xs ! j = {}"
  using assms sorted_wrt_nth_less [of "\<lambda>s t. s \<inter> t = {}" xs i j] sorted_wrt_nth_less [of "\<lambda>s t. s \<inter> t = {}" xs j i]
  by (cases "i < j") (auto simp: apart_def Int_commute)

text \<open>Taking a block at the cursor of one arena, after moving the cursor forward.\<close>

lemma take_block:
  assumes inv: "heap_inv regions (al, w, bs)" and i: "i < length (code_arenas al)"
    and ar: "ar_addr ar = ar_addr (code_arenas al ! i)" "ar_size ar = ar_size (code_arenas al ! i)"
      "ar_end ar = ar_end (code_arenas al ! i)" "arena_ok ar" "unat (ar_cursor (code_arenas al ! i)) \<le> unat (ar_cursor ar)"
    and b: "allocMemBlock sz ar = (Some b, ar')"
  shows "heap_inv regions (al\<lparr>code_arenas := (code_arenas al)[i := ar']\<rparr>, w, b # bs)"
proof -
  let ?ars = "code_arenas al"
  note s = allocMemBlock_Some [OF b ar(4)]
  have spans: "map arena_span (?ars[i := ar']) = map arena_span ?ars"
  proof -
    have "arena_span ar' = map arena_span ?ars ! i" using i s(5,6) ar(1,2) by (simp add: arena_span_def)
    then show ?thesis by (simp only: map_update list_update_id)
  qed
  have old: "\<forall>a \<in> set ?ars. arena_ok a \<and> arena_span a \<subseteq> regions w" and ap: "apart (map arena_span ?ars)"
    and bl: "\<forall>b \<in> set bs. \<exists>a \<in> set ?ars. block_span b \<subseteq> used_span a" and apb: "apart (map block_span bs)"
    using inv by (simp_all add: heap_inv_def)
  have ok': "arena_ok ar' \<and> arena_span ar' \<subseteq> regions w"
    using s(3,5,6) old i ar(1,2) by (simp add: arena_span_def)
  have grow: "used_span (?ars ! i) \<subseteq> used_span ar'"
    using s(4,5) ar(1,5) by (auto simp: used_span_def)
  have bspan: "block_span b = {unat (ar_cursor ar)..<unat (ar_cursor ar')}"
    using s(4) by (simp add: s(1) block_span_def span_def MemBlock_def)
  have in': "block_span b \<subseteq> used_span ar'"
    using bspan s(4,5) ar(4) by (auto simp: used_span_def arena_ok_def)
  have mono: "\<exists>a' \<in> set (?ars[i := ar']). X \<subseteq> used_span a'" if aX: "a \<in> set ?ars" "X \<subseteq> used_span a" for a X
  proof -
    obtain j where j: "j < length ?ars" "a = ?ars ! j" using aX(1) unfolding in_set_conv_nth by blast
    show ?thesis
    proof (cases "j = i")
      case True
      then have "X \<subseteq> used_span ar'" using aX(2) grow j by auto
      with i show ?thesis by (meson set_update_memI)
    next
      case False
      then have "?ars[i := ar'] ! j = a" using j by simp
      moreover have "?ars[i := ar'] ! j \<in> set (?ars[i := ar'])" using j(1) by (intro nth_mem) simp
      ultimately show ?thesis using aX(2) by metis
    qed
  qed
  have disj: "block_span b \<inter> block_span c = {}" if "c \<in> set bs" for c
  proof -
    obtain a where a: "a \<in> set ?ars" "block_span c \<subseteq> used_span a" using bl \<open>c \<in> set bs\<close> by blast
    obtain j where j: "j < length ?ars" "a = ?ars ! j" using a(1) unfolding in_set_conv_nth by blast
    show ?thesis
    proof (cases "j = i")
      case True
      with a(2) j bspan ar(1,5) show ?thesis by (auto simp: used_span_def)
    next
      case False
      then have "arena_span (?ars ! i) \<inter> arena_span (?ars ! j) = {}"
        using apart_nth [OF ap, of i j] i j(1) by simp
      moreover have "used_span a \<subseteq> arena_span a" using old a(1) by (auto simp: used_span_def arena_span_def span_def arena_ok_def)
      moreover have "used_span ar' \<subseteq> arena_span (?ars ! i)"
        using s(3,5,6) ar(1,2) by (auto simp: used_span_def arena_span_def span_def arena_ok_def)
      ultimately show ?thesis using in' a(2) j by blast
    qed
  qed
  have "\<forall>a \<in> set (?ars[i := ar']). arena_ok a \<and> arena_span a \<subseteq> regions w"
    using old ok' by (auto dest!: set_update_subset_insert [THEN subsetD])
  moreover have "apart (map block_span (b # bs))"
    using disj apb by (simp add: apart_def)
  moreover have "\<exists>a \<in> set (?ars[i := ar']). block_span b \<subseteq> used_span a"
    using in' i by (meson set_update_memI)
  moreover have "\<forall>c \<in> set bs. \<exists>a \<in> set (?ars[i := ar']). block_span c \<subseteq> used_span a"
    using bl mono by blast
  ultimately show ?thesis using ap spans by (simp add: heap_inv_def)
qed

text \<open>The scan for room is one such step; a fresh arena keeps the invariant.\<close>

lemma alloc_first_Some:
  "alloc_first sz ars = Some (b, ars') \<Longrightarrow>
    \<exists>i ar'. i < length ars \<and> allocMemBlock sz (ars ! i) = (Some b, ar') \<and> ars' = ars[i := ar']"
proof (induction sz ars arbitrary: ars' rule: alloc_first.induct)
  case (2 sz ar ars)
  obtain r ar1 where a: "allocMemBlock sz ar = (r, ar1)" by force
  show ?case
  proof (cases r)
    case None
    then obtain bs where n: "alloc_first sz ars = Some (b, bs)" "ars' = ar1 # bs" using "2.prems" a by auto
    then obtain i ar' where "i < length ars" "allocMemBlock sz (ars ! i) = (Some b, ar')" "bs = ars[i := ar']"
      using "2.IH" [OF a [symmetric] None n(1)] by blast
    then show ?thesis using n a None allocMemBlock_None [of sz ar ar1] by (intro exI [of _ "Suc i"]) auto
  next
    case (Some c)
    then show ?thesis using "2.prems" a by (intro exI [of _ 0]) auto
  qed
qed simp

lemma heap_inv_first:
  assumes "heap_inv regions (al, w, bs)" and "alloc_first sz (code_arenas al) = Some (b, ars)"
  shows "heap_inv regions (al\<lparr>code_arenas := ars\<rparr>, w, b # bs)"
proof -
  obtain i ar' where i: "i < length (code_arenas al)" "allocMemBlock sz (code_arenas al ! i) = (Some b, ar')"
    "ars = (code_arenas al)[i := ar']" using alloc_first_Some [OF assms(2)] by blast
  moreover have "arena_ok (code_arenas al ! i)" using assms(1) i(1) by (simp add: heap_inv_def)
  ultimately show ?thesis using take_block [OF assms(1) i(1), of "code_arenas al ! i" sz b ar'] by simp
qed

lemma heap_inv_append:
  assumes "heap_inv regions (al, w, bs)" and "arena_ok ar" and "arena_span ar \<inter> regions w = {}"
    and "regions w' = regions w \<union> arena_span ar"
  shows "heap_inv regions (al\<lparr>code_arenas := code_arenas al @ [ar]\<rparr>, w', bs)"
proof -
  have "\<forall>a \<in> set (code_arenas al). arena_span a \<inter> arena_span ar = {}"
    using assms(1,3) by (fastforce simp: heap_inv_def)
  then show ?thesis using assms by (auto simp: heap_inv_def apart_def sorted_wrt_append)
qed

lemma heap_inv_new_arena:
  assumes "heap_inv regions (al, w, bs)" and "mmap_fresh K regions"
    and "allocateCodeMemoryArena K sz al w = Inr (ar, al', w')" and "ar_addr ar \<noteq> 0"
  shows "heap_inv regions (al', w', bs)" and "code_arenas al' = code_arenas al @ [ar]"
proof -
  obtain r w1 where m: "k_mmap K 0 (ucast sz) 0 False w = (r, w1)" by force
  have nf: "r \<noteq> MAP_FAILED"
    using assms(3,4) m
    by (auto simp: allocateCodeMemoryArena_def OSMemory_Allocate_def MemoryArena_def Let_def split: if_splits prod.splits)
  have pages: "(ucast sz :: u64) mod k_page_size K = 0"
    using assms(3) by (simp add: allocateCodeMemoryArena_def split: if_splits)
  have K: "unat r + unat (ucast sz :: u64) < 2 ^ 64" "span r (ucast sz) \<inter> regions w = {}"
    "regions w1 = regions w \<union> span r (ucast sz)"
    using mmap_freshD [OF assms(2) m pages nf] by simp_all
  have c: "ar = MemoryArena r (ucast sz)" "al' = al\<lparr>code_arenas := code_arenas al @ [ar]\<rparr>"
    "w' = snd (k_mprotect K r (ucast sz) 5 w1)"
    using assms(3) m nf
    by (auto simp: allocateCodeMemoryArena_def OSMemory_Allocate_def OSMemory_SetPermission_def Let_def
        split: if_splits prod.splits)
  then have w': "regions w' = regions w \<union> arena_span ar"
    using assms(2) K(3) by (simp add: mmap_fresh_def arena_span_def MemoryArena_def)
  have ok: "arena_ok ar" using K(1) by (simp add: c arena_ok_def MemoryArena_def)
  have "arena_span ar \<inter> regions w = {}" using K(2) by (simp add: c arena_span_def MemoryArena_def)
  then show "heap_inv regions (al', w', bs)"
    unfolding c(2) by (rule heap_inv_append [OF assms(1) ok _ w'])
  show "code_arenas al' = code_arenas al @ [ar]" by (simp add: c(2))
qed

lemma heap_inv_exec:
  assumes "heap_inv regions (al, w, bs)" and "mmap_fresh K regions"
    and "allocateExecBlock K sz al w = Inr (b, al', w')" and "mb_addr b \<noteq> 0"
  shows "heap_inv regions (al', w', b # bs)"
proof (cases "alloc_first (ucast sz) (code_arenas al)")
  case (Some p)
  then show ?thesis
    using assms(1,3) heap_inv_first [OF assms(1)] by (cases p) (auto simp: allocateExecBlock_def)
next
  case None
  then obtain ar al1 where n: "allocateCodeMemoryArena K (ucast (ALIGN_CEIL (ucast sz) (k_page_size K))) al w = Inr (ar, al1, w')"
    and l: "alloc_last (ucast sz) al1 = Inr (b, al')"
    using assms(3) by (auto simp: allocateExecBlock_def Let_def ebind_Inr_iff)
  have "code_arenas al1 = code_arenas al @ [ar]" "ar_cursor ar = ar_addr ar"
    using n by (auto simp: allocateCodeMemoryArena_def MemoryArena_def Let_def split: if_splits prod.splits)
  then have "ar_addr ar = mb_addr b"
    using l by (auto simp: alloc_last_def allocMemBlock_def MemBlock_def split: if_splits)
  then have "ar_addr ar \<noteq> 0" using assms(4) by simp
  note h = heap_inv_new_arena [OF assms(1,2) n this]
  have last: "last (code_arenas al1) = code_arenas al1 ! length (code_arenas al)" using h(2) by simp
  obtain ar' where a: "allocMemBlock (ucast sz) (last (code_arenas al1)) = (Some b, ar')"
    "al' = al1\<lparr>code_arenas := (code_arenas al1)[length (code_arenas al) := ar']\<rparr>"
    using l h(2) by (auto simp: alloc_last_def split: prod.splits option.splits)
  have i: "length (code_arenas al) < length (code_arenas al1)" using h(2) by simp
  moreover have "arena_ok (code_arenas al1 ! length (code_arenas al))"
    using h(1) i by (simp add: heap_inv_def)
  ultimately show ?thesis
    using take_block [OF h(1) i, of "code_arenas al1 ! length (code_arenas al)"] a last by simp
qed

section \<open>Blocks near an address\<close>

lemma near_code_scan_Some:
  "near_code_scan f k ars = Some (i, u) \<Longrightarrow> k \<le> i \<and> i - k < length ars \<and> f (ars ! (i - k)) = u \<and> u \<noteq> 0"
proof (induction f k ars rule: near_code_scan.induct)
  case (2 f k ar ars)
  show ?case
  proof (cases "f ar = 0")
    case True
    with 2 have "Suc k \<le> i \<and> i - Suc k < length ars \<and> f (ars ! (i - Suc k)) = u \<and> u \<noteq> 0" by simp
    moreover from this have "i - k = Suc (i - Suc k)" by linarith
    ultimately show ?thesis by simp
  next
    case False
    with 2 show ?thesis by auto
  qed
qed simp

lemma near_data_scan_last:
  "near_data_scan f k r ars = (if ars = [] then r else if f (last ars) = 0 then None
     else Some (k + length ars - 1, f (last ars)))"
  by (induction f k r ars rule: near_data_scan.induct) auto

lemma default_arena_bounds:
  assumes "allocateFromDefaultArena lo hi ar sz = u" and "u \<noteq> 0" and "arena_ok ar"
  shows "unat (ar_cursor ar) \<le> unat u" and "unat lo \<le> unat u" and "unat u + unat (ucast sz :: u64) \<le> unat hi"
    and "unat u + unat (ucast sz :: u64) \<le> unat (ar_addr ar) + unat (ar_size ar)"
proof -
  define e where "e = min (ar_addr ar + ar_size ar) hi"
  have u: "u = max (ar_cursor ar) lo" "u < e" "ucast sz \<le> e - u"
    using assms(1,2) by (auto simp: allocateFromDefaultArena_def Let_def e_def not_le not_less split: if_splits)
  have "unat u + unat (ucast sz :: u64) \<le> unat e"
    using u(2,3) by (simp add: word_le_nat_alt word_less_nat_alt unat_diff_u64)
  moreover have "unat e \<le> unat hi" "unat e \<le> unat (ar_addr ar) + unat (ar_size ar)"
  proof -
    have "e \<le> hi" "e \<le> ar_addr ar + ar_size ar" by (simp_all add: e_def)
    then show "unat e \<le> unat hi" "unat e \<le> unat (ar_addr ar) + unat (ar_size ar)"
      using assms(3) by (simp_all add: word_le_nat_alt arena_ok_def unat_add_u64)
  qed
  ultimately show "unat u + unat (ucast sz :: u64) \<le> unat hi"
    "unat u + unat (ucast sz :: u64) \<le> unat (ar_addr ar) + unat (ar_size ar)" by simp_all
  show "unat (ar_cursor ar) \<le> unat u" "unat lo \<le> unat u"
    by (simp_all add: u(1) word_le_nat_alt [symmetric])
qed

lemma skip_and_alloc_ok:
  assumes "arena_ok ar" and "unat (ar_cursor ar) \<le> unat u"
    and "unat u + unat (ucast sz :: u64) \<le> unat (ar_addr ar) + unat (ar_size ar)"
  shows "skip_and_alloc u sz ar = allocMemBlock (ucast sz) (ar\<lparr>ar_cursor := u\<rparr>)"
    and "arena_ok (ar\<lparr>ar_cursor := u\<rparr>)"
    and "fst (skip_and_alloc u sz ar) = Some (MemBlock u (ucast sz))"
proof -
  have d: "unat (u - ar_cursor ar) = unat u - unat (ar_cursor ar)" using assms(2) by (rule unat_diff_u64)
  then have "allocMemBlock (u - ar_cursor ar) ar = (Some (MemBlock (ar_cursor ar) (u - ar_cursor ar)), ar\<lparr>ar_cursor := u\<rparr>)"
    using assms by (simp add: allocMemBlock_ok)
  then show s: "skip_and_alloc u sz ar = allocMemBlock (ucast sz) (ar\<lparr>ar_cursor := u\<rparr>)"
    by (simp add: skip_and_alloc_def)
  show ok: "arena_ok (ar\<lparr>ar_cursor := u\<rparr>)" using assms by (simp add: arena_ok_def)
  show "fst (skip_and_alloc u sz ar) = Some (MemBlock u (ucast sz))"
    using assms(3) by (simp add: s allocMemBlock_ok [OF ok])
qed

lemma heap_inv_near:
  assumes "heap_inv regions (al, w, bs)"
    and "allocateNearBlockFromDefaultAllocator sz pos rng True al = (Some b, al')"
  shows "heap_inv regions (al', w, b # bs)"
    and "b = MemBlock (mb_addr b) (ucast sz)" and "unat (pos - rng) \<le> unat (mb_addr b)"
    and "unat (mb_addr b) + unat (ucast sz :: u64) \<le> unat (pos + rng)"
proof -
  let ?f = "\<lambda>ar. allocateFromDefaultArena (pos - rng) (pos + rng) ar sz"
  obtain i u ar' where sc: "near_code_scan ?f 0 (code_arenas al) = Some (i, u)"
    and sk: "skip_and_alloc u sz (code_arenas al ! i) = (Some b, ar')"
    and al': "al' = al\<lparr>code_arenas := (code_arenas al)[i := ar']\<rparr>"
    using assms(2)
    by (auto simp: allocateNearBlockFromDefaultAllocator_def Let_def split: option.splits prod.splits)
  have i: "i < length (code_arenas al)" "?f (code_arenas al ! i) = u" "u \<noteq> 0"
    using near_code_scan_Some [OF sc] by simp_all
  have ok: "arena_ok (code_arenas al ! i)" using assms(1) i(1) by (simp add: heap_inv_def)
  note bd = default_arena_bounds [OF i(2,3) ok]
  note sa = skip_and_alloc_ok [OF ok bd(1,4)]
  have "allocMemBlock (ucast sz) ((code_arenas al ! i)\<lparr>ar_cursor := u\<rparr>) = (Some b, ar')" using sk sa(1) by simp
  then show "heap_inv regions (al', w, b # bs)"
    unfolding al' by (rule take_block [OF assms(1) i(1), rotated -1]) (use sa(2) bd(1) in simp_all)
  have b: "b = MemBlock u (ucast sz)" using sa(3) sk by simp
  then show "b = MemBlock (mb_addr b) (ucast sz)" "unat (pos - rng) \<le> unat (mb_addr b)"
    "unat (mb_addr b) + unat (ucast sz :: u64) \<le> unat (pos + rng)"
    using bd by (simp_all add: MemBlock_def)
qed

section \<open>Arenas around a gap\<close>

lemma ALIGN_FLOOR_pow:
  assumes "n < 64"
  shows "unat (ALIGN_FLOOR a (2 ^ n)) = unat a - unat a mod 2 ^ n" and "ALIGN_FLOOR a (2 ^ n) \<le> a"
proof -
  have "ALIGN_FLOOR a (2 ^ n) = a AND NOT (mask n)" by (simp add: ALIGN_FLOOR_def mask_eq_exp_minus_1)
  also have "\<dots> = push_bit n (drop_bit n a)" by (rule bit_word_eqI) (auto simp: bit_simps not_less)
  also have "\<dots> = a - take_bit n a" using bits_ident [of n a] by (simp add: eq_diff_eq)
  finally have f: "ALIGN_FLOOR a (2 ^ n) = a - take_bit n a" .
  have t: "unat (take_bit n a) = unat a mod 2 ^ n" by (simp only: unsigned_take_bit_eq) (simp only: take_bit_eq_mod)
  then have le: "unat (take_bit n a) \<le> unat a" by simp
  show u: "unat (ALIGN_FLOOR a (2 ^ n)) = unat a - unat a mod 2 ^ n"
    using le by (simp add: f unat_diff_u64 t)
  then show "ALIGN_FLOOR a (2 ^ n) \<le> a" by (simp add: word_le_nat_alt)
qed

definition page_floor :: "nat \<Rightarrow> nat \<Rightarrow> nat" where
  "page_floor n a = a - a mod 2 ^ n"

lemma page_floor: "page_floor n a \<le> a" "a < page_floor n a + 2 ^ n" "2 ^ n dvd page_floor n a"
  "a \<le> b \<Longrightarrow> page_floor n a \<le> page_floor n b"
proof -
  have p: "page_floor n a = a div 2 ^ n * 2 ^ n" for a by (simp add: page_floor_def minus_mod_eq_div_mult)
  show "page_floor n a \<le> a" "2 ^ n dvd page_floor n a" by (simp_all add: p)
  have "a mod 2 ^ n < 2 ^ n" "a mod 2 ^ n \<le> a" by simp_all
  then show "a < page_floor n a + 2 ^ n" unfolding page_floor_def by linarith
  show "a \<le> b \<Longrightarrow> page_floor n a \<le> page_floor n b" by (simp add: p div_le_mono)
qed

lemma page_floor_next: "a < b \<Longrightarrow> 2 ^ n dvd b \<Longrightarrow> page_floor n a + 2 ^ n \<le> b"
proof -
  assume "a < b" "2 ^ n dvd b"
  obtain i j where ij: "page_floor n a = 2 ^ n * i" "b = 2 ^ n * j"
    using page_floor(3) [of n a] \<open>2 ^ n dvd b\<close> by (auto elim!: dvdE)
  have "2 ^ n * i < 2 ^ n * j" using page_floor(1) [of n a] \<open>a < b\<close> by (simp add: ij flip: ij(1))
  then have "i < j" by (rule mult_less_cancel1 [THEN iffD1, THEN conjunct2])
  then have "2 ^ n * Suc i \<le> 2 ^ n * j" by (intro mult_le_mono2) simp
  then show "page_floor n a + 2 ^ n \<le> b" by (simp add: ij)
qed

lemma unused_arena_span:
  assumes "k_page_size K = 2 ^ n" and "n < 32" and "unat um + unat (ucast sz :: u64) + 2 ^ n < 2 ^ 64"
    and "unused_arena K um sz = (a, s)"
  shows "unat a = page_floor n (unat um)" and "unat a + unat s = page_floor n (unat um + unat (ucast sz :: u64)) + 2 ^ n"
proof -
  have n: "n < 64" using assms(2) by simp
  have um: "unat (um + ucast sz) = unat um + unat (ucast sz :: u64)" using assms(3) by (intro unat_add_u64) simp
  have a: "a = ALIGN_FLOOR um (2 ^ n)" "s = ALIGN_FLOOR (um + ucast sz) (2 ^ n) - a + 2 ^ n"
    using assms(1,4) by (auto simp: unused_arena_def Let_def)
  show ua: "unat a = page_floor n (unat um)" by (simp add: a(1) ALIGN_FLOOR_pow [OF n] page_floor_def)
  have e: "unat (ALIGN_FLOOR (um + ucast sz) (2 ^ n)) = page_floor n (unat um + unat (ucast sz :: u64))"
    by (simp add: ALIGN_FLOOR_pow [OF n] um page_floor_def)
  have le: "unat a \<le> unat (ALIGN_FLOOR (um + ucast sz) (2 ^ n))" unfolding ua e by (intro page_floor(4)) simp
  have p: "unat (2 ^ n :: u64) = 2 ^ n" using n by (rule unat_exp_u64)
  have "unat s = page_floor n (unat um + unat (ucast sz :: u64)) - unat a + 2 ^ n"
    unfolding a(2) using page_floor(1) [of n "unat um + unat (ucast sz :: u64)"] assms(3)
    by (subst unat_add_u64) (simp_all add: unat_diff_u64 [OF le] e p)
  then show "unat a + unat s = page_floor n (unat um + unat (ucast sz :: u64)) + 2 ^ n"
    using le e by simp
qed

lemma arena_overlap_iff:
  assumes "k_page_size K = 2 ^ n" and "n < 32"
    and "unused_arena K um sz = (a, s)" and "unat um + unat (ucast sz :: u64) \<le> unat nxt" and "2 ^ n dvd unat nxt"
    and "unat nxt + 2 ^ n < 2 ^ 64"
  shows "unat nxt < unat a + unat s \<longleftrightarrow> unat um + unat (ucast sz :: u64) = unat nxt"
proof -
  define e where "e = unat um + unat (ucast sz :: u64)"
  have s: "unat a + unat s = page_floor n e + 2 ^ n"
    unfolding e_def using assms(4,6) by (intro unused_arena_span(2) [OF assms(1,2) _ assms(3)]) simp
  show ?thesis
  proof
    assume "unat um + unat (ucast sz :: u64) = unat nxt"
    then have "page_floor n e = unat nxt" using assms(5) by (simp add: page_floor_def e_def dvd_imp_mod_0)
    then show "unat nxt < unat a + unat s" by (simp add: s)
  next
    assume lt: "unat nxt < unat a + unat s"
    show "unat um + unat (ucast sz :: u64) = unat nxt"
    proof (rule ccontr)
      assume "unat um + unat (ucast sz :: u64) \<noteq> unat nxt"
      then have "page_floor n e + 2 ^ n \<le> unat nxt" using assms(4,5) by (intro page_floor_next) (simp_all add: e_def)
      with lt s show False by simp
    qed
  qed
qed

text \<open>C39: the pages mapped over a gap, with \<open>MAP_FIXED\<close>, stay clear of the next region exactly when the
  block ends before that region starts; a block that fills the gap to its end destroys the first
  page of the region behind it.\<close>

theorem gap_arena_overlap_iff:
  assumes "k_page_size K = 2 ^ n" and "n < 32"
    and "unused_arena K um sz = (a, s)" and "unat um + unat (ucast sz :: u64) \<le> unat nxt" and "2 ^ n dvd unat nxt"
    and "unat nxt + 2 ^ n < 2 ^ 64"
  shows "unat nxt < unat a + unat s \<longleftrightarrow> unat um + unat (ucast sz :: u64) = unat nxt"
  using assms by (rule arena_overlap_iff)

lemma gap_bounds:
  assumes "check_has_sufficient_memory_between_region lo hi r r' sz = u" and "u \<noteq> 0"
  shows "unat lo \<le> unat u" and "unat u + unat (ucast sz :: u64) \<le> unat hi"
    and "unat u + unat (ucast sz :: u64) \<le> unat (fst r')"
proof -
  define e where "e = min (fst r') hi"
  have u: "u = max (ALIGN_FLOOR (fst r + snd r) 4) lo" "u < e" "ucast sz \<le> e - u"
    using assms by (auto simp: check_has_sufficient_memory_between_region_def Let_def e_def not_le not_less split: if_splits)
  have "unat u + unat (ucast sz :: u64) \<le> unat e"
    using u(2,3) by (simp add: word_le_nat_alt word_less_nat_alt unat_diff_u64)
  moreover have "unat e \<le> unat hi" "unat e \<le> unat (fst r')" by (simp_all add: e_def word_le_nat_alt [symmetric])
  ultimately show "unat u + unat (ucast sz :: u64) \<le> unat hi" "unat u + unat (ucast sz :: u64) \<le> unat (fst r')" by simp_all
  show "unat lo \<le> unat u" by (simp add: u(1) word_le_nat_alt [symmetric])
qed

lemma gap_scan_hit: "gap_scan f rs = u \<Longrightarrow> u \<noteq> 0 \<Longrightarrow> \<exists>xs r r' ys. rs = xs @ r # r' # ys \<and> f r r' = u"
proof (induction f rs rule: gap_scan.induct)
  case (1 f r r' rs)
  show ?case
  proof (cases "f r r' = 0")
    case True
    with 1 obtain xs q q' ys where "r' # rs = xs @ q # q' # ys" "f q q' = u" by auto
    then show ?thesis by (intro exI [of _ "r # xs"] exI [of _ q] exI [of _ q'] exI [of _ ys]) simp
  next
    case False
    then show ?thesis using "1.prems" by (intro exI [of _ "[]"] exI [of _ r] exI [of _ r'] exI [of _ rs]) simp
  qed
qed auto

definition in_range :: "mem_block \<Rightarrow> u32 \<Rightarrow> u64 \<Rightarrow> u64 \<Rightarrow> bool" where
  "in_range b sz pos rng \<longleftrightarrow> b = MemBlock (mb_addr b) (ucast sz) \<and> unat pos - unat rng \<le> unat (mb_addr b)
     \<and> unat (mb_addr b) + unat (ucast sz :: u64) \<le> unat pos + unat rng"

lemma near_default_in_range:
  assumes "allocateNearBlockFromDefaultAllocator sz pos rng executable al = (Some b, al')"
    and "\<forall>ar \<in> set (code_arenas al) \<union> set (data_arenas al). arena_ok ar"
    and "unat rng \<le> unat pos" and "unat pos + unat rng < 2 ^ 64"
  shows "in_range b sz pos rng"
proof -
  let ?f = "\<lambda>ar. allocateFromDefaultArena (pos - rng) (pos + rng) ar sz"
  have "\<exists>ar u. ar \<in> set (code_arenas al) \<union> set (data_arenas al) \<and> ?f ar = u \<and> u \<noteq> 0
      \<and> fst (skip_and_alloc u sz ar) = Some b"
  proof (cases executable)
    case True
    then obtain i u where "near_code_scan ?f 0 (code_arenas al) = Some (i, u)"
      and "fst (skip_and_alloc u sz (code_arenas al ! i)) = Some b"
      using assms(1) by (auto simp: allocateNearBlockFromDefaultAllocator_def Let_def split: option.splits prod.splits)
    then show ?thesis using near_code_scan_Some [of ?f 0 "code_arenas al" i u]
      by (intro exI [of _ "code_arenas al ! i"] exI [of _ u]) simp
  next
    case False
    then obtain i u where s: "near_data_scan ?f 0 None (data_arenas al) = Some (i, u)"
      and a: "fst (skip_and_alloc u sz (data_arenas al ! i)) = Some b"
      using assms(1) by (auto simp: allocateNearBlockFromDefaultAllocator_def Let_def split: option.splits prod.splits)
    have "data_arenas al \<noteq> []" "?f (last (data_arenas al)) = u" "u \<noteq> 0" "i = length (data_arenas al) - 1"
      using s by (auto simp: near_data_scan_last split: if_splits)
    then show ?thesis using a by (intro exI [of _ "last (data_arenas al)"] exI [of _ u]) (simp add: last_conv_nth)
  qed
  then obtain ar u where ar: "ar \<in> set (code_arenas al) \<union> set (data_arenas al)" "?f ar = u" "u \<noteq> 0"
    "fst (skip_and_alloc u sz ar) = Some b" by blast
  then have ok: "arena_ok ar" using assms(2) by blast
  note bd = default_arena_bounds [OF ar(2,3) ok]
  have "b = MemBlock u (ucast sz)" using skip_and_alloc_ok(3) [OF ok bd(1,4)] ar(4) by simp
  then show ?thesis
    using bd(2,3) assms(3,4) by (simp add: in_range_def MemBlock_def unat_diff_u64 unat_add_u64)
qed

lemma near_region_block:
  assumes "allocateNearBlockFromUnusedRegion K layout sz pos rng executable al w = (Some b, al', w')"
    and "k_page_size K = 2 ^ n" and "n < 32" and "unat pos + unat rng + 2 ^ n < 2 ^ 64"
  shows "\<exists>xs r r' ys u. layout w = xs @ r # r' # ys \<and> u \<noteq> 0 \<and> b = MemBlock u (ucast sz)
    \<and> check_has_sufficient_memory_between_region (pos - rng) (pos + rng) r r' sz = u"
proof -
  let ?f = "\<lambda>r r'. check_has_sufficient_memory_between_region (pos - rng) (pos + rng) r r' sz"
  define u where "u = gap_scan ?f (layout w)"
  obtain a s where as: "unused_arena K u sz = (a, s)" by force
  have u: "u \<noteq> 0" and b: "fst (skip_and_alloc u sz (MemoryArena a s)) = Some b"
    using assms(1) as
    by (auto simp: allocateNearBlockFromUnusedRegion_def Let_def split: if_splits prod.splits simp flip: u_def)
  obtain xs r r' ys where hit: "layout w = xs @ r # r' # ys" "?f r r' = u" using gap_scan_hit [of ?f "layout w" u] u by (auto simp: u_def)
  note g = gap_bounds [OF hit(2) u]
  have hi: "unat (pos + rng) = unat pos + unat rng" using assms(4) by (intro unat_add_u64) simp
  have wrap: "unat u + unat (ucast sz :: u64) + 2 ^ n < 2 ^ 64" using g(2) assms(4) hi by simp
  note sp = unused_arena_span [OF assms(2,3) wrap as]
  have fl: "page_floor n (unat u + unat (ucast sz :: u64)) \<le> unat u + unat (ucast sz :: u64)" by (rule page_floor(1))
  have ok: "arena_ok (MemoryArena a s)"
    using sp(2) fl wrap by (simp add: arena_ok_def MemoryArena_def)
  have "fst (skip_and_alloc u sz (MemoryArena a s)) = Some (MemBlock u (ucast sz))"
    by (rule skip_and_alloc_ok(3) [OF ok])
      (use sp page_floor(1) [of n "unat u"] page_floor(2) [of "unat u + unat (ucast sz :: u64)" n]
        in \<open>simp_all add: MemoryArena_def less_imp_le\<close>)
  with b have "b = MemBlock u (ucast sz)" by simp
  then show ?thesis using hit u by blast
qed

lemma near_region_in_range:
  assumes "allocateNearBlockFromUnusedRegion K layout sz pos rng executable al w = (Some b, al', w')"
    and "k_page_size K = 2 ^ n" and "n < 32"
    and "unat rng \<le> unat pos" and "unat pos + unat rng + 2 ^ n < 2 ^ 64"
  shows "in_range b sz pos rng"
proof -
  obtain r r' u where u: "u \<noteq> 0" "b = MemBlock u (ucast sz)"
      "check_has_sufficient_memory_between_region (pos - rng) (pos + rng) r r' sz = u"
    using near_region_block [OF assms(1-3,5)] by blast
  have hi: "unat (pos + rng) = unat pos + unat rng" using assms(5) by (intro unat_add_u64) simp
  show ?thesis using gap_bounds(1,2) [OF u(3,1)] u(2) assms(4) hi by (simp add: in_range_def MemBlock_def unat_diff_u64)
qed

text \<open>C25: a block the near allocator returns has the size asked for and lies within the search range, from
  whichever of its two sources it comes.\<close>

theorem near_block_in_range:
  assumes "allocateNearBlock K layout sz pos rng executable al w = (Some b, al', w')"
    and "\<forall>ar \<in> set (code_arenas al) \<union> set (data_arenas al). arena_ok ar"
    and "k_page_size K = 2 ^ n" and "n < 32"
    and "unat rng \<le> unat pos" and "unat pos + unat rng + 2 ^ n < 2 ^ 64"
  shows "in_range b sz pos rng"
  using assms(1) near_default_in_range [of sz pos rng executable al b al'] near_region_in_range [OF _ assms(3-6)] assms(2,5,6)
  by (auto simp: allocateNearBlock_def split: prod.splits option.splits)

section \<open>Where the data side breaks\<close>

text \<open>The scan for near data memory is decided by the last data arena alone: with no room there
  the existing arenas are refused, whatever room the others have.\<close>

lemma near_data_last_arena_decides:
  assumes "data_arenas al \<noteq> []"
    and "allocateFromDefaultArena (pos - rng) (pos + rng) (last (data_arenas al)) sz = 0"
  shows "allocateNearBlockFromDefaultAllocator sz pos rng False al = (None, al)"
  using assms by (simp add: allocateNearBlockFromDefaultAllocator_def near_data_scan_last)

text \<open>Without room in a data arena, a data block ends the program unless its size is a whole number of
  pages, and otherwise comes out of a new code arena, which is mapped readable and executable only.\<close>

lemma data_block_from_code_arena:
  assumes "alloc_first (ucast sz) (data_arenas al) = None"
  shows "allocateDataBlock K sz al w =
    (if (ucast sz :: u64) mod k_page_size K \<noteq> 0 then Inl Check
     else let (a, w1) = OSMemory_Allocate K (ucast sz) kNoAccess 0 w;
              (_, w2) = OSMemory_SetPermission K a (ucast sz) kReadExecute w1
          in Inr (MemBlock a (ucast sz),
                al\<lparr>code_arenas := code_arenas al @ [(MemoryArena a (ucast sz))\<lparr>ar_cursor := a + ucast sz\<rparr>]\<rparr>, w2))"
  using assms
  by (auto simp: allocateDataBlock_def allocateCodeMemoryArena_def alloc_last_def allocMemBlock_def MemoryArena_def
      Let_def split: prod.splits)

section \<open>The theorems at concrete inputs\<close>

text \<open>A kernel that maps from a rising address, and a world that is that address.\<close>

definition bump_mmap :: "u64 \<Rightarrow> u64 \<Rightarrow> u32 \<Rightarrow> bool \<Rightarrow> nat world \<Rightarrow> u64 \<times> nat world" where
  "bump_mmap a sz prot fixed w =
     (if fixed then (a, w)
      else if 0x1000 \<le> w_os w \<and> w_os w + unat sz < 2 ^ 63 then (of_nat (w_os w), w\<lparr>w_os := w_os w + unat sz\<rparr>)
      else (MAP_FAILED, w))"

definition bump_kernel :: "nat kernel" where
  "bump_kernel = \<lparr>k_page_size = 0x1000, k_mmap = bump_mmap, k_mprotect = (\<lambda>a n p w. (0, w))\<rparr>"

definition bump_world :: "nat world" where
  "bump_world = \<lparr>w_mem = (\<lambda>_. 0), w_os = 0x10000\<rparr>"

definition bump_regions :: "nat world \<Rightarrow> nat set" where
  "bump_regions w = {0x1000..<w_os w}"

lemma bump_fresh: "mmap_fresh bump_kernel bump_regions"
  unfolding mmap_fresh_def
proof (intro conjI allI impI; (elim conjE)?)
  fix sz prot w r w'
  assume m: "k_mmap bump_kernel 0 sz prot False w = (r, w')" and nf: "r \<noteq> MAP_FAILED"
  then have c: "0x1000 \<le> w_os w" "w_os w + unat sz < 2 ^ 63" and r: "r = of_nat (w_os w)" "w' = w\<lparr>w_os := w_os w + unat sz\<rparr>"
    by (auto simp: bump_kernel_def bump_mmap_def split: if_splits)
  have u: "unat r = w_os w" using c(2) by (simp add: r(1) unat_of_nat)
  show "r \<noteq> 0" using u c(1) by auto
  show "unat r + unat sz < 2 ^ 64" "span r sz \<inter> bump_regions w = {}" "bump_regions w' = bump_regions w \<union> span r sz"
    using c by (auto simp: u span_def bump_regions_def r(2))
qed (simp add: bump_kernel_def bump_regions_def)

theorem gap_arena_overlap_iff_witness:
  "unat (0x20000 :: u64) < unat (0x1F000 :: u64) + unat (0x2000 :: u64)
    \<longleftrightarrow> unat (0x1FF00 :: u64) + unat (ucast (0x100 :: u32) :: u64) = unat (0x20000 :: u64)"
proof (rule gap_arena_overlap_iff [where K = bump_kernel and n = 12])
  show "unused_arena bump_kernel 0x1FF00 0x100 = (0x1F000, 0x2000)"
    by (simp add: unused_arena_def bump_kernel_def Let_def ALIGN_FLOOR_def)
qed (simp_all add: bump_kernel_def)

theorem near_block_in_range_witness:
  "in_range (MemBlock 0x20000 16) 16 0x21000 0x1000"
proof (rule near_block_in_range [where K = bump_kernel and n = 12])
  show "allocateNearBlock bump_kernel (\<lambda>w. [(0x10000, 0x1000), (0x40000, 0x1000)]) 16 0x21000 0x1000 True
      \<lparr>code_arenas = [], data_arenas = []\<rparr> bump_world =
    (Some (MemBlock 0x20000 16), \<lparr>code_arenas = [(MemoryArena 0x20000 0x1000)\<lparr>ar_cursor := 0x20010\<rparr>], data_arenas = []\<rparr>, bump_world)"
    by (simp add: allocateNearBlock_def allocateNearBlockFromDefaultAllocator_def allocateNearBlockFromUnusedRegion_def
        check_has_sufficient_memory_between_region_def unused_arena_def skip_and_alloc_def allocMemBlock_def MemoryArena_def
        MemBlock_def OSMemory_Allocate_def OSMemory_SetPermission_def bump_kernel_def bump_mmap_def Let_def ALIGN_FLOOR_def
        bump_world_def max_def min_def)
qed (simp_all add: bump_kernel_def)

lemma near_data_last_arena_decides_example:
  "allocateNearBlockFromDefaultAllocator 16 0x20000 0x1000 False
      \<lparr>code_arenas = [], data_arenas = [MemoryArena 0x20000 0x1000, MemoryArena 0x90000 0x1000]\<rparr> =
    (None, \<lparr>code_arenas = [], data_arenas = [MemoryArena 0x20000 0x1000, MemoryArena 0x90000 0x1000]\<rparr>)"
  by (rule near_data_last_arena_decides) (simp_all add: allocateFromDefaultArena_def MemoryArena_def Let_def)

lemma data_block_from_code_arena_example:
  "allocateDataBlock bump_kernel 16 \<lparr>code_arenas = [], data_arenas = []\<rparr> bump_world = Inl Check"
  using data_block_from_code_arena [of 16 "\<lparr>code_arenas = [], data_arenas = []\<rparr>" bump_kernel bump_world]
  by (simp add: bump_kernel_def)

end
