(* ===== verification/Interceptor.thy ===== *)
theory Interceptor
  imports Memory_Allocator
begin

text \<open>
  The list of hooked addresses: entries (\<open>InterceptEntry.h\<close>, \<open>InterceptEntry.cpp\<close>) and the
  \<open>Interceptor\<close> that holds them (\<open>Interceptor.h\<close>, \<open>Interceptor.cpp\<close>), for the targets without
  Thumb mode. A pointer to an entry is the entry; after it is added nothing writes to it. The
  routing an entry points to is its index among the routings made so far. The locale is the
  contract the hooking routines rely on: what is found after an addition and after a removal.
\<close>

section \<open>Entries\<close>

datatype InterceptEntryType = kFunctionInlineHook | kInstructionInstrument

record intercept_entry =
  ie_id :: u32
  ie_type :: InterceptEntryType
  ie_routing :: nat
  ie_patched_addr :: u64
  ie_patched_size :: u32
  ie_relocated_addr :: u64
  ie_relocated_size :: u32
  ie_origin_insns :: "byte list"
  ie_origin_insn_size :: u32
  ie_thumb_mode :: bool

text \<open>
  The constructor sets the type, the address and the identifier, and leaves the other fields as
  \<open>new\<close> found them: \<open>raw\<close> is the memory the entry is made of.
\<close>

definition InterceptEntry_init :: "intercept_entry \<Rightarrow> int \<Rightarrow> InterceptEntryType \<Rightarrow> u64 \<Rightarrow> intercept_entry" where
  "InterceptEntry_init raw cnt type address =
     raw\<lparr>ie_type := type, ie_patched_addr := address, ie_id := word_of_int cnt\<rparr>"

section \<open>The interceptor\<close>

type_synonym interceptor = "intercept_entry list"

fun Interceptor_find :: "u64 \<Rightarrow> interceptor \<Rightarrow> intercept_entry option" where
  "Interceptor_find address [] = None"
| "Interceptor_find address (entry # entries) =
     (if ie_patched_addr entry = address then Some entry else Interceptor_find address entries)"

definition Interceptor_add :: "intercept_entry \<Rightarrow> interceptor \<Rightarrow> interceptor" where
  "Interceptor_add entry entries = entries @ [entry]"

fun Interceptor_remove :: "u64 \<Rightarrow> interceptor \<Rightarrow> interceptor" where
  "Interceptor_remove address [] = []"
| "Interceptor_remove address (entry # entries) =
     (if ie_patched_addr entry = address then entries else entry # Interceptor_remove address entries)"

text \<open>\<open>entries[i]\<close> and the size; an index outside the vector is undefined in the code.\<close>

definition Interceptor_getEntry :: "int \<Rightarrow> interceptor \<Rightarrow> intercept_entry option" where
  "Interceptor_getEntry i entries =
     (if 0 \<le> i \<and> nat i < length entries then Some (entries ! nat i) else None)"

definition Interceptor_count :: "interceptor \<Rightarrow> int" where
  "Interceptor_count entries = int (length entries)"

section \<open>The contract\<close>

text \<open>
  A registry of items under keys, at most one per key as long as an item is added only when its
  key is not found. What follows for its clients is proved here once.
\<close>

locale registry =
  fixes key :: "'e \<Rightarrow> 'k" and find :: "'k \<Rightarrow> 's \<Rightarrow> 'e option"
    and add :: "'e \<Rightarrow> 's \<Rightarrow> 's" and remove :: "'k \<Rightarrow> 's \<Rightarrow> 's" and ok :: "'s \<Rightarrow> bool"
  assumes find_key: "find k s = Some e \<Longrightarrow> key e = k"
    and find_add: "find (key e) s = None \<Longrightarrow> find k (add e s) = (if k = key e then Some e else find k s)"
    and ok_add: "ok s \<Longrightarrow> find (key e) s = None \<Longrightarrow> ok (add e s)"
    and find_remove: "ok s \<Longrightarrow> find k (remove j s) = (if k = j then None else find k s)"
    and ok_remove: "ok s \<Longrightarrow> ok (remove j s)"
    and remove_add: "find (key e) s = None \<Longrightarrow> remove (key e) (add e s) = s"
begin

lemma find_added: "find (key e) s = None \<Longrightarrow> find (key e) (add e s) = Some e"
  by (simp add: find_add)

lemma find_other: "find (key e) s = None \<Longrightarrow> k \<noteq> key e \<Longrightarrow> find k (add e s) = find k s"
  by (simp add: find_add)

lemma find_removed: "ok s \<Longrightarrow> find k (remove k s) = None"
  by (simp add: find_remove)

text \<open>Adding again after a removal: the new item is found, the others stay.\<close>

lemma readd:
  assumes "ok s" and "key e = k"
  shows "find k (add e (remove k s)) = Some e" and "j \<noteq> k \<Longrightarrow> find j (add e (remove k s)) = find j s"
    and "ok (add e (remove k s))"
proof -
  have n: "find (key e) (remove k s) = None" using assms by (simp add: find_removed)
  show "find k (add e (remove k s)) = Some e" using find_added [OF n] assms(2) by simp
  show "find j (add e (remove k s)) = find j s" if "j \<noteq> k"
    using find_other [OF n, of j] that assms by (simp add: find_remove)
  show "ok (add e (remove k s))" using ok_add [OF ok_remove [OF assms(1)] n] .
qed

end

lemma find_None_iff: "Interceptor_find a es = None \<longleftrightarrow> a \<notin> ie_patched_addr ` set es"
  by (induction es) auto

lemma find_Some: "Interceptor_find a es = Some e \<Longrightarrow> e \<in> set es \<and> ie_patched_addr e = a"
  by (induction es) (auto split: if_splits)

lemma find_append: "Interceptor_find a (es @ fs) =
    (case Interceptor_find a es of None \<Rightarrow> Interceptor_find a fs | Some e \<Rightarrow> Some e)"
  by (induction es) auto

lemma remove_filter: "distinct (map ie_patched_addr es) \<Longrightarrow>
    Interceptor_remove a es = filter (\<lambda>e. ie_patched_addr e \<noteq> a) es"
  by (induction es) (auto intro!: filter_True [symmetric] dest: image_eqI [of _ ie_patched_addr, OF sym])

lemma find_filter: "Interceptor_find k (filter (\<lambda>e. ie_patched_addr e \<noteq> j) es) =
    (if k = j then None else Interceptor_find k es)"
  by (induction es) auto

lemma remove_last: "Interceptor_find (ie_patched_addr e) es = None \<Longrightarrow>
    Interceptor_remove (ie_patched_addr e) (es @ [e]) = es"
  by (induction es) (auto split: if_splits)

interpretation hooks: registry ie_patched_addr Interceptor_find Interceptor_add Interceptor_remove
    "\<lambda>es. distinct (map ie_patched_addr es)"
proof
  show "Interceptor_find k s = Some e \<Longrightarrow> ie_patched_addr e = k" for k s e by (simp add: find_Some)
  show "Interceptor_find (ie_patched_addr e) s = None \<Longrightarrow>
      Interceptor_find k (Interceptor_add e s) = (if k = ie_patched_addr e then Some e else Interceptor_find k s)" for e s k
    by (auto simp: Interceptor_add_def find_append split: option.splits)
  show "distinct (map ie_patched_addr s) \<Longrightarrow> Interceptor_find (ie_patched_addr e) s = None \<Longrightarrow>
      distinct (map ie_patched_addr (Interceptor_add e s))" for e s
    by (simp add: Interceptor_add_def find_None_iff)
  show "distinct (map ie_patched_addr s) \<Longrightarrow>
      Interceptor_find k (Interceptor_remove j s) = (if k = j then None else Interceptor_find k s)" for s k j
    by (simp add: remove_filter find_filter)
  show "distinct (map ie_patched_addr s) \<Longrightarrow> distinct (map ie_patched_addr (Interceptor_remove j s))" for s j
    by (simp add: remove_filter distinct_map_filter)
  show "Interceptor_find (ie_patched_addr e) s = None \<Longrightarrow>
      Interceptor_remove (ie_patched_addr e) (Interceptor_add e s) = s" for e s
    unfolding Interceptor_add_def by (rule remove_last)
qed

end
