(* ===== verification/Near_Trampoline.thy ===== *)
theory Near_Trampoline
  imports Arm64_Trampoline Arm64_Relocation Near_Allocator
begin

text \<open>
  \<open>near_trampoline_arm64.cc\<close>: a trampoline of a single branch instruction, for hooks that may
  overwrite only four bytes. When the target is out of the range of \<open>b\<close>, a forwarding trampoline
  is put into memory near the source and branched to. A null \<open>AssemblyCode\<close> or buffer is \<open>None\<close>.
\<close>

unbundle bit_operations_syntax

definition ARM64_B_XXX_RANGE :: int where
  "ARM64_B_XXX_RANGE = push_bit 2 (push_bit 25 1)"

definition GenerateFastForwardTrampoline ::
  "'o kernel \<Rightarrow> ('o world \<Rightarrow> region list) \<Rightarrow> u64 \<Rightarrow> u64 \<Rightarrow> allocator \<Rightarrow> 'o world
     \<Rightarrow> dobby_error + (mem_block option \<times> allocator \<times> 'o world)" where
  "GenerateFastForwardTrampoline K layout src dst al w =
     (let rng = word_of_int ARM64_B_XXX_RANGE;
          a0 = new_assembler 0;
          (tramp_mem, al1, w1) = allocateNearExecMemory K layout (3 * 4) src rng al w
      in if tramp_mem = 0 then Inr (None, al1, w1)
         else ebind (if abs_distance tramp_mem dst < adrp_range
                     then ebind (asm_AdrpAdd TMP_REG_0 tramp_mem dst a0) (\<lambda>a.
                            Inr (tramp_mem, asm_br TMP_REG_0 a, al1, w1))
                     else let a = asm_br TMP_REG_0 (asm_Mov TMP_REG_0 dst a0);
                              tramp_size = of_nat (GetBufferSize (asm_buffer a));
                              (tramp_mem2, al2, w2) = allocateNearExecMemory K layout tramp_size src rng al1 w1
                          in Inr (tramp_mem2, a, al2, w2))
                (\<lambda>(m, a, al2, w2).
                   if m = 0 then Inr (None, al2, w2)
                   else ebind (FinalizeFromTurboAssembler K (SetRealizedAddress m a) al2 w2) (\<lambda>(code, _, al3, w3).
                          Inr (Some code, al3, w3))))"

definition GenerateNearTrampolineBuffer ::
  "'o kernel \<Rightarrow> ('o world \<Rightarrow> region list) \<Rightarrow> u64 \<Rightarrow> u64 \<Rightarrow> allocator \<Rightarrow> 'o world
     \<Rightarrow> dobby_error + (code_buffer option \<times> allocator \<times> 'o world)" where
  "GenerateNearTrampolineBuffer K layout src dst al w =
     (let a0 = new_assembler src
      in if \<bar>sint (dst - src)\<bar> < ARM64_B_XXX_RANGE
         then Inr (Some (Copy (asm_buffer (asm_b (dst - src) a0))), al, w)
         else ebind (GenerateFastForwardTrampoline K layout src dst al w) (\<lambda>(fast_forward_trampoline, al1, w1).
                case fast_forward_trampoline of
                  None \<Rightarrow> Inr (None, al1, w1)
                | Some code \<Rightarrow> Inr (Some (Copy (asm_buffer (asm_b (mb_addr code - src) a0))), al1, w1)))"

end
