(* ===== verification/Inline_Hook.thy ===== *)
theory Inline_Hook
  imports Interceptor Near_Trampoline
begin

text \<open>
  Hooking a function: the routing of a hook (\<open>InterceptRouting.h\<close>, \<open>InterceptRouting.cpp\<close>), the
  routing plugins (\<open>RoutingPlugin.cc\<close>, \<open>NearBranchTrampoline.cc\<close>), \<open>FunctionInlineHook.cc\<close> with
  its \<open>RoutingImpl.cc\<close>, and \<open>DobbyDestroy\<close> (\<open>dobby.cpp\<close>), as built for ARM64 Android. The record
  \<open>dobby\<close> holds the globals: the interceptor's entries, the routings made so far, the plugins, the
  allocator and the world with its memory. A routing works on its own copy of the entry until the
  entry is added; a null pointer that is followed is the error \<open>Null\<close>.
\<close>

unbundle bit_operations_syntax

section \<open>Routings and plugins\<close>

record intercept_routing =
  rt_entry :: intercept_entry
  rt_origin :: "mem_block option"
  rt_relocated :: "mem_block option"
  rt_trampoline :: "mem_block option"
  rt_trampoline_buffer :: "code_buffer option"
  rt_trampoline_target :: u64

record inline_routing = intercept_routing +
  rt_replace_func :: u64

record instrument_routing = intercept_routing +
  rt_prologue_dispatch_bridge :: u64
  rt_pre_handler :: u64
  rt_post_handler :: u64

datatype routing = Inline inline_routing | Instrument instrument_routing

datatype routing_plugin = NearBranchTrampolinePlugin

record 'o dobby =
  db_entries :: interceptor
  db_routings :: "routing list"
  db_plugins :: "routing_plugin list"
  db_near_branch :: "routing_plugin option"
  db_alloc :: allocator
  db_world :: "'o world"

definition SetTrampolineBuffer :: "code_buffer option \<Rightarrow> 'r intercept_routing_scheme \<Rightarrow> 'r intercept_routing_scheme" where
  "SetTrampolineBuffer buffer r = r\<lparr>rt_trampoline_buffer := buffer\<rparr>"

definition SetTrampolineTarget :: "u64 \<Rightarrow> 'r intercept_routing_scheme \<Rightarrow> 'r intercept_routing_scheme" where
  "SetTrampolineTarget address r = r\<lparr>rt_trampoline_target := address\<rparr>"

definition registerPlugin :: "routing_plugin \<Rightarrow> ('o, 'r) dobby_scheme \<Rightarrow> ('o, 'r) dobby_scheme" where
  "registerPlugin plugin st = st\<lparr>db_plugins := db_plugins st @ [plugin]\<rparr>"

definition dobby_enable_near_branch_trampoline :: "('o, 'r) dobby_scheme \<Rightarrow> ('o, 'r) dobby_scheme" where
  "dobby_enable_near_branch_trampoline st =
     (let plugin = NearBranchTrampolinePlugin; st1 = registerPlugin plugin st
      in st1\<lparr>db_near_branch := Some plugin\<rparr>)"

text \<open>The plugin is deleted and forgotten, but stays among the registered ones.\<close>

definition dobby_disable_near_branch_trampoline :: "('o, 'r) dobby_scheme \<Rightarrow> ('o, 'r) dobby_scheme" where
  "dobby_disable_near_branch_trampoline st = st\<lparr>db_near_branch := None\<rparr>"

definition NearBranch_GenerateTrampolineBuffer ::
  "'o kernel \<Rightarrow> ('o world \<Rightarrow> region list) \<Rightarrow> u64 \<Rightarrow> u64 \<Rightarrow> 'r intercept_routing_scheme \<Rightarrow> ('o, 's) dobby_scheme
     \<Rightarrow> dobby_error + (bool \<times> 'r intercept_routing_scheme \<times> ('o, 's) dobby_scheme)" where
  "NearBranch_GenerateTrampolineBuffer K layout src dst r st =
     ebind (GenerateNearTrampolineBuffer K layout src dst (db_alloc st) (db_world st)) (\<lambda>(buffer, al1, w1).
       let st1 = st\<lparr>db_alloc := al1, db_world := w1\<rparr>
       in case buffer of
            None \<Rightarrow> Inr (False, r, st1)
          | Some _ \<Rightarrow> Inr (True, SetTrampolineBuffer buffer r, st1))"

section \<open>Generating and activating\<close>

definition GenerateTrampolineBuffer ::
  "'o kernel \<Rightarrow> ('o world \<Rightarrow> region list) \<Rightarrow> u64 \<Rightarrow> u64 \<Rightarrow> 'r intercept_routing_scheme \<Rightarrow> ('o, 's) dobby_scheme
     \<Rightarrow> dobby_error + ('r intercept_routing_scheme \<times> ('o, 's) dobby_scheme)" where
  "GenerateTrampolineBuffer K layout src dst r st =
     ebind (case db_near_branch st of
              None \<Rightarrow> Inr (r, st)
            | Some plugin \<Rightarrow> ebind (NearBranch_GenerateTrampolineBuffer K layout src dst r st) (\<lambda>(_, r1, st1). Inr (r1, st1)))
       (\<lambda>(r1, st1).
          case rt_trampoline_buffer r1 of
            Some _ \<Rightarrow> Inr (r1, st1)
          | None \<Rightarrow> ebind (GenerateNormalTrampolineBuffer src dst) (\<lambda>tramp_buffer.
              Inr (SetTrampolineBuffer (Some tramp_buffer) r1, st1)))"

text \<open>
  The relocation reads whole instructions from the patched address as long as it is inside the
  trampoline's size: the bytes it can reach are those of the size and three more. The returned
  flag is the routine's result.
\<close>

definition GenerateRelocatedCode ::
  "'o kernel \<Rightarrow> 'r intercept_routing_scheme \<Rightarrow> ('o, 's) dobby_scheme
     \<Rightarrow> dobby_error + (bool \<times> 'r intercept_routing_scheme \<times> ('o, 's) dobby_scheme)" where
  "GenerateRelocatedCode K r st =
     (case rt_trampoline_buffer r of
        None \<Rightarrow> Inl Null
      | Some tramp \<Rightarrow>
          let entry = rt_entry r;
              tramp_size = GetBufferSize tramp;
              origin = MemBlock (ie_patched_addr entry) (of_nat tramp_size);
              relocated = MemBlock 0 0;
              buffer = mem_read (w_mem (db_world st)) (ie_patched_addr entry) (tramp_size + 3)
          in ebind (GenRelocateCodeAndBranch K buffer origin relocated (db_alloc st) (db_world st))
               (\<lambda>(origin1, relocated1, al1, w1).
                  let st1 = st\<lparr>db_alloc := al1, db_world := w1\<rparr>;
                      r1 = r\<lparr>rt_origin := Some origin1, rt_relocated := Some relocated1\<rparr>;
                      len = unat (mb_size origin1)
                  in if mb_size relocated1 = 0 then Inr (False, r1, st1)
                     else if length (ie_origin_insns entry) < len then Inl Wild
                     else let saved = mem_read (w_mem w1) (mb_addr origin1) len;
                              entry1 = entry\<lparr>ie_relocated_addr := mb_addr relocated1,
                                ie_origin_insns := saved @ drop len (ie_origin_insns entry),
                                ie_origin_insn_size := ucast (mb_size origin1)\<rparr>
                          in Inr (True, r1\<lparr>rt_entry := entry1\<rparr>, st1)))"

definition routing_Active ::
  "'o kernel \<Rightarrow> 'r intercept_routing_scheme \<Rightarrow> ('o, 's) dobby_scheme \<Rightarrow> dobby_error + ('o, 's) dobby_scheme" where
  "routing_Active K r st =
     (case rt_trampoline_buffer r of
        None \<Rightarrow> Inl Null
      | Some tramp \<Rightarrow> Inr (st\<lparr>db_world := DobbyCodePatch K (ie_patched_addr (rt_entry r)) tramp (db_world st)\<rparr>))"

definition routing_Commit ::
  "'o kernel \<Rightarrow> 'r intercept_routing_scheme \<Rightarrow> ('o, 's) dobby_scheme \<Rightarrow> dobby_error + ('o, 's) dobby_scheme" where
  "routing_Commit K r st = routing_Active K r st"

section \<open>Inline hooks\<close>

text \<open>The constructor of the routing also points the entry at it.\<close>

definition FunctionInlineHookRouting :: "intercept_entry \<Rightarrow> u64 \<Rightarrow> nat \<Rightarrow> inline_routing" where
  "FunctionInlineHookRouting entry replace_func this =
     \<lparr>rt_entry = entry\<lparr>ie_routing := this\<rparr>, rt_origin = None, rt_relocated = None, rt_trampoline = None,
      rt_trampoline_buffer = None, rt_trampoline_target = 0, rt_replace_func = replace_func\<rparr>"

definition inline_BuildRouting ::
  "'o kernel \<Rightarrow> ('o world \<Rightarrow> region list) \<Rightarrow> inline_routing \<Rightarrow> ('o, 's) dobby_scheme
     \<Rightarrow> dobby_error + (inline_routing \<times> ('o, 's) dobby_scheme)" where
  "inline_BuildRouting K layout r st =
     (let r1 = SetTrampolineTarget (rt_replace_func r) r;
          src = ie_patched_addr (rt_entry r1);
          dst = rt_trampoline_target r1
      in GenerateTrampolineBuffer K layout src dst r1 st)"

definition inline_DispatchRouting ::
  "'o kernel \<Rightarrow> ('o world \<Rightarrow> region list) \<Rightarrow> inline_routing \<Rightarrow> ('o, 's) dobby_scheme
     \<Rightarrow> dobby_error + (inline_routing \<times> ('o, 's) dobby_scheme)" where
  "inline_DispatchRouting K layout r st =
     ebind (inline_BuildRouting K layout r st) (\<lambda>(r1, st1).
     ebind (GenerateRelocatedCode K r1 st1) (\<lambda>(_, r2, st2). Inr (r2, st2)))"

abbreviation (input) "RS_FAILED \<equiv> - 1 :: int"
abbreviation (input) "RS_SUCCESS \<equiv> 0 :: int"

text \<open>The checks a hook begins with; the flag is false where the code returns early.\<close>

definition hook_guard :: "'o kernel \<Rightarrow> u64 \<Rightarrow> ('o, 's) dobby_scheme \<Rightarrow> bool \<times> ('o, 's) dobby_scheme" where
  "hook_guard K address st =
     (if address = 0 then (False, st)
      else let page = ALIGN_FLOOR address (k_page_size K);
               (ok, w1) = OSMemory_SetPermission K page (k_page_size K) kReadExecute (db_world st);
               st1 = st\<lparr>db_world := w1\<rparr>
           in if \<not> ok then (False, st1)
              else (Interceptor_find address (db_entries st1) = None, st1))"

text \<open>
  \<open>DobbyHook\<close>: the status, what is stored through \<open>origin_func\<close> (nothing when it is null), and the
  state. \<open>raw\<close> is the memory the new entry is made of.
\<close>

definition DobbyHook ::
  "'o kernel \<Rightarrow> ('o world \<Rightarrow> region list) \<Rightarrow> intercept_entry \<Rightarrow> u64 \<Rightarrow> u64 \<Rightarrow> bool \<Rightarrow> ('o, 's) dobby_scheme
     \<Rightarrow> dobby_error + (int \<times> u64 option \<times> ('o, 's) dobby_scheme)" where
  "DobbyHook K layout raw address replace_func origin_func st =
     (let (go, st1) = hook_guard K address st
      in if \<not> go then Inr (RS_FAILED, None, st1)
         else let entry = InterceptEntry_init raw (Interceptor_count (db_entries st1)) kFunctionInlineHook address;
                  r = FunctionInlineHookRouting entry replace_func (length (db_routings st1))
              in ebind (inline_DispatchRouting K layout r st1) (\<lambda>(r1, st2).
                 let origin = (if origin_func then Some (ie_relocated_addr (rt_entry r1)) else None)
                 in ebind (routing_Commit K r1 st2) (\<lambda>st3.
                    Inr (RS_SUCCESS, origin,
                      st3\<lparr>db_entries := Interceptor_add (rt_entry r1) (db_entries st3),
                          db_routings := db_routings st3 @ [Inline r1]\<rparr>))))"

definition DobbyDestroy ::
  "'o kernel \<Rightarrow> u64 \<Rightarrow> ('o, 's) dobby_scheme \<Rightarrow> dobby_error + (int \<times> ('o, 's) dobby_scheme)" where
  "DobbyDestroy K address st =
     (case Interceptor_find address (db_entries st) of
        None \<Rightarrow> Inr (RS_FAILED, st)
      | Some entry \<Rightarrow>
          let buffer_size = unat (ie_origin_insn_size entry)
          in if length (ie_origin_insns entry) < buffer_size then Inl Wild
             else Inr (RS_SUCCESS,
               st\<lparr>db_world := DobbyCodePatch K address (take buffer_size (ie_origin_insns entry)) (db_world st),
                  db_entries := Interceptor_remove address (db_entries st)\<rparr>))"

end
