(* ===== verification/Near_Props.thy ===== *)
theory Near_Props
  imports Near_Trampoline Allocator_Props Arm64_Reloc_Props
begin

text \<open>
  What the near trampolines do when they run. The blocks of the near allocator are whole
  instructions when the arenas are (\<open>near_exec_step\<close>), so the offset of the branch has a code; the
  forwarding code in such a block goes to the target (\<open>forward_code\<close>); together the four bytes
  at the hooked address reach any target (\<open>near_trampoline_reaches\<close>).
\<close>

unbundle bit_operations_syntax

section \<open>Aligned blocks\<close>

definition aligned_arenas :: "allocator \<Rightarrow> bool" where
  "aligned_arenas al \<longleftrightarrow> (\<forall>ar \<in> set (code_arenas al). arena_ok ar \<and> 4 dvd unat (ar_cursor ar))"

lemma max_dvd: "4 dvd unat a \<Longrightarrow> 4 dvd unat b \<Longrightarrow> 4 dvd unat (max a b)"
  by (simp add: max_def)

lemma aligned_new_arena:
  assumes "arena_ok ar" and "unat (ar_cursor ar) \<le> unat u" and "unat u + unat (ucast sz :: u64) \<le> unat (ar_addr ar) + unat (ar_size ar)"
    and "4 dvd unat u" and "4 dvd unat (ucast (sz :: u32) :: u64)"
  shows "\<exists>ar'. skip_and_alloc u sz ar = (Some (MemBlock u (ucast sz)), ar') \<and> arena_ok ar' \<and> 4 dvd unat (ar_cursor ar')"
proof -
  note s = skip_and_alloc_ok [OF assms(1-3)]
  obtain ar' where a: "skip_and_alloc u sz ar = (Some (MemBlock u (ucast sz)), ar')"
    using s(3) by (metis prod.collapse)
  then have "allocMemBlock (ucast sz) (ar\<lparr>ar_cursor := u\<rparr>) = (Some (MemBlock u (ucast sz)), ar')" using s(1) by simp
  note t = allocMemBlock_Some [OF this s(2)]
  have "unat (ar_cursor ar') = unat u + unat (ucast sz :: u64)" using t(4) by simp
  then show ?thesis using a t(3) assms(4,5) by (intro exI [of _ ar']) simp
qed

lemma near_default_step:
  assumes "allocateNearBlockFromDefaultAllocator sz pos rng True al = (r, al')" and "aligned_arenas al"
    and "4 dvd unat (pos - rng)" and "4 dvd unat (ucast (sz :: u32) :: u64)"
  shows "aligned_arenas al' \<and> (\<forall>b. r = Some b \<longrightarrow> 4 dvd unat (mb_addr b)) \<and> (r = None \<longrightarrow> al' = al)"
proof -
  let ?f = "\<lambda>ar. allocateFromDefaultArena (pos - rng) (pos + rng) ar sz"
  show ?thesis
  proof (cases "near_code_scan ?f 0 (code_arenas al)")
    case None
    then show ?thesis using assms(1,2) by (simp add: allocateNearBlockFromDefaultAllocator_def)
  next
    case (Some p)
    then obtain i u where p: "near_code_scan ?f 0 (code_arenas al) = Some (i, u)" by (cases p) simp
    have i: "i < length (code_arenas al)" "?f (code_arenas al ! i) = u" "u \<noteq> 0"
      using near_code_scan_Some [OF p] by simp_all
    have ok: "arena_ok (code_arenas al ! i)" "4 dvd unat (ar_cursor (code_arenas al ! i))"
      using assms(2) i(1) by (simp_all add: aligned_arenas_def)
    note bd = default_arena_bounds [OF i(2,3) ok(1)]
    have "u = max (ar_cursor (code_arenas al ! i)) (pos - rng)"
      using i(2,3) by (auto simp: allocateFromDefaultArena_def Let_def split: if_splits)
    then have u: "4 dvd unat u" using max_dvd ok(2) assms(3) by simp
    obtain ar' where a: "skip_and_alloc u sz (code_arenas al ! i) = (Some (MemBlock u (ucast sz)), ar')"
        "arena_ok ar'" "4 dvd unat (ar_cursor ar')"
      using aligned_new_arena [OF ok(1) bd(1,4) u assms(4)] by blast
    then have "r = Some (MemBlock u (ucast sz))" "al' = al\<lparr>code_arenas := (code_arenas al)[i := ar']\<rparr>"
      using assms(1) p by (simp_all add: allocateNearBlockFromDefaultAllocator_def)
    then show ?thesis
      using assms(2) a(2,3) u
      by (auto simp: aligned_arenas_def MemBlock_def dest!: set_update_subset_insert [THEN subsetD])
  qed
qed

lemma near_region_step:
  assumes "allocateNearBlockFromUnusedRegion K layout sz pos rng True al w = (Some b, al', w')" and "aligned_arenas al"
    and "4 dvd unat (pos - rng)" and "4 dvd unat (ucast (sz :: u32) :: u64)"
    and "k_page_size K = 2 ^ n" and "n < 32" and "unat pos + unat rng + 2 ^ n < 2 ^ 64"
  shows "aligned_arenas al' \<and> 4 dvd unat (mb_addr b)"
proof -
  let ?f = "\<lambda>r r'. check_has_sufficient_memory_between_region (pos - rng) (pos + rng) r r' sz"
  define u where "u = gap_scan ?f (layout w)"
  obtain a s where as: "unused_arena K u sz = (a, s)" by force
  have u: "u \<noteq> 0" and b: "fst (skip_and_alloc u sz (MemoryArena a s)) = Some b"
    and al': "al' = al\<lparr>code_arenas := code_arenas al @ [snd (skip_and_alloc u sz (MemoryArena a s))]\<rparr>"
    using assms(1) as
    by (auto simp: allocateNearBlockFromUnusedRegion_def Let_def split: if_splits prod.splits simp flip: u_def)
  obtain r r' where f: "?f r r' = u" using gap_scan_hit [of ?f "layout w" u] u by (auto simp: u_def)
  note g = gap_bounds [OF f u]
  have "u = max (ALIGN_FLOOR (fst r + snd r) (2 ^ 2)) (pos - rng)"
    using f u by (auto simp: check_has_sufficient_memory_between_region_def Let_def split: if_splits)
  moreover have "4 dvd unat (ALIGN_FLOOR x (2 ^ 2))" for x
    using ALIGN_FLOOR_pow(1) [of 2 x] page_floor(3) [of 2 "unat x"] by (simp add: page_floor_def)
  ultimately have ua: "4 dvd unat u" using max_dvd assms(3) by metis
  have hi: "unat (pos + rng) = unat pos + unat rng" using assms(7) by (intro unat_add_u64) simp
  have wrap: "unat u + unat (ucast sz :: u64) + 2 ^ n < 2 ^ 64" using g(2) assms(7) hi by simp
  note sp = unused_arena_span [OF assms(5,6) wrap as]
  have ok: "arena_ok (MemoryArena a s)"
    using sp(2) page_floor(1) [of n "unat u + unat (ucast sz :: u64)"] wrap by (simp add: arena_ok_def MemoryArena_def)
  have "unat (ar_cursor (MemoryArena a s)) \<le> unat u"
    "unat u + unat (ucast sz :: u64) \<le> unat (ar_addr (MemoryArena a s)) + unat (ar_size (MemoryArena a s))"
    using sp page_floor(1) [of n "unat u"] page_floor(2) [of "unat u + unat (ucast sz :: u64)" n]
    by (simp_all add: MemoryArena_def less_imp_le)
  from aligned_new_arena [OF ok this ua assms(4)]
  show ?thesis using b al' assms(2) ua by (auto simp: aligned_arenas_def MemBlock_def)
qed

lemma near_exec_step:
  assumes "allocateNearBlock K layout sz pos rng True al w = (Some b, al', w')" and "aligned_arenas al"
    and "4 dvd unat pos" and "4 dvd unat rng" and "4 dvd unat (ucast (sz :: u32) :: u64)"
    and "k_page_size K = 2 ^ n" and "n < 32" and "unat rng \<le> unat pos" and "unat pos + unat rng + 2 ^ n < 2 ^ 64"
  shows "aligned_arenas al'" and "4 dvd unat (mb_addr b)" and "in_range b sz pos rng"
proof -
  have d: "4 dvd unat (pos - rng)" using assms(3,4,8) by (simp add: unat_diff_u64)
  obtain r al1 where r: "allocateNearBlockFromDefaultAllocator sz pos rng True al = (r, al1)" by force
  note s = near_default_step [OF r assms(2) d assms(5)]
  have "aligned_arenas al' \<and> 4 dvd unat (mb_addr b) \<and> in_range b sz pos rng"
  proof (cases r)
    case None
    then have g: "allocateNearBlockFromUnusedRegion K layout sz pos rng True al w = (Some b, al', w')"
      using assms(1) r s by (simp add: allocateNearBlock_def)
    show ?thesis
      using near_region_step [OF g assms(2) d assms(5-7,9)] near_region_in_range [OF g assms(6-9)] by simp
  next
    case (Some c)
    then have c: "c = b" "al' = al1" using assms(1) r by (simp_all add: allocateNearBlock_def)
    have h: "unat (pos + rng) = unat pos + unat rng" using assms(9) by (intro unat_add_u64) simp
    have "\<exists>i u. near_code_scan (\<lambda>ar. allocateFromDefaultArena (pos - rng) (pos + rng) ar sz) 0 (code_arenas al) = Some (i, u)
        \<and> fst (skip_and_alloc u sz (code_arenas al ! i)) = Some b"
      using r Some c by (auto simp: allocateNearBlockFromDefaultAllocator_def Let_def split: option.splits prod.splits)
    then obtain i u where iu: "near_code_scan (\<lambda>ar. allocateFromDefaultArena (pos - rng) (pos + rng) ar sz) 0 (code_arenas al) = Some (i, u)"
      "fst (skip_and_alloc u sz (code_arenas al ! i)) = Some b" by blast
    note sc = near_code_scan_Some [OF iu(1)]
    have ok: "arena_ok (code_arenas al ! i)" using assms(2) sc by (simp add: aligned_arenas_def)
    have uz: "allocateFromDefaultArena (pos - rng) (pos + rng) (code_arenas al ! i) sz = u" "u \<noteq> 0" using sc by simp_all
    note bd = default_arena_bounds [OF uz ok]
    have "b = MemBlock u (ucast sz)" using skip_and_alloc_ok(3) [OF ok bd(1,4)] iu(2) by simp
    then have "in_range b sz pos rng"
      using bd(2,3) assms(8) h by (simp add: in_range_def MemBlock_def unat_diff_u64)
    then show ?thesis using s Some c by simp
  qed
  then show "aligned_arenas al'" "4 dvd unat (mb_addr b)" "in_range b sz pos rng" by simp_all
qed


section \<open>The forwarding trampoline\<close>

lemma unat_ucast_u32: "unat (ucast (x :: u32) :: u64) = unat x"
proof -
  have "unat x < 2 ^ 64" using unsigned_less [of x, where ?'a = nat] by simp
  then have "take_bit LENGTH(64) (unat x) = unat x" by (intro take_bit_nat_eq_self) simp
  then show ?thesis by (simp only: unsigned_ucast_eq)
qed

definition near_room :: "'o kernel \<Rightarrow> nat \<Rightarrow> allocator \<Rightarrow> u64 \<Rightarrow> bool" where
  "near_room K n al src \<longleftrightarrow> aligned_arenas al \<and> k_page_size K = 2 ^ n \<and> n < 32 \<and> 4 dvd unat src
     \<and> 2 ^ 27 \<le> unat src \<and> unat src + 2 ^ 27 + 2 ^ n < 2 ^ 64"

definition b_reachable :: "u64 \<Rightarrow> u64 \<Rightarrow> bool" where
  "b_reachable src m \<longleftrightarrow> 4 dvd unat m \<and> unat src \<le> unat m + 2 ^ 27 \<and> unat m < unat src + 2 ^ 27"

lemma near_exec_memory:
  assumes "allocateNearExecMemory K layout sz src (word_of_int ARM64_B_XXX_RANGE) al w = (m, al', w')" and "m \<noteq> 0"
    and "near_room K n al src" and "4 dvd unat (ucast sz :: u64)" and "sz \<noteq> 0"
  shows "b_reachable src m" and "near_room K n al' src"
proof -
  have r: "word_of_int ARM64_B_XXX_RANGE = (2 ^ 27 :: u64)" by (simp add: ARM64_B_XXX_RANGE_def)
  have u: "unat (2 ^ 27 :: u64) = 2 ^ 27" by (rule unat_exp_u64) simp
  obtain b where b: "allocateNearBlock K layout sz src (2 ^ 27) True al w = (Some b, al', w')" "m = mb_addr b"
    using assms(1,2) unfolding r
    by (auto simp: allocateNearExecMemory_def split: prod.splits option.splits)
  have "aligned_arenas al' \<and> 4 dvd unat (mb_addr b) \<and> in_range b sz src (2 ^ 27)"
    using near_exec_step [OF b(1), of n] assms(3,4) unfolding near_room_def u by auto
  moreover have "0 < unat (ucast sz :: u64)"
    using assms(5) by (simp add: unat_ucast_u32 unat_gt_0)
  ultimately show "b_reachable src m" "near_room K n al' src"
    using assms(3) by (auto simp: b_reachable_def b(2) in_range_def near_room_def u)
qed

lemma finalize_at:
  assumes "FinalizeFromTurboAssembler K (SetRealizedAddress m a) al w = Inr (code, a', al', w')" and "m \<noteq> 0"
    and "keeps_memory K"
  shows "code = MemBlock m (of_nat (length (asm_buffer a)))" and "w_mem w' = mem_write m (asm_buffer a) (w_mem w)"
  using assms
  by (auto simp: FinalizeFromTurboAssembler_def Let_def SetRealizedAddress_def GetBufferSize_def DobbyCodePatch_mem)

definition forwards :: "u32 list \<Rightarrow> u64 \<Rightarrow> u64 \<Rightarrow> bool" where
  "forwards ws m dst \<longleftrightarrow> ws = adrp_add_br m dst \<and> abs_distance m dst < adrp_range \<or> ws = mov_words 17 dst @ [0xD61F0220]"

lemma forward_code:
  assumes "GenerateFastForwardTrampoline K layout src dst al w = Inr (Some blk, al', w')"
    and "keeps_memory K" and "near_room K n al src"
  shows "\<exists>ws. b_reachable src (mb_addr blk) \<and> forwards ws (mb_addr blk) dst
    \<and> blk = MemBlock (mb_addr blk) (of_nat (4 * length ws)) \<and> placed (concat (map bytes32 ws)) (mb_addr blk) (w_mem w')"
proof -
  let ?r = "word_of_int ARM64_B_XXX_RANGE"
  obtain m al1 w1 where m: "allocateNearExecMemory K layout (3 * 4) src ?r al w = (m, al1, w1)" by (metis prod.collapse)
  have m0: "m \<noteq> 0" using assms(1) m by (auto simp: GenerateFastForwardTrampoline_def)
  have near: "b_reachable src m" "near_room K n al1 src"
    using near_exec_memory [OF m m0 assms(3)] by (simp_all add: unat_ucast_u32)
  have len: "length (concat (map bytes32 ws)) = 4 * length ws" for ws by (induction ws) simp_all
  show ?thesis
  proof (cases "abs_distance m dst < adrp_range")
    case True
    let ?a = "asm_Emit 0xD61F0220 (asm_Emit (add17 (dst mod 0x1000)) (asm_Emit (adrp17 (page_pages m dst)) (new_assembler 0)))"
    have b: "asm_buffer ?a = concat (map bytes32 (adrp_add_br m dst))"
      by (simp add: new_assembler_def asm_Emit_def Emit32_def EmitBuffer_def adrp_add_br_def)
    obtain a' al3 where "FinalizeFromTurboAssembler K (SetRealizedAddress m ?a) al1 w1 = Inr (blk, a', al3, w')"
      using assms(1) m m0 True
      by (auto simp: GenerateFastForwardTrampoline_def asm_AdrpAdd17 asm_br17 ebind_Inr_iff)
    note f = finalize_at [OF this m0 assms(2), unfolded b len]
    then show ?thesis using near(1) True
      by (intro exI [of _ "adrp_add_br m dst"]) (simp add: forwards_def placed_mem_write MemBlock_def len adrp_add_br_def)
  next
    case False
    let ?a = "asm_Emit 0xD61F0220 (asm_Mov TMP_REG_0 dst (new_assembler 0))"
    let ?ws = "mov_words 17 dst @ [0xD61F0220]"
    have b: "asm_buffer ?a = concat (map bytes32 ?ws)"
      by (simp add: new_assembler_def asm_Emit_def Emit32_def EmitBuffer_def TMP_REG_0_def asm_Mov_X)
    have ws: "length ?ws = 5" by (simp add: mov_words_def)
    obtain m2 al2 w2 where m2: "allocateNearExecMemory K layout 20 src ?r al1 w1 = (m2, al2, w2)" by (metis prod.collapse)
    obtain a' al3 where m20: "m2 \<noteq> 0" and "FinalizeFromTurboAssembler K (SetRealizedAddress m2 ?a) al2 w2 = Inr (blk, a', al3, w')"
      using assms(1) m m0 m2 False ws
      by (auto simp: GenerateFastForwardTrampoline_def asm_br17 ebind_Inr_iff GetBufferSize_def b len split: if_splits)
    note f = finalize_at [OF this(2) m20 assms(2), unfolded b len]
    have "b_reachable src m2" using near_exec_memory [OF m2 m20 near(2)] by (simp add: unat_ucast_u32)
    with f show ?thesis
      by (intro exI [of _ ?ws]) (simp add: forwards_def placed_mem_write MemBlock_def len mov_words_def)
  qed
qed


lemma length_mov_words: "length (mov_words c v) = 4"
  by (simp add: mov_words_def)

lemma run_forward:
  assumes "forwards ws m dst" and "placed (concat (map bytes32 ws)) m (mem s)" and "pc s = m"
    and "page_gap m dst \<noteq> 2 ^ 32"
  shows "\<exists>n. a64_steps n s = Some (s\<lparr>xreg := (xreg s)(17 := dst), pc := dst\<rparr>)"
  using assms(1) unfolding forwards_def
proof
  assume w: "ws = adrp_add_br m dst \<and> abs_distance m dst < adrp_range"
  have "words_at (adrp_add_br m dst) 0 (concat (map bytes32 ws))"
    using words_at_emitted [of ws "[]" "[]"] w by simp
  from run_adrp_add_br [OF assms(2) this [unfolded adrp_add_br_def]] assms(3,4) adrp_target [of m dst] w
  show ?thesis by (intro exI [of _ 3]) (simp add: Let_def)
next
  assume w: "ws = mov_words 17 dst @ [0xD61F0220]"
  have "words_at (mov_words 17 dst @ [0xD61F0220]) 0 (concat (map bytes32 ws))"
    using words_at_emitted [of ws "[]" "[]"] w by simp
  then have wa: "words_at (mov_words 17 dst) 0 (concat (map bytes32 ws))" "words_at [0xD61F0220] 16 (concat (map bytes32 ws))"
    using length_mov_words by (simp_all add: words_at_append)
  define t where "t = (wr_x 17 dst s)\<lparr>pc := pc s + 16\<rparr>"
  have "a64_steps 4 s = Some t" using run_mov [OF assms(2) wa(1), of] assms(3) by (simp add: t_def)
  moreover have "a64_steps 1 t = Some (jump dst t)"
    using step_at [OF _ _ _, of "concat (map bytes32 ws)" m t 16] assms(2,3) wa(2)
    by (simp add: t_def words_at_Cons exec_br17 wr_x_def)
  ultimately have "a64_steps (4 + 1) s = Some (jump dst t)" by (simp only: a64_steps_add Option.bind.bind_lunit)
  then show ?thesis by (intro exI [of _ "4 + 1"]) (simp add: t_def jump_def wr_x_def)
qed

section \<open>The near trampoline\<close>

text \<open>Signed distances of addresses, and the offsets \<open>b\<close> can encode.\<close>

lemma sint_mod4: "sint (w :: u64) mod 4 = uint w mod 4"
proof -
  have "take_bit 2 (sint w) = take_bit 2 (uint w)"
    by (rule bit_eqI) (auto simp: bit_take_bit_iff bit_sint_min bit_uint_iff)
  then show ?thesis by (simp add: take_bit_eq_mod)
qed

lemma aligned_distance:
  assumes "4 dvd unat (a :: u64)" and "4 dvd unat b"
  shows "sint (a - b) mod 4 = 0"
proof -
  obtain i j where ij: "unat a = 4 * i" "unat b = 4 * j" using assms by (auto elim!: dvdE)
  have "uint a = int (4 * i)" "uint b = int (4 * j)" by (simp_all only: ij [symmetric] of_nat_unat)
  then have "uint (a - b) = (4 * (int i - int j)) mod 2 ^ 64" by (simp add: uint_word_ariths right_diff_distrib)
  moreover have "(4 * (int i - int j)) mod 2 ^ 64 mod 4 = 4 * (int i - int j) mod 4" by (rule mod_mod_cancel) simp
  ultimately show ?thesis by (simp only: sint_mod4) simp
qed

lemma b_reachable_fits:
  assumes "b_reachable src m" and "4 dvd unat src"
  shows "fits_branch 28 (m - src)"
proof -
  define x where "x = unat m"
  define y where "y = unat src"
  define d where "d = int x - int y"
  have "y \<le> x + 2 ^ 27 \<and> x < y + 2 ^ 27" using assms(1) by (simp add: b_reachable_def x_def y_def)
  then have d: "- (2 ^ 27) \<le> d" "d < 2 ^ 27" by (simp_all add: d_def)
  have "m - src = word_of_int d" by (simp add: d_def x_def y_def)
  moreover have "sint (word_of_int d :: u64) = d" using d by (intro sint_small) simp_all
  ultimately have "sint (m - src) = d" by simp
  then show ?thesis
    using d aligned_distance [of m src] assms by (simp add: fits_branch_def b_reachable_def)
qed

lemma run_b:
  assumes "placed (asm_buffer (asm_b imm (new_assembler src))) src (mem s)" and "pc s = src" and "fits_branch 28 imm"
  shows "a64_steps 1 s = Some (s\<lparr>pc := src + imm\<rparr>)"
proof -
  have "asm_buffer (asm_b imm (new_assembler src)) = concat (map bytes32 [encode_imm26_offset B_op imm])"
    by (simp add: asm_b_word asm_Emit_def Emit32_def EmitBuffer_def new_assembler_def)
  then have "load_cell 4 word32_of 0 (asm_buffer (asm_b imm (new_assembler src))) = Some (encode_imm26_offset B_op imm)"
    using words_at_emitted [of "[encode_imm26_offset B_op imm]" "[]" "[]"] by (simp add: words_at_Cons)
  from step_at [OF assms(1) this] show ?thesis using assms(2) exec_b [OF assms(3)] by (simp add: jump_def)
qed


text \<open>C11: when the near branch plugin makes a trampoline, its four bytes at the hooked address lead to
  the target, directly or through the forwarding code, changing only x17: for an aligned target,
  arenas with whole instructions and a forwarding block that is not at the edge of \<open>adrp\<close> and
  does not overlap the patched instruction.\<close>

theorem near_trampoline_reaches:
  assumes "GenerateNearTrampolineBuffer K layout src dst al w = Inr (Some code, al', w')"
    and "keeps_memory K" and "near_room K n al src" and "4 dvd unat dst"
    and "\<And>blk. GenerateFastForwardTrampoline K layout src dst al w = Inr (Some blk, al', w') \<Longrightarrow>
      page_gap (mb_addr blk) dst \<noteq> 2 ^ 32 \<and> (\<forall>i < unat (mb_size blk). 4 \<le> unat (mb_addr blk + of_nat i - src))"
    and "placed code src (mem s)" and "pc s = src" and "\<And>x. 4 \<le> unat (x - src) \<Longrightarrow> mem s x = w_mem w' x"
  shows "length code = 4 \<and> (\<exists>k t. a64_steps k s = Some t \<and> agree {17} s t \<and> pc t = dst)"
proof -
  have src: "4 dvd unat src" using assms(3) by (simp add: near_room_def)
  have len: "length (asm_buffer (asm_b imm (new_assembler src))) = 4" for imm
    by (simp add: asm_b_def asm_Emit_def Emit32_def EmitBuffer_def new_assembler_def Let_def)
  show ?thesis
  proof (cases "\<bar>sint (dst - src)\<bar> < ARM64_B_XXX_RANGE")
    case True
    then have c: "code = asm_buffer (asm_b (dst - src) (new_assembler src))"
      using assms(1) by (simp add: GenerateNearTrampolineBuffer_def Copy_def EmitBuffer_def)
    have "fits_branch 28 (dst - src)"
      using True aligned_distance [OF assms(4) src] by (auto simp: fits_branch_def ARM64_B_XXX_RANGE_def)
    from run_b [OF assms(6) [unfolded c] assms(7) this]
    have "a64_steps 1 s = Some (s\<lparr>pc := dst\<rparr>)" by simp
    then show ?thesis by (intro conjI exI [of _ 1] exI [of _ "s\<lparr>pc := dst\<rparr>"]) (simp_all add: c len agree_def)
  next
    case False
    then obtain blk where blk: "GenerateFastForwardTrampoline K layout src dst al w = Inr (Some blk, al', w')"
      and c: "code = asm_buffer (asm_b (mb_addr blk - src) (new_assembler src))"
      using assms(1)
      by (auto simp: GenerateNearTrampolineBuffer_def Copy_def EmitBuffer_def ebind_Inr_iff split: option.splits)
    obtain ws where ws: "b_reachable src (mb_addr blk)" "forwards ws (mb_addr blk) dst"
        "blk = MemBlock (mb_addr blk) (of_nat (4 * length ws))" "placed (concat (map bytes32 ws)) (mb_addr blk) (w_mem w')"
      using forward_code [OF blk assms(2,3)] by blast
    have l: "length (concat (map bytes32 ws)) = 4 * length ws" by (induction ws) simp_all
    have "length ws \<le> 5" using ws(2) by (auto simp: forwards_def adrp_add_br_def mov_words_def)
    then have "unat (of_nat (4 * length ws) :: u64) = 4 * length ws" by (simp only: unat_of_nat) simp
    then have sz: "unat (mb_size blk) = 4 * length ws" using ws(3) by (metis MemBlock_def mem_block.select_convs(3))
    note e = assms(5) [OF blk]
    let ?s = "s\<lparr>pc := mb_addr blk\<rparr>"
    have "a64_steps 1 s = Some ?s"
      using run_b [OF assms(6) [unfolded c] assms(7) b_reachable_fits [OF ws(1) src]] by simp
    moreover have "placed (concat (map bytes32 ws)) (mb_addr blk) (mem ?s)"
      using ws(4) e assms(8) by (simp add: placed_def sz l)
    then obtain k where "a64_steps k ?s = Some (?s\<lparr>xreg := (xreg ?s)(17 := dst), pc := dst\<rparr>)"
      using run_forward [OF ws(2), of ?s] e by auto
    ultimately have "a64_steps (1 + k) s = Some (?s\<lparr>xreg := (xreg ?s)(17 := dst), pc := dst\<rparr>)"
      by (simp only: a64_steps_add Option.bind.bind_lunit)
    then show ?thesis
      by (intro conjI exI [of _ "1 + k"] exI [of _ "?s\<lparr>xreg := (xreg ?s)(17 := dst), pc := dst\<rparr>"])
        (simp_all add: c len agree_def)
  qed
qed

end
