(* ===== verification/Hook_Props.thy ===== *)
theory Hook_Props
  imports Inline_Hook Near_Props
begin

text \<open>
  What a hook does to the program, across all components. \<open>relocation_effect\<close> and
  \<open>exec_block_effect\<close> say what the memory looks like after the relocated code is placed;
  \<open>hook_effect\<close> takes a successful \<open>DobbyHook\<close> apart. From it: destroying a hook restores the
  memory and the list of entries (\<open>hook_destroy_restores\<close>), and a hooked function runs its
  replacement while the returned pointer runs the original (\<open>hooked_function\<close>).
\<close>

unbundle bit_operations_syntax

section \<open>The relocated code in memory\<close>

lemma realized_emit_snippet: "realized_addr (emit_snippet sn a) = realized_addr a"
  by (cases "(sn, a)" rule: emit_snippet.cases) (simp_all add: emits_def emit_link_def asm_Emit_def)

lemma realized_relo_loop: "relo_loop ctx a = Inr (ctx', a') \<Longrightarrow> realized_addr a' = realized_addr a"
proof (induction ctx a rule: relo_loop.induct)
  case (1 ctx a)
  show ?case
  proof (cases "rc_cursor ctx < rc_buffer_size ctx")
    case True
    then show ?thesis using "1.prems" "1.IH" [OF True HOL.refl]
      by (subst (asm) relo_loop.simps)
        (auto simp: ebind_Inr_iff relo_inst_snippet realized_emit_snippet Let_def split: option.splits)
  next
    case False
    then show ?thesis using "1.prems" by (subst (asm) relo_loop.simps) simp
  qed
qed

lemma realized_PseudoBind: "PseudoBind l a = Inr a' \<Longrightarrow> realized_addr a' = realized_addr a"
  by (auto simp: PseudoBind_def Let_def ebind_Inr_iff split: if_splits)

lemma realized_RelocBind_loop: "RelocBind_loop ls a = Inr a' \<Longrightarrow> realized_addr a' = realized_addr a"
proof (induction ls a rule: RelocBind_loop.induct)
  case (2 l ls a)
  then obtain a1 where "PseudoBind l a = Inr a1" and
    r: "RelocBind_loop ls (a1\<lparr>asm_buffer := EmitBuffer (lb_data (labels a1 ! l)) (asm_buffer a1)\<rparr>) = Inr a'"
    by (auto simp: ebind_Inr_iff)
  with "2.IH" [OF _ r] show ?case by (simp add: realized_PseudoBind)
qed simp

lemma realized_relo_generate:
  "relo_generate ctx origin True = Inr (ctx1, origin1, a) \<Longrightarrow> realized_addr a = 0"
  by (auto simp: relo_generate_def ebind_Inr_iff LiteralLdrBranch_snippet Let_def RelocBind_def realized_emit_snippet
      dest!: realized_relo_loop realized_RelocBind_loop simp: new_assembler_def)

lemma relocation_effect:
  assumes "GenRelocateCodeAndBranch K buffer (MemBlock src (of_nat n)) (MemBlock 0 0) al w = Inr (origin1, r, al1, w1)"
    and "keeps_memory K" and "n < 2 ^ 15" and "4 dvd n"
  shows "\<exists>ctx ctx1 a b w0. relo_generate ctx (MemBlock src (of_nat n)) True = Inr (ctx1, origin1, a)
    \<and> fresh_ctx ctx \<and> rc_buffer ctx = buffer \<and> rc_buffer_size ctx = n \<and> rc_src_vmaddr ctx = src
    \<and> origin1 = MemBlock src (of_nat n)
    \<and> allocateExecBlock K (of_nat (length (asm_buffer a))) al w = Inr (b, al1, w0)
    \<and> r = MemBlock (mb_addr b) (of_nat (length (asm_buffer a))) \<and> w_mem w1 = mem_write (mb_addr b) (asm_buffer a) (w_mem w0)
    \<and> w1 = DobbyCodePatch K (mb_addr b) (asm_buffer a) w0 \<and> 0 < length (asm_buffer a) \<and> length (asm_buffer a) < 2 ^ 20"
proof -
  let ?o = "MemBlock src (of_nat n)"
  have n: "unat (of_nat n :: u64) = n" using assms(3) by (simp add: unat_of_nat)
  let ?ctx = "\<lparr>rc_buffer = buffer, rc_cursor = 0, rc_buffer_size = n,
        rc_src_vmaddr = src, rc_dst_vmaddr = 0, rc_offset_map = Map.empty\<rparr>"
  have f: "fresh_ctx ?ctx" by (simp add: fresh_ctx_def)
  obtain ctx1 a code a' where gen: "relo_generate ?ctx ?o True = Inr (ctx1, origin1, a)"
    and fin: "FinalizeFromTurboAssembler K a al w = Inr (code, a', al1, w1)"
    and r: "r = MemBlock_reset (mb_addr code) (mb_size code) (MemBlock 0 0)"
    using assms(1)
    by (auto simp: GenRelocateCodeAndBranch_def GenRelocateCode_def relo_relocate_def ebind_Inr_iff Let_def MemBlock_def n)
  have sz: "rc_buffer_size ?ctx < 2 ^ 15" using assms(3) by simp
  obtain body where l: "mapped_ok ctx1 body (\<lambda>off sn. snippet_in sn off (asm_buffer a))"
      "snippet_in (tail_snippet (mb_addr ?o + of_nat (rc_cursor ctx1))) body (asm_buffer a)"
      "origin1 = MemBlock_reset (mb_addr ?o) (of_nat (rc_cursor ctx1)) ?o"
      "n \<le> rc_cursor ctx1" "rc_cursor ctx1 < n + 4" "length (asm_buffer a) < 2 ^ 20"
    using generated_layout [OF gen f sz] by auto
  have "4 dvd rc_cursor ctx1" using l(1) by (simp add: mapped_ok_def)
  then have c: "rc_cursor ctx1 = n" using l(4,5) assms(4) by (auto elim!: dvdE)
  have o1: "origin1 = ?o" using l(3) c by (simp add: MemBlock_reset_def MemBlock_def)
  have "words_at [0xD61F0220] (body + 4) (asm_buffer a)" using l(2) by (simp add: tail_snippet_def)
  then have big: "0 < length (asm_buffer a)" using words_at_bound by fastforce
  obtain b w0 where b: "allocateExecBlock K (of_nat (length (asm_buffer a))) al w = Inr (b, al1, w0)"
    and "r = MemBlock (mb_addr b) (of_nat (length (asm_buffer a)))" "w_mem w1 = mem_write (mb_addr b) (asm_buffer a) (w_mem w0)"
      "w1 = DobbyCodePatch K (mb_addr b) (asm_buffer a) w0"
    using fin realized_relo_generate [OF gen] unfolding r
    by (auto simp: FinalizeFromTurboAssembler_def Let_def ebind_Inr_iff SetRealizedAddress_def GetBufferSize_def
        DobbyCodePatch_mem [OF assms(2)] MemBlock_reset_def MemBlock_def)
  with gen f o1 big l(6) show ?thesis
    by (intro exI [of _ ?ctx] exI [of _ ctx1] exI [of _ a] exI [of _ b] exI [of _ w0]) simp
qed

section \<open>Where the block lies\<close>


text \<open>
  The kernel: fresh mappings leave the mapped memory as it is, and changing permissions leaves
  all of it. A block then lies in an arena the allocator had, or in memory that was not mapped.
\<close>

definition mmap_keeps :: "'o kernel \<Rightarrow> ('o world \<Rightarrow> nat set) \<Rightarrow> bool" where
  "mmap_keeps K regions \<longleftrightarrow>
     (\<forall>sz prot w r w' x. k_mmap K 0 sz prot False w = (r, w') \<and> unat x \<in> regions w \<longrightarrow> w_mem w' x = w_mem w x)"

definition kernel_laws :: "'o kernel \<Rightarrow> ('o world \<Rightarrow> nat set) \<Rightarrow> bool" where
  "kernel_laws K regions \<longleftrightarrow> mmap_fresh K regions \<and> keeps_memory K \<and> mmap_keeps K regions
     \<and> (\<forall>w m. regions (w\<lparr>w_mem := m\<rparr>) = regions w)"

definition arena_memory :: "allocator \<Rightarrow> nat set" where
  "arena_memory al = \<Union> (set (map arena_span (code_arenas al)))"

lemma regions_patch: "kernel_laws K regions \<Longrightarrow> regions (DobbyCodePatch K a bs w) = regions w"
  by (simp add: DobbyCodePatch_def Let_def kernel_laws_def mmap_fresh_def)

lemma block_in_arena:
  assumes "allocMemBlock sz ar = (Some b, ar')" and "arena_ok ar"
  shows "block_span b \<subseteq> arena_span ar" and "mb_size b = sz" and "unat (mb_addr b) + unat (mb_size b) < 2 ^ 64"
  using allocMemBlock_Some [OF assms] assms(2)
  by (auto simp: block_span_def span_def arena_span_def MemBlock_def arena_ok_def)

lemma exec_block_effect:
  assumes "heap_inv regions (al, w, bs)" and "kernel_laws K regions"
    and "allocateExecBlock K sz al w = Inr (b, al', w')" and "mb_addr b \<noteq> 0"
  shows "block_span b \<inter> (regions w - arena_memory al) = {}" and "mb_size b = ucast sz"
    and "unat (mb_addr b) + unat (mb_size b) < 2 ^ 64"
    and "unat x \<in> regions w \<Longrightarrow> w_mem w' x = w_mem w x"
    and "regions w \<subseteq> regions w'" and "arena_memory al' \<inter> (regions w - arena_memory al) = {}"
proof -
  have fresh: "mmap_fresh K regions" using assms(2) by (simp add: kernel_laws_def)
  have "block_span b \<inter> (regions w - arena_memory al) = {} \<and> mb_size b = ucast sz
    \<and> unat (mb_addr b) + unat (mb_size b) < 2 ^ 64 \<and> (\<forall>x. unat x \<in> regions w \<longrightarrow> w_mem w' x = w_mem w x)
    \<and> regions w \<subseteq> regions w' \<and> arena_memory al' \<inter> (regions w - arena_memory al) = {}"
  proof (cases "alloc_first (ucast sz) (code_arenas al)")
    case (Some p)
    then obtain ars where a: "alloc_first (ucast sz) (code_arenas al) = Some (b, ars)" and w': "w' = w"
      and al': "al' = al\<lparr>code_arenas := ars\<rparr>"
      using assms(3) by (cases p) (auto simp: allocateExecBlock_def)
    obtain i ar' where i: "i < length (code_arenas al)" "allocMemBlock (ucast sz) (code_arenas al ! i) = (Some b, ar')"
      and ars: "ars = (code_arenas al)[i := ar']"
      using alloc_first_Some [OF a] by blast
    have ok: "arena_ok (code_arenas al ! i)" using assms(1) i(1) by (simp add: heap_inv_def)
    note b = block_in_arena [OF i(2) ok]
    have "arena_span ar' = map arena_span (code_arenas al) ! i"
      using allocMemBlock_Some(5,6) [OF i(2) ok] i(1) by (simp add: arena_span_def)
    then have "map arena_span ars = map arena_span (code_arenas al)"
      unfolding ars by (simp only: map_update list_update_id)
    then have "arena_memory al' = arena_memory al" by (simp add: arena_memory_def al' del: set_map)
    moreover
    have "arena_span (code_arenas al ! i) \<subseteq> arena_memory al" using nth_mem [OF i(1)] by (auto simp: arena_memory_def)
    ultimately show ?thesis using b w' by auto
  next
    case None
    then obtain ar al1 where n: "allocateCodeMemoryArena K (ucast (ALIGN_CEIL (ucast sz) (k_page_size K))) al w = Inr (ar, al1, w')"
      and l: "alloc_last (ucast sz) al1 = Inr (b, al')"
      using assms(3) by (auto simp: allocateExecBlock_def Let_def ebind_Inr_iff)
    define asz where "asz = (ucast (ucast (ALIGN_CEIL (ucast sz) (k_page_size K)) :: u32) :: u64)"
    obtain r w1 where m: "k_mmap K 0 asz 0 False w = (r, w1)" by force
    have ar: "ar = MemoryArena (if r = MAP_FAILED then 0 else r) asz" "code_arenas al1 = code_arenas al @ [ar]"
        "w' = snd (k_mprotect K (ar_addr ar) asz 5 w1)"
      using n m by (auto simp: allocateCodeMemoryArena_def OSMemory_Allocate_def OSMemory_SetPermission_def MemoryArena_def
          Let_def asz_def split: if_splits prod.splits)
    obtain ar' where lb: "allocMemBlock (ucast sz) ar = (Some b, ar')"
      using l ar(2) by (auto simp: alloc_last_def split: prod.splits option.splits)
    have "mb_addr b = ar_addr ar" using lb ar(1) by (auto simp: allocMemBlock_def MemBlock_def MemoryArena_def split: if_splits)
    then have nf: "r \<noteq> MAP_FAILED" using assms(4) ar(1) by (auto simp: MemoryArena_def)
    have pages: "asz mod k_page_size K = 0"
      using n by (simp add: allocateCodeMemoryArena_def asz_def split: if_splits)
    have K: "unat r + unat asz < 2 ^ 64" "span r asz \<inter> regions w = {}"
      using mmap_freshD [OF fresh m pages nf] by simp_all
    have ok: "arena_ok ar" using K(1) ar(1) nf by (simp add: arena_ok_def MemoryArena_def)
    note b = block_in_arena [OF lb ok]
    have sp: "arena_span ar = span r asz" using ar(1) nf by (simp add: arena_span_def MemoryArena_def)
    have "arena_memory al' = arena_memory al \<union> arena_span ar"
      using l lb ar(2) allocMemBlock_Some(5,6) [OF lb ok]
      by (auto simp: alloc_last_def arena_memory_def arena_span_def)
    moreover have "regions w' = regions w \<union> span r asz"
      using mmap_freshD(4) [OF fresh m pages nf] fresh by (simp add: ar(3) mmap_fresh_def)
    moreover note sp
    moreover have "w_mem w' x = w_mem w x" if "unat x \<in> regions w" for x
      using assms(2) m that by (simp add: ar(3) kernel_laws_def keeps_memory_def) (simp add: mmap_keeps_def)
    ultimately show ?thesis using b K(2) by auto
  qed
  then show "block_span b \<inter> (regions w - arena_memory al) = {}" "mb_size b = ucast sz"
    "unat (mb_addr b) + unat (mb_size b) < 2 ^ 64" "unat x \<in> regions w \<Longrightarrow> w_mem w' x = w_mem w x"
    "regions w \<subseteq> regions w'" "arena_memory al' \<inter> (regions w - arena_memory al) = {}"
    by blast+
qed


section \<open>Writing and reading memory\<close>

lemma unat_within: "unat a + n \<le> 2 ^ 64 \<Longrightarrow> unat (x - a :: u64) < n \<longleftrightarrow> unat x \<in> {unat a..<unat a + n}"
  using unsigned_less [of a, where ?'a = nat] by (auto simp: unat_sub_if_size word_size)

lemma mem_write_outside: "unat a + length bs \<le> 2 ^ 64 \<Longrightarrow> unat x \<notin> {unat a..<unat a + length bs} \<Longrightarrow> mem_write a bs m x = m x"
  using unat_within [of a "length bs" x] by (auto simp: mem_write_def)

lemma unat_offset: "unat a + n \<le> 2 ^ 64 \<Longrightarrow> i < n \<Longrightarrow> unat (a + of_nat i :: u64) = unat a + i"
proof -
  assume a: "unat a + n \<le> 2 ^ 64" "i < n"
  then have "unat (of_nat i :: u64) = i" by (simp add: unat_of_nat)
  with a show ?thesis by (subst unat_add_u64) simp_all
qed

lemma mem_read_cong:
  assumes "unat a + n \<le> 2 ^ 64" and "\<And>x. unat x \<in> {unat a..<unat a + n} \<Longrightarrow> m x = m' x"
  shows "mem_read m a n = mem_read m' a n"
  using unat_offset [OF assms(1)] assms(2) by (simp add: mem_read_def)

lemma placed_cong:
  assumes "placed code a m" and "unat a + length code \<le> 2 ^ 64"
    and "\<And>x. unat x \<in> {unat a..<unat a + length code} \<Longrightarrow> m' x = m x"
  shows "placed code a m'"
  using assms(1) unat_offset [OF assms(2)] assms(3) by (simp add: placed_def)

lemma mem_write_read:
  assumes "unat a + n \<le> 2 ^ 64" and "unat x \<in> {unat a..<unat a + n}"
  shows "mem_write a (mem_read m a n) m' x = m x"
proof -
  have "unat (x - a) < n" using unat_within [OF assms(1)] assms(2) by blast
  moreover have "a + of_nat (unat (x - a)) = x" by simp
  ultimately show ?thesis by (simp add: mem_write_def mem_read_def)
qed

lemma length_mem_read [simp]: "length (mem_read m a n) = n"
  by (simp add: mem_read_def)

lemma load_mem_read:
  assumes "i + 4 \<le> n"
  shows "load_cell 4 word32_of i (mem_read m a n) = Some (read32 m (a + of_nat i))"
proof -
  have "take 4 (drop i (mem_read m a n)) = mem_read m (a + of_nat i) 4"
    using assms by (intro nth_equalityI) (simp_all add: mem_read_def add.assoc)
  with assms show ?thesis by (simp add: load_cell_def read32_def)
qed


section \<open>A hook taken apart\<close>

definition hook_site :: "nat set \<Rightarrow> allocator \<Rightarrow> u64 \<Rightarrow> bool" where
  "hook_site mapped al a \<longleftrightarrow> unat a + 16 < 2 ^ 64 \<and> {unat a..<unat a + 16} \<subseteq> mapped - arena_memory al"

lemma trampoline_size:
  assumes "GenerateNormalTrampolineBuffer src dst = Inr code"
  shows "length code = 12 \<or> length code = 16"
  using assms by (auto simp: trampoline_code adrp_add_br_def length_bound split: if_splits)

text \<open>What the routing of a hook makes: the trampoline, the generated code and its block, the saved bytes.\<close>

record hook_parts =
  hp_tramp :: code_buffer
  hp_count :: nat
  hp_ctx :: relo_ctx
  hp_done :: relo_ctx
  hp_code :: assembler

definition hook_made :: "nat set \<Rightarrow> allocator \<Rightarrow> (u64 \<Rightarrow> byte) \<Rightarrow> u64 \<Rightarrow> u64 \<Rightarrow> u64 \<Rightarrow> (u64 \<Rightarrow> byte) \<Rightarrow> hook_parts \<Rightarrow> bool" where
  "hook_made mapped al m a dst origin m' h \<longleftrightarrow>
     GenerateNormalTrampolineBuffer a dst = Inr (hp_tramp h) \<and> length (hp_tramp h) = 4 * hp_count h \<and> hp_count h \<in> {3, 4}
     \<and> relo_generate (hp_ctx h) (MemBlock a (of_nat (4 * hp_count h))) True
         = Inr (hp_done h, MemBlock a (of_nat (4 * hp_count h)), hp_code h)
     \<and> fresh_ctx (hp_ctx h) \<and> rc_buffer (hp_ctx h) = mem_read m a (4 * hp_count h + 3)
     \<and> rc_buffer_size (hp_ctx h) = 4 * hp_count h \<and> rc_src_vmaddr (hp_ctx h) = a
     \<and> {unat origin..<unat origin + length (asm_buffer (hp_code h))} \<inter> (mapped - arena_memory al) = {}
     \<and> unat origin + length (asm_buffer (hp_code h)) < 2 ^ 64
     \<and> (\<exists>m0. (\<forall>x. unat x \<in> mapped \<longrightarrow> m0 x = m x)
           \<and> m' = mem_write a (hp_tramp h) (mem_write origin (asm_buffer (hp_code h)) m0))"

text \<open>The new block joins the live ones, and neither mapped memory nor that of others is lost.\<close>

definition heap_grows ::
  "('o world \<Rightarrow> nat set) \<Rightarrow> allocator \<Rightarrow> 'o world \<Rightarrow> mem_block list \<Rightarrow> u64 \<Rightarrow> nat \<Rightarrow> allocator \<Rightarrow> 'o world \<Rightarrow> bool" where
  "heap_grows regions al w bs origin len al' w' \<longleftrightarrow>
     (\<exists>b. heap_inv regions (al', w', b # bs) \<and> block_span b = {unat origin..<unat origin + len})
     \<and> regions w \<subseteq> regions w' \<and> arena_memory al' \<inter> (regions w - arena_memory al) = {}"

definition hook_entry :: "(u64 \<Rightarrow> byte) \<Rightarrow> u64 \<Rightarrow> u64 \<Rightarrow> nat \<Rightarrow> intercept_entry \<Rightarrow> bool" where
  "hook_entry m a origin n e \<longleftrightarrow> ie_patched_addr e = a \<and> ie_relocated_addr e = origin
     \<and> ie_origin_insn_size e = of_nat n \<and> n \<le> length (ie_origin_insns e) \<and> take n (ie_origin_insns e) = mem_read m a n"

lemma relocated_code_effect:
  assumes "GenerateRelocatedCode K r st = Inr (flag, r', st')" and "rt_trampoline_buffer r = Some tramp"
    and "ie_patched_addr (rt_entry r) = a" and "length (ie_origin_insns (rt_entry r)) = 256"
    and tramp: "GenerateNormalTrampolineBuffer a dst = Inr tramp"
    and laws: "kernel_laws K regions" and inv: "heap_inv regions (db_alloc st, db_world st, bs)"
    and site: "hook_site (regions (db_world st)) (db_alloc st) a"
    and "ie_relocated_addr (rt_entry r') \<noteq> 0"
  shows "\<exists>h. hook_made (regions (db_world st)) (db_alloc st) (w_mem (db_world st)) a dst (ie_relocated_addr (rt_entry r'))
        (mem_write a (hp_tramp h) (w_mem (db_world st'))) h \<and> hp_tramp h = tramp
    \<and> hook_entry (w_mem (db_world st)) a (ie_relocated_addr (rt_entry r')) (4 * hp_count h) (rt_entry r')
    \<and> db_entries st' = db_entries st \<and> rt_trampoline_buffer r' = Some tramp \<and> db_near_branch st' = db_near_branch st
    \<and> heap_grows regions (db_alloc st) (db_world st) bs (ie_relocated_addr (rt_entry r')) (length (asm_buffer (hp_code h)))
        (db_alloc st') (db_world st')"
proof -
  let ?w = "db_world st" and ?al = "db_alloc st" and ?e = "rt_entry r"
  obtain n where n: "length tramp = 4 * n" "n \<in> {3, 4}" using trampoline_size [OF tramp] by fastforce
  obtain origin1 rel al1 w1 where g: "GenRelocateCodeAndBranch K (mem_read (w_mem ?w) a (4 * n + 3)) (MemBlock a (of_nat (4 * n)))
      (MemBlock 0 0) ?al ?w = Inr (origin1, rel, al1, w1)"
    and fin: "(if mb_size rel = 0 then Inr (False, r\<lparr>rt_origin := Some origin1, rt_relocated := Some rel\<rparr>, st\<lparr>db_alloc := al1, db_world := w1\<rparr>)
      else if length (ie_origin_insns ?e) < unat (mb_size origin1) then Inl Wild
      else Inr (True, r\<lparr>rt_origin := Some origin1, rt_relocated := Some rel, rt_entry := ?e\<lparr>ie_relocated_addr := mb_addr rel,
          ie_origin_insns := mem_read (w_mem w1) (mb_addr origin1) (unat (mb_size origin1))
            @ drop (unat (mb_size origin1)) (ie_origin_insns ?e),
          ie_origin_insn_size := ucast (mb_size origin1)\<rparr>\<rparr>, st\<lparr>db_alloc := al1, db_world := w1\<rparr>)) = Inr (flag, r', st')"
    using assms(1) unfolding GenerateRelocatedCode_def assms(2,3) option.case Let_def GetBufferSize_def n(1) ebind_Inr_iff
    by fastforce
  have keeps: "keeps_memory K" using laws by (simp add: kernel_laws_def)
  have "4 * n < 2 ^ 15" "4 dvd 4 * n" using n(2) by auto
  from relocation_effect [OF g keeps this] obtain ctx ctx1 c b w0 where
    gen: "relo_generate ctx (MemBlock a (of_nat (4 * n))) True = Inr (ctx1, origin1, c)" "fresh_ctx ctx"
      "rc_buffer ctx = mem_read (w_mem ?w) a (4 * n + 3)" "rc_buffer_size ctx = 4 * n" "rc_src_vmaddr ctx = a"
    and o1: "origin1 = MemBlock a (of_nat (4 * n))"
    and blk: "allocateExecBlock K (of_nat (length (asm_buffer c))) ?al ?w = Inr (b, al1, w0)"
    and rel: "rel = MemBlock (mb_addr b) (of_nat (length (asm_buffer c)))"
    and mem: "w_mem w1 = mem_write (mb_addr b) (asm_buffer c) (w_mem w0)"
    and w1: "w1 = DobbyCodePatch K (mb_addr b) (asm_buffer c) w0"
    and len: "0 < length (asm_buffer c)" "length (asm_buffer c) < 2 ^ 20"
    by blast
  have u: "unat (of_nat (length (asm_buffer c)) :: u64) = length (asm_buffer c)" using len by (simp add: unat_of_nat)
  then have "mb_size rel \<noteq> 0" using len rel by (auto simp: MemBlock_def)
  moreover have sz: "unat (mb_size origin1) = 4 * n" using n(2) by (auto simp: o1 MemBlock_def)
  ultimately have r': "r' = r\<lparr>rt_origin := Some origin1, rt_relocated := Some rel, rt_entry := ?e\<lparr>ie_relocated_addr := mb_addr rel,
      ie_origin_insns := mem_read (w_mem w1) a (4 * n) @ drop (4 * n) (ie_origin_insns ?e),
      ie_origin_insn_size := ucast (mb_size origin1)\<rparr>\<rparr>" and st': "st' = st\<lparr>db_alloc := al1, db_world := w1\<rparr>"
    using fin assms(4) n(2) unfolding sz by (auto simp: o1 MemBlock_def)
  have org: "ie_relocated_addr (rt_entry r') = mb_addr b" using r' rel by (simp add: MemBlock_def)
  with assms(9) have b0: "mb_addr b \<noteq> 0" by simp
  note be = exec_block_effect [OF inv laws blk b0]
  have "ucast (of_nat (length (asm_buffer c)) :: u32) = (of_nat (length (asm_buffer c)) :: u64)"
    using len by (simp add: word_unat_eq_iff unat_ucast_u32 unat_of_nat)
  then have bs: "unat (mb_size b) = length (asm_buffer c)" using be(2) u by simp
  have fresh: "mmap_fresh K regions" using laws by (simp add: kernel_laws_def)
  have r1: "regions w1 = regions w0" unfolding w1 by (rule regions_patch [OF laws])
  have "heap_inv regions (al1, w1, b # bs)"
    using heap_inv_exec [OF inv fresh blk b0] r1 by (simp add: heap_inv_def)
  moreover have "block_span b = {unat (mb_addr b)..<unat (mb_addr b) + length (asm_buffer c)}"
    using bs by (simp add: block_span_def span_def)
  ultimately have grows: "heap_grows regions ?al ?w bs (mb_addr b) (length (asm_buffer c)) al1 w1"
    using be(5,6) r1 unfolding heap_grows_def by blast
  have out: "{unat (mb_addr b)..<unat (mb_addr b) + length (asm_buffer c)} \<inter> (regions ?w - arena_memory ?al) = {}"
    "unat (mb_addr b) + length (asm_buffer c) < 2 ^ 64"
    using be(1,3) bs by (simp_all add: block_span_def span_def)
  have mapped: "{unat a..<unat a + 4 * n} \<subseteq> regions ?w - arena_memory ?al" "unat a + 4 * n \<le> 2 ^ 64"
  proof -
    have "{unat a..<unat a + 4 * n} \<subseteq> {unat a..<unat a + 16}" using n(2) by auto
    then show "{unat a..<unat a + 4 * n} \<subseteq> regions ?w - arena_memory ?al"
      using site unfolding hook_site_def by (meson subset_trans)
    show "unat a + 4 * n \<le> 2 ^ 64" using site n(2) by (auto simp: hook_site_def)
  qed
  have saved: "mem_read (w_mem w1) a (4 * n) = mem_read (w_mem ?w) a (4 * n)"
  proof (rule mem_read_cong [OF mapped(2)])
    fix x :: u64
    assume "unat x \<in> {unat a..<unat a + 4 * n}"
    then have x: "unat x \<in> regions ?w - arena_memory ?al" using mapped(1) by blast
    then have "unat x \<notin> {unat (mb_addr b)..<unat (mb_addr b) + length (asm_buffer c)}" using out(1) by blast
    with x show "w_mem w1 x = w_mem ?w x" using be(4) out(2) by (simp add: mem mem_write_outside)
  qed
  define h where "h = \<lparr>hp_tramp = tramp, hp_count = n, hp_ctx = ctx, hp_done = ctx1, hp_code = c\<rparr>"
  have "hook_made (regions ?w) ?al (w_mem ?w) a dst (mb_addr b) (mem_write a (hp_tramp h) (w_mem w1)) h"
    using n gen out tramp be(4) by (auto simp: hook_made_def h_def o1 mem)
  moreover have "hook_entry (w_mem ?w) a (mb_addr b) (4 * n) (rt_entry r')"
    using saved assms(3,4) n(2) by (auto simp: hook_entry_def r' rel MemBlock_def o1)
  ultimately show ?thesis
    using org st' assms(2) r' grows by (intro exI [of _ h]) (simp add: h_def)
qed


lemma routing_simps [simp]:
  "rt_trampoline_buffer (SetTrampolineBuffer t r) = t" "rt_entry (SetTrampolineBuffer t r) = rt_entry r"
  "rt_trampoline_target (SetTrampolineTarget d r) = d" "rt_entry (SetTrampolineTarget d r) = rt_entry r"
  "rt_trampoline_buffer (SetTrampolineTarget d r) = rt_trampoline_buffer r"
  by (simp_all add: SetTrampolineBuffer_def SetTrampolineTarget_def)

lemma hook_effect:
  assumes hook: "DobbyHook K layout raw a dst True st = Inr (RS_SUCCESS, Some origin, st')" and near: "db_near_branch st = None"
    and laws: "kernel_laws K regions" and inv: "heap_inv regions (db_alloc st, db_world st, bs)"
    and site: "hook_site (regions (db_world st)) (db_alloc st) a"
    and "origin \<noteq> 0" and "length (ie_origin_insns raw) = 256"
  shows "\<exists>h e. hook_made (regions (db_world st)) (db_alloc st) (w_mem (db_world st)) a dst origin (w_mem (db_world st')) h
    \<and> hook_entry (w_mem (db_world st)) a origin (4 * hp_count h) e
    \<and> db_entries st' = db_entries st @ [e] \<and> Interceptor_find a (db_entries st) = None \<and> db_near_branch st' = None
    \<and> heap_grows regions (db_alloc st) (db_world st) bs origin (length (asm_buffer (hp_code h))) (db_alloc st') (db_world st')"
proof -
  define page where "page = ALIGN_FLOOR a (k_page_size K)"
  define st1 where "st1 = st\<lparr>db_world := snd (k_mprotect K page (k_page_size K) 5 (db_world st))\<rparr>"
  have guard: "hook_guard K a st = (True, st1)" and none: "Interceptor_find a (db_entries st) = None"
    using hook by (auto simp: DobbyHook_def hook_guard_def OSMemory_SetPermission_def Let_def st1_def page_def
        split: if_splits prod.splits)
  have m1: "w_mem (db_world st1) = w_mem (db_world st)" "regions (db_world st1) = regions (db_world st)"
    using laws by (simp_all add: st1_def kernel_laws_def keeps_memory_def mmap_fresh_def)
  have s1: "db_alloc st1 = db_alloc st" "db_entries st1 = db_entries st" "db_near_branch st1 = None"
    using near by (simp_all add: st1_def)
  have inv1: "heap_inv regions (db_alloc st1, db_world st1, bs)" using inv m1 s1 by (simp add: heap_inv_def)
  obtain e where e: "e = InterceptEntry_init raw (Interceptor_count (db_entries st1)) kFunctionInlineHook a" by simp
  define r where "r = FunctionInlineHookRouting e dst (length (db_routings st1))"
  obtain r2 st2 where disp: "inline_DispatchRouting K layout r st1 = Inr (r2, st2)"
    and org: "origin = ie_relocated_addr (rt_entry r2)"
    and com: "routing_Commit K r2 st2 = Inr (st2\<lparr>db_world := db_world st'\<rparr>)"
    and ent: "db_entries st' = db_entries st2 @ [rt_entry r2]" "db_alloc st' = db_alloc st2" "db_near_branch st' = db_near_branch st2"
    using hook guard by (auto simp: DobbyHook_def ebind_Inr_iff r_def e Interceptor_add_def routing_Commit_def routing_Active_def
        split: option.splits)
  have rf: "rt_replace_func r = dst" "rt_trampoline_buffer r = None" "ie_patched_addr (rt_entry r) = a"
    by (simp_all add: r_def e FunctionInlineHookRouting_def InterceptEntry_init_def)
  obtain flag tramp where tr: "GenerateNormalTrampolineBuffer a dst = Inr tramp"
    and gr: "GenerateRelocatedCode K (SetTrampolineBuffer (Some tramp) (SetTrampolineTarget dst r)) st1 = Inr (flag, r2, st2)"
    using disp s1(3) rf
    by (auto simp: inline_DispatchRouting_def inline_BuildRouting_def GenerateTrampolineBuffer_def ebind_Inr_iff Let_def)
  define r1 where "r1 = SetTrampolineBuffer (Some tramp) (SetTrampolineTarget dst r)"
  have t: "GenerateNormalTrampolineBuffer a dst = Inr tramp" "rt_trampoline_buffer r1 = Some tramp" "rt_entry r1 = rt_entry r"
    and gen: "GenerateRelocatedCode K r1 st1 = Inr (flag, r2, st2)"
    using tr gr by (simp_all add: r1_def)
  have pe: "ie_patched_addr (rt_entry r1) = a" "length (ie_origin_insns (rt_entry r1)) = 256"
    using t(3) assms(7) by (simp_all add: r_def e FunctionInlineHookRouting_def InterceptEntry_init_def)
  have "hook_site (regions (db_world st1)) (db_alloc st1) a" using site m1 s1 by simp
  from relocated_code_effect [OF gen t(2) pe t(1) laws inv1 this] assms(6) org obtain h where
    h: "hook_made (regions (db_world st)) (db_alloc st) (w_mem (db_world st)) a dst origin
        (mem_write a (hp_tramp h) (w_mem (db_world st2))) h" "hp_tramp h = tramp"
      "hook_entry (w_mem (db_world st)) a origin (4 * hp_count h) (rt_entry r2)"
      "db_entries st2 = db_entries st" "rt_trampoline_buffer r2 = Some tramp" "db_near_branch st2 = None"
      "heap_grows regions (db_alloc st) (db_world st1) bs origin (length (asm_buffer (hp_code h))) (db_alloc st2) (db_world st2)"
    unfolding m1 s1 by blast
  have "ie_patched_addr (rt_entry r2) = a" using h(3) by (simp add: hook_entry_def)
  then have "db_world st' = DobbyCodePatch K a tramp (db_world st2)"
    using com h(5) by (auto simp: routing_Commit_def routing_Active_def dest!: arg_cong [of _ _ db_world])
  then have "w_mem (db_world st') = mem_write a (hp_tramp h) (w_mem (db_world st2))"
    using laws h(2) by (simp add: kernel_laws_def DobbyCodePatch_mem)
  moreover have "regions (db_world st') = regions (db_world st2)"
    unfolding \<open>db_world st' = _\<close> by (rule regions_patch [OF laws])
  then have "heap_grows regions (db_alloc st) (db_world st) bs origin (length (asm_buffer (hp_code h))) (db_alloc st') (db_world st')"
    using h(7) m1(2) ent(2) by (simp add: heap_grows_def heap_inv_def)
  ultimately show ?thesis using h(1,3,4,6) ent none by (intro exI [of _ h] exI [of _ "rt_entry r2"]) simp
qed


section \<open>Hooks and their removal\<close>

text \<open>C5: destroying a hook undoes it: the status is success, the entries are those before the hook, and
  every byte that was mapped and is not the allocator's own is as it was.\<close>

theorem hook_destroy_restores:
  assumes "DobbyHook K layout raw a dst True st = Inr (RS_SUCCESS, Some origin, st')" and "db_near_branch st = None"
    and "kernel_laws K regions" and "heap_inv regions (db_alloc st, db_world st, bs)"
    and "hook_site (regions (db_world st)) (db_alloc st) a" and "origin \<noteq> 0" and "length (ie_origin_insns raw) = 256"
  shows "\<exists>st''. DobbyDestroy K a st' = Inr (RS_SUCCESS, st'') \<and> db_entries st'' = db_entries st
    \<and> (\<forall>x. unat x \<in> regions (db_world st) - arena_memory (db_alloc st) \<longrightarrow>
          w_mem (db_world st'') x = w_mem (db_world st) x)"
proof -
  let ?m = "w_mem (db_world st)" and ?M = "regions (db_world st)"
  obtain h e where made: "hook_made ?M (db_alloc st) ?m a dst origin (w_mem (db_world st')) h"
    and entry: "hook_entry ?m a origin (4 * hp_count h) e" and es: "db_entries st' = db_entries st @ [e]"
    and none: "Interceptor_find a (db_entries st) = None"
    using hook_effect [OF assms] by blast
  define n where "n = 4 * hp_count h"
  have n: "n \<le> 16" "length (hp_tramp h) = n" using made by (auto simp: hook_made_def n_def)
  have e: "ie_patched_addr e = a" "unat (ie_origin_insn_size e) = n" "n \<le> length (ie_origin_insns e)"
      "take n (ie_origin_insns e) = mem_read ?m a n"
    using entry [folded n_def] n(1) by (auto simp: hook_entry_def unat_of_nat)
  define st'' where "st'' = st'\<lparr>db_world := DobbyCodePatch K a (mem_read ?m a n) (db_world st'), db_entries := db_entries st\<rparr>"
  have "Interceptor_find a (db_entries st') = Some e" using none e(1) by (simp add: es find_append)
  moreover have "Interceptor_remove a (db_entries st') = db_entries st"
    using remove_last [of e "db_entries st"] none e(1) by (simp add: es)
  ultimately have d: "DobbyDestroy K a st' = Inr (RS_SUCCESS, st'')"
    using e(2-4) by (simp add: DobbyDestroy_def st''_def Let_def)
  have keeps: "keeps_memory K" using assms(3) by (simp add: kernel_laws_def)
  obtain m0 where m0: "\<And>x. unat x \<in> ?M \<Longrightarrow> m0 x = ?m x"
    and m': "w_mem (db_world st') = mem_write a (hp_tramp h) (mem_write origin (asm_buffer (hp_code h)) m0)"
    using made by (auto simp: hook_made_def)
  have a: "unat a + n \<le> 2 ^ 64" using assms(5) n(1) by (simp add: hook_site_def)
  have "w_mem (db_world st'') x = ?m x" if x: "unat x \<in> ?M - arena_memory (db_alloc st)" for x
  proof (cases "unat x \<in> {unat a..<unat a + n}")
    case True
    then show ?thesis by (simp add: st''_def DobbyCodePatch_mem [OF keeps] mem_write_read [OF a])
  next
    case False
    then have "w_mem (db_world st'') x = mem_write origin (asm_buffer (hp_code h)) m0 x"
      using a n(2) by (simp add: st''_def DobbyCodePatch_mem [OF keeps] m' mem_write_outside del: atLeastLessThan_iff)
    also have "\<dots> = m0 x"
      using made x by (intro mem_write_outside) (auto simp: hook_made_def)
    also have "\<dots> = ?m x" using m0 x by blast
    finally show ?thesis .
  qed
  with d show ?thesis by (intro exI [of _ st'']) (simp add: st''_def)
qed

text \<open>
  What a hook promises about the memory \<open>m\<close>, when \<open>m0\<close> was the memory before it: \<open>redirects\<close>, a call of
  \<open>a\<close> arrives at \<open>dst\<close> with all registers but x17 as they were; \<open>runs_original\<close>, a call of \<open>origin\<close>
  has the effect of the first \<open>n\<close> instructions \<open>m0\<close> has at \<open>a\<close> and goes on behind them, if they are
  relocatable, do not branch, and can be executed from the state of the call.
\<close>

definition redirects :: "(u64 \<Rightarrow> byte) \<Rightarrow> u64 \<Rightarrow> u64 \<Rightarrow> bool" where
  "redirects m a dst \<longleftrightarrow>
     (\<forall>s. mem s = m \<and> pc s = a \<longrightarrow> (\<exists>k. a64_steps k s = Some (s\<lparr>xreg := (xreg s)(17 := dst), pc := dst\<rparr>)))"

definition runs_original :: "(u64 \<Rightarrow> byte) \<Rightarrow> (u64 \<Rightarrow> byte) \<Rightarrow> u64 \<Rightarrow> u64 \<Rightarrow> nat \<Rightarrow> nat \<Rightarrow> bool" where
  "runs_original m0 m a origin len n \<longleftrightarrow>
     (\<forall>w f s. (\<forall>i < n. w i = read32 m0 (a + of_nat (4 * i)) \<and> relocatable (w i) \<and> \<not> jumps (w i)
            \<and> a64_exec (w i) (f i) = Some (f (Suc i)) \<and> pc (f i) = a + of_nat (4 * i))
          \<and> (\<forall>i \<le> n. mem_read (mem (f i)) origin len = mem_read m origin len)
          \<and> agree {17} (f 0) s \<and> mem s = m \<and> pc s = origin \<longrightarrow>
        (\<exists>k u. a64_steps k s = Some u \<and> agree {17} (f n) u \<and> pc u = a + of_nat (4 * n)))"

lemma redirectsI:
  assumes "GenerateNormalTrampolineBuffer a dst = Inr tramp" and "placed tramp a m" and "page_gap a dst \<noteq> 2 ^ 32"
  shows "redirects m a dst"
  using run_trampoline [OF assms(1)] assms(2,3) by (simp add: redirects_def trampoline_target_def)

lemma placed_mem_read:
  assumes "placed code a m" and "mem_read m' a (length code) = mem_read m a (length code)"
  shows "placed code a m'"
  unfolding placed_def
proof (intro allI impI)
  fix i
  assume i: "i < length code"
  then have "mem_read m' a (length code) ! i = mem_read m a (length code) ! i" by (simp only: assms(2))
  then show "m' (a + of_nat i) = code ! i" using i assms(1) by (simp add: mem_read_def placed_def)
qed

lemma runs_originalI:
  assumes gen: "relo_generate ctx (MemBlock a (of_nat (4 * n))) True = Inr (ctx1, origin1, c)" and "fresh_ctx ctx"
    and "rc_buffer_size ctx = 4 * n" and "rc_src_vmaddr ctx = a" and "0 < n" and "4 * n < 2 ^ 15"
    and words: "\<And>i. i < n \<Longrightarrow> load_cell 4 word32_of (4 * i) (rc_buffer ctx) = Some (read32 m0 (a + of_nat (4 * i)))"
    and "placed (asm_buffer c) origin m"
  shows "runs_original m0 m a origin (length (asm_buffer c)) n"
  unfolding runs_original_def
proof (intro allI impI)
  fix w f s
  assume r: "(\<forall>i < n. w i = read32 m0 (a + of_nat (4 * i)) \<and> relocatable (w i) \<and> \<not> jumps (w i)
            \<and> a64_exec (w i) (f i) = Some (f (Suc i)) \<and> pc (f i) = a + of_nat (4 * i))
          \<and> (\<forall>i \<le> n. mem_read (mem (f i)) origin (length (asm_buffer c)) = mem_read m origin (length (asm_buffer c)))
          \<and> agree {17} (f 0) s \<and> mem s = m \<and> pc s = origin"
  have b: "mb_addr (MemBlock a (of_nat (4 * n))) = a" by (simp add: MemBlock_def)
  have step: "load_cell 4 word32_of (4 * i) (rc_buffer ctx) = Some (w i) \<and> relocatable (w i) \<and> \<not> jumps (w i)
      \<and> a64_exec (w i) (f i) = Some (f (Suc i)) \<and> pc (f i) = mb_addr (MemBlock a (of_nat (4 * n))) + of_nat (4 * i)"
    if i: "i < n" for i
    using words [OF i] r i unfolding b by metis
  have src: "rc_src_vmaddr ctx = mb_addr (MemBlock a (of_nat (4 * n)))" unfolding b by (rule assms(4))
  have s: "agree {17} (f 0) s" "pc s = origin" using r by simp_all
  have code: "placed (asm_buffer c) origin (mem (f i))" if "i \<le> n" for i
    using r that by (intro placed_mem_read [OF assms(8)]) blast
  show "\<exists>k u. a64_steps k s = Some u \<and> agree {17} (f n) u \<and> pc u = a + of_nat (4 * n)"
    using relocated_prologue_lemma [OF gen assms(2,3,5,6) src step s(1) code s(2)] unfolding b .
qed

text \<open>The parts of a hook in the memory it leaves.\<close>

lemma hook_placed:
  assumes "hook_made mapped al m a dst origin m' h" and "hook_site mapped al a"
  shows "placed (hp_tramp h) a m'" and "placed (asm_buffer (hp_code h)) origin m'"
proof -
  define n where "n = hp_count h"
  note hm = assms(1) [unfolded hook_made_def, folded n_def]
  have n: "n \<in> {3, 4}" "length (hp_tramp h) = 4 * n" using hm by blast+
  obtain m0 where m': "m' = mem_write a (hp_tramp h) (mem_write origin (asm_buffer (hp_code h)) m0)"
    using hm by blast
  have a: "unat a + 4 * n \<le> 2 ^ 64" "{unat a..<unat a + 4 * n} \<subseteq> mapped - arena_memory al"
    using assms(2) n(1) by (auto simp: hook_site_def dest!: subsetD)
  show "placed (hp_tramp h) a m'"
    unfolding m' using n by (intro placed_mem_write) auto
  have disj: "{unat origin..<unat origin + length (asm_buffer (hp_code h))} \<inter> (mapped - arena_memory al) = {}"
    using hm by blast
  show "placed (asm_buffer (hp_code h)) origin m'"
  proof (rule placed_cong)
    show "placed (asm_buffer (hp_code h)) origin (mem_write origin (asm_buffer (hp_code h)) m0)"
      using hm by (intro placed_mem_write) simp
    show "unat origin + length (asm_buffer (hp_code h)) \<le> 2 ^ 64" using hm by simp
    fix x :: u64
    assume "unat x \<in> {unat origin..<unat origin + length (asm_buffer (hp_code h))}"
    then have "unat x \<notin> {unat a..<unat a + length (hp_tramp h)}" using disj a(2) unfolding n(2) by blast
    then show "m' x = mem_write origin (asm_buffer (hp_code h)) m0 x"
      unfolding m' using a(1) n(2) by (intro mem_write_outside) simp_all
  qed
qed

lemma hook_words:
  assumes "hook_made mapped al m a dst origin m' h" and "i < hp_count h"
  shows "load_cell 4 word32_of (4 * i) (rc_buffer (hp_ctx h)) = Some (read32 m (a + of_nat (4 * i)))"
proof -
  have "rc_buffer (hp_ctx h) = mem_read m a (4 * hp_count h + 3)" using assms(1) by (simp add: hook_made_def)
  then show ?thesis using assms(2) load_mem_read [of "4 * i" "4 * hp_count h + 3" m a] by simp
qed

lemma hook_runs_original:
  assumes "hook_made mapped al m a dst origin m' h" and "placed (asm_buffer (hp_code h)) origin m''"
    and "\<And>i. i < hp_count h \<Longrightarrow> read32 m0 (a + of_nat (4 * i)) = read32 m (a + of_nat (4 * i))"
  shows "runs_original m0 m'' a origin (length (asm_buffer (hp_code h))) (hp_count h)"
proof (rule runs_originalI)
  show "relo_generate (hp_ctx h) (MemBlock a (of_nat (4 * hp_count h))) True =
      Inr (hp_done h, MemBlock a (of_nat (4 * hp_count h)), hp_code h)"
    "fresh_ctx (hp_ctx h)" "rc_buffer_size (hp_ctx h) = 4 * hp_count h" "rc_src_vmaddr (hp_ctx h) = a"
    using assms(1) unfolding hook_made_def by blast+
  show "0 < hp_count h" "4 * hp_count h < 2 ^ 15" using assms(1) unfolding hook_made_def by auto
qed (use assms(2,3) hook_words [OF assms(1)] in simp_all)

lemma hook_code_short:
  assumes "hook_made mapped al m a dst origin m' h"
  shows "length (asm_buffer (hp_code h)) < 2 ^ 20"
proof -
  have "rc_buffer_size (hp_ctx h) < 2 ^ 15" using assms unfolding hook_made_def by auto
  moreover have "relo_generate (hp_ctx h) (MemBlock a (of_nat (4 * hp_count h))) True =
      Inr (hp_done h, MemBlock a (of_nat (4 * hp_count h)), hp_code h)" "fresh_ctx (hp_ctx h)"
    using assms unfolding hook_made_def by blast+
  ultimately show ?thesis using generated_layout by blast
qed

text \<open>C4: after a successful \<open>DobbyHook\<close> a call of the function runs the replacement, with all registers but
  x17 as they were, and the pointer returned through \<open>origin_func\<close> runs the overwritten prologue and
  goes on behind it, for prologues of relocatable instructions that do not branch and do not write into
  their own relocated code.\<close>

theorem hooked_function:
  assumes "DobbyHook K layout raw a dst True st = Inr (RS_SUCCESS, Some origin, st')" and "db_near_branch st = None"
    and "kernel_laws K regions" and "heap_inv regions (db_alloc st, db_world st, bs)"
    and "hook_site (regions (db_world st)) (db_alloc st) a" and "origin \<noteq> 0" and "length (ie_origin_insns raw) = 256"
    and "page_gap a dst \<noteq> 2 ^ 32"
  shows "\<exists>n len e. n \<in> {3, 4} \<and> len < 2 ^ 20 \<and> Interceptor_find a (db_entries st') = Some e \<and> ie_origin_insn_size e = of_nat (4 * n)
    \<and> redirects (w_mem (db_world st')) a dst
    \<and> runs_original (w_mem (db_world st)) (w_mem (db_world st')) a origin len n"
proof -
  let ?m = "w_mem (db_world st)" and ?M = "regions (db_world st)"
  obtain h e where made: "hook_made ?M (db_alloc st) ?m a dst origin (w_mem (db_world st')) h"
    and entry: "hook_entry ?m a origin (4 * hp_count h) e" and es: "db_entries st' = db_entries st @ [e]"
    and none: "Interceptor_find a (db_entries st) = None"
    using hook_effect [OF assms(1-7)] by blast
  note placed = hook_placed [OF made assms(5)]
  have "hp_count h \<in> {3, 4}" "GenerateNormalTrampolineBuffer a dst = Inr (hp_tramp h)"
    using made unfolding hook_made_def by blast+
  moreover from this placed(1) assms(8) have "redirects (w_mem (db_world st')) a dst" by (intro redirectsI)
  moreover have "runs_original ?m (w_mem (db_world st')) a origin (length (asm_buffer (hp_code h))) (hp_count h)"
    by (rule hook_runs_original [OF made placed(2)]) simp
  moreover have "Interceptor_find a (db_entries st') = Some e" "ie_origin_insn_size e = of_nat (4 * hp_count h)"
    using none entry by (simp_all add: es find_append hook_entry_def del: of_nat_mult)
  ultimately show ?thesis using hook_code_short [OF made] by blast
qed

end
