(* ===== verification/Hook_Demo.thy ===== *)
theory Hook_Demo
  imports Hook_Props Arm64_Reloc_Demo
begin

text \<open>
  The theorems on hooks and near trampolines at concrete inputs: four \<open>nop\<close> instructions at 0x2000
  hooked to 0x3000, with an arena of the allocator at 0x40000000.
\<close>

unbundle bit_operations_syntax

definition nops :: "nat \<Rightarrow> byte list" where
  "nops n = concat (map bytes32 (replicate n 0xD503201F))"

definition hook_world :: "nat world" where
  "hook_world = \<lparr>w_mem = mem_write 0x2000 (nops 4) (\<lambda>_. 0), w_os = 0x80000000\<rparr>"

definition hook_arenas :: allocator where
  "hook_arenas = \<lparr>code_arenas = [MemoryArena 0x40000000 0x10000000], data_arenas = []\<rparr>"

definition hook_state :: "nat dobby" where
  "hook_state = \<lparr>db_entries = [], db_routings = [], db_plugins = [], db_near_branch = None, db_alloc = hook_arenas,
     db_world = hook_world\<rparr>"

definition raw_entry :: intercept_entry where
  "raw_entry = \<lparr>ie_id = 0, ie_type = kFunctionInlineHook, ie_routing = 0, ie_patched_addr = 0, ie_patched_size = 0,
     ie_relocated_addr = 0, ie_relocated_size = 0, ie_origin_insns = replicate 256 0, ie_origin_insn_size = 0,
     ie_thumb_mode = False\<rparr>"

lemma hook_laws: "kernel_laws bump_kernel bump_regions"
  using bump_fresh
  by (auto simp: kernel_laws_def keeps_memory_def mmap_keeps_def bump_kernel_def bump_mmap_def bump_regions_def split: if_splits)

lemma hook_inv: "heap_inv bump_regions (db_alloc hook_state, db_world hook_state, [])"
  by (simp add: hook_state_def hook_arenas_def hook_world_def heap_inv_def apart_def arena_ok_def MemoryArena_def
      arena_span_def span_def bump_regions_def)

lemma hook_site_demo: "hook_site (bump_regions (db_world hook_state)) (db_alloc hook_state) 0x2000"
  by (auto simp: hook_state_def hook_arenas_def hook_world_def hook_site_def arena_memory_def MemoryArena_def
      arena_span_def span_def bump_regions_def)

lemma length_nops [simp]: "length (nops n) = 4 * n"
  by (induction n) (simp_all add: nops_def)

lemma nops_4: "nops 4 = concat [bytes32 0xD503201F, bytes32 0xD503201F, bytes32 0xD503201F, bytes32 0xD503201F]"
  "bytes32 0xD503201F = [0x1F, 0x20, 0x03, 0xD5]"
  by (simp add: nops_def numeral_eq_Suc) (simp add: bytes32_def)

lemma nop_words: "i < n \<Longrightarrow> load_cell 4 word32_of (4 * i) (nops n @ bs) = Some 0xD503201F"
  using words_at_emitted [of "replicate n 0xD503201F" "[]" bs] by (simp add: nops_def words_at_def)

lemma hook_memory: "i < 4 \<Longrightarrow> read32 (w_mem (db_world hook_state)) (0x2000 + of_nat (4 * i)) = 0xD503201F"
proof -
  assume i: "i < 4"
  have "placed (nops 4) 0x2000 (w_mem (db_world hook_state))"
    unfolding hook_state_def hook_world_def by (simp add: placed_mem_write)
  from placed_read32 [OF this, of "4 * i"] show ?thesis using nop_words [OF i, of "[]"] by simp
qed

text \<open>The arena after it has handed out the bytes before the cursor \<open>c\<close>, and code put behind them.\<close>

definition arena_at :: "u64 \<Rightarrow> allocator" where
  "arena_at c = \<lparr>code_arenas = [(MemoryArena 0x40000000 0x10000000)\<lparr>ar_cursor := c\<rparr>], data_arenas = []\<rparr>"

lemma hook_arenas_at: "hook_arenas = arena_at 0x40000000"
  by (simp add: hook_arenas_def arena_at_def MemoryArena_def)

lemma bump_patch: "DobbyCodePatch bump_kernel a bs w = w\<lparr>w_mem := mem_write a bs (w_mem w)\<rparr>"
  by (simp add: DobbyCodePatch_def Let_def bump_kernel_def)

lemma finalize_demo:
  assumes "realized_addr a = 0" and "length (asm_buffer a) < 2 ^ 20" and "c \<in> {0x40000000..0x4F000000}"
  shows "\<exists>a'. FinalizeFromTurboAssembler bump_kernel a (arena_at c) w = Inr (MemBlock c (of_nat (length (asm_buffer a))), a',
    arena_at (c + of_nat (length (asm_buffer a))), w\<lparr>w_mem := mem_write c (asm_buffer a) (w_mem w)\<rparr>)"
proof -
  define n where "n = length (asm_buffer a)"
  have n: "n < 2 ^ 20" using assms(2) by (simp add: n_def)
  have u: "unat (ucast (of_nat n :: u32) :: u64) = n" using n by (simp add: unsigned_ucast_eq unat_of_nat unsigned_of_nat take_bit_nat_eq_self)
  then have e: "(ucast (of_nat n :: u32) :: u64) = of_nat n" using n by (simp add: word_unat_eq_iff unat_of_nat)
  have c: "unat c \<le> 0x4F000000" using assms(3) by (simp add: word_le_nat_alt)
  then have "unat (0x50000000 - c) = 0x50000000 - unat c" by (subst unat_sub) (simp_all add: word_le_nat_alt)
  then have "\<not> 0x50000000 - c < of_nat n" using c n e u by (simp add: word_less_nat_alt)
  then show ?thesis
    using assms(1) e
    by (simp add: FinalizeFromTurboAssembler_def Let_def allocateExecBlock_def arena_at_def MemoryArena_def allocMemBlock_def
        GetBufferSize_def MemBlock_def SetRealizedAddress_def bump_patch flip: n_def)
qed

lemma hook_relocates:
  assumes "c \<in> {0x40000000..0x4F000000}"
  shows "\<exists>a :: assembler. GenRelocateCodeAndBranch bump_kernel (mem_read (w_mem w) 0x2000 15) (MemBlock 0x2000 (of_nat 12))
      (MemBlock 0 0) (arena_at c) w = Inr (MemBlock 0x2000 12, MemBlock c (of_nat (length (asm_buffer a))),
        arena_at (c + of_nat (length (asm_buffer a))), w\<lparr>w_mem := mem_write c (asm_buffer a) (w_mem w)\<rparr>)
    \<and> 0 < length (asm_buffer a) \<and> length (asm_buffer a) < 2 ^ 20"
proof -
  let ?b = "mem_read (w_mem w) 0x2000 15"
  let ?ctx = "\<lparr>rc_buffer = ?b, rc_cursor = 0, rc_buffer_size = 12, rc_src_vmaddr = 0x2000, rc_dst_vmaddr = 0,
    rc_offset_map = Map.empty\<rparr>"
  have f: "fresh_ctx ?ctx" by (simp add: fresh_ctx_def)
  obtain ctx1 o1 a where g: "relo_generate ?ctx (MemBlock 0x2000 12) True = Inr (ctx1, o1, a)"
    using relocation_returns [OF f, of 3 "MemBlock 0x2000 12"] by auto
  have sz: "rc_buffer_size ?ctx < 2 ^ 15" by simp
  have short: "length (asm_buffer a) < 2 ^ 20" using generated_layout [OF g f sz] by blast
  obtain a' where "FinalizeFromTurboAssembler bump_kernel a (arena_at c) w = Inr (MemBlock c (of_nat (length (asm_buffer a))), a',
      arena_at (c + of_nat (length (asm_buffer a))), w\<lparr>w_mem := mem_write c (asm_buffer a) (w_mem w)\<rparr>)"
    using finalize_demo [OF realized_relo_generate [OF g] short assms] by blast
  then have e: "GenRelocateCodeAndBranch bump_kernel ?b (MemBlock 0x2000 (of_nat 12)) (MemBlock 0 0) (arena_at c) w
      = Inr (o1, MemBlock c (of_nat (length (asm_buffer a))), arena_at (c + of_nat (length (asm_buffer a))),
          w\<lparr>w_mem := mem_write c (asm_buffer a) (w_mem w)\<rparr>)"
    using g by (simp add: GenRelocateCodeAndBranch_def GenRelocateCode_def relo_relocate_def MemBlock_def MemBlock_reset_def)
  have keeps: "keeps_memory bump_kernel" using hook_laws by (simp add: kernel_laws_def)
  have "(12 :: nat) < 2 ^ 15" "4 dvd (12 :: nat)" by simp_all
  from relocation_effect [OF e keeps this] obtain a' b where o1: "o1 = MemBlock 0x2000 (of_nat 12)"
    and r: "MemBlock c (of_nat (length (asm_buffer a))) = MemBlock b (of_nat (length (asm_buffer (a' :: assembler))))"
    and l: "0 < length (asm_buffer a')" "length (asm_buffer a') < 2 ^ 20"
    by blast
  have "unat (of_nat (length (asm_buffer a)) :: u64) = unat (of_nat (length (asm_buffer a')) :: u64)"
    using arg_cong [OF r, of mb_size] by (simp add: MemBlock_def)
  then have "0 < length (asm_buffer a)" using l short by (simp add: unat_of_nat)
  then show ?thesis using e short o1 by (intro exI [of _ a]) simp
qed

lemma hook_happens:
  "\<exists>st'. DobbyHook bump_kernel layout raw_entry 0x2000 0x3000 True hook_state = Inr (RS_SUCCESS, Some 0x40000000, st')"
proof -
  have "(0x40000000 :: u64) \<in> {0x40000000..0x4F000000}" by simp
  from hook_relocates [OF this, of hook_world] obtain a :: assembler and al1 w1 where
    g: "GenRelocateCodeAndBranch bump_kernel (mem_read (w_mem hook_world) 0x2000 15)
      (MemBlock 0x2000 (of_nat 12)) (MemBlock 0 0) hook_arenas hook_world
      = Inr (MemBlock 0x2000 12, MemBlock 0x40000000 (of_nat (length (asm_buffer a))), al1, w1)"
    and l: "0 < length (asm_buffer a)" "length (asm_buffer a) < 2 ^ 20"
    unfolding hook_arenas_at by fastforce
  have "unat (of_nat (length (asm_buffer a)) :: u64) \<noteq> 0" using l by (simp add: unat_of_nat)
  then have sz: "(of_nat (length (asm_buffer a)) :: u64) \<noteq> 0" by (simp only: unat_eq_zero) simp
  have "abs_distance 0x2000 0x3000 < adrp_range" by (simp add: abs_distance_def adrp_range_def)
  then obtain tramp where t: "GenerateNormalTrampolineBuffer 0x2000 0x3000 = Inr tramp" "length tramp = 12"
    by (simp add: trampoline_code adrp_add_br_def)
  have k: "k_mprotect bump_kernel = (\<lambda>a n p w. (0, w))" by (simp add: bump_kernel_def)
  show ?thesis
    using g sz t
    by (simp add: DobbyHook_def hook_guard_def OSMemory_SetPermission_def k hook_state_def Let_def inline_DispatchRouting_def
        inline_BuildRouting_def GenerateTrampolineBuffer_def FunctionInlineHookRouting_def InterceptEntry_init_def
        SetTrampolineTarget_def SetTrampolineBuffer_def GenerateRelocatedCode_def GetBufferSize_def MemBlock_def raw_entry_def
        routing_Commit_def routing_Active_def)
qed


lemma hook_demo_facts:
  "db_near_branch hook_state = None" "(0x40000000 :: u64) \<noteq> 0" "length (ie_origin_insns raw_entry) = 256"
  by (simp_all add: hook_state_def raw_entry_def)

theorem hook_destroy_restores_witness:
  "\<exists>st' st''. DobbyHook bump_kernel (\<lambda>_. []) raw_entry 0x2000 0x3000 True hook_state = Inr (RS_SUCCESS, Some 0x40000000, st')
    \<and> DobbyDestroy bump_kernel 0x2000 st' = Inr (RS_SUCCESS, st'') \<and> db_entries st'' = []
    \<and> w_mem (db_world st'') 0x2000 = 0x1F \<and> w_mem (db_world st'') 0x200B = 0xD5"
proof -
  obtain st' where h: "DobbyHook bump_kernel (\<lambda>_. []) raw_entry 0x2000 0x3000 True hook_state = Inr (RS_SUCCESS, Some 0x40000000, st')"
    using hook_happens by blast
  obtain st'' where d: "DobbyDestroy bump_kernel 0x2000 st' = Inr (RS_SUCCESS, st'')" "db_entries st'' = db_entries hook_state"
    and m: "\<And>x. unat x \<in> bump_regions (db_world hook_state) - arena_memory (db_alloc hook_state) \<Longrightarrow>
      w_mem (db_world st'') x = w_mem (db_world hook_state) x"
    using hook_destroy_restores [OF h hook_demo_facts(1) hook_laws hook_inv hook_site_demo hook_demo_facts(2,3)] by blast
  have s: "{unat (0x2000 :: u64)..<unat (0x2000 :: u64) + 16}
      \<subseteq> bump_regions (db_world hook_state) - arena_memory (db_alloc hook_state)"
    using hook_site_demo by (simp only: hook_site_def)
  have "unat (0x2000 :: u64) \<in> {unat (0x2000 :: u64)..<unat (0x2000 :: u64) + 16}"
    "unat (0x200B :: u64) \<in> {unat (0x2000 :: u64)..<unat (0x2000 :: u64) + 16}" by simp_all
  then have "w_mem (db_world st'') 0x2000 = w_mem (db_world hook_state) 0x2000"
    "w_mem (db_world st'') 0x200B = w_mem (db_world hook_state) 0x200B"
    using m s by blast+
  moreover have "w_mem (db_world hook_state) 0x2000 = 0x1F" "w_mem (db_world hook_state) 0x200B = 0xD5"
    by (simp_all add: hook_state_def hook_world_def mem_write_def nops_4)
  ultimately show ?thesis using h d by (intro exI [of _ st'] exI [of _ st'']) (simp add: hook_state_def)
qed


definition run_state :: "(u64 \<Rightarrow> byte) \<Rightarrow> u64 \<Rightarrow> a64" where
  "run_state m a = \<lparr>xreg = (\<lambda>_. 0), spreg = 0, vreg = (\<lambda>_. 0), pc = a, flagN = False, flagZ = False, flagC = False,
     flagV = False, mem = m\<rparr>"

theorem hooked_function_witness:
  "\<exists>st' k j u. DobbyHook bump_kernel (\<lambda>_. []) raw_entry 0x2000 0x3000 True hook_state = Inr (RS_SUCCESS, Some 0x40000000, st')
    \<and> a64_steps k (run_state (w_mem (db_world st')) 0x2000) =
        Some ((run_state (w_mem (db_world st')) 0x3000)\<lparr>xreg := (\<lambda>_. 0)(17 := 0x3000)\<rparr>)
    \<and> a64_steps j (run_state (w_mem (db_world st')) 0x40000000) = Some u
    \<and> (agree {17} (run_state (w_mem (db_world st')) 0x200C) u \<and> pc u = 0x200C
       \<or> agree {17} (run_state (w_mem (db_world st')) 0x2010) u \<and> pc u = 0x2010)"
proof -
  obtain st' where h: "DobbyHook bump_kernel (\<lambda>_. []) raw_entry 0x2000 0x3000 True hook_state = Inr (RS_SUCCESS, Some 0x40000000, st')"
    using hook_happens by blast
  have gap: "page_gap 0x2000 0x3000 \<noteq> 2 ^ 32" by (simp add: page_gap_def ALIGN_FLOOR_def)
  let ?m = "w_mem (db_world st')"
  obtain n len where n: "n \<in> {3, 4}" and r1: "redirects ?m 0x2000 0x3000"
    and r2: "runs_original (w_mem (db_world hook_state)) ?m 0x2000 0x40000000 len n"
    using hooked_function [OF h hook_demo_facts(1) hook_laws hook_inv hook_site_demo hook_demo_facts(2,3) gap] by blast
  have "\<exists>k. a64_steps k (run_state ?m 0x2000) = Some ((run_state ?m 0x3000)\<lparr>xreg := (\<lambda>_. 0)(17 := 0x3000)\<rparr>)"
    using r1 [unfolded redirects_def, rule_format, of "run_state ?m 0x2000"] by (simp add: run_state_def)
  moreover have "\<exists>j u. a64_steps j (run_state ?m 0x40000000) = Some u
      \<and> agree {17} (run_state ?m (0x2000 + of_nat (4 * n))) u \<and> pc u = 0x2000 + of_nat (4 * n)"
  proof (rule r2 [unfolded runs_original_def, rule_format, of "\<lambda>_. 0xD503201F" "\<lambda>i. run_state ?m (0x2000 + of_nat (4 * i))" "run_state ?m 0x40000000"],
      intro conjI allI impI)
    fix i
    assume "i < n"
    with n have "i < 4" by auto
    then show "0xD503201F = read32 (w_mem (db_world hook_state)) (0x2000 + of_nat (4 * i))" by (simp only: hook_memory)
    show "a64_exec 0xD503201F (run_state ?m (0x2000 + of_nat (4 * i))) = Some (run_state ?m (0x2000 + of_nat (4 * Suc i)))"
      by (simp add: demo_exec next_pc_def run_state_def add.assoc)
  qed (simp_all add: demo_relocatable agree_def run_state_def)
  ultimately obtain k j u where "a64_steps k (run_state ?m 0x2000) = Some ((run_state ?m 0x3000)\<lparr>xreg := (\<lambda>_. 0)(17 := 0x3000)\<rparr>)"
    "a64_steps j (run_state ?m 0x40000000) = Some u"
    "agree {17} (run_state ?m (0x2000 + of_nat (4 * n))) u \<and> pc u = 0x2000 + of_nat (4 * n)" by blast
  then show ?thesis using h n by (intro exI [of _ st'] exI [of _ k] exI [of _ j] exI [of _ u] conjI) auto
qed

section \<open>A near trampoline\<close>

definition near_arenas :: allocator where
  "near_arenas = \<lparr>code_arenas = [MemoryArena 0x7000000 0x100000], data_arenas = []\<rparr>"

lemma near_room_demo: "near_room bump_kernel 12 near_arenas 0x8000000"
  by (simp add: near_room_def near_arenas_def aligned_arenas_def arena_ok_def MemoryArena_def bump_kernel_def)

lemma near_memory_demo:
  "allocateNearExecMemory bump_kernel l 12 0x8000000 (word_of_int ARM64_B_XXX_RANGE) near_arenas w =
     (0x7000000, \<lparr>code_arenas = [(MemoryArena 0x7000000 0x100000)\<lparr>ar_cursor := 0x700000C\<rparr>], data_arenas = []\<rparr>, w)"
  "allocateNearExecMemory bump_kernel l 20 0x8000000 (word_of_int ARM64_B_XXX_RANGE)
     \<lparr>code_arenas = [(MemoryArena 0x7000000 0x100000)\<lparr>ar_cursor := 0x700000C\<rparr>], data_arenas = []\<rparr> w =
     (0x700000C, \<lparr>code_arenas = [(MemoryArena 0x7000000 0x100000)\<lparr>ar_cursor := 0x7000020\<rparr>], data_arenas = []\<rparr>, w)"
  by (simp_all add: allocateNearExecMemory_def allocateNearBlock_def allocateNearBlockFromDefaultAllocator_def near_arenas_def
      allocateFromDefaultArena_def MemoryArena_def skip_and_alloc_def allocMemBlock_def MemBlock_def ARM64_B_XXX_RANGE_def
      Let_def max_def min_def)

lemma forward_demo:
  "\<exists>al' w'. GenerateFastForwardTrampoline bump_kernel l 0x8000000 0x7000000000 near_arenas bump_world
     = Inr (Some (MemBlock 0x700000C 20), al', w')"
proof -
  have far: "\<not> abs_distance 0x7000000 0x7000000000 < adrp_range" by (simp add: abs_distance_def adrp_range_def)
  have "length (concat (map bytes32 (mov_words 17 0x7000000000 @ [0xD61F0220]))) = 20" by (simp add: mov_words_def)
  moreover have "asm_Mov TMP_REG_0 v a = a\<lparr>asm_buffer := asm_buffer a @ concat (map bytes32 (mov_words 17 v))\<rparr>" for v a
    unfolding TMP_REG_0_def by (simp add: asm_Mov_X)
  ultimately show ?thesis
    using far
    by (simp add: GenerateFastForwardTrampoline_def near_memory_demo asm_br17 GetBufferSize_def
        asm_Emit_def Emit32_def EmitBuffer_def new_assembler_def FinalizeFromTurboAssembler_def SetRealizedAddress_def Let_def)
qed

theorem near_trampoline_reaches_witness:
  "\<exists>code al' w' k t. GenerateNearTrampolineBuffer bump_kernel (\<lambda>_. []) 0x8000000 0x7000000000 near_arenas bump_world
      = Inr (Some code, al', w') \<and> length code = 4
    \<and> a64_steps k (run_state (mem_write 0x8000000 code (w_mem w')) 0x8000000) = Some t \<and> pc t = 0x7000000000"
proof -
  obtain al' w' where f: "GenerateFastForwardTrampoline bump_kernel (\<lambda>_. []) 0x8000000 0x7000000000 near_arenas bump_world
     = Inr (Some (MemBlock 0x700000C 20), al', w')" using forward_demo by blast
  have "\<not> \<bar>sint (0x7000000000 - 0x8000000 :: u64)\<bar> < ARM64_B_XXX_RANGE" by (simp add: ARM64_B_XXX_RANGE_def)
  then obtain code where g: "GenerateNearTrampolineBuffer bump_kernel (\<lambda>_. []) 0x8000000 0x7000000000 near_arenas bump_world
      = Inr (Some code, al', w')" and len: "length code = 4"
    using f by (simp add: GenerateNearTrampolineBuffer_def Let_def Copy_def EmitBuffer_def asm_b_word asm_Emit_def Emit32_def
        new_assembler_def)
  have keeps: "keeps_memory bump_kernel" using hook_laws by (simp add: kernel_laws_def)
  let ?s = "run_state (mem_write 0x8000000 code (w_mem w')) 0x8000000"
  have blk: "page_gap (mb_addr blk) 0x7000000000 \<noteq> 2 ^ 32
      \<and> (\<forall>i < unat (mb_size blk). 4 \<le> unat (mb_addr blk + of_nat i - 0x8000000))"
    if "GenerateFastForwardTrampoline bump_kernel (\<lambda>_. []) 0x8000000 0x7000000000 near_arenas bump_world
     = Inr (Some blk, al', w')" for blk
  proof -
    have b: "blk = MemBlock 0x700000C 20" using that f by simp
    have "4 \<le> unat (0x700000C + of_nat i - 0x8000000 :: u64)" if "i < 20" for i
    proof -
      have "unat (0x700000C + of_nat i - 0x8000000 :: u64) < 4 \<longleftrightarrow> unat (0x700000C + of_nat i :: u64) \<in> {unat (0x8000000 :: u64)..<unat (0x8000000 :: u64) + 4}"
        by (rule unat_within) simp
      moreover have "unat (0x700000C + of_nat i :: u64) = unat (0x700000C :: u64) + i"
        using that by (intro unat_offset [of _ 20]) simp_all
      ultimately show ?thesis using that by simp
    qed
    then show ?thesis by (simp add: b MemBlock_def page_gap_def ALIGN_FLOOR_def)
  qed
  have "length code = 4 \<and> (\<exists>k t. a64_steps k ?s = Some t \<and> agree {17} ?s t \<and> pc t = 0x7000000000)"
  proof (rule near_trampoline_reaches [OF g keeps near_room_demo _ blk])
    show "placed code 0x8000000 (mem ?s)" using len by (simp add: run_state_def placed_mem_write)
  qed (use len in \<open>auto simp: run_state_def mem_write_def\<close>)
  then show ?thesis using g by blast
qed

end
