(* ===== verification/Hook_Onload.thy ===== *)
theory Hook_Onload
  imports Native_Load Hook_Demo
begin

text \<open>
  The payload on the framework: \<open>JNI_OnLoad\<close> of \<open>homvpn_native.cpp\<close> run with the modelled
  \<open>DobbyHook\<close>. The invariant \<open>hooks_inv\<close> holds after any number of hooks: the heap of the allocator is
  in order, every hook made so far stands in memory, and nothing else that was mapped has changed.
  At the end all the hooks work at once (\<open>onload_redirects\<close>).
\<close>

section \<open>The framework\<close>

text \<open>
  The entry points over one state; an error of the hooking library ends the program, and the calls
  after it do nothing. Where \<open>resolve\<close> finds the symbols is a parameter.
\<close>

definition dobby_framework ::
  "'o kernel \<Rightarrow> ('o world \<Rightarrow> region list) \<Rightarrow> intercept_entry \<Rightarrow> (string \<Rightarrow> u64 option) \<Rightarrow> (dobby_error + 'o dobby) framework" where
  "dobby_framework K layout raw resolve =
     \<lparr>fw_resolve = (\<lambda>lib symbol w. resolve symbol),
      fw_hook = (\<lambda>address replacement w.
        case w of
          Inl e \<Rightarrow> (RS_FAILED, None, Inl e)
        | Inr st \<Rightarrow> (case DobbyHook K layout raw address replacement True st of
              Inl e \<Rightarrow> (RS_FAILED, None, Inl e)
            | Inr (ret, origin, st') \<Rightarrow> (ret, origin, Inr st')))\<rparr>"

lemma DobbyHook_status:
  assumes "DobbyHook K layout raw a dst True st = Inr (ret, org, st')"
  shows "ret = RS_FAILED \<and> org = None \<or> ret = RS_SUCCESS \<and> (\<exists>p. org = Some p)"
  using assms by (auto simp: DobbyHook_def Let_def ebind_Inr_iff split: prod.splits if_splits)

section \<open>Many hooks\<close>

definition site :: "u64 \<Rightarrow> nat set" where
  "site a = {unat a..<unat a + 16}"

type_synonym hook = "u64 \<times> u64 \<times> u64"

text \<open>
  A hook (address, replacement, original) stands in memory \<open>m\<close>: it was made, at some earlier time, over
  instructions that were those of \<open>m0\<close>, its trampoline and its code are still in place, and the code
  is one of the live blocks.
\<close>

definition hook_kept :: "(u64 \<Rightarrow> byte) \<Rightarrow> mem_block list \<Rightarrow> (u64 \<Rightarrow> byte) \<Rightarrow> hook \<Rightarrow> bool" where
  "hook_kept m0 bs m = (\<lambda>(a, dst, origin). \<exists>h mapped al m1 m'. hook_made mapped al m1 a dst origin m' h
     \<and> (\<forall>i < hp_count h. read32 m0 (a + of_nat (4 * i)) = read32 m1 (a + of_nat (4 * i)))
     \<and> placed (hp_tramp h) a m \<and> placed (asm_buffer (hp_code h)) origin m
     \<and> (\<exists>b \<in> set bs. block_span b = {unat origin..<unat origin + length (asm_buffer (hp_code h))}))"

definition hooks_inv ::
  "('o world \<Rightarrow> nat set) \<Rightarrow> 'o dobby \<Rightarrow> 'o dobby \<Rightarrow> hook list \<Rightarrow> mem_block list \<Rightarrow> bool" where
  "hooks_inv regions st0 st H bs \<longleftrightarrow>
     heap_inv regions (db_alloc st, db_world st, bs) \<and> db_near_branch st = None
     \<and> regions (db_world st0) - arena_memory (db_alloc st0) \<subseteq> regions (db_world st) - arena_memory (db_alloc st)
     \<and> (\<forall>x. unat x \<in> regions (db_world st0) - arena_memory (db_alloc st0) \<and> (\<forall>t \<in> set H. unat x \<notin> site (fst t)) \<longrightarrow>
          w_mem (db_world st) x = w_mem (db_world st0) x)
     \<and> (\<forall>t \<in> set H. hook_kept (w_mem (db_world st0)) bs (w_mem (db_world st)) t)"

lemma heap_inv_block:
  assumes "heap_inv regions (al, w, bs)" and "b \<in> set bs"
  shows "block_span b \<subseteq> regions w \<inter> arena_memory al"
proof -
  obtain ar where ar: "ar \<in> set (code_arenas al)" "block_span b \<subseteq> used_span ar"
    using assms by (auto simp: heap_inv_def)
  then have "arena_ok ar" "arena_span ar \<subseteq> regions w" using assms(1) by (simp_all add: heap_inv_def)
  moreover from this have "used_span ar \<subseteq> arena_span ar" by (auto simp: used_span_def arena_span_def span_def arena_ok_def)
  ultimately show ?thesis using ar by (auto simp: arena_memory_def)
qed

text \<open>A new hook changes mapped memory only at its site and in its block.\<close>

lemma hook_frame:
  assumes "hook_made mapped al m a dst origin m' h" and "unat a + 16 < 2 ^ 64"
    and "unat x \<in> mapped" and "unat x \<notin> site a"
    and "unat x \<notin> {unat origin..<unat origin + length (asm_buffer (hp_code h))}"
  shows "m' x = m x"
proof -
  have l: "length (hp_tramp h) \<le> 16" using assms(1) by (auto simp: hook_made_def)
  obtain m0 where m0: "\<forall>x. unat x \<in> mapped \<longrightarrow> m0 x = m x"
      "m' = mem_write a (hp_tramp h) (mem_write origin (asm_buffer (hp_code h)) m0)"
    using assms(1) unfolding hook_made_def by blast
  have "unat x \<notin> {unat a..<unat a + length (hp_tramp h)}" using assms(4) l by (auto simp: site_def)
  then have "m' x = mem_write origin (asm_buffer (hp_code h)) m0 x"
    unfolding m0(2) using assms(2) l by (intro mem_write_outside) simp_all
  also have "\<dots> = m0 x" using assms(1,5) by (intro mem_write_outside) (simp_all add: hook_made_def)
  finally show ?thesis using m0(1) assms(3) by simp
qed


lemma hook_kept_step:
  assumes "hook_kept m0 bs m t" and "hook_made mapped al m a dst origin m' h" and "unat a + 16 < 2 ^ 64"
    and "site (fst t) \<subseteq> mapped - arena_memory al" and "unat (fst t) + 16 < 2 ^ 64" and "site (fst t) \<inter> site a = {}"
    and "site a \<subseteq> mapped - arena_memory al"
    and blocks: "\<And>c. c \<in> set bs \<Longrightarrow> block_span c \<subseteq> mapped \<inter> arena_memory al \<and> block_span c \<inter> block_span b = {}"
    and b: "block_span b = {unat origin..<unat origin + length (asm_buffer (hp_code h))}"
  shows "hook_kept m0 (b # bs) m' t"
proof -
  obtain c d p where t: "t = (c, d, p)" by (cases t) auto
  obtain h1 mapped1 al1 m1 m1' b1 where old: "hook_made mapped1 al1 m1 c d p m1' h1"
      "\<forall>i < hp_count h1. read32 m0 (c + of_nat (4 * i)) = read32 m1 (c + of_nat (4 * i))"
      "placed (hp_tramp h1) c m" "placed (asm_buffer (hp_code h1)) p m" "b1 \<in> set bs"
      "block_span b1 = {unat p..<unat p + length (asm_buffer (hp_code h1))}"
    using assms(1) unfolding hook_kept_def t prod.case by blast
  have outside: "{unat origin..<unat origin + length (asm_buffer (hp_code h))} \<inter> (mapped - arena_memory al) = {}"
    using assms(2) unfolding hook_made_def by blast
  have l: "length (hp_tramp h1) \<le> 16" using old(1) by (auto simp: hook_made_def)
  have "placed (hp_tramp h1) c m'"
  proof (rule placed_cong [OF old(3)])
    show "unat c + length (hp_tramp h1) \<le> 2 ^ 64" using assms(5) l by (simp add: t)
    fix x :: u64
    assume "unat x \<in> {unat c..<unat c + length (hp_tramp h1)}"
    then have "unat x \<in> site (fst t)" using l by (simp add: site_def t)
    then show "m' x = m x"
      using hook_frame [OF assms(2,3), of x] assms(4,6) outside by blast
  qed
  moreover have "placed (asm_buffer (hp_code h1)) p m'"
  proof (rule placed_cong [OF old(4)])
    show "unat p + length (asm_buffer (hp_code h1)) \<le> 2 ^ 64" using old(1) by (simp add: hook_made_def)
    fix x :: u64
    assume "unat x \<in> {unat p..<unat p + length (asm_buffer (hp_code h1))}"
    then have "unat x \<in> block_span b1" using old(6) by simp
    then show "m' x = m x"
      using hook_frame [OF assms(2,3), of x] blocks [OF old(5)] assms(7) unfolding b by blast
  qed
  ultimately have "\<exists>h mapped al m1 m''. hook_made mapped al m1 c d p m'' h
     \<and> (\<forall>i < hp_count h. read32 m0 (c + of_nat (4 * i)) = read32 m1 (c + of_nat (4 * i)))
     \<and> placed (hp_tramp h) c m' \<and> placed (asm_buffer (hp_code h)) p m'
     \<and> (\<exists>b \<in> set (b # bs). block_span b = {unat p..<unat p + length (asm_buffer (hp_code h))})"
    using old(1,2,5,6) by (intro exI [of _ h1] exI [of _ mapped1] exI [of _ al1] exI [of _ m1] exI [of _ m1']) auto
  then show ?thesis unfolding hook_kept_def t prod.case .
qed

lemma read32_cong:
  assumes "unat a + 16 < 2 ^ 64" and "\<And>x. unat x \<in> site a \<Longrightarrow> m x = m' x" and "i < 4"
  shows "read32 m (a + of_nat (4 * i)) = read32 m' (a + of_nat (4 * i))"
proof -
  have "mem_read m a 16 = mem_read m' a 16" using assms(1,2) by (intro mem_read_cong) (simp_all add: site_def)
  then show ?thesis using load_mem_read [of "4 * i" 16 m a] load_mem_read [of "4 * i" 16 m' a] assms(3) by simp
qed

lemma hooks_inv_step:
  assumes inv: "hooks_inv regions st0 st H bs" and laws: "kernel_laws K regions" and raw: "length (ie_origin_insns raw) = 256"
    and hook: "DobbyHook K layout raw a dst True st = Inr (RS_SUCCESS, Some origin, st')" and "origin \<noteq> 0"
    and site: "hook_site (regions (db_world st0)) (db_alloc st0) a"
    and others: "\<And>t. t \<in> set H \<Longrightarrow> hook_site (regions (db_world st0)) (db_alloc st0) (fst t) \<and> site (fst t) \<inter> site a = {}"
  shows "\<exists>b. hooks_inv regions st0 st' ((a, dst, origin) # H) (b # bs)"
proof -
  let ?old = "w_mem (db_world st0)" and ?m = "w_mem (db_world st)" and ?m' = "w_mem (db_world st')"
  let ?M = "regions (db_world st)" and ?A = "arena_memory (db_alloc st)"
  let ?keep = "regions (db_world st0) - arena_memory (db_alloc st0)"
  note parts = inv [unfolded hooks_inv_def]
  have heap: "heap_inv regions (db_alloc st, db_world st, bs)" and near: "db_near_branch st = None" and sub: "?keep \<subseteq> ?M - ?A"
    and all: "\<forall>t \<in> set H. hook_kept ?old bs ?m t"
    using parts by simp_all
  have same: "?m x = ?old x" if "unat x \<in> ?keep" "\<And>t. t \<in> set H \<Longrightarrow> unat x \<notin> site (fst t)" for x
    using parts that by simp
  have kept: "hook_kept ?old bs ?m t" if "t \<in> set H" for t using all that by (rule bspec)
  have now: "hook_site ?M (db_alloc st) c" if "hook_site (regions (db_world st0)) (db_alloc st0) c" for c
    using that sub unfolding hook_site_def by (meson subset_trans)
  have in_site: "site c \<subseteq> ?M - ?A \<and> unat c + 16 < 2 ^ 64 \<and> site c \<subseteq> ?keep"
    if "hook_site (regions (db_world st0)) (db_alloc st0) c" for c
    using now [OF that] that by (simp add: hook_site_def site_def)
  obtain h where made: "hook_made ?M (db_alloc st) ?m a dst origin ?m' h" and near': "db_near_branch st' = None"
    and grows: "heap_grows regions (db_alloc st) (db_world st) bs origin (length (asm_buffer (hp_code h))) (db_alloc st') (db_world st')"
    using hook_effect [OF hook near laws heap now [OF site] assms(5) raw] by blast
  obtain b where heap': "heap_inv regions (db_alloc st', db_world st', b # bs)"
    and b: "block_span b = {unat origin..<unat origin + length (asm_buffer (hp_code h))}"
    and more: "?M \<subseteq> regions (db_world st')" "arena_memory (db_alloc st') \<inter> (?M - ?A) = {}"
    using grows unfolding heap_grows_def by blast
  note frame = hook_frame [OF made]
  have outside: "block_span b \<inter> (?M - ?A) = {}" unfolding b using made unfolding hook_made_def by blast
  have a: "unat a + 16 < 2 ^ 64" "site a \<subseteq> ?M - ?A" "site a \<subseteq> ?keep" using in_site [OF site] by simp_all
  have blocks: "block_span c \<subseteq> ?M \<inter> ?A \<and> block_span c \<inter> block_span b = {}" if "c \<in> set bs" for c
    using heap_inv_block [OF heap that] heap' that by (auto simp: heap_inv_def apart_def)
  have same': "?m' x = ?old x" if x: "unat x \<in> ?keep" "\<And>t. t \<in> set ((a, dst, origin) # H) \<Longrightarrow> unat x \<notin> site (fst t)" for x
  proof -
    have u: "unat x \<in> ?M - ?A" using x(1) sub by blast
    then have "unat x \<notin> {unat origin..<unat origin + length (asm_buffer (hp_code h))}"
      using outside [unfolded b] by blast
    then have "?m' x = ?m x" using u x(2) [of "(a, dst, origin)"] by (intro frame [OF a(1)]) simp_all
    also have "\<dots> = ?old x" by (rule same [OF x(1) x(2)]) simp
    finally show ?thesis .
  qed
  have kept': "hook_kept ?old (b # bs) ?m' t" if "t \<in> set H" for t
    using others [OF that] in_site by (intro hook_kept_step [OF kept [OF that] made a(1) _ _ _ a(2) blocks b]) auto
  have "?m x = ?old x" if "unat x \<in> site a" for x
    using same a(3) that others by (metis (no_types, lifting) disjoint_iff subsetD)
  then have "read32 ?old (a + of_nat (4 * i)) = read32 ?m (a + of_nat (4 * i))" if "i < 4" for i
    using read32_cong [OF a(1) _ that] by metis
  moreover have "hp_count h \<le> 4" using made by (auto simp: hook_made_def)
  ultimately have "\<exists>h mapped al m1 m''. hook_made mapped al m1 a dst origin m'' h
     \<and> (\<forall>i < hp_count h. read32 ?old (a + of_nat (4 * i)) = read32 m1 (a + of_nat (4 * i)))
     \<and> placed (hp_tramp h) a ?m' \<and> placed (asm_buffer (hp_code h)) origin ?m'
     \<and> (\<exists>b \<in> set (b # bs). block_span b = {unat origin..<unat origin + length (asm_buffer (hp_code h))})"
    using made hook_placed [OF made now [OF site]] b
    by (intro exI [of _ h] exI [of _ ?M] exI [of _ "db_alloc st"] exI [of _ ?m] exI [of _ ?m']) auto
  then have new: "hook_kept ?old (b # bs) ?m' (a, dst, origin)" unfolding hook_kept_def prod.case .
  have sub': "?keep \<subseteq> regions (db_world st') - arena_memory (db_alloc st')" using sub more by blast
  have "\<forall>t \<in> set ((a, dst, origin) # H). hook_kept ?old (b # bs) ?m' t" using new kept' by simp
  then have "hooks_inv regions st0 st' ((a, dst, origin) # H) (b # bs)"
    unfolding hooks_inv_def using heap' near' sub' same' by blast
  then show ?thesis ..
qed

section \<open>All hooks of the payload\<close>

lemma install_all_other:
  "s \<notin> set syms \<Longrightarrow> fst (install_all F hook_addr syms origs w) s = origs s"
  by (induction syms arbitrary: origs w) (auto simp: install_hook_def Let_def split: option.splits prod.splits)

lemma install_all_Inl:
  "snd (install_all (dobby_framework K layout raw resolve) hook_addr syms origs (Inl e)) = Inl e"
  by (induction syms arbitrary: origs) (auto simp: install_hook_def dobby_framework_def Let_def split: option.splits)

definition sites_apart :: "(string \<Rightarrow> u64 option) \<Rightarrow> string list \<Rightarrow> bool" where
  "sites_apart resolve syms \<longleftrightarrow>
     (\<forall>y \<in> set syms. \<forall>z \<in> set syms. \<forall>a c. y \<noteq> z \<and> resolve y = Some a \<and> resolve z = Some c \<longrightarrow> site a \<inter> site c = {})"

lemma install_all_inv:
  assumes laws: "kernel_laws K regions" and raw: "length (ie_origin_insns raw) = 256"
    and "install_all (dobby_framework K layout raw resolve) hook_addr syms origs (Inr st) = (origs', Inr st')"
    and "hooks_inv regions st0 st H bs" and "distinct syms" and "sites_apart resolve syms"
    and "\<And>y. y \<in> set syms \<Longrightarrow> origs y = 0"
    and "\<And>y a. y \<in> set syms \<Longrightarrow> resolve y = Some a \<Longrightarrow>
           hook_site (regions (db_world st0)) (db_alloc st0) a \<and> origs' y \<noteq> 0 \<and> (\<forall>t \<in> set H. site (fst t) \<inter> site a = {})"
    and "\<And>t. t \<in> set H \<Longrightarrow> hook_site (regions (db_world st0)) (db_alloc st0) (fst t)"
  shows "\<exists>H' bs'. hooks_inv regions st0 st' H' bs' \<and> set H \<subseteq> set H'
    \<and> (\<forall>y \<in> set syms. \<forall>a. resolve y = Some a \<longrightarrow> (a, hook_addr y, origs' y) \<in> set H')"
  using assms(3-)
proof (induction syms arbitrary: origs st H bs)
  case Nil
  then show ?case by auto
next
  case (Cons y syms)
  let ?F = "dobby_framework K layout raw resolve"
  have d: "y \<notin> set syms" "distinct syms" "sites_apart resolve syms" using Cons.prems(3,4) by (auto simp: sites_apart_def)
  show ?case
  proof (cases "resolve y")
    case None
    then have rest: "install_all ?F hook_addr syms origs (Inr st) = (origs', Inr st')"
      using Cons.prems(1) by (simp add: install_hook_def dobby_framework_def)
    have "\<exists>H' bs'. hooks_inv regions st0 st' H' bs' \<and> set H \<subseteq> set H'
        \<and> (\<forall>z \<in> set syms. \<forall>c. resolve z = Some c \<longrightarrow> (c, hook_addr z, origs' z) \<in> set H')"
      by (rule Cons.IH [OF rest Cons.prems(2) d(2,3)]; rule Cons.prems(5-7); simp)
    with None show ?thesis by simp
  next
    case (Some a)
    have site: "hook_site (regions (db_world st0)) (db_alloc st0) a" "origs' y \<noteq> 0" "\<And>t. t \<in> set H \<Longrightarrow> site (fst t) \<inter> site a = {}"
      using Cons.prems(6) [of y a] Some by simp_all
    obtain ret org st1 where hook: "DobbyHook K layout raw a (hook_addr y) True st = Inr (ret, org, st1)"
    proof (cases "DobbyHook K layout raw a (hook_addr y) True st")
      case (Inl e)
      then have "snd (install_all ?F hook_addr (y # syms) origs (Inr st)) = Inl e"
        using Some install_all_Inl [of K layout raw resolve hook_addr syms]
        by (simp add: install_hook_def dobby_framework_def Let_def)
      then show ?thesis using Cons.prems(1) by simp
    qed (auto intro: that)
    let ?origs = "case org of None \<Rightarrow> origs | Some p \<Rightarrow> origs(y := p)"
    have rest: "install_all ?F hook_addr syms ?origs (Inr st1) = (origs', Inr st')"
      using Cons.prems(1) hook Some by (simp add: install_hook_def dobby_framework_def Let_def)
    have y: "origs' y = ?origs y" using install_all_other [OF d(1), of ?F hook_addr ?origs "Inr st1"] rest by simp
    have "org \<noteq> None" using y site(2) Cons.prems(5) [of y] by (auto split: option.splits)
    then obtain p where p: "org = Some p" "ret = RS_SUCCESS" using DobbyHook_status [OF hook] by auto
    then have yp: "origs' y = p" using y by simp
    obtain b where inv: "hooks_inv regions st0 st1 ((a, hook_addr y, p) # H) (b # bs)"
      using hooks_inv_step [OF Cons.prems(2) laws raw hook [unfolded p] _ site(1)] site(2,3) yp Cons.prems(7) by blast
    have "\<And>z. z \<in> set syms \<Longrightarrow> ?origs z = 0" using p(1) d(1) Cons.prems(5) by auto
    moreover have "site a \<inter> site c = {}" if "z \<in> set syms" "resolve z = Some c" for z c
      using Cons.prems(4) Some that d(1) unfolding sites_apart_def by (metis list.set_intros)
    moreover have "hook_site (regions (db_world st0)) (db_alloc st0) c \<and> origs' z \<noteq> 0 \<and> (\<forall>t \<in> set H. site (fst t) \<inter> site c = {})"
      if "z \<in> set syms" "resolve z = Some c" for z c
      by (rule Cons.prems(6)) (use that in simp_all)
    ultimately have "\<exists>H' bs'. hooks_inv regions st0 st' H' bs' \<and> set ((a, hook_addr y, p) # H) \<subseteq> set H'
        \<and> (\<forall>z \<in> set syms. \<forall>c. resolve z = Some c \<longrightarrow> (c, hook_addr z, origs' z) \<in> set H')"
      by (intro Cons.IH [OF rest inv d(2,3)]) (use Cons.prems(7) site(1) in auto)
    then obtain H' bs' where "hooks_inv regions st0 st' H' bs'" "set ((a, hook_addr y, p) # H) \<subseteq> set H'"
        "\<forall>z \<in> set syms. \<forall>c. resolve z = Some c \<longrightarrow> (c, hook_addr z, origs' z) \<in> set H'" by blast
    then show ?thesis using yp Some by (intro exI [of _ H'] exI [of _ bs']) auto
  qed
qed

lemma hook_kept_works:
  assumes "hook_kept m0 bs m (a, dst, origin)" and "page_gap a dst \<noteq> 2 ^ 32"
  shows "redirects m a dst \<and> (\<exists>n \<in> {3, 4}. \<exists>len < 2 ^ 20. runs_original m0 m a origin len n)"
proof -
  obtain h mapped al m1 m' where made: "hook_made mapped al m1 a dst origin m' h"
    and words: "\<And>i. i < hp_count h \<Longrightarrow> read32 m0 (a + of_nat (4 * i)) = read32 m1 (a + of_nat (4 * i))"
    and placed: "placed (hp_tramp h) a m" "placed (asm_buffer (hp_code h)) origin m"
    using assms(1) unfolding hook_kept_def prod.case by blast
  have "GenerateNormalTrampolineBuffer a dst = Inr (hp_tramp h)" "hp_count h \<in> {3, 4}"
    using made unfolding hook_made_def by blast+
  then show ?thesis
    using redirectsI [OF _ placed(1) assms(2)] hook_runs_original [OF made placed(2) words] hook_code_short [OF made] by blast
qed

text \<open>C3: when \<open>JNI_OnLoad\<close> has run on the modelled framework and every symbol that resolved has its
  original, all the hooks work together, whatever memory the later ones wrote: a call of any hooked
  function runs its replacement, and the stored original runs that function's own first instructions,
  those of before loading, and goes on behind them. The functions must lie 16 bytes apart.\<close>

theorem onload_redirects:
  assumes "JNI_OnLoad (dobby_framework K layout raw resolve) hook_addr info s (Inr st) = Some (ver, s', origs, Inr st')"
    and "db_near_branch st = None" and "kernel_laws K regions" and "heap_inv regions (db_alloc st, db_world st, bs)"
    and "length (ie_origin_insns raw) = 256" and "sites_apart resolve hooked_symbols"
    and "\<forall>y \<in> set hooked_symbols. \<forall>a. resolve y = Some a \<longrightarrow> hook_site (regions (db_world st)) (db_alloc st) a
           \<and> page_gap a (hook_addr y) \<noteq> 2 ^ 32 \<and> origs y \<noteq> 0"
    and "y \<in> set hooked_symbols" and "resolve y = Some a"
  shows "redirects (w_mem (db_world st')) a (hook_addr y)
    \<and> (\<exists>n \<in> {3, 4}. \<exists>len < 2 ^ 20. runs_original (w_mem (db_world st)) (w_mem (db_world st')) a (origs y) len n)"
proof -
  have all: "install_all (dobby_framework K layout raw resolve) hook_addr hooked_symbols (\<lambda>_. 0) (Inr st) = (origs, Inr st')"
    using assms(1) by (auto simp: JNI_OnLoad_def split: prod.splits)
  have "hooks_inv regions st st [] bs" using assms(2,4) by (simp add: hooks_inv_def)
  from install_all_inv [OF assms(3,5) all this _ assms(6)] assms(7)
  obtain H' bs' where "hooks_inv regions st st' H' bs'"
      "\<forall>y \<in> set hooked_symbols. \<forall>a. resolve y = Some a \<longrightarrow> (a, hook_addr y, origs y) \<in> set H'"
    by (auto simp: hooked_symbols_def)
  then have "hook_kept (w_mem (db_world st)) bs' (w_mem (db_world st')) (a, hook_addr y, origs y)"
    using assms(8,9) unfolding hooks_inv_def by blast
  then show ?thesis by (rule hook_kept_works) (use assms(7-9) in blast)
qed

definition only_read :: "string \<Rightarrow> u64 option" where
  "only_read y = (if y = ''read'' then Some 0x2000 else None)"

theorem onload_redirects_witness:
  "\<exists>st' origs k. JNI_OnLoad (dobby_framework bump_kernel (\<lambda>_. []) raw_entry only_read) (\<lambda>_. 0x3000) None init_native
        (Inr hook_state) = Some (0x00010006, init_native, origs, Inr st')
    \<and> origs ''read'' = 0x40000000
    \<and> a64_steps k (run_state (w_mem (db_world st')) 0x2000) =
        Some ((run_state (w_mem (db_world st')) 0x3000)\<lparr>xreg := (\<lambda>_. 0)(17 := 0x3000)\<rparr>)"
proof -
  obtain st' where h: "DobbyHook bump_kernel (\<lambda>_. []) raw_entry 0x2000 0x3000 True hook_state = Inr (RS_SUCCESS, Some 0x40000000, st')"
    using hook_happens by blast
  let ?F = "dobby_framework bump_kernel (\<lambda>_. []) raw_entry only_read" and ?m = "w_mem (db_world st')"
  let ?origs = "(\<lambda>_. 0)(''read'' := 0x40000000) :: origs"
  have load: "JNI_OnLoad ?F (\<lambda>_. 0x3000) None init_native (Inr hook_state)
      = Some (0x00010006, init_native, ?origs, Inr st')"
    using h by (simp add: JNI_OnLoad_def resolve_self_path_def hooked_symbols_def install_hook_def dobby_framework_def only_read_def)
  have gap: "page_gap 0x2000 0x3000 \<noteq> 2 ^ 32" by (simp add: page_gap_def ALIGN_FLOOR_def)
  have apart: "sites_apart only_read hooked_symbols" by (simp add: sites_apart_def only_read_def)
  have "redirects ?m 0x2000 0x3000"
    using onload_redirects [OF load hook_demo_facts(1) hook_laws hook_inv hook_demo_facts(3) apart, of "''read''" "0x2000"]
      hook_site_demo gap by (simp add: hooked_symbols_def only_read_def)
  then have "\<exists>k. a64_steps k (run_state ?m 0x2000) = Some ((run_state ?m 0x3000)\<lparr>xreg := (\<lambda>_. 0)(17 := 0x3000)\<rparr>)"
    unfolding redirects_def by (drule_tac x = "run_state ?m 0x2000" in spec) (simp add: run_state_def)
  moreover have "?origs ''read'' = 0x40000000" by simp
  ultimately show ?thesis using load by blast
qed

end
