(* ===== verification/Process_Maps.thy ===== *)
theory Process_Maps
  imports Memory_Allocator
begin

text \<open>
  What the process knows of its own memory: \<open>GetProcessMemoryLayout\<close>, \<open>GetProcessModuleMap\<close> and
  \<open>GetProcessModule\<close> of \<open>PlatformUtil/Linux/ProcessRuntimeUtility.cc\<close>, which read
  \<open>/proc/self/maps\<close>. The file's content is an argument, \<open>None\<close> when it does not open. The line buffer is a
  local of the loop's body that nothing initialises: it holds what the iteration before left, and
  \<open>stack\<close> before the first. \<open>FATAL\<close> is the error \<open>Check\<close>.
\<close>

section \<open>Streams\<close>

record stream =
  fs_rest :: "byte list"
  fs_eof :: bool

text \<open>At most \<open>n\<close> bytes, up to and with the first newline.\<close>

fun take_line :: "nat \<Rightarrow> byte list \<Rightarrow> byte list" where
  "take_line (Suc n) (c # s) = (if c = newline then [c] else c # take_line n s)"
| "take_line n s = []"

text \<open>\<open>fgets\<close> into a buffer of more than \<open>n\<close> bytes: with nothing to read it leaves the buffer as it is.\<close>

definition fgets :: "byte list \<Rightarrow> nat \<Rightarrow> stream \<Rightarrow> byte list \<times> stream" where
  "fgets buf n fs =
     (let line = take_line (n - 1) (fs_rest fs);
          hit = length line < n - 1 \<and> (line = [] \<or> last line \<noteq> newline)
      in (if line = [] then buf else line @ 0 # drop (length line + 1) buf,
          \<lparr>fs_rest = drop (length line) (fs_rest fs), fs_eof = fs_eof fs \<or> hit\<rparr>))"

text \<open>The rest of a line; true when the file ends first.\<close>

fun skip_line :: "byte list \<Rightarrow> bool \<times> byte list" where
  "skip_line [] = (True, [])"
| "skip_line (c # s) = (if c = newline then (False, s) else skip_line s)"

section \<open>Fields\<close>

definition isspace :: "byte \<Rightarrow> bool" where
  "isspace c \<longleftrightarrow> c = 32 \<or> 9 \<le> c \<and> c \<le> 13"

definition digit_of :: "byte \<Rightarrow> nat" where
  "digit_of c =
     (if 48 \<le> c \<and> c \<le> 57 then unat c - 48
      else if 97 \<le> c \<and> c \<le> 122 then unat c - 87
      else if 65 \<le> c \<and> c \<le> 90 then unat c - 55 else 99)"

definition digits_value :: "nat \<Rightarrow> byte list \<Rightarrow> nat" where
  "digits_value base ds = foldl (\<lambda>v c. v * base + digit_of c) 0 ds"

definition scan_digits :: "nat \<Rightarrow> byte list \<Rightarrow> (nat \<times> byte list) option" where
  "scan_digits base s =
     (let ds = takeWhile (\<lambda>c. digit_of c < base) s
      in if ds = [] then None else Some (digits_value base ds, drop (length ds) s))"

definition scan_sign :: "byte list \<Rightarrow> bool \<times> byte list" where
  "scan_sign s = (case s of c # t \<Rightarrow> if c = 45 then (True, t) else if c = 43 then (False, t) else (False, s) | [] \<Rightarrow> (False, s))"

text \<open>The prefix \<open>0x\<close> of a hexadecimal number.\<close>

definition skip_0x :: "byte list \<Rightarrow> byte list" where
  "skip_0x s = (case s of
      z # x # d # t \<Rightarrow> if z = 48 \<and> (x = 120 \<or> x = 88) \<and> digit_of d < 16 then d # t else s
    | _ \<Rightarrow> s)"

text \<open>The conversions \<open>%lx\<close> (too large a number is the largest, a sign negates) and \<open>%ld\<close>.\<close>

definition scan_lx :: "byte list \<Rightarrow> (u64 \<times> byte list) option" where
  "scan_lx s =
     (let (minus, t) = scan_sign (dropWhile isspace s)
      in map_option (\<lambda>(v, r). (if 2 ^ 64 \<le> v then - 1 else if minus then - of_nat v else of_nat v, r))
           (scan_digits 16 (skip_0x t)))"

definition scan_ld :: "byte list \<Rightarrow> (int \<times> byte list) option" where
  "scan_ld s =
     (let (minus, t) = scan_sign (dropWhile isspace s)
      in map_option (\<lambda>(v, r). (if minus then max (- (2 ^ 63)) (- int v) else min (2 ^ 63 - 1) (int v), r)) (scan_digits 10 t))"

definition scan_char :: "byte \<Rightarrow> byte list \<Rightarrow> byte list option" where
  "scan_char c s = (case s of d # t \<Rightarrow> if d = c then Some t else None | [] \<Rightarrow> None)"

definition scan_4c :: "byte list \<Rightarrow> (byte list \<times> byte list) option" where
  "scan_4c s = (if length s < 4 then None else Some (take 4 s, drop 4 s))"

text \<open>The line as \<open>sscanf\<close> takes it apart; \<open>None\<close> when fewer than seven conversions succeed.\<close>

record maps_line =
  ml_start :: u64
  ml_end :: u64
  ml_permissions :: "byte list"
  ml_offset :: u64
  ml_dev_major :: byte
  ml_dev_minor :: byte
  ml_inode :: int
  ml_path_index :: nat

definition sscanf_maps :: "byte list \<Rightarrow> maps_line option" where
  "sscanf_maps s =
     Option.bind (scan_lx s) (\<lambda>(region_start, s1).
     Option.bind (scan_char 45 s1) (\<lambda>s2.
     Option.bind (scan_lx s2) (\<lambda>(region_end, s3).
     Option.bind (scan_4c (dropWhile isspace s3)) (\<lambda>(permissions, s4).
     Option.bind (scan_lx (dropWhile isspace s4)) (\<lambda>(region_offset, s5).
     Option.bind (scan_lx (dropWhile isspace s5)) (\<lambda>(dev_major, s6).
     Option.bind (scan_char 58 s6) (\<lambda>s7.
     Option.bind (scan_lx s7) (\<lambda>(dev_minor, s8).
     Option.bind (scan_ld (dropWhile isspace s8)) (\<lambda>(inode, s9).
       let s10 = dropWhile isspace s9
       in Some \<lparr>ml_start = region_start, ml_end = region_end, ml_permissions = permissions, ml_offset = region_offset,
            ml_dev_major = ucast dev_major, ml_dev_minor = ucast dev_minor, ml_inode = inode,
            ml_path_index = length s - length s10\<rparr>)))))))))"

section \<open>Reading the file\<close>

abbreviation (input) "LINE_MAX \<equiv> 2048 :: nat"

text \<open>The beginning of both loops: false when the loop is left at the end of the file.\<close>

definition read_line :: "byte list \<Rightarrow> stream \<Rightarrow> dobby_error + (bool \<times> byte list \<times> stream)" where
  "read_line buf fs =
     (let (line_buffer, fs1) = fgets buf LINE_MAX fs
      in if 0 \<notin> set line_buffer then Inl Wild
         else if strlen line_buffer = LINE_MAX \<and> line_buffer ! LINE_MAX \<noteq> newline
         then (let (at_end, rest) = skip_line (fs_rest fs1)
               in Inr (\<not> at_end, line_buffer, \<lparr>fs_rest = rest, fs_eof = fs_eof fs1 \<or> at_end\<rparr>))
         else Inr (True, line_buffer, fs1))"

definition stream_size :: "stream \<Rightarrow> nat" where
  "stream_size fs = 2 * length (fs_rest fs) + (if fs_eof fs then 0 else 1)"

lemma length_take_line: "length (take_line n s) \<le> n \<and> length (take_line n s) \<le> length s"
  by (induction n s rule: take_line.induct) auto

lemma take_line_Nil: "take_line n s = [] \<Longrightarrow> 0 < n \<Longrightarrow> s = []"
  by (cases s; cases n) (auto split: if_splits)

lemma skip_line_length: "skip_line s = (b, t) \<Longrightarrow> length t \<le> length s"
  by (induction s) (auto split: if_splits)

lemma read_line_size:
  assumes "read_line buf fs = Inr (go, buf', fs')" and "\<not> fs_eof fs"
  shows "stream_size fs' < stream_size fs"
proof -
  obtain b1 fs1 where f: "fgets buf LINE_MAX fs = (b1, fs1)" by (cases "fgets buf LINE_MAX fs")
  have "0 < length (take_line (LINE_MAX - 1) (fs_rest fs)) \<and> 0 < length (fs_rest fs)"
    if "take_line (LINE_MAX - 1) (fs_rest fs) \<noteq> []"
    using that length_take_line [of "LINE_MAX - 1" "fs_rest fs"] by (metis length_greater_0_conv le_trans not_le)
  then have 1: "stream_size fs1 < stream_size fs"
    using f assms(2) take_line_Nil [of "LINE_MAX - 1" "fs_rest fs"] length_take_line [of "LINE_MAX - 1" "fs_rest fs"]
    by (cases "take_line (LINE_MAX - 1) (fs_rest fs) = []") (auto simp: fgets_def Let_def stream_size_def)
  have "stream_size fs' \<le> stream_size fs1"
    using assms(1) f skip_line_length [of "fs_rest fs1"]
    by (auto simp: read_line_def Let_def stream_size_def split: if_splits prod.splits)
  with 1 show ?thesis by linarith
qed

section \<open>The memory layout\<close>

record mem_region =
  mr_start :: u64
  mr_end :: u64
  mr_size :: u64
  mr_permission :: MemoryPermission

definition MemRegion :: "u64 \<Rightarrow> u64 \<Rightarrow> MemoryPermission \<Rightarrow> mem_region" where
  "MemRegion address sz perm = \<lparr>mr_start = address, mr_end = address + sz, mr_size = sz, mr_permission = perm\<rparr>"

definition line_permission :: "byte list \<Rightarrow> MemoryPermission" where
  "line_permission p =
     (if p ! 0 = 114 \<and> p ! 1 = 119 then kReadWrite
      else if p ! 0 = 114 \<and> p ! 2 = 120 then kReadExecute
      else if p ! 0 = 114 \<and> p ! 1 = 119 \<and> p ! 2 = 120 then kReadWriteExecute
      else kNoAccess)"

definition line_region :: "maps_line \<Rightarrow> mem_region" where
  "line_region l = MemRegion (ml_start l) (ml_end l - ml_start l) (line_permission (ml_permissions l))"

function layout_loop :: "byte list \<Rightarrow> stream \<Rightarrow> mem_region list \<Rightarrow> dobby_error + mem_region list" where
  "layout_loop buf fs regions =
     (if fs_eof fs then Inr regions
      else case read_line buf fs of
        Inl e \<Rightarrow> Inl e
      | Inr (go, line_buffer, fs1) \<Rightarrow>
          if \<not> go then Inr regions
          else case sscanf_maps (ctext line_buffer) of
                 None \<Rightarrow> Inl Check
               | Some l \<Rightarrow> layout_loop line_buffer fs1 (regions @ [line_region l]))"
  by pat_completeness auto
termination by (relation "measure (\<lambda>(buf, fs, regions). stream_size fs)") (auto intro: read_line_size)

declare layout_loop.simps [simp del]

text \<open>\<open>std::sort\<close> by the start: of regions with equal starts the order is not specified; here it is kept.\<close>

definition GetProcessMemoryLayout :: "byte list \<Rightarrow> byte list option \<Rightarrow> dobby_error + mem_region list" where
  "GetProcessMemoryLayout stack file =
     (case file of
        None \<Rightarrow> Inr []
      | Some content \<Rightarrow>
          ebind (layout_loop stack \<lparr>fs_rest = content, fs_eof = False\<rparr> []) (\<lambda>regions. Inr (sort_key mr_start regions)))"

section \<open>The modules\<close>

record runtime_module =
  rm_path :: "byte list"
  rm_load_address :: u64

text \<open>
  One line of the module loop: the module it adds, if any, and the line buffer, from which a final
  newline is cut. \<open>memory\<close> is the process's own, read at the start of the region.
\<close>

definition elf_magic :: "byte list" where
  "elf_magic = 0x7F # lit ''ELF''"

definition module_line :: "(u64 \<Rightarrow> byte) \<Rightarrow> byte list \<Rightarrow> maps_line \<Rightarrow> runtime_module option \<times> byte list" where
  "module_line memory line_buffer l =
     (if ml_permissions l \<noteq> lit ''r--p'' \<and> ml_permissions l \<noteq> lit ''r-xp'' then (None, line_buffer)
      else if map (\<lambda>i. memory (ml_start l + of_nat i)) [0..<4] \<noteq> elf_magic then (None, line_buffer)
      else let path_buffer = drop (ml_path_index l) (ctext line_buffer)
           in if path_buffer = [] \<or> hd path_buffer = newline \<or> hd path_buffer = 91 then (None, line_buffer)
              else let strip = last path_buffer = newline;
                       path = (if strip then butlast path_buffer else path_buffer);
                       line_buffer1 = (if strip then line_buffer[strlen line_buffer - 1 := 0] else line_buffer)
                   in (Some \<lparr>rm_path = take 1024 path @ replicate (1024 - length path) 0, rm_load_address = ml_start l\<rparr>,
                       line_buffer1))"

function modules_loop ::
  "(u64 \<Rightarrow> byte) \<Rightarrow> byte list \<Rightarrow> stream \<Rightarrow> runtime_module list \<Rightarrow> dobby_error + runtime_module list" where
  "modules_loop memory buf fs modules =
     (if fs_eof fs then Inr modules
      else case read_line buf fs of
        Inl e \<Rightarrow> Inl e
      | Inr (go, line_buffer, fs1) \<Rightarrow>
          if \<not> go then Inr modules
          else case sscanf_maps (ctext line_buffer) of
                 None \<Rightarrow> Inl Check
               | Some l \<Rightarrow>
                   (case module_line memory line_buffer l of
                      (None, line_buffer1) \<Rightarrow> modules_loop memory line_buffer1 fs1 modules
                    | (Some m, line_buffer1) \<Rightarrow> modules_loop memory line_buffer1 fs1 (modules @ [m])))"
  by pat_completeness auto
termination
  by (relation "measure (\<lambda>(memory, buf, fs, modules). stream_size fs)") (auto intro: read_line_size)

declare modules_loop.simps [simp del]

text \<open>The modules found are added to those of earlier calls; the vector is never cleared.\<close>

definition get_process_map_with_proc_maps ::
  "byte list \<Rightarrow> byte list option \<Rightarrow> (u64 \<Rightarrow> byte) \<Rightarrow> runtime_module list \<Rightarrow> dobby_error + runtime_module list" where
  "get_process_map_with_proc_maps stack file memory modules =
     (case file of
        None \<Rightarrow> Inr modules
      | Some content \<Rightarrow> modules_loop memory stack \<lparr>fs_rest = content, fs_eof = False\<rparr> modules)"

definition GetProcessModuleMap ::
  "byte list \<Rightarrow> byte list option \<Rightarrow> (u64 \<Rightarrow> byte) \<Rightarrow> runtime_module list \<Rightarrow> dobby_error + runtime_module list" where
  "GetProcessModuleMap = get_process_map_with_proc_maps"

text \<open>
  \<open>strstr\<close> in a module's path. A path of 1024 bytes is not terminated; the search goes on into the load
  address behind it.
\<close>

fun find_module :: "byte list \<Rightarrow> runtime_module list \<Rightarrow> dobby_error + runtime_module" where
  "find_module name [] = Inr \<lparr>rm_path = replicate 1024 0, rm_load_address = 0\<rparr>"
| "find_module name (m # ms) =
     (let path = rm_path m @ bytes64 (rm_load_address m)
      in if 0 \<notin> set path then Inl Wild
         else if strstr path name then Inr m
         else find_module name ms)"

definition GetProcessModule ::
  "byte list \<Rightarrow> byte list option \<Rightarrow> (u64 \<Rightarrow> byte) \<Rightarrow> byte list \<Rightarrow> runtime_module list
     \<Rightarrow> dobby_error + (runtime_module \<times> runtime_module list)" where
  "GetProcessModule stack file memory name modules =
     ebind (GetProcessModuleMap stack file memory modules) (\<lambda>modules1.
     ebind (find_module name modules1) (\<lambda>m. Inr (m, modules1)))"

end
