(* ===== verification/Maps_Props.thy ===== *)
theory Maps_Props
  imports Process_Maps
begin

text \<open>
  \<open>/proc/self/maps\<close> written and read back. \<open>render\<close> is a line as the kernel prints it (proc(5)); the
  theorems say what the two loops make of a file of such lines.
\<close>

section \<open>The file as the kernel prints it\<close>

fun digits :: "nat \<Rightarrow> nat \<Rightarrow> byte list" where
  "digits base n =
     (let d = (\<lambda>k. if k < 10 then of_nat (48 + k) else of_nat (87 + k)) :: nat \<Rightarrow> byte
      in if n < base \<or> base < 2 then [d (n mod 16)] else digits base (n div base) @ [d (n mod base)])"

declare digits.simps [simp del]

definition padded :: "nat \<Rightarrow> nat \<Rightarrow> byte list" where
  "padded width n = (let ds = digits 16 n in replicate (width - length ds) 48 @ ds)"

record maps_entry =
  me_start :: u64
  me_end :: u64
  me_permissions :: "byte list"
  me_offset :: u64
  me_major :: nat
  me_minor :: nat
  me_inode :: nat
  me_gap :: nat
  me_path :: "byte list"

definition render_head :: "maps_entry \<Rightarrow> byte list" where
  "render_head e = padded 8 (unat (me_start e)) @ 45 # padded 8 (unat (me_end e)) @ 32 # me_permissions e @ 32 #
     padded 8 (unat (me_offset e)) @ 32 # padded 2 (me_major e) @ 58 # padded 2 (me_minor e) @ 32 # digits 10 (me_inode e)"

definition render :: "maps_entry \<Rightarrow> byte list" where
  "render e = render_head e @ replicate (me_gap e) 32 @ me_path e @ [newline]"

definition wf_entry :: "maps_entry \<Rightarrow> bool" where
  "wf_entry e \<longleftrightarrow> length (me_permissions e) = 4 \<and> 0 \<notin> set (me_permissions e) \<and> newline \<notin> set (me_permissions e)
     \<and> \<not> isspace (hd (me_permissions e)) \<and> me_major e < 2 ^ 64 \<and> me_minor e < 2 ^ 64 \<and> me_inode e < 2 ^ 63
     \<and> 0 < me_gap e \<and> 0 \<notin> set (me_path e) \<and> newline \<notin> set (me_path e)
     \<and> (me_path e = [] \<or> \<not> isspace (hd (me_path e))) \<and> length (render e) < 2048"

definition entry_line :: "maps_entry \<Rightarrow> nat \<Rightarrow> maps_line" where
  "entry_line e i = \<lparr>ml_start = me_start e, ml_end = me_end e, ml_permissions = me_permissions e, ml_offset = me_offset e,
     ml_dev_major = of_nat (me_major e), ml_dev_minor = of_nat (me_minor e), ml_inode = int (me_inode e), ml_path_index = i\<rparr>"

section \<open>Numbers\<close>

lemma byte_of_nat_digit: "k < 16 \<Longrightarrow> digit_of (if k < 10 then of_nat (48 + k) else of_nat (87 + k)) = k"
proof -
  have "\<forall>k \<in> set [0..<16]. digit_of (if k < 10 then of_nat (48 + k) else of_nat (87 + k)) = k" by code_simp
  then show "k < 16 \<Longrightarrow> ?thesis" by simp
qed

lemma digits_props:
  assumes "base = 10 \<or> base = 16"
  shows "digits_value base (digits base n) = n \<and> digits base n \<noteq> [] \<and> (\<forall>c \<in> set (digits base n). digit_of c < base)"
  using assms
proof (induction base n rule: digits.induct)
  case (1 base n)
  let ?d = "\<lambda>k. if k < 10 then of_nat (48 + k) else of_nat (87 + k) :: byte"
  have d: "digit_of (?d k) = k" if "k < base" for k using byte_of_nat_digit [of k] that "1.prems" by auto
  show ?case
  proof (cases "n < base")
    case True
    then have "digits base n = [?d n]" using "1.prems" by (subst digits.simps) auto
    then show ?thesis using d [OF True] True by (simp add: digits_value_def)
  next
    case False
    then have e: "digits base n = digits base (n div base) @ [?d (n mod base)]"
      using "1.prems" by (subst digits.simps) (auto simp: Let_def)
    have "n mod base < base" using "1.prems" by auto
    note last = d [OF this]
    have IH: "digits_value base (digits base (n div base)) = n div base \<and> digits base (n div base) \<noteq> []
        \<and> (\<forall>c \<in> set (digits base (n div base)). digit_of c < base)"
      using "1.IH" [OF HOL.refl] False "1.prems" by auto
    have "digits_value base (digits base n) = digits_value base (digits base (n div base)) * base + digit_of (?d (n mod base))"
      by (simp only: e digits_value_def foldl_append foldl_Cons foldl_Nil)
    also have "\<dots> = n" using IH last by (simp only: div_mult_mod_eq)
    finally have "digits_value base (digits base n) = n" .
    moreover have "\<forall>c \<in> set (digits base n). digit_of c < base" using IH last \<open>n mod base < base\<close> by (simp only: e) auto
    ultimately show ?thesis by (simp only: e) simp
  qed
qed

lemma scan_digits_app:
  assumes "ds \<noteq> []" and "\<forall>c \<in> set ds. digit_of c < base" and "rest = [] \<or> \<not> digit_of (hd rest) < base"
  shows "scan_digits base (ds @ rest) = Some (digits_value base ds, rest)"
proof -
  have "takeWhile (\<lambda>c. digit_of c < base) (ds @ rest) = ds"
    using assms(2,3) by (cases rest) (simp_all add: takeWhile_append2 takeWhile_tail)
  then show ?thesis using assms(1) by (simp add: scan_digits_def)
qed

lemma padded_props:
  "digits_value 16 (padded w n) = n \<and> (\<forall>c \<in> set (padded w n). digit_of c < 16) \<and> w \<le> length (padded w n) \<and> padded w n \<noteq> []"
proof -
  have p: "digits_value 16 (digits 16 n) = n" "digits 16 n \<noteq> []" "\<forall>c \<in> set (digits 16 n). digit_of c < 16"
    using digits_props [of 16 n] by simp_all
  have z: "foldl (\<lambda>v c. v * 16 + digit_of c) 0 (replicate k 48) = 0" for k
    by (induction k) (simp_all add: digit_of_def)
  have "digit_of 48 < 16" by (simp add: digit_of_def)
  then show ?thesis using p by (auto simp: padded_def Let_def digits_value_def z)
qed

lemma not_digit_sign: "digit_of 45 = 99" "digit_of 43 = 99" "digit_of 32 = 99" "digit_of 58 = 99" "digit_of 120 = 33" "digit_of 88 = 33"
  by (simp_all add: digit_of_def)

lemma digit_not_space: "digit_of c < 16 \<Longrightarrow> \<not> isspace c \<and> c \<noteq> 45 \<and> c \<noteq> 43 \<and> c \<noteq> 0 \<and> c \<noteq> newline"
  by (auto simp: isspace_def digit_of_def newline_def word_le_nat_alt split: if_splits)

lemma scan_start:
  assumes "digit_of c < 16"
  shows "dropWhile isspace (c # s) = c # s" and "scan_sign (c # s) = (False, c # s)"
  using digit_not_space [OF assms] by (simp_all add: scan_sign_def)

lemma scan_lx_padded:
  assumes "n < 2 ^ 64" and "2 \<le> w" and "rest = [] \<or> \<not> digit_of (hd rest) < 16"
  shows "scan_lx (padded w n @ rest) = Some (of_nat n, rest)"
proof -
  have p: "digits_value 16 (padded w n) = n" "\<forall>c \<in> set (padded w n). digit_of c < 16" "2 \<le> length (padded w n)"
    using padded_props [of w n] assms(2) by auto
  then obtain c d ds where e: "padded w n = c # d # ds"
    by (cases "padded w n"; cases "tl (padded w n)") auto
  have "d \<noteq> 120 \<and> d \<noteq> 88" using p(2) not_digit_sign by (auto simp: e)
  then have "skip_0x (padded w n @ rest) = padded w n @ rest"
    by (cases "ds @ rest") (auto simp: e skip_0x_def)
  moreover have "digit_of c < 16" using p(2) by (simp add: e)
  note start = scan_start [OF this]
  moreover have "scan_digits 16 (padded w n @ rest) = Some (n, rest)"
    using scan_digits_app [of "padded w n" 16 rest] p assms(3) by (auto simp: e)
  ultimately show ?thesis using assms(1) by (simp add: scan_lx_def e)
qed

lemma scan_ld_digits:
  assumes "n < 2 ^ 63" and "rest = [] \<or> \<not> digit_of (hd rest) < 10"
  shows "scan_ld (digits 10 n @ rest) = Some (int n, rest)"
proof -
  have p: "digits_value 10 (digits 10 n) = n" "digits 10 n \<noteq> []" "\<forall>c \<in> set (digits 10 n). digit_of c < 10"
    using digits_props [of 10 n] by simp_all
  then obtain c ds where e: "digits 10 n = c # ds" by (cases "digits 10 n") auto
  then have "digit_of c < 16" using p(3) by force
  note start = scan_start [OF this]
  have "scan_digits 10 (digits 10 n @ rest) = Some (n, rest)"
    using scan_digits_app [of "digits 10 n" 10 rest] p assms(2) by simp
  then show ?thesis using start assms(1) by (simp add: scan_ld_def e)
qed

section \<open>A line read back\<close>

lemma isspace_32 [simp]: "isspace 32" and isspace_newline [simp]: "isspace newline"
  by (simp_all add: isspace_def newline_def)

lemma skip_padded: "dropWhile isspace (padded w n @ rest) = padded w n @ rest"
  using padded_props [of w n] digit_not_space by (cases "padded w n") auto

lemma skip_digits: "dropWhile isspace (digits 10 n @ rest) = digits 10 n @ rest"
  using digits_props [of 10 n] digit_not_space by (cases "digits 10 n") force+

lemma sscanf_head:
  assumes "wf_entry e" and "t = [] \<or> \<not> digit_of (hd t) < 10"
  shows "sscanf_maps (render_head e @ t) = Some (entry_line e (length (render_head e @ t) - length (dropWhile isspace t)))"
proof -
  have perm: "length (me_permissions e) = 4" "\<not> isspace (hd (me_permissions e))"
    and n: "me_major e < 2 ^ 64" "me_minor e < 2 ^ 64" "me_inode e < 2 ^ 63"
    using assms(1) by (simp_all add: wf_entry_def)
  have skip: "dropWhile isspace (me_permissions e @ r) = me_permissions e @ r" for r
    using perm by (cases "me_permissions e") auto
  have four: "scan_4c (me_permissions e @ r) = Some (me_permissions e, r)" for r
    using perm(1) by (simp add: scan_4c_def)
  have u: "unat (x :: u64) < 2 ^ 64" for x using unsigned_less [of x, where ?'a = nat] by simp
  note numbers = scan_lx_padded [OF u] scan_lx_padded [OF n(1)] scan_lx_padded [OF n(2)] scan_ld_digits [OF n(3)]
  have cast: "ucast (of_nat (me_major e) :: u64) = (of_nat (me_major e) :: byte)"
      "ucast (of_nat (me_minor e) :: u64) = (of_nat (me_minor e) :: byte)"
    using n by (simp_all add: unsigned_of_nat take_bit_nat_eq_self)
  show ?thesis
    using assms(2)
    by (simp add: cast sscanf_maps_def render_head_def numbers scan_char_def not_digit_sign skip four skip_padded skip_digits entry_line_def)
qed

lemma sscanf_render:
  assumes "wf_entry e" and "nl = [newline] \<or> nl = []"
  shows "sscanf_maps (render_head e @ replicate (me_gap e) 32 @ me_path e @ nl)
    = Some (entry_line e (length (render_head e) + me_gap e + (if me_path e = [] then length nl else 0)))"
proof -
  let ?t = "replicate (me_gap e) 32 @ me_path e @ nl"
  have g: "0 < me_gap e" "me_path e = [] \<or> \<not> isspace (hd (me_path e))" using assms(1) by (simp_all add: wf_entry_def)
  have spaces: "dropWhile isspace (replicate k 32 @ r) = dropWhile isspace r" for k r by (induction k) simp_all
  have "dropWhile isspace (me_path e @ nl) = (if me_path e = [] then [] else me_path e @ nl)"
    using g(2) assms(2) by (cases "me_path e") auto
  moreover have "hd ?t = 32" using g(1) by (cases "me_gap e") simp_all
  ultimately show ?thesis
    using sscanf_head [OF assms(1), of ?t] by (simp add: spaces not_digit_sign add.assoc)
qed

section \<open>The line buffer\<close>

lemma digit_props16: "digit_of c < 10 \<Longrightarrow> digit_of c < 16" by simp

lemma render_head_chars:
  assumes "wf_entry e"
  shows "0 \<notin> set (render_head e)" and "newline \<notin> set (render_head e)"
proof -
  have "0 \<notin> set (padded w n) \<and> newline \<notin> set (padded w n)" for w n
    using padded_props [of w n] digit_not_space by blast
  moreover have "0 \<notin> set (digits 10 n) \<and> newline \<notin> set (digits 10 n)" for n
    using digits_props [of 10 n] digit_not_space digit_props16 by blast
  ultimately show "0 \<notin> set (render_head e)" "newline \<notin> set (render_head e)"
    using assms by (simp_all add: render_head_def wf_entry_def) (simp_all add: newline_def)
qed

lemma take_line_app: "newline \<notin> set s \<Longrightarrow> length s < n \<Longrightarrow> take_line n (s @ newline # rest) = s @ [newline]"
proof (induction s arbitrary: n)
  case Nil
  then show ?case by (cases n) simp_all
next
  case (Cons c s)
  then show ?case by (cases n) auto
qed

text \<open>The buffer after a line was read: the line, its end, and old bytes.\<close>

definition holds_line :: "byte list \<Rightarrow> byte list \<Rightarrow> bool" where
  "holds_line line buf \<longleftrightarrow> ctext buf = line \<and> 0 \<in> set buf \<and> length line < 2048"

lemma read_entry:
  assumes "wf_entry e"
  shows "\<exists>buf'. read_line buf \<lparr>fs_rest = render e @ rest, fs_eof = False\<rparr> = Inr (True, buf', \<lparr>fs_rest = rest, fs_eof = False\<rparr>)
    \<and> holds_line (render e) buf'"
proof -
  define s where "s = render_head e @ replicate (me_gap e) 32 @ me_path e"
  have r: "render e = s @ [newline]" by (simp add: render_def s_def)
  have s: "newline \<notin> set s" "0 \<notin> set s" using assms render_head_chars [OF assms] by (auto simp: s_def wf_entry_def newline_def)
  have l: "length s < 2047" using assms by (simp add: wf_entry_def r)
  have t: "take_line 2047 (render e @ rest) = render e" using take_line_app [OF s(1) l] by (simp add: r)
  have z: "0 \<notin> set (render e)" using s(2) by (simp add: r newline_def)
  let ?b = "render e @ 0 # drop (length (render e) + 1) buf"
  have "fgets buf LINE_MAX \<lparr>fs_rest = render e @ rest, fs_eof = False\<rparr> = (?b, \<lparr>fs_rest = rest, fs_eof = False\<rparr>)"
    using t by (simp add: fgets_def Let_def r)
  moreover have c: "ctext ?b = render e" using ctext_append_nul [OF z] .
  moreover have "strlen ?b < 2048" using c l by (simp add: strlen_def r)
  ultimately have "read_line buf \<lparr>fs_rest = render e @ rest, fs_eof = False\<rparr> = Inr (True, ?b, \<lparr>fs_rest = rest, fs_eof = False\<rparr>)"
    by (simp add: read_line_def)
  then show ?thesis using c l by (intro exI [of _ ?b]) (simp add: holds_line_def r)
qed

text \<open>At the end of the file nothing is read, and the buffer still holds what it did.\<close>

lemma read_at_end:
  assumes "holds_line line buf"
  shows "read_line buf \<lparr>fs_rest = [], fs_eof = False\<rparr> = Inr (True, buf, \<lparr>fs_rest = [], fs_eof = True\<rparr>)"
  using assms by (simp add: read_line_def fgets_def holds_line_def strlen_def)

section \<open>The memory layout\<close>

definition entry_region :: "maps_entry \<Rightarrow> mem_region" where
  "entry_region e = MemRegion (me_start e) (me_end e - me_start e) (line_permission (me_permissions e))"

lemma line_region_entry [simp]: "line_region (entry_line e i) = entry_region e"
  by (simp add: line_region_def entry_line_def entry_region_def)

lemma render_split: "render e = render_head e @ replicate (me_gap e) 32 @ me_path e @ [newline]"
  by (simp add: render_def)

lemma layout_step:
  assumes "wf_entry e" and "read_line buf fs = Inr (True, buf', fs')" and "\<not> fs_eof fs" and "holds_line (render e) buf'"
  shows "layout_loop buf fs acc = layout_loop buf' fs' (acc @ [entry_region e])"
  using assms sscanf_render [OF assms(1), of "[newline]"]
  by (subst layout_loop.simps) (simp add: holds_line_def render_split)

lemma layout_loop_render:
  assumes "es \<noteq> []" and "list_all wf_entry es"
  shows "layout_loop buf \<lparr>fs_rest = concat (map render es), fs_eof = False\<rparr> acc
    = Inr (acc @ map entry_region (es @ [last es]))"
  using assms
proof (induction es arbitrary: buf acc)
  case (Cons e es)
  then have e: "wf_entry e" by simp
  obtain buf' where buf': "read_line buf \<lparr>fs_rest = render e @ concat (map render es), fs_eof = False\<rparr>
      = Inr (True, buf', \<lparr>fs_rest = concat (map render es), fs_eof = False\<rparr>)" "holds_line (render e) buf'"
    using read_entry [OF e] by blast
  have step: "layout_loop buf \<lparr>fs_rest = concat (map render (e # es)), fs_eof = False\<rparr> acc
      = layout_loop buf' \<lparr>fs_rest = concat (map render es), fs_eof = False\<rparr> (acc @ [entry_region e])"
    using layout_step [OF e buf'(1) _ buf'(2)] by simp
  show ?case
  proof (cases es)
    case Nil
    have "layout_loop buf' \<lparr>fs_rest = [], fs_eof = False\<rparr> (acc @ [entry_region e])
        = layout_loop buf' \<lparr>fs_rest = [], fs_eof = True\<rparr> (acc @ [entry_region e] @ [entry_region e])"
      using layout_step [OF e read_at_end [OF buf'(2)] _ buf'(2)] by simp
    also have "\<dots> = Inr (acc @ [entry_region e] @ [entry_region e])" by (subst layout_loop.simps) simp
    finally show ?thesis using step Nil by simp
  next
    case (Cons e' es')
    then show ?thesis using step Cons.IH Cons.prems by simp
  qed
qed simp

text \<open>C23: reading the layout of the process back: for a file of entries as the kernel prints them,
  lines shorter than the buffer, \<open>GetProcessMemoryLayout\<close> yields the regions of the entries, sorted by
  their start, and that of the last entry twice, as the end of the file is only noticed after a read that
  leaves the last line in the buffer.\<close>

theorem layout_read_back:
  assumes "es \<noteq> []" and "list_all wf_entry es"
  shows "GetProcessMemoryLayout stack (Some (concat (map render es)))
    = Inr (sort_key mr_start (map entry_region (es @ [last es])))"
  using layout_loop_render [OF assms, of stack "[]"] by (simp add: GetProcessMemoryLayout_def)

section \<open>The modules\<close>

definition entry_module :: "(u64 \<Rightarrow> byte) \<Rightarrow> maps_entry \<Rightarrow> runtime_module option" where
  "entry_module memory e =
     (if me_permissions e \<in> {lit ''r--p'', lit ''r-xp''} \<and> map (\<lambda>i. memory (me_start e + of_nat i)) [0..<4] = elf_magic
         \<and> me_path e \<noteq> [] \<and> hd (me_path e) \<noteq> 91
      then Some \<lparr>rm_path = take 1024 (me_path e) @ replicate (1024 - length (me_path e)) 0, rm_load_address = me_start e\<rparr>
      else None)"

definition holds_entry :: "maps_entry \<Rightarrow> byte list \<Rightarrow> bool" where
  "holds_entry e buf \<longleftrightarrow>
     (\<exists>nl \<in> {[newline], []}. holds_line (render_head e @ replicate (me_gap e) 32 @ me_path e @ nl) buf)"

lemma strip_newline:
  assumes "holds_line (x @ [newline]) buf"
  shows "holds_line x (buf[length x := 0])"
proof -
  have c: "ctext buf = x @ [newline]" "0 \<in> set buf" using assms by (simp_all add: holds_line_def)
  define rest where "rest = dropWhile (\<lambda>c. c \<noteq> 0) buf"
  have "ctext buf @ rest = buf" by (simp add: ctext_def rest_def)
  then have b: "buf = x @ newline # rest" by (simp add: c(1))
  have "0 \<notin> set (ctext buf)" by (auto simp: ctext_def dest: set_takeWhileD)
  then have "0 \<notin> set x" by (simp add: c(1))
  then have "ctext (buf[length x := 0]) = x" using ctext_append_nul [of x rest] by (simp add: b)
  moreover have "0 \<in> set (buf[length x := 0])" by (simp add: b)
  ultimately show ?thesis using assms by (simp add: holds_line_def)
qed

lemma module_line_entry:
  assumes e: "wf_entry e" and "holds_entry e buf"
  shows "\<exists>l buf'. sscanf_maps (ctext buf) = Some l \<and> module_line memory buf l = (entry_module memory e, buf') \<and> holds_entry e buf'"
proof -
  let ?x = "render_head e @ replicate (me_gap e) 32 @ me_path e"
  obtain nl where "nl \<in> {[newline], []}" and h: "holds_line (?x @ nl) buf"
    using assms(2) unfolding holds_entry_def by (metis append.assoc)
  then have nl: "nl = [newline] \<or> nl = []" by simp
  define i where "i = length (render_head e) + me_gap e + (if me_path e = [] then length nl else 0)"
  let ?l = "entry_line e i"
  have c: "ctext buf = ?x @ nl" using h by (simp add: holds_line_def)
  have scan: "sscanf_maps (ctext buf) = Some ?l" using sscanf_render [OF e nl] by (simp add: c i_def)
  have path: "drop i (ctext buf) = (if me_path e = [] then [] else me_path e @ nl)" by (simp add: c i_def)
  have newline: "newline \<notin> set (me_path e)" using e by (simp add: wf_entry_def)
  have here: "holds_entry e buf" by (rule assms(2))
  have parts: "ml_permissions ?l = me_permissions e" "ml_start ?l = me_start e" "ml_path_index ?l = i"
    by (simp_all add: entry_line_def)
  show ?thesis
  proof (cases "entry_module memory e")
    case None
    then have "module_line memory buf ?l = (None, buf)"
      using newline by (cases "me_path e") (auto simp: module_line_def entry_module_def parts path split: if_splits)
    then show ?thesis using scan here None by auto
  next
    case (Some m)
    then have m: "me_permissions e \<in> {lit ''r--p'', lit ''r-xp''}" "map (\<lambda>i. memory (me_start e + of_nat i)) [0..<4] = elf_magic"
        "me_path e \<noteq> []" "hd (me_path e) \<noteq> 91"
      and m_def: "m = \<lparr>rm_path = take 1024 (me_path e) @ replicate (1024 - length (me_path e)) 0, rm_load_address = me_start e\<rparr>"
      by (auto simp: entry_module_def split: if_splits)
    have hd: "hd (me_path e) \<noteq> newline" using m(3) newline by (cases "me_path e") auto
    show ?thesis
    proof (cases "nl = []")
      case True
      have "last (me_path e) \<noteq> newline" using m(3) newline by (metis last_in_set)
      then have "module_line memory buf ?l = (Some m, buf)"
        using m hd True by (auto simp: module_line_def parts path m_def Let_def)
      then show ?thesis using scan here Some by auto
    next
      case False
      then have nl1: "nl = [newline]" using nl by simp
      have len: "strlen buf - 1 = length ?x" using c by (simp add: strlen_def nl1)
      have "module_line memory buf ?l = (Some m, buf[length ?x := 0])"
        using m hd len by (auto simp: module_line_def parts path nl1 m_def Let_def)
      moreover have "holds_line (?x @ []) (buf[length ?x := 0])"
        using strip_newline [of ?x buf] h nl1 by simp
      then have "holds_entry e (buf[length ?x := 0])" unfolding holds_entry_def by auto
      ultimately show ?thesis using scan Some by auto
    qed
  qed
qed

lemma modules_step:
  assumes "wf_entry e" and "read_line buf fs = Inr (True, buf', fs')" and "\<not> fs_eof fs" and "holds_entry e buf'"
  shows "\<exists>buf''. holds_entry e buf''
    \<and> modules_loop memory buf fs acc = modules_loop memory buf'' fs' (acc @ List.map_filter (entry_module memory) [e])"
proof -
  obtain l b where "sscanf_maps (ctext buf') = Some l" "module_line memory buf' l = (entry_module memory e, b)" "holds_entry e b"
    using module_line_entry [OF assms(1,4)] by blast
  then show ?thesis using assms(2,3)
    by (intro exI [of _ b] conjI, simp, subst modules_loop.simps) (simp add: List.map_filter_def split: option.split)
qed

lemma holds_render: "holds_line (render e) buf \<Longrightarrow> holds_entry e buf"
  by (simp add: holds_entry_def render_split)

lemma modules_loop_render:
  assumes "es \<noteq> []" and "list_all wf_entry es"
  shows "modules_loop memory buf \<lparr>fs_rest = concat (map render es), fs_eof = False\<rparr> acc
    = Inr (acc @ List.map_filter (entry_module memory) (es @ [last es]))"
  using assms
proof (induction es arbitrary: buf acc)
  case (Cons e es)
  then have e: "wf_entry e" by simp
  obtain buf' where buf': "read_line buf \<lparr>fs_rest = render e @ concat (map render es), fs_eof = False\<rparr>
      = Inr (True, buf', \<lparr>fs_rest = concat (map render es), fs_eof = False\<rparr>)" "holds_line (render e) buf'"
    using read_entry [OF e] by blast
  obtain b where b: "holds_entry e b" and step:
      "modules_loop memory buf \<lparr>fs_rest = concat (map render (e # es)), fs_eof = False\<rparr> acc
      = modules_loop memory b \<lparr>fs_rest = concat (map render es), fs_eof = False\<rparr> (acc @ List.map_filter (entry_module memory) [e])"
    using modules_step [OF e buf'(1) _ holds_render [OF buf'(2)], of memory acc] by auto
  show ?case
  proof (cases es)
    case Nil
    obtain line where "holds_line line b" using b by (auto simp: holds_entry_def)
    then have end_read: "read_line b \<lparr>fs_rest = [], fs_eof = False\<rparr> = Inr (True, b, \<lparr>fs_rest = [], fs_eof = True\<rparr>)"
      by (rule read_at_end)
    have open_stream: "\<not> fs_eof \<lparr>fs_rest = [], fs_eof = False\<rparr>" by simp
    obtain b' where "modules_loop memory b \<lparr>fs_rest = [], fs_eof = False\<rparr> (acc @ List.map_filter (entry_module memory) [e])
        = modules_loop memory b' \<lparr>fs_rest = [], fs_eof = True\<rparr>
            ((acc @ List.map_filter (entry_module memory) [e]) @ List.map_filter (entry_module memory) [e])"
      using modules_step [OF e end_read open_stream b] by blast
    also have "\<dots> = Inr ((acc @ List.map_filter (entry_module memory) [e]) @ List.map_filter (entry_module memory) [e])"
      by (subst modules_loop.simps) simp
    finally show ?thesis using step Nil by (simp add: List.map_filter_def split: option.split)
  next
    case (Cons e' es')
    then show ?thesis using step Cons.IH Cons.prems by (simp add: List.map_filter_def)
  qed
qed simp

text \<open>The module map: the entries that begin an ELF image in a private read-only or executable mapping
  with a path that is no pseudo-path are added, in the order of the file and the last again, behind the
  modules of the calls before; the paths are cut to the 1024 bytes of the record.\<close>

theorem modules_read_back:
  assumes "es \<noteq> []" and "list_all wf_entry es"
  shows "GetProcessModuleMap stack (Some (concat (map render es))) memory modules
    = Inr (modules @ List.map_filter (entry_module memory) (es @ [last es]))"
  using modules_loop_render [OF assms] by (simp add: GetProcessModuleMap_def get_process_map_with_proc_maps_def)

lemma find_module_first:
  assumes "\<forall>m \<in> set ms. 0 \<in> set (rm_path m)"
  shows "find_module name ms = Inr (case find (\<lambda>m. sublist (ctext name) (ctext (rm_path m))) ms of
    Some m \<Rightarrow> m | None \<Rightarrow> \<lparr>rm_path = replicate 1024 0, rm_load_address = 0\<rparr>)"
  using assms
proof (induction ms)
  case (Cons m ms)
  have "ctext (rm_path m @ bytes64 (rm_load_address m)) = ctext (rm_path m)"
    using Cons.prems unfolding ctext_def by (subst takeWhile_append1) auto
  then show ?case using Cons by (simp add: strstr_iff Let_def)
qed simp

section \<open>A file at hand\<close>

definition demo_entry :: "u64 \<Rightarrow> u64 \<Rightarrow> string \<Rightarrow> string \<Rightarrow> maps_entry" where
  "demo_entry a b p path = \<lparr>me_start = a, me_end = b, me_permissions = lit p, me_offset = 0, me_major = 254, me_minor = 6,
     me_inode = 1297, me_gap = 1, me_path = lit path\<rparr>"

definition demo_maps :: "maps_entry list" where
  "demo_maps = [demo_entry 0x7000 0x9000 ''r-xp'' ''/apex/libc.so'', demo_entry 0x1000 0x3000 ''rw-p'' '''']"

lemma demo_maps_wf: "demo_maps \<noteq> []" "list_all wf_entry demo_maps"
proof -
  have "map length (map render demo_maps) = [57, 44]"
    by (simp add: demo_maps_def render_def render_head_def demo_entry_def padded_def digits.simps lit_def)
  then have "length (render (demo_entry 0x7000 0x9000 ''r-xp'' ''/apex/libc.so'')) < 2048"
    "length (render (demo_entry 0x1000 0x3000 ''rw-p'' [])) < 2048" by (simp_all add: demo_maps_def)
  then show "list_all wf_entry demo_maps"
    by (simp add: demo_maps_def wf_entry_def) (simp add: demo_entry_def lit_def isspace_def newline_def)
qed (simp add: demo_maps_def)

theorem layout_read_back_witness:
  "GetProcessMemoryLayout [] (Some (concat (map render demo_maps)))
     = Inr [MemRegion 0x1000 0x2000 kReadWrite, MemRegion 0x1000 0x2000 kReadWrite, MemRegion 0x7000 0x2000 kReadExecute]"
proof -
  have "sort_key mr_start (map entry_region (demo_maps @ [last demo_maps]))
      = [MemRegion 0x1000 0x2000 kReadWrite, MemRegion 0x1000 0x2000 kReadWrite, MemRegion 0x7000 0x2000 kReadExecute]"
    by code_simp
  then show ?thesis using layout_read_back [OF demo_maps_wf, of "[]"] by simp
qed

definition demo_image :: "u64 \<Rightarrow> byte" where
  "demo_image a = (if a = 0x7000 then 0x7F else if a = 0x7001 then 69 else if a = 0x7002 then 76 else if a = 0x7003 then 70 else 0)"

theorem modules_read_back_witness:
  "map_sum id (map (\<lambda>m. (ctext (rm_path m), rm_load_address m)))
     (GetProcessModuleMap [] (Some (concat (map render demo_maps))) demo_image []) = Inr [(lit ''/apex/libc.so'', 0x7000)]"
proof -
  have "map (\<lambda>m. (ctext (rm_path m), rm_load_address m)) ([] @ List.map_filter (entry_module demo_image) (demo_maps @ [last demo_maps]))
      = [(lit ''/apex/libc.so'', 0x7000)]"
    by code_simp
  then show ?thesis using modules_read_back [OF demo_maps_wf, of "[]" demo_image "[]"] by simp
qed

end
