(* ===== verification/Near_Layout.thy ===== *)
theory Near_Layout
  imports Maps_Props Allocator_Props
begin

text \<open>
  The near allocator on the layout the process reads of itself: \<open>allocateNearBlockFromUnusedRegion\<close>
  calls \<open>GetProcessMemoryLayout\<close> and looks for room between two regions that follow each other.
\<close>

definition process_layout :: "byte list \<Rightarrow> ('o world \<Rightarrow> byte list option) \<Rightarrow> 'o world \<Rightarrow> region list" where
  "process_layout stack file w =
     (case GetProcessMemoryLayout stack (file w) of
        Inl e \<Rightarrow> [] | Inr regions \<Rightarrow> map (\<lambda>r. (mr_start r, mr_size r)) regions)"

text \<open>The kernel lists the mappings in ascending order, and they do not overlap.\<close>

definition maps_ordered :: "maps_entry list \<Rightarrow> bool" where
  "maps_ordered es \<longleftrightarrow> sorted_wrt (\<lambda>e e'. me_end e \<le> me_start e') es
     \<and> (\<forall>e \<in> set es. me_start e < me_end e \<and> 4 dvd unat (me_end e))"

definition entry_span :: "maps_entry \<Rightarrow> nat set" where
  "entry_span e = {unat (me_start e)..<unat (me_end e)}"

lemma ordered_starts:
  assumes "maps_ordered es"
  shows "sorted (map me_start es)"
  using assms
proof (induction es)
  case (Cons e es)
  then have "me_start e \<le> me_start e'" if "e' \<in> set es" for e'
    using that by (auto simp: maps_ordered_def intro: order.trans less_imp_le)
  then show ?case using Cons by (simp add: maps_ordered_def)
qed simp

lemma layout_of_maps:
  assumes "es \<noteq> []" and "list_all wf_entry es" and "maps_ordered es" and "file w = Some (concat (map render es))"
  shows "process_layout stack file w = map (\<lambda>e. (me_start e, me_end e - me_start e)) (es @ [last es])"
proof -
  have "sorted (map me_start (es @ [last es]))"
    using ordered_starts [OF assms(3)] assms(1) by (cases es rule: rev_cases) (auto simp: sorted_append)
  then have "sorted (map mr_start (map entry_region (es @ [last es])))"
    by (simp add: entry_region_def MemRegion_def comp_def)
  then have "sort_key mr_start (map entry_region (es @ [last es])) = map entry_region (es @ [last es])"
    by (rule sort_key_id_if_sorted)
  then show ?thesis
    using layout_loop_render [OF assms(1,2), of stack "[]"] assms(4)
    by (simp add: process_layout_def GetProcessMemoryLayout_def comp_def) (simp add: entry_region_def MemRegion_def)
qed

lemma gap_after:
  assumes "check_has_sufficient_memory_between_region lo hi r r' sz = u" and "u \<noteq> 0" and "4 dvd unat (fst r + snd r)"
  shows "unat (fst r + snd r) \<le> unat u" and "unat (fst r + snd r) < unat (fst r')"
proof -
  have f: "ALIGN_FLOOR (fst r + snd r) 4 = fst r + snd r"
    using ALIGN_FLOOR_pow(1) [of 2 "fst r + snd r"] assms(3) by (simp add: word_unat_eq_iff dvd_imp_mod_0)
  have u: "u = max (fst r + snd r) lo" "u < min (fst r') hi"
    using assms(1,2) by (auto simp: check_has_sufficient_memory_between_region_def Let_def f not_le split: if_splits)
  then have "fst r + snd r \<le> u" "u < fst r'" by simp_all
  then show "unat (fst r + snd r) \<le> unat u" "unat (fst r + snd r) < unat (fst r')"
    by (simp_all add: word_le_nat_alt word_less_nat_alt)
qed

lemma ordered_apart:
  assumes "maps_ordered (xs @ e # e' # ys)" and "unat (me_end e) \<le> u" and "v \<le> unat (me_start e')" and "c \<in> set (xs @ e # e' # ys)"
  shows "entry_span c \<inter> {u..<v} = {}"
proof -
  have o: "sorted_wrt (\<lambda>e e'. me_end e \<le> me_start e') (xs @ e # e' # ys)"
    and all: "\<forall>c \<in> set (xs @ e # e' # ys). me_start c < me_end c \<and> 4 dvd unat (me_end c)"
    using assms(1) unfolding maps_ordered_def by blast+
  have ne: "unat (me_start c) < unat (me_end c)" if "c \<in> set (xs @ e # e' # ys)" for c
    using all that unfolding word_less_nat_alt by blast
  have "unat (me_end c) \<le> u \<or> v \<le> unat (me_start c)"
  proof -
    consider "c \<in> set xs" | "c = e" | "c = e'" | "c \<in> set ys" using assms(4) by auto
    then show ?thesis
    proof cases
      case 1
      then have "unat (me_end c) \<le> unat (me_start e)" using o by (simp add: sorted_wrt_append word_le_nat_alt)
      then show ?thesis using ne [of e] assms(2) by simp
    next
      case 4
      then have "unat (me_end e') \<le> unat (me_start c)" using o by (simp add: sorted_wrt_append word_le_nat_alt)
      then show ?thesis using ne [of e'] assms(3) by simp
    qed (use assms(2,3) in auto)
  qed
  then show ?thesis by (auto simp: entry_span_def)
qed

text \<open>C22: a near block that is taken between the regions of the process lies in free memory: it overlaps
  none of the mappings that \<open>/proc/self/maps\<close> lists, although the last of them is read twice.\<close>

theorem near_gap_free:
  assumes "allocateNearBlockFromUnusedRegion K (process_layout stack file) sz pos rng executable al w = (Some b, al', w')"
    and "k_page_size K = 2 ^ n" and "n < 32" and "unat pos + unat rng + 2 ^ n < 2 ^ 64"
    and "file w = Some (concat (map render es))" and "es \<noteq> []" and "list_all wf_entry es" and "maps_ordered es"
    and "e \<in> set es"
  shows "entry_span e \<inter> block_span b = {}"
proof -
  let ?r = "\<lambda>e. (me_start e, me_end e - me_start e)"
  obtain xs r r' ys u where split: "process_layout stack file w = xs @ r # r' # ys" and u: "u \<noteq> 0" "b = MemBlock u (ucast sz)"
      "check_has_sufficient_memory_between_region (pos - rng) (pos + rng) r r' sz = u"
    using near_region_block [OF assms(1-4)] by blast
  have l: "map ?r (es @ [last es]) = xs @ r # r' # ys" using layout_of_maps [OF assms(6-8), of "file" w stack] assms(5) split by simp
  then obtain xs' c c' ys' where es: "es @ [last es] = xs' @ c # c' # ys'" and r: "r = ?r c" "r' = ?r c'"
    by (auto simp: map_eq_append_conv map_eq_Cons_conv simp del: map_append)
  have "c \<in> set es"
    using arg_cong [OF es, of set] assms(6) by (metis in_set_conv_decomp insert_absorb last_in_set list.simps(15) set_append Un_insert_right append_Nil2 sup_bot_right)
  then have c: "4 dvd unat (me_end c)" "unat (me_start c) < unat (me_end c)" "fst r + snd r = me_end c" "fst r' = me_start c'"
    using assms(8) r by (simp_all add: maps_ordered_def word_less_nat_alt)
  have d: "4 dvd unat (fst r + snd r)" using c by simp
  have gap: "unat (me_end c) \<le> unat u" "unat (me_end c) < unat (me_start c')"
    using gap_after [OF u(3,1) d] unfolding c(3,4) by blast+
  have top: "unat u + unat (ucast sz :: u64) \<le> unat (me_start c')" using gap_bounds(3) [OF u(3,1)] by (simp add: c(4))
  have "ys' \<noteq> []"
  proof
    assume "ys' = []"
    then have "es = xs' @ [c]" "last es = c'" using es by (simp_all add: append_eq_append_conv2 append_eq_Cons_conv) auto
    then show False using gap(2) c(2) by simp
  qed
  then obtain zs where "es = xs' @ c # c' # zs" using es by (metis append_butlast_last_id append_Cons append_assoc butlast_append butlast_snoc list.distinct(1))
  then have "entry_span e \<inter> {unat u..<unat u + unat (ucast sz :: u64)} = {}"
    using ordered_apart [of xs' c c' zs] assms(8,9) gap(1) top by simp
  then show ?thesis by (simp add: u(2) block_span_def MemBlock_def span_def)
qed

definition gap_maps :: "maps_entry list" where
  "gap_maps = [demo_entry 0x10000 0x11000 ''r-xp'' ''/apex/libc.so'', demo_entry 0x40000 0x41000 ''rw-p'' '''']"

lemma gap_maps_ok: "gap_maps \<noteq> []" "list_all wf_entry gap_maps" "maps_ordered gap_maps"
proof -
  have "map length (map render gap_maps) = [57, 44]"
    by (simp add: gap_maps_def render_def render_head_def demo_entry_def padded_def digits.simps lit_def)
  then have "length (render (demo_entry 0x10000 0x11000 ''r-xp'' ''/apex/libc.so'')) < 2048"
    "length (render (demo_entry 0x40000 0x41000 ''rw-p'' [])) < 2048" by (simp_all add: gap_maps_def)
  then show "list_all wf_entry gap_maps"
    by (simp add: gap_maps_def wf_entry_def) (simp add: demo_entry_def lit_def isspace_def newline_def)
qed (simp_all add: gap_maps_def maps_ordered_def demo_entry_def)

theorem near_gap_free_witness:
  "\<exists>b al' w'. allocateNearBlockFromUnusedRegion bump_kernel (process_layout [] (\<lambda>_. Some (concat (map render gap_maps)))) 16 0x21000 0x1000
        True \<lparr>code_arenas = [], data_arenas = []\<rparr> bump_world = (Some b, al', w')
    \<and> entry_span (demo_entry 0x40000 0x41000 ''rw-p'' '''') \<inter> block_span b = {}"
proof -
  let ?file = "\<lambda>_ :: nat world. Some (concat (map render gap_maps))"
  have lay: "process_layout [] ?file w = [(0x10000, 0x1000), (0x40000, 0x1000), (0x40000, 0x1000)]" for w
    using layout_of_maps [OF gap_maps_ok, of ?file w "[]"] by (simp add: gap_maps_def demo_entry_def)
  have a: "allocateNearBlockFromUnusedRegion bump_kernel (process_layout [] ?file) 16 0x21000 0x1000
        True \<lparr>code_arenas = [], data_arenas = []\<rparr> bump_world =
      (Some (MemBlock 0x20000 16), \<lparr>code_arenas = [(MemoryArena 0x20000 0x1000)\<lparr>ar_cursor := 0x20010\<rparr>], data_arenas = []\<rparr>, bump_world)"
    by (simp add: allocateNearBlockFromUnusedRegion_def lay
        check_has_sufficient_memory_between_region_def unused_arena_def skip_and_alloc_def allocMemBlock_def MemoryArena_def
        MemBlock_def OSMemory_Allocate_def OSMemory_SetPermission_def bump_kernel_def bump_mmap_def Let_def ALIGN_FLOOR_def
        bump_world_def max_def min_def)
  have "entry_span (demo_entry 0x40000 0x41000 ''rw-p'' '''') \<inter> block_span (MemBlock 0x20000 16) = {}"
    by (rule near_gap_free [OF a, where n = 12 and es = gap_maps])
      (use gap_maps_ok in \<open>simp_all add: bump_kernel_def gap_maps_def\<close>)
  with a show ?thesis by blast
qed

end
