(* ===== verification/Heap_Props.thy ===== *)
theory Heap_Props
  imports Near_Layout
begin

text \<open>
  Runs of the allocators: blocks of executable memory taken anywhere or near an address, from the arenas at
  hand or from a gap between the mapped regions, while the rest of the process maps memory of its
  own. \<open>alloc_step\<close> is one event of such a run, \<open>live_blocks_disjoint\<close> the invariant of all of them.
\<close>

section \<open>Runs\<close>

text \<open>
  What the kernel promises of a fixed mapping of whole pages that does not fail: the addresses asked for are mapped
  afterwards, whether they were before or not.
\<close>

definition mmap_fixed :: "'o kernel \<Rightarrow> ('o world \<Rightarrow> nat set) \<Rightarrow> bool" where
  "mmap_fixed K regions \<longleftrightarrow>
     (\<forall>a sz prot w r w'. k_mmap K a sz prot True w = (r, w') \<and> sz mod k_page_size K = 0 \<and> r \<noteq> MAP_FAILED
        \<longrightarrow> regions w' = regions w \<union> span a sz)"

text \<open>
  What the list of regions promises: it lists exactly the mapped addresses, in ascending order, as whole pages of
  \<open>2 ^ n\<close> bytes; a region may be listed twice, as the last line of \<open>/proc/self/maps\<close> is.
\<close>

definition region_span :: "region \<Rightarrow> nat set" where
  "region_span r = span (fst r) (snd r)"

definition layout_ok :: "nat \<Rightarrow> region list \<Rightarrow> bool" where
  "layout_ok n rs \<longleftrightarrow> sorted (map fst rs)
     \<and> (\<forall>r \<in> set rs. 0 < unat (snd r) \<and> unat (fst r) + unat (snd r) < 2 ^ 64 \<and> 2 ^ n dvd unat (fst r) \<and> 2 ^ n dvd unat (snd r))
     \<and> (\<forall>r \<in> set rs. \<forall>r' \<in> set rs. r = r' \<or> region_span r \<inter> region_span r' = {})"

definition layout_lists :: "nat \<Rightarrow> ('o world \<Rightarrow> region list) \<Rightarrow> ('o world \<Rightarrow> nat set) \<Rightarrow> bool" where
  "layout_lists n layout regions \<longleftrightarrow>
     (\<forall>w. layout_ok n (layout w) \<and> regions w = (\<Union>r \<in> set (layout w). region_span r))"

text \<open>
  The events. A failed \<open>mmap\<close> of an exec block is not noticed by the code, the block is then at 0, and a
  block from a gap that ends where the next region starts overwrites that region
  (\<open>arena_overlap_iff\<close>): the runs considered end there. \<open>Other\<close> is whatever else happens, a near
  allocation that finds no room included, as long as it unmaps nothing.
\<close>

definition ends_clear :: "region list \<Rightarrow> mem_block \<Rightarrow> bool" where
  "ends_clear rs b \<longleftrightarrow> (\<forall>r \<in> set rs. unat (fst r) \<noteq> unat (mb_addr b) + unat (mb_size b))"

inductive alloc_step ::
  "'o kernel \<Rightarrow> ('o world \<Rightarrow> region list) \<Rightarrow> ('o world \<Rightarrow> nat set)
     \<Rightarrow> allocator \<times> 'o world \<times> mem_block list \<Rightarrow> allocator \<times> 'o world \<times> mem_block list \<Rightarrow> bool"
  for K layout regions where
  Exec: "allocateExecBlock K sz al w = Inr (b, al', w') \<Longrightarrow> mb_addr b \<noteq> 0
     \<Longrightarrow> alloc_step K layout regions (al, w, bs) (al', w', b # bs)"
| Near: "allocateNearBlock K layout sz pos rng True al w = (Some b, al', w')
     \<Longrightarrow> unat pos + unat rng + unat (k_page_size K) < 2 ^ 64
     \<Longrightarrow> fst (allocateNearBlockFromDefaultAllocator sz pos rng True al) = None \<longrightarrow> ends_clear (layout w) b
     \<Longrightarrow> alloc_step K layout regions (al, w, bs) (al', w', b # bs)"
| Other: "regions w \<subseteq> regions w' \<Longrightarrow> alloc_step K layout regions (al, w, bs) (al, w', bs)"

inductive alloc_steps ::
  "'o kernel \<Rightarrow> ('o world \<Rightarrow> region list) \<Rightarrow> ('o world \<Rightarrow> nat set)
     \<Rightarrow> allocator \<times> 'o world \<times> mem_block list \<Rightarrow> allocator \<times> 'o world \<times> mem_block list \<Rightarrow> bool"
  for K layout regions where
  refl: "alloc_steps K layout regions st st"
| step: "alloc_steps K layout regions st st' \<Longrightarrow> alloc_step K layout regions st' st'' \<Longrightarrow> alloc_steps K layout regions st st''"

section \<open>A block from a gap\<close>

lemma before_region:
  assumes "region_span c \<inter> region_span r = {}" and "fst c \<le> fst r" and "0 < unat (snd c)" and "0 < unat (snd r)"
  shows "unat (fst c) + unat (snd c) \<le> unat (fst r)"
proof (rule ccontr)
  assume "\<not> ?thesis"
  moreover have "unat (fst c) \<le> unat (fst r)" using assms(2) by (simp add: word_le_nat_alt)
  ultimately have "unat (fst r) \<in> region_span c \<inter> region_span r" using assms(4) by (simp add: region_span_def span_def)
  with assms(1) show False by simp
qed

text \<open>The arena around the gap between two neighbours of the list keeps clear of every region.\<close>

lemma gap_arena_free:
  assumes ok: "layout_ok n rs" and rs: "rs = xs @ r # r' # ys" and "2 \<le> n" and "n < 32" and K: "k_page_size K = 2 ^ n"
    and u: "check_has_sufficient_memory_between_region lo hi r r' sz = u" "u \<noteq> 0" and hi: "unat hi + 2 ^ n < 2 ^ 64"
    and clear: "unat u + unat (ucast sz :: u64) \<noteq> unat (fst r')" and as: "unused_arena K u sz = (a, s)" and c: "c \<in> set rs"
  shows "region_span c \<inter> span a s = {}" and "0 < unat a"
proof -
  have in_rs: "r \<in> set rs" "r' \<in> set rs" using rs by simp_all
  have facts: "0 < unat (snd q)" "unat (fst q) + unat (snd q) < 2 ^ 64" "2 ^ n dvd unat (fst q)" "2 ^ n dvd unat (snd q)"
    if "q \<in> set rs" for q using ok that unfolding layout_ok_def by blast+
  have e: "unat (fst r + snd r) = unat (fst r) + unat (snd r)" by (rule unat_add_u64) (rule facts(2) [OF in_rs(1)])
  have "(4 :: nat) dvd 2 ^ n" using le_imp_power_dvd [of 2 n "2 :: nat"] assms(3) by simp
  moreover have "2 ^ n dvd unat (fst r + snd r)" using facts(3,4) [OF in_rs(1)] unfolding e by (rule dvd_add)
  ultimately have four: "4 dvd unat (fst r + snd r)" by (rule dvd_trans)
  note g = gap_after [OF u four, unfolded e] and top = gap_bounds(2,3) [OF u]
  have wrap: "unat u + unat (ucast sz :: u64) + 2 ^ n < 2 ^ 64" using top(1) hi by simp
  note sp = unused_arena_span [OF K assms(4) wrap as]
  have start: "unat (fst r) + unat (snd r) \<le> unat a"
  proof -
    have "page_floor n (unat (fst r) + unat (snd r)) = unat (fst r) + unat (snd r)"
      using facts(3,4) [OF in_rs(1)] by (simp add: page_floor_def dvd_imp_mod_0 dvd_add)
    then show ?thesis using page_floor(4) [OF g(1), of n] by (simp add: sp(1))
  qed
  then show "0 < unat a" using facts(1) [OF in_rs(1)] by simp
  have stop: "unat a + unat s \<le> unat (fst r')"
    unfolding sp(2) using top(2) clear facts(3) [OF in_rs(2)] by (intro page_floor_next) simp_all
  have s: "sorted (map fst (xs @ r # r' # ys))" using ok rs by (simp add: layout_ok_def)
  have apart: "q = q' \<or> region_span q \<inter> region_span q' = {}" if "q \<in> set rs" "q' \<in> set rs" for q q'
    using ok that unfolding layout_ok_def by blast
  consider "c = r" | "c \<in> set xs" "c \<noteq> r" | "fst r' \<le> fst c" using c s by (auto simp: rs sorted_append)
  then have "unat (fst c) + unat (snd c) \<le> unat a \<or> unat a + unat s \<le> unat (fst c)"
  proof cases
    case 2
    then have "fst c \<le> fst r" using s by (simp add: sorted_append)
    then show ?thesis
      using before_region [of c r] apart [OF c in_rs(1)] facts(1) c in_rs(1) 2(2) start by fastforce
  next
    case 3
    then show ?thesis using stop by (simp add: word_le_nat_alt)
  qed (use start in simp)
  then show "region_span c \<inter> span a s = {}" by (auto simp: region_span_def span_def)
qed

lemma heap_inv_gap:
  assumes inv: "heap_inv regions (al, w, bs)" and fixed: "mmap_fixed K regions" and fresh: "mmap_fresh K regions"
    and lay: "layout_lists n layout regions" and "2 \<le> n" and "n < 32" and K: "k_page_size K = 2 ^ n"
    and near: "allocateNearBlockFromUnusedRegion K layout sz pos rng True al w = (Some b, al', w')"
    and top: "unat pos + unat rng + 2 ^ n < 2 ^ 64" and clear: "ends_clear (layout w) b"
  shows "heap_inv regions (al', w', b # bs)"
proof -
  let ?f = "\<lambda>r r'. check_has_sufficient_memory_between_region (pos - rng) (pos + rng) r r' sz"
  define u where "u = gap_scan ?f (layout w)"
  obtain a s where as: "unused_arena K u sz = (a, s)" by force
  obtain p w1 where m: "OSMemory_Allocate K s kNoAccess a w = (p, w1)" by force
  obtain ar where p: "u \<noteq> 0" "p \<noteq> 0" and sk: "skip_and_alloc u sz (MemoryArena a s) = (Some b, ar)"
    and al': "al' = al\<lparr>code_arenas := code_arenas al @ [ar]\<rparr>" and w': "w' = snd (OSMemory_SetPermission K a s kReadExecute w1)"
    using near as m
    by (auto simp: allocateNearBlockFromUnusedRegion_def Let_def split: if_splits prod.splits simp flip: u_def)
  obtain xs r r' ys where hit: "layout w = xs @ r # r' # ys" "?f r r' = u"
    using gap_scan_hit [of ?f "layout w" u] p(1) by (auto simp: u_def)
  have hi: "unat (pos + rng) = unat pos + unat rng" using top by (intro unat_add_u64) simp
  then have hi': "unat (pos + rng) + 2 ^ n < 2 ^ 64" using top by simp
  have wrap: "unat u + unat (ucast sz :: u64) + 2 ^ n < 2 ^ 64" using gap_bounds(2) [OF hit(2) p(1)] hi' by simp
  note sp = unused_arena_span [OF K assms(6) wrap as]
  have fl: "page_floor n (unat u + unat (ucast sz :: u64)) \<le> unat u + unat (ucast sz :: u64)"
    "unat u + unat (ucast sz :: u64) < page_floor n (unat u + unat (ucast sz :: u64)) + 2 ^ n" "page_floor n (unat u) \<le> unat u"
    by (rule page_floor(1), rule page_floor(2), rule page_floor(1))
  have okA: "arena_ok (MemoryArena a s)" using sp(2) fl(1) wrap by (simp add: arena_ok_def MemoryArena_def)
  note sa = skip_and_alloc_ok [OF okA, of u sz]
  have in_a: "unat (ar_cursor (MemoryArena a s)) \<le> unat u"
    "unat u + unat (ucast sz :: u64) \<le> unat (ar_addr (MemoryArena a s)) + unat (ar_size (MemoryArena a s))"
    using sp fl by (simp_all add: MemoryArena_def less_imp_le)
  have b: "b = MemBlock u (ucast sz)" using sa(3) [OF in_a] sk by simp
  have r': "unat u + unat (ucast sz :: u64) \<noteq> unat (fst r')"
    using clear hit(1) by (simp add: ends_clear_def b MemBlock_def)
  have ok: "layout_ok n (layout w)" "regions w = (\<Union>r \<in> set (layout w). region_span r)"
    using lay by (simp_all add: layout_lists_def)
  note free = gap_arena_free [OF ok(1) hit(1) assms(5,6) K hit(2) p(1) hi' r' as]
  have "arena_span (MemoryArena a s) \<inter> regions w = {}"
    using free(1) by (auto simp: arena_span_def MemoryArena_def ok(2))
  moreover have "regions w' = regions w \<union> arena_span (MemoryArena a s)"
  proof -
    have "a \<noteq> 0" using free(2) [of r] hit(1) by auto
    moreover have "s mod k_page_size K = 0"
    proof -
      have "2 ^ n dvd unat s" using page_floor(3) [of n] sp by (metis dvd_add_right_iff dvd_add_triv_right_iff)
      then show ?thesis using assms(6) by (simp add: K word_arith_nat_defs(7) unat_exp_u64)
    qed
    ultimately have "regions w1 = regions w \<union> span a s"
      using m p(2) fixed by (auto simp: OSMemory_Allocate_def mmap_fixed_def split: if_splits prod.splits)
    moreover have "w' = snd (k_mprotect K a s 5 w1)" by (simp add: w' OSMemory_SetPermission_def split: prod.split)
    ultimately show ?thesis using fresh by (simp add: mmap_fresh_def arena_span_def MemoryArena_def)
  qed
  ultimately have inv1: "heap_inv regions (al\<lparr>code_arenas := code_arenas al @ [MemoryArena a s]\<rparr>, w', bs)"
    by (intro heap_inv_append [OF inv okA])
  let ?al1 = "al\<lparr>code_arenas := code_arenas al @ [MemoryArena a s]\<rparr>"
  have i: "length (code_arenas al) < length (code_arenas ?al1)" by simp
  have "allocMemBlock (ucast sz) ((MemoryArena a s)\<lparr>ar_cursor := u\<rparr>) = (Some b, ar)" using sk sa(1) [OF in_a] by simp
  then have "heap_inv regions (?al1\<lparr>code_arenas := (code_arenas ?al1)[length (code_arenas al) := ar]\<rparr>, w', b # bs)"
    by (intro take_block [OF inv1 i, where ar = "(MemoryArena a s)\<lparr>ar_cursor := u\<rparr>"]) (use sa(2) [OF in_a] in_a in simp_all)
  then show ?thesis by (simp add: al')
qed

section \<open>The invariant of all runs\<close>

lemma heap_inv_other: "heap_inv regions (al, w, bs) \<Longrightarrow> regions w \<subseteq> regions w' \<Longrightarrow> heap_inv regions (al, w', bs)"
  by (auto simp: heap_inv_def)

text \<open>The default allocator changes nothing when it finds no room.\<close>

lemma near_default_None:
  assumes "heap_inv regions (al, w, bs)" and "allocateNearBlockFromDefaultAllocator sz pos rng True al = (None, al')"
  shows "al' = al"
proof -
  let ?f = "\<lambda>ar. allocateFromDefaultArena (pos - rng) (pos + rng) ar sz"
  have "near_code_scan ?f 0 (code_arenas al) = None"
  proof (rule ccontr)
    assume "near_code_scan ?f 0 (code_arenas al) \<noteq> None"
    then obtain i u where sc: "near_code_scan ?f 0 (code_arenas al) = Some (i, u)" by auto
    then have i: "i < length (code_arenas al)" "?f (code_arenas al ! i) = u" "u \<noteq> 0"
      using near_code_scan_Some [OF sc] by simp_all
    then have ok: "arena_ok (code_arenas al ! i)" using assms(1) by (simp add: heap_inv_def)
    note bd = default_arena_bounds [OF i(2,3) ok]
    have "fst (skip_and_alloc u sz (code_arenas al ! i)) \<noteq> None" using skip_and_alloc_ok(3) [OF ok bd(1,4)] by simp
    then show False
      using assms(2) sc by (auto simp: allocateNearBlockFromDefaultAllocator_def Let_def split: prod.splits)
  qed
  then show ?thesis using assms(2) by (simp add: allocateNearBlockFromDefaultAllocator_def Let_def)
qed

lemma alloc_step_inv:
  assumes "alloc_step K layout regions st st'" and "heap_inv regions st" and "mmap_fresh K regions" and "mmap_fixed K regions"
    and "layout_lists n layout regions" and "2 \<le> n" and "n < 32" and "k_page_size K = 2 ^ n"
  shows "heap_inv regions st'"
  using assms(1)
proof cases
  case (Exec sz al w b al' w' bs)
  then show ?thesis using heap_inv_exec assms(2,3) by blast
next
  case (Near sz pos rng al w b al' w' bs)
  show ?thesis
  proof (cases "fst (allocateNearBlockFromDefaultAllocator sz pos rng True al)")
    case None
    have inv: "heap_inv regions (al, w, bs)" using Near(1) assms(2) by simp
    have none: "allocateNearBlockFromDefaultAllocator sz pos rng True al = (None, al)"
      using near_default_None [OF inv] None by (metis prod.collapse)
    then have "allocateNearBlockFromUnusedRegion K layout sz pos rng True al w = (Some b, al', w')"
      using Near(3) by (simp add: allocateNearBlock_def)
    moreover have "unat pos + unat rng + 2 ^ n < 2 ^ 64"
      using Near(4) assms(7,8) by (simp add: unat_exp_u64)
    moreover have "ends_clear (layout w) b" using Near(5) None by simp
    ultimately show ?thesis using heap_inv_gap [OF inv assms(4,3,5-8)] Near(2) by simp
  next
    case (Some c)
    then show ?thesis using Near assms(2) heap_inv_near(1) [of regions al w bs sz pos rng b al']
      by (auto simp: allocateNearBlock_def split: prod.splits option.splits)
  qed
next
  case (Other w w' al bs)
  then show ?thesis using heap_inv_other assms(2) by blast
qed

section \<open>The list the process reads of itself\<close>

text \<open>
  \<open>/proc/self/maps\<close> as the kernel writes it: whole pages of \<open>2 ^ n\<close> bytes, in ascending order and apart, every
  mapped address in one of them. What \<open>GetProcessMemoryLayout\<close> reads from it is such a list of regions.
\<close>

definition maps_lists :: "nat \<Rightarrow> ('o world \<Rightarrow> byte list option) \<Rightarrow> ('o world \<Rightarrow> nat set) \<Rightarrow> bool" where
  "maps_lists n maps_file regions \<longleftrightarrow>
     (\<forall>w. \<exists>es. maps_file w = Some (concat (map render es)) \<and> es \<noteq> [] \<and> list_all wf_entry es \<and> maps_ordered es
        \<and> (\<forall>e \<in> set es. 2 ^ n dvd unat (me_start e) \<and> 2 ^ n dvd unat (me_end e))
        \<and> regions w = (\<Union>e \<in> set es. entry_span e))"

lemma ordered_pairwise:
  assumes "maps_ordered es" and "e \<in> set es" and "e' \<in> set es"
  shows "e = e' \<or> entry_span e \<inter> entry_span e' = {}"
proof -
  obtain i j where ij: "i < length es" "e = es ! i" "j < length es" "e' = es ! j"
    using assms(2,3) by (auto simp: in_set_conv_nth)
  have "unat (me_end (es ! a)) \<le> unat (me_start (es ! b))" if "a < b" "b < length es" for a b
    using assms(1) that sorted_wrt_nth_less [of "\<lambda>e e'. me_end e \<le> me_start e'" es a b]
    by (simp add: maps_ordered_def word_le_nat_alt)
  then show ?thesis using ij by (cases i j rule: linorder_cases) (fastforce simp: entry_span_def)+
qed

lemma maps_layout:
  assumes "maps_lists n maps_file regions"
  shows "layout_lists n (process_layout stack maps_file) regions"
  unfolding layout_lists_def
proof (intro allI)
  fix w
  let ?r = "\<lambda>e. (me_start e, me_end e - me_start e)"
  obtain es where es: "maps_file w = Some (concat (map render es))" "es \<noteq> []" "list_all wf_entry es" "maps_ordered es"
    "\<forall>e \<in> set es. 2 ^ n dvd unat (me_start e) \<and> 2 ^ n dvd unat (me_end e)" "regions w = (\<Union>e \<in> set es. entry_span e)"
    using assms unfolding maps_lists_def by blast
  have lay: "process_layout stack maps_file w = map ?r (es @ [last es])" using es(1-4) by (intro layout_of_maps)
  then have set_lay: "set (process_layout stack maps_file w) = ?r ` set es" using es(2) by auto
  have lt: "unat (me_start e) < unat (me_end e)" if "e \<in> set es" for e
    using es(4) that by (simp add: maps_ordered_def word_less_nat_alt)
  have len: "unat (me_end e - me_start e) = unat (me_end e) - unat (me_start e)" if "e \<in> set es" for e
    using lt [OF that] by (intro unat_diff_u64) simp
  have sp: "region_span (?r e) = entry_span e" if "e \<in> set es" for e
    using lt [OF that] by (auto simp: region_span_def entry_span_def span_def len [OF that])
  have "sorted (map fst (process_layout stack maps_file w))"
    using ordered_starts [OF es(4)] es(2) by (cases es rule: rev_cases) (auto simp: lay sorted_append comp_def)
  moreover have "0 < unat (snd (?r e)) \<and> unat (fst (?r e)) + unat (snd (?r e)) < 2 ^ 64 \<and> 2 ^ n dvd unat (fst (?r e))
      \<and> 2 ^ n dvd unat (snd (?r e))" if "e \<in> set es" for e
    using lt [OF that] es(5) that unsigned_less [of "me_end e"] by (simp add: len dvd_diff_nat)
  moreover have "?r e = ?r e' \<or> region_span (?r e) \<inter> region_span (?r e') = {}" if "e \<in> set es" "e' \<in> set es" for e e'
    using ordered_pairwise [OF es(4) that] by (auto simp: sp that)
  ultimately have "layout_ok n (process_layout stack maps_file w)" unfolding layout_ok_def set_lay by blast
  moreover have "regions w = (\<Union>r \<in> set (process_layout stack maps_file w). region_span r)"
    unfolding set_lay es(6) using sp by simp
  ultimately show "layout_ok n (process_layout stack maps_file w)
      \<and> regions w = (\<Union>r \<in> set (process_layout stack maps_file w). region_span r)" by blast
qed

text \<open>C24: however executable blocks are allocated, anywhere or near an address, from the arenas at hand, from a new
  arena or from a gap between the regions that \<open>/proc/self/maps\<close> lists, and whatever else the process maps
  in between, the live blocks never overlap and stay inside mapped memory. The process unmaps nothing, and the
  search ranges do not wrap around at \<open>2 ^ 64\<close>. Two cases are excluded: a failed \<open>mmap\<close> of an exec
  block, which the code does not notice, and a block from a gap that ends exactly where the next region starts, which
  overwrites that region.\<close>

theorem live_blocks_disjoint:
  assumes "alloc_steps K (process_layout stack maps_file) regions (\<lparr>code_arenas = [], data_arenas = []\<rparr>, w0, []) (al, w, bs)"
    and "mmap_fresh K regions" and "mmap_fixed K regions" and "maps_lists n maps_file regions"
    and "2 \<le> n" and "n < 32" and "k_page_size K = 2 ^ n"
  shows "apart (map block_span bs) \<and> (\<forall>b \<in> set bs. block_span b \<subseteq> regions w)"
proof -
  have "heap_inv regions (\<lparr>code_arenas = [], data_arenas = []\<rparr>, w0, [])" by (simp add: heap_inv_def apart_def)
  with assms(1) have "heap_inv regions (al, w, bs)"
  proof (induction rule: alloc_steps.induct)
    case (step st st' st'')
    then show ?case using alloc_step_inv [OF step(2) _ assms(2,3) maps_layout [OF assms(4)] assms(5-7)] by blast
  qed
  then show ?thesis by (fastforce simp: heap_inv_def used_span_def arena_span_def span_def arena_ok_def)
qed

section \<open>A run at concrete inputs\<close>

text \<open>
  A kernel whose world counts its mappings: after the first, without an address, a page at 0x50000 is mapped; after the
  second, at a fixed address, the page at 0x20000; the third is the process's own, at 0x60000.
\<close>

definition page_at :: "u64 \<Rightarrow> maps_entry" where
  "page_at a = demo_entry a (a + 0x1000) ''rw-p'' ''''"

definition run_maps :: "nat \<Rightarrow> maps_entry list" where
  "run_maps k = [page_at 0x10000] @ (if 2 \<le> k then [page_at 0x20000] else []) @ [page_at 0x40000]
     @ (if 1 \<le> k then [page_at 0x50000] else []) @ (if 3 \<le> k then [page_at 0x60000] else [])"

definition run_file :: "nat world \<Rightarrow> byte list option" where
  "run_file w = Some (concat (map render (run_maps (w_os w))))"

definition run_regions :: "nat world \<Rightarrow> nat set" where
  "run_regions w = (\<Union>e \<in> set (run_maps (w_os w)). entry_span e)"

definition run_mmap :: "u64 \<Rightarrow> u64 \<Rightarrow> u32 \<Rightarrow> bool \<Rightarrow> nat world \<Rightarrow> u64 \<times> nat world" where
  "run_mmap a sz prot fixed w =
     (if \<not> fixed \<and> sz = 0x1000 \<and> w_os w = 0 then (0x50000, w\<lparr>w_os := 1\<rparr>)
      else if fixed \<and> a = 0x20000 \<and> sz = 0x1000 \<and> w_os w = 1 then (0x20000, w\<lparr>w_os := 2\<rparr>)
      else (MAP_FAILED, w))"

definition run_kernel :: "nat kernel" where
  "run_kernel = \<lparr>k_page_size = 0x1000, k_mmap = run_mmap, k_mprotect = (\<lambda>a n p w. (0, w))\<rparr>"

definition run_world :: "nat \<Rightarrow> nat world" where
  "run_world k = \<lparr>w_mem = (\<lambda>_. 0), w_os = k\<rparr>"

lemma run_world_os [simp]: "w_os (run_world k) = k" "(run_world k)\<lparr>w_os := j\<rparr> = run_world j"
  by (simp_all add: run_world_def)

lemma page_at_wf: "list_all wf_entry (map page_at [0x10000, 0x20000, 0x40000, 0x50000, 0x60000])"
proof -
  have l: "map length (map render (map page_at [0x10000, 0x20000, 0x40000, 0x50000, 0x60000])) = [44, 44, 44, 44, 44]"
    by (simp add: page_at_def render_def render_head_def demo_entry_def padded_def digits.simps lit_def)
  have "length (render (page_at a)) < 2048 \<Longrightarrow> wf_entry (page_at a)" for a
    by (simp add: wf_entry_def) (simp add: page_at_def demo_entry_def lit_def isspace_def newline_def)
  with l show ?thesis by simp
qed

lemma page_at_bounds [simp]: "me_start (page_at a) = a" "me_end (page_at a) = a + 0x1000"
  by (simp_all add: page_at_def demo_entry_def)

lemma run_maps_list: "maps_lists 12 run_file run_regions"
proof -
  have "run_maps k \<noteq> []" "list_all wf_entry (run_maps k)" "maps_ordered (run_maps k)"
    "\<forall>e \<in> set (run_maps k). 2 ^ 12 dvd unat (me_start e) \<and> 2 ^ 12 dvd unat (me_end e)" for k
    using page_at_wf by (auto simp: run_maps_def maps_ordered_def)
  then show ?thesis by (force simp: maps_lists_def run_file_def run_regions_def)
qed

lemma page_at_span: "entry_span (page_at a) = {unat a..<unat (a + 0x1000)}"
  by (simp add: entry_span_def)

lemma run_regions_at:
  "w_os w = 0 \<Longrightarrow> run_regions w = {0x10000..<0x11000} \<union> {0x40000..<0x41000}"
  "w_os w = 1 \<Longrightarrow> run_regions w = {0x10000..<0x11000} \<union> {0x40000..<0x41000} \<union> {0x50000..<0x51000}"
  "w_os w = 2 \<Longrightarrow> run_regions w = {0x10000..<0x11000} \<union> {0x40000..<0x41000} \<union> {0x50000..<0x51000} \<union> {0x20000..<0x21000}"
  "w_os w = 3 \<Longrightarrow> run_regions w = {0x10000..<0x11000} \<union> {0x40000..<0x41000} \<union> {0x50000..<0x51000} \<union> {0x20000..<0x21000}
     \<union> {0x60000..<0x61000}"
  by (simp_all add: run_regions_def run_maps_def page_at_span Un_commute Un_left_commute)

lemma run_laws: "mmap_fresh run_kernel run_regions" "mmap_fixed run_kernel run_regions"
proof -
  have m: "k_mmap run_kernel = run_mmap" "snd (k_mprotect run_kernel a sz p w) = w" for a sz p w
    by (simp_all add: run_kernel_def)
  have s: "span 0x50000 0x1000 = {0x50000..<0x51000}" "span 0x20000 0x1000 = {0x20000..<0x21000}"
    by (simp_all add: span_def)
  have "r \<noteq> 0 \<and> unat r + unat sz < 2 ^ 64 \<and> span r sz \<inter> run_regions w = {} \<and> run_regions w' = run_regions w \<union> span r sz"
    if "run_mmap 0 sz p False w = (r, w')" "r \<noteq> MAP_FAILED" for sz p w r w'
  proof -
    have "sz = 0x1000" "w_os w = 0" "r = 0x50000" "w' = w\<lparr>w_os := 1\<rparr>"
      using that by (auto simp: run_mmap_def split: if_splits)
    then show ?thesis by (simp add: run_regions_at s) auto
  qed
  then show "mmap_fresh run_kernel run_regions" unfolding mmap_fresh_def m by blast
  have "run_regions w' = run_regions w \<union> span a sz" if "run_mmap a sz p True w = (r, w')" "r \<noteq> MAP_FAILED" for a sz p w r w'
  proof -
    have "a = 0x20000" "sz = 0x1000" "w_os w = 1" "w' = w\<lparr>w_os := 2\<rparr>"
      using that by (auto simp: run_mmap_def split: if_splits)
    then show ?thesis by (simp add: run_regions_at s)
  qed
  then show "mmap_fixed run_kernel run_regions" unfolding mmap_fixed_def m by blast
qed

text \<open>A first block, one near it from the same arena, one from the gap after 0x20000.\<close>

definition run_arena :: "u64 \<Rightarrow> u64 \<Rightarrow> arena" where
  "run_arena a c = (MemoryArena a 0x1000)\<lparr>ar_cursor := c\<rparr>"

lemmas run_defs = allocateExecBlock_def alloc_first.simps allocateCodeMemoryArena_def alloc_last_def allocMemBlock_def
  skip_and_alloc_def OSMemory_Allocate_def OSMemory_SetPermission_def allocateFromDefaultArena_def unused_arena_def
  allocateNearBlock_def allocateNearBlockFromDefaultAllocator_def allocateNearBlockFromUnusedRegion_def
  check_has_sufficient_memory_between_region_def MemoryArena_def MemBlock_def run_kernel_def run_mmap_def
  run_arena_def ALIGN_FLOOR_def ALIGN_CEIL_def Let_def max_def min_def

lemma run_layout: "process_layout [] run_file (run_world 1) =
    [(0x10000, 0x1000), (0x40000, 0x1000), (0x50000, 0x1000), (0x50000, 0x1000)]"
proof -
  have "run_maps 1 \<noteq> []" "list_all wf_entry (run_maps 1)" "maps_ordered (run_maps 1)"
    using page_at_wf by (auto simp: run_maps_def maps_ordered_def)
  from layout_of_maps [OF this, of run_file "run_world 1" "[]"] show ?thesis
    by (simp add: run_file_def del: One_nat_def) (simp add: run_maps_def)
qed

lemma run_exec: "allocateExecBlock run_kernel 16 \<lparr>code_arenas = [], data_arenas = []\<rparr> (run_world 0) =
    Inr (MemBlock 0x50000 16, \<lparr>code_arenas = [run_arena 0x50000 0x50010], data_arenas = []\<rparr>, run_world 1)"
  by (simp add: run_defs del: One_nat_def)

lemma run_near: "allocateNearBlock run_kernel (process_layout [] run_file) 32 0x50800 0x1000 True
      \<lparr>code_arenas = [run_arena 0x50000 0x50010], data_arenas = []\<rparr> (run_world 1) =
    (Some (MemBlock 0x50010 32), \<lparr>code_arenas = [run_arena 0x50000 0x50030], data_arenas = []\<rparr>, run_world 1)"
  by (simp add: run_defs del: One_nat_def)

lemma run_gap: "allocateNearBlock run_kernel (process_layout [] run_file) 64 0x21000 0x1000 True
      \<lparr>code_arenas = [run_arena 0x50000 0x50030], data_arenas = []\<rparr> (run_world 1) =
    (Some (MemBlock 0x20000 64),
     \<lparr>code_arenas = [run_arena 0x50000 0x50030, run_arena 0x20000 0x20040], data_arenas = []\<rparr>, run_world 2)"
  by (simp add: run_defs run_layout del: One_nat_def)

theorem live_blocks_disjoint_witness:
  "apart (map block_span [MemBlock 0x20000 64, MemBlock 0x50010 32, MemBlock 0x50000 16])
    \<and> block_span (MemBlock 0x20000 64) \<subseteq> run_regions (run_world 3)
    \<and> block_span (MemBlock 0x50010 32) \<subseteq> run_regions (run_world 3)
    \<and> block_span (MemBlock 0x50000 16) \<subseteq> run_regions (run_world 3)"
proof -
  let ?lay = "process_layout [] run_file" and ?bs = "[MemBlock 0x20000 64, MemBlock 0x50010 32, MemBlock 0x50000 16]"
  let ?al = "\<lparr>code_arenas = [run_arena 0x50000 0x50030, run_arena 0x20000 0x20040], data_arenas = []\<rparr>"
  note exec = alloc_step.Exec [OF run_exec, of ?lay run_regions "[]"]
  note near = alloc_step.Near [OF run_near, of run_regions "[MemBlock 0x50000 16]"]
  note gap = alloc_step.Near [OF run_gap, of run_regions "[MemBlock 0x50010 32, MemBlock 0x50000 16]"]
  have "alloc_step run_kernel ?lay run_regions (\<lparr>code_arenas = [], data_arenas = []\<rparr>, run_world 0, [])
      (\<lparr>code_arenas = [run_arena 0x50000 0x50010], data_arenas = []\<rparr>, run_world 1, [MemBlock 0x50000 16])"
    by (rule exec) (simp add: MemBlock_def)
  moreover have "alloc_step run_kernel ?lay run_regions
      (\<lparr>code_arenas = [run_arena 0x50000 0x50010], data_arenas = []\<rparr>, run_world 1, [MemBlock 0x50000 16])
      (\<lparr>code_arenas = [run_arena 0x50000 0x50030], data_arenas = []\<rparr>, run_world 1, [MemBlock 0x50010 32, MemBlock 0x50000 16])"
    by (rule near) (simp_all add: run_defs)
  moreover have "alloc_step run_kernel ?lay run_regions
      (\<lparr>code_arenas = [run_arena 0x50000 0x50030], data_arenas = []\<rparr>, run_world 1, [MemBlock 0x50010 32, MemBlock 0x50000 16])
      (?al, run_world 2, ?bs)"
    by (rule gap) (simp_all add: run_defs ends_clear_def run_layout del: One_nat_def)
  moreover have "alloc_step run_kernel ?lay run_regions (?al, run_world 2, ?bs) (?al, run_world 3, ?bs)"
    by (rule alloc_step.Other) (auto simp: run_regions_at)
  ultimately have "alloc_steps run_kernel ?lay run_regions (\<lparr>code_arenas = [], data_arenas = []\<rparr>, run_world 0, [])
      (?al, run_world 3, ?bs)"
    by (meson alloc_steps.intros)
  from live_blocks_disjoint [OF this run_laws run_maps_list] show ?thesis by (simp add: run_kernel_def)
qed

end
