(* ===== verification/Elf_Resolver.thy ===== *)
theory Elf_Resolver
  imports Process_Maps
begin

text \<open>
  Symbols of ELF files: \<open>builtin-plugin/SymbolResolver/elf/dobby_symbol_resolver.cc\<close>, for 64-bit
  files. A pointer is an address; a file is mapped somewhere as a list of bytes, and a read outside of it is
  the error \<open>Wild\<close>. The kernel's \<open>open\<close>, \<open>fstat\<close> and \<open>mmap\<close> and the linker's \<open>dlsym\<close> are parameters.
\<close>

section \<open>Reading the mapped file\<close>

record view =
  vw_base :: u64
  vw_bytes :: "byte list"

definition peek :: "view \<Rightarrow> u64 \<Rightarrow> nat \<Rightarrow> dobby_error + byte list" where
  "peek v a n =
     (let i = unat (a - vw_base v)
      in if i + n \<le> length (vw_bytes v) then Inr (take n (drop i (vw_bytes v))) else Inl Wild)"

definition peek16 :: "view \<Rightarrow> u64 \<Rightarrow> dobby_error + u64" where
  "peek16 v a = map_sum id (\<lambda>bs. ucast (word16_of bs)) (peek v a 2)"

definition peek32 :: "view \<Rightarrow> u64 \<Rightarrow> dobby_error + u64" where
  "peek32 v a = map_sum id (\<lambda>bs. ucast (word32_of bs)) (peek v a 4)"

definition peek64 :: "view \<Rightarrow> u64 \<Rightarrow> dobby_error + u64" where
  "peek64 v a = map_sum id word64_of (peek v a 8)"

text \<open>\<open>strcmp (p, s) == 0\<close>, where \<open>s\<close> has no zero byte.\<close>

fun strcmp_eq :: "byte list \<Rightarrow> byte list \<Rightarrow> bool option" where
  "strcmp_eq [] s = None"
| "strcmp_eq (x # p) [] = Some (x = 0)"
| "strcmp_eq (x # p) (y # s) = (if x = y then strcmp_eq p s else Some False)"

definition name_is :: "view \<Rightarrow> u64 \<Rightarrow> byte list \<Rightarrow> dobby_error + bool" where
  "name_is v a s =
     (case strcmp_eq (drop (unat (a - vw_base v)) (vw_bytes v)) s of None \<Rightarrow> Inl Wild | Some b \<Rightarrow> Inr b)"

section \<open>The context of a file\<close>

text \<open>The fields of \<open>elf_ctx\<close> that are ever set; null is 0.\<close>

record elf_ctx =
  ec_header :: u64
  ec_load_bias :: u64
  ec_sym_sh :: u64
  ec_dynsym_sh :: u64
  ec_strtab :: u64
  ec_symtab :: u64
  ec_dynstrtab :: u64
  ec_dynsymtab :: u64

definition no_ctx :: elf_ctx where
  "no_ctx = \<lparr>ec_header = 0, ec_load_bias = 0, ec_sym_sh = 0, ec_dynsym_sh = 0, ec_strtab = 0, ec_symtab = 0,
     ec_dynstrtab = 0, ec_dynsymtab = 0\<rparr>"

text \<open>
  One program header: \<open>PT_LOAD\<close> is 1, \<open>PT_PHDR\<close> 6 and \<open>PT_DYNAMIC\<close> 2; what is computed from the last one
  is not used.
\<close>

definition phdr_step :: "view \<Rightarrow> u64 \<Rightarrow> elf_ctx \<Rightarrow> u64 \<Rightarrow> u64 \<Rightarrow> dobby_error + elf_ctx" where
  "phdr_step v ehdr ctx phdr ph =
     ebind (peek32 v ph) (\<lambda>p_type.
     if p_type = 1 then
       ebind (peek64 v (ph + 8)) (\<lambda>p_offset. ebind (peek64 v (ph + 16)) (\<lambda>p_vaddr.
         Inr (if ec_load_bias ctx = 0 then ctx\<lparr>ec_load_bias := ehdr - (p_vaddr - p_offset)\<rparr> else ctx)))
     else if p_type = 6 then
       ebind (peek64 v (ph + 16)) (\<lambda>p_vaddr. Inr (ctx\<lparr>ec_load_bias := phdr - p_vaddr\<rparr>))
     else if p_type = 2 then ebind (peek64 v (ph + 8)) (\<lambda>p_offset. Inr ctx)
     else Inr ctx)"

fun phdr_loop :: "view \<Rightarrow> u64 \<Rightarrow> u64 \<Rightarrow> nat \<Rightarrow> nat \<Rightarrow> elf_ctx \<Rightarrow> dobby_error + elf_ctx" where
  "phdr_loop v ehdr phdr i 0 ctx = Inr ctx"
| "phdr_loop v ehdr phdr i (Suc n) ctx =
     ebind (phdr_step v ehdr ctx phdr (phdr + of_nat (56 * i))) (phdr_loop v ehdr phdr (Suc i) n)"

text \<open>One section header: \<open>SHT_SYMTAB\<close> is 2, \<open>SHT_STRTAB\<close> 3, \<open>SHT_DYNSYM\<close> 11.\<close>

definition shdr_step :: "view \<Rightarrow> u64 \<Rightarrow> u64 \<Rightarrow> u64 \<Rightarrow> elf_ctx \<Rightarrow> dobby_error + elf_ctx" where
  "shdr_step v ehdr shstrtab sh ctx =
     ebind (peek32 v (sh + 4)) (\<lambda>sh_type.
     if sh_type = 2 then
       ebind (peek64 v (sh + 24)) (\<lambda>sh_offset. Inr (ctx\<lparr>ec_sym_sh := sh, ec_symtab := ehdr + sh_offset\<rparr>))
     else ebind (if sh_type = 3 then ebind (peek32 v sh) (\<lambda>sh_name. name_is v (shstrtab + sh_name) (lit ''.strtab''))
                 else Inr False) (\<lambda>strtab.
     if strtab then ebind (peek64 v (sh + 24)) (\<lambda>sh_offset. Inr (ctx\<lparr>ec_strtab := ehdr + sh_offset\<rparr>))
     else if sh_type = 11 then
       ebind (peek64 v (sh + 24)) (\<lambda>sh_offset. Inr (ctx\<lparr>ec_dynsym_sh := sh, ec_dynsymtab := ehdr + sh_offset\<rparr>))
     else ebind (if sh_type = 3 then ebind (peek32 v sh) (\<lambda>sh_name. name_is v (shstrtab + sh_name) (lit ''.dynstr''))
                 else Inr False) (\<lambda>dynstr.
     if dynstr then ebind (peek64 v (sh + 24)) (\<lambda>sh_offset. Inr (ctx\<lparr>ec_dynstrtab := ehdr + sh_offset\<rparr>))
     else Inr ctx)))"

fun shdr_loop :: "view \<Rightarrow> u64 \<Rightarrow> u64 \<Rightarrow> u64 \<Rightarrow> nat \<Rightarrow> nat \<Rightarrow> elf_ctx \<Rightarrow> dobby_error + elf_ctx" where
  "shdr_loop v ehdr shstrtab shdr i 0 ctx = Inr ctx"
| "shdr_loop v ehdr shstrtab shdr i (Suc n) ctx =
     ebind (shdr_step v ehdr shstrtab (shdr + of_nat (64 * i)) ctx) (shdr_loop v ehdr shstrtab shdr (Suc i) n)"

definition elf_ctx_init :: "view \<Rightarrow> elf_ctx \<Rightarrow> u64 \<Rightarrow> dobby_error + elf_ctx" where
  "elf_ctx_init v ctx ehdr =
     ebind (peek64 v (ehdr + 32)) (\<lambda>e_phoff.
     ebind (peek16 v (ehdr + 56)) (\<lambda>e_phnum.
     ebind (phdr_loop v ehdr (ehdr + e_phoff) 0 (unat e_phnum) (ctx\<lparr>ec_header := ehdr\<rparr>)) (\<lambda>ctx1.
     ebind (peek64 v (ehdr + 40)) (\<lambda>e_shoff.
     ebind (peek16 v (ehdr + 62)) (\<lambda>e_shstrndx.
     ebind (peek16 v (ehdr + 60)) (\<lambda>e_shnum.
     ebind (peek64 v (ehdr + e_shoff + 64 * e_shstrndx + 24)) (\<lambda>shstr_offset.
       shdr_loop v ehdr (ehdr + shstr_offset) (ehdr + e_shoff) 0 (unat e_shnum) ctx1)))))))"

text \<open>
  \<open>get_syms\<close>, an older search for the symbol table, by the sizes and the names in the file: the
  table, its strings and its length, as they are found.
\<close>

fun get_syms_loop :: "view \<Rightarrow> u64 \<Rightarrow> u64 \<Rightarrow> u64 \<Rightarrow> u64 \<Rightarrow> nat \<Rightarrow> u64 \<times> u64 \<times> u64 \<Rightarrow> dobby_error + u64 \<times> u64 \<times> u64" where
  "get_syms_loop v header shentsize strings sh 0 out = Inr out"
| "get_syms_loop v header shentsize strings sh (Suc n) (symtab, strtab, count) =
     ebind (peek32 v sh) (\<lambda>sh_name.
     ebind (peek32 v (sh + 4)) (\<lambda>sh_type.
     ebind (if sh_type = 2 then name_is v (strings + sh_name) (lit ''.symtab'') else Inr False) (\<lambda>is_symtab.
     ebind (if is_symtab then ebind (peek64 v (sh + 24)) (\<lambda>sh_offset. ebind (peek64 v (sh + 32)) (\<lambda>sh_size.
              Inr (header + sh_offset, ucast (ucast (sh_size div 24) :: u32))))
            else Inr (symtab, count)) (\<lambda>(symtab1, count1).
     ebind (if sh_type = 3 then name_is v (strings + sh_name) (lit ''.strtab'') else Inr False) (\<lambda>is_strtab.
     ebind (if is_strtab then ebind (peek64 v (sh + 24)) (\<lambda>sh_offset. Inr (header + sh_offset)) else Inr strtab) (\<lambda>strtab1.
       get_syms_loop v header shentsize strings (sh + shentsize) n (symtab1, strtab1, count1)))))))"

definition get_syms :: "view \<Rightarrow> u64 \<Rightarrow> u64 \<times> u64 \<times> u64 \<Rightarrow> dobby_error + u64 \<times> u64 \<times> u64" where
  "get_syms v header out =
     ebind (peek64 v (header + 40)) (\<lambda>e_shoff.
     ebind (peek16 v (header + 62)) (\<lambda>e_shstrndx.
     ebind (peek16 v (header + 58)) (\<lambda>e_shentsize.
     ebind (peek64 v (header + e_shoff + e_shstrndx * e_shentsize + 24)) (\<lambda>strings.
     ebind (peek16 v (header + 60)) (\<lambda>e_shnum.
       get_syms_loop v header e_shentsize (header + strings) (header + e_shoff) (unat e_shnum) out)))))"

section \<open>Lookup\<close>

fun symbol_loop :: "view \<Rightarrow> byte list \<Rightarrow> u64 \<Rightarrow> u64 \<Rightarrow> nat \<Rightarrow> nat \<Rightarrow> dobby_error + u64" where
  "symbol_loop v symbol_name symtab strtab i 0 = Inr 0"
| "symbol_loop v symbol_name symtab strtab i (Suc n) =
     (let sym = symtab + of_nat (24 * i)
      in ebind (peek32 v sym) (\<lambda>st_name.
         ebind (name_is v (strtab + st_name) symbol_name) (\<lambda>found.
         if found then peek64 v (sym + 8) else symbol_loop v symbol_name symtab strtab (Suc i) n)))"

text \<open>The count is passed as an \<open>int\<close>.\<close>

definition iterate_symbol_table_impl :: "view \<Rightarrow> byte list \<Rightarrow> u64 \<Rightarrow> u64 \<Rightarrow> u64 \<Rightarrow> dobby_error + u64" where
  "iterate_symbol_table_impl v symbol_name symtab strtab count =
     symbol_loop v symbol_name symtab strtab 0 (nat (sint (ucast count :: u32)))"

definition elf_ctx_iterate_symbol_table :: "view \<Rightarrow> elf_ctx \<Rightarrow> byte list \<Rightarrow> dobby_error + u64" where
  "elf_ctx_iterate_symbol_table v ctx symbol_name =
     ebind (if ec_symtab ctx \<noteq> 0 \<and> ec_strtab ctx \<noteq> 0
            then ebind (peek64 v (ec_sym_sh ctx + 32)) (\<lambda>sh_size.
                   iterate_symbol_table_impl v symbol_name (ec_symtab ctx) (ec_strtab ctx) (sh_size div 24))
            else Inr 0) (\<lambda>result.
     if result \<noteq> 0 then Inr result
     else if ec_dynsymtab ctx \<noteq> 0 \<and> ec_dynstrtab ctx \<noteq> 0
     then ebind (peek64 v (ec_dynsym_sh ctx + 32)) (\<lambda>sh_size.
            iterate_symbol_table_impl v symbol_name (ec_dynsymtab ctx) (ec_dynstrtab ctx) (sh_size div 24))
     else Inr 0)"

section \<open>Files and modules\<close>

text \<open>\<open>os_mmap\<close> also says what the mapping shows; \<open>MAP_FAILED\<close> is the address -1.\<close>

record elf_os =
  os_open :: "byte list \<Rightarrow> int"
  os_fstat :: "int \<Rightarrow> u64 option"
  os_mmap :: "u64 \<Rightarrow> int \<Rightarrow> view"
  os_dlsym :: "byte list \<Rightarrow> u64"

text \<open>A failed mapping is reported but returned all the same.\<close>

definition file_mmap :: "elf_os \<Rightarrow> byte list \<Rightarrow> view" where
  "file_mmap O' path =
     (let fd = os_open O' path
      in if fd < 0 then \<lparr>vw_base = 0, vw_bytes = []\<rparr>
         else case os_fstat O' fd of
                None \<Rightarrow> \<lparr>vw_base = 0, vw_bytes = []\<rparr>
              | Some file_size \<Rightarrow> os_mmap O' file_size fd)"

text \<open>The body both branches of the resolver share: the symbol in the file of one module.\<close>

definition resolve_in_module :: "elf_os \<Rightarrow> byte list \<Rightarrow> runtime_module \<Rightarrow> dobby_error + u64" where
  "resolve_in_module O' symbol_name m =
     (if rm_load_address m = 0 then Inr 0
      else let path = rm_path m @ bytes64 (rm_load_address m)
           in if 0 \<notin> set path then Inl Wild
              else let file_mem = file_mmap O' (ctext path)
                   in if vw_base file_mem = 0 then Inr 0
                      else ebind (elf_ctx_init file_mem no_ctx (vw_base file_mem)) (\<lambda>ctx.
                           ebind (elf_ctx_iterate_symbol_table file_mem ctx symbol_name) (\<lambda>result.
                             Inr (if result \<noteq> 0 then result + rm_load_address m - (vw_base file_mem - ec_load_bias ctx) else 0))))"

fun resolve_loop :: "elf_os \<Rightarrow> byte list \<Rightarrow> runtime_module list \<Rightarrow> dobby_error + u64" where
  "resolve_loop O' symbol_name [] = Inr 0"
| "resolve_loop O' symbol_name (m # ms) =
     ebind (resolve_in_module O' symbol_name m) (\<lambda>result. if result \<noteq> 0 then Inr result else resolve_loop O' symbol_name ms)"

text \<open>
  \<open>maps\<close> is the content of \<open>/proc/self/maps\<close>, read anew for every call; the global list of modules
  is returned as it has grown.
\<close>

definition resolve_elf_internal_symbol ::
  "elf_os \<Rightarrow> byte list \<Rightarrow> byte list option \<Rightarrow> (u64 \<Rightarrow> byte) \<Rightarrow> byte list option \<Rightarrow> byte list \<Rightarrow> runtime_module list
     \<Rightarrow> dobby_error + (u64 \<times> runtime_module list)" where
  "resolve_elf_internal_symbol O' stack maps memory library_name symbol_name modules =
     ebind (case library_name of
              None \<Rightarrow> Inr (0, modules)
            | Some name \<Rightarrow> ebind (GetProcessModule stack maps memory name modules) (\<lambda>(m, modules1).
                ebind (resolve_in_module O' symbol_name m) (\<lambda>result. Inr (result, modules1)))) (\<lambda>(result, modules1).
     if result \<noteq> 0 then Inr (result, modules1)
     else ebind (GetProcessModuleMap stack maps memory modules1) (\<lambda>modules2.
          ebind (resolve_loop O' symbol_name modules2) (\<lambda>result. Inr (result, modules2))))"

definition DobbySymbolResolver ::
  "elf_os \<Rightarrow> byte list \<Rightarrow> byte list option \<Rightarrow> (u64 \<Rightarrow> byte) \<Rightarrow> byte list option \<Rightarrow> byte list \<Rightarrow> runtime_module list
     \<Rightarrow> dobby_error + (u64 \<times> runtime_module list)" where
  "DobbySymbolResolver O' stack maps memory image_name symbol_name_pattern modules =
     (let result = os_dlsym O' symbol_name_pattern
      in if result \<noteq> 0 then Inr (result, modules)
         else resolve_elf_internal_symbol O' stack maps memory image_name symbol_name_pattern modules)"

end
