(* ===== verification/Elf_Props.thy ===== *)
theory Elf_Props
  imports Elf_Resolver Maps_Props
begin

text \<open>
  The resolver on files as the ELF format describes them. \<open>is_elf\<close> says that a mapped file holds given
  lists of program headers and sections, \<open>holds_symbols\<close> that a table holds given names and values. The
  theorems say what the resolver, which works on addresses, makes of the lists.
\<close>

section \<open>What a file holds\<close>

definition name_at :: "view \<Rightarrow> u64 \<Rightarrow> byte list \<Rightarrow> bool" where
  "name_at v a s \<longleftrightarrow> (let t = drop (unat (a - vw_base v)) (vw_bytes v) in 0 \<in> set t \<and> ctext t = s)"

record elf_section =
  sec_type :: u64
  sec_name :: "byte list"
  sec_offset :: u64
  sec_size :: u64

type_synonym program_header = "u64 \<times> u64 \<times> u64"

definition phdr_at :: "view \<Rightarrow> u64 \<Rightarrow> program_header \<Rightarrow> bool" where
  "phdr_at v a = (\<lambda>(p_type, p_offset, p_vaddr).
     peek32 v a = Inr p_type \<and> peek64 v (a + 8) = Inr p_offset \<and> peek64 v (a + 16) = Inr p_vaddr)"

definition section_at :: "view \<Rightarrow> u64 \<Rightarrow> u64 \<Rightarrow> elf_section \<Rightarrow> bool" where
  "section_at v strings a s \<longleftrightarrow>
     (\<exists>sh_name. peek32 v a = Inr sh_name \<and> name_at v (strings + sh_name) (sec_name s))
     \<and> peek32 v (a + 4) = Inr (sec_type s) \<and> peek64 v (a + 24) = Inr (sec_offset s) \<and> peek64 v (a + 32) = Inr (sec_size s)"

definition is_elf :: "view \<Rightarrow> program_header list \<Rightarrow> elf_section list \<Rightarrow> bool" where
  "is_elf v phs secs \<longleftrightarrow> (\<exists>phoff shoff strndx strings.
     let base = vw_base v in
     peek64 v (base + 32) = Inr phoff \<and> peek16 v (base + 56) = Inr (of_nat (length phs)) \<and> length phs < 2 ^ 16
     \<and> (\<forall>i < length phs. phdr_at v (base + phoff + of_nat (56 * i)) (phs ! i))
     \<and> peek64 v (base + 40) = Inr shoff \<and> peek16 v (base + 62) = Inr strndx
     \<and> peek16 v (base + 60) = Inr (of_nat (length secs)) \<and> length secs < 2 ^ 16
     \<and> peek64 v (base + shoff + 64 * strndx + 24) = Inr strings
     \<and> (\<forall>i < length secs. section_at v (base + strings) (base + shoff + of_nat (64 * i)) (secs ! i)))"

definition holds_symbols :: "view \<Rightarrow> u64 \<Rightarrow> u64 \<Rightarrow> (byte list \<times> u64) list \<Rightarrow> bool" where
  "holds_symbols v symtab strtab syms \<longleftrightarrow>
     (\<forall>i < length syms. \<exists>st_name. peek32 v (symtab + of_nat (24 * i)) = Inr st_name
        \<and> name_at v (strtab + st_name) (fst (syms ! i)) \<and> peek64 v (symtab + of_nat (24 * i) + 8) = Inr (snd (syms ! i)))"

definition lookup :: "byte list \<Rightarrow> (byte list \<times> u64) list \<Rightarrow> u64" where
  "lookup name syms = (case find (\<lambda>t. fst t = name) syms of None \<Rightarrow> 0 | Some t \<Rightarrow> snd t)"

section \<open>Names\<close>

lemma strcmp_eq_ctext: "0 \<in> set t \<Longrightarrow> 0 \<notin> set s \<Longrightarrow> strcmp_eq t s = Some (ctext t = s)"
proof (induction t s rule: strcmp_eq.induct)
  case (3 x p y s)
  then show ?case by (cases "x = 0") (auto simp: ctext_def)
qed (auto simp: ctext_def)

lemma name_is_at: "name_at v a n \<Longrightarrow> 0 \<notin> set s \<Longrightarrow> name_is v a s = Inr (n = s)"
  by (auto simp: name_is_def name_at_def Let_def strcmp_eq_ctext)

section \<open>Symbols\<close>

lemma symbol_loop_lookup:
  assumes "holds_symbols v symtab strtab syms" and "0 \<notin> set name"
  shows "i + n = length syms \<Longrightarrow> symbol_loop v name symtab strtab i n = Inr (lookup name (drop i syms))"
proof (induction n arbitrary: i)
  case 0
  then show ?case by (simp add: lookup_def)
next
  case (Suc n)
  then have i: "i < length syms" by simp
  then obtain st_name where s: "peek32 v (symtab + of_nat (24 * i)) = Inr st_name" "name_at v (strtab + st_name) (fst (syms ! i))"
      "peek64 v (symtab + of_nat (24 * i) + 8) = Inr (snd (syms ! i))"
    using assms(1) unfolding holds_symbols_def by blast
  have d: "drop i syms = syms ! i # drop (Suc i) syms" using i by (simp add: Cons_nth_drop_Suc)
  have rest: "symbol_loop v name symtab strtab (Suc i) n = Inr (lookup name (drop (Suc i) syms))"
    using Suc.IH [of "Suc i"] Suc.prems by simp
  show ?case
    using s(1,3) rest by (simp add: name_is_at [OF s(2) assms(2)] d lookup_def Let_def del: of_nat_mult)
qed

lemma table_lookup:
  assumes "holds_symbols v symtab strtab syms" and "0 \<notin> set name" and "length syms = unat (sz div 24)" and "length syms < 2 ^ 31"
  shows "iterate_symbol_table_impl v name symtab strtab (sz div 24) = Inr (lookup name syms)"
proof -
  have "sz div 24 = of_nat (length syms)" using assms(3) by simp
  then have c: "ucast (sz div 24) = (of_nat (length syms) :: u32)"
    using assms(4) by (simp only:) (simp add: unsigned_of_nat take_bit_nat_eq_self)
  have "nat (sint (of_nat (length syms) :: u32)) = length syms"
    using assms(4) by (simp add: signed_of_nat signed_take_bit_int_eq_self)
  then show ?thesis
    using symbol_loop_lookup [OF assms(1,2), of 0 "length syms"] by (simp add: iterate_symbol_table_impl_def c)
qed

section \<open>The context\<close>

text \<open>The bias of a file at \<open>base\<close> with its program headers at \<open>phdr\<close>.\<close>

definition bias_step :: "u64 \<Rightarrow> u64 \<Rightarrow> u64 \<Rightarrow> program_header \<Rightarrow> u64" where
  "bias_step base phdr b = (\<lambda>(p_type, p_offset, p_vaddr).
     if p_type = 1 then (if b = 0 then base - (p_vaddr - p_offset) else b) else if p_type = 6 then phdr - p_vaddr else b)"

lemma phdr_step_at:
  assumes "phdr_at v a ph"
  shows "phdr_step v base ctx phdr a = Inr (ctx\<lparr>ec_load_bias := bias_step base phdr (ec_load_bias ctx) ph\<rparr>)"
  using assms by (cases ph) (simp add: phdr_at_def phdr_step_def bias_step_def)

lemma phdr_loop_bias:
  assumes "\<forall>i < length phs. phdr_at v (phdr + of_nat (56 * i)) (phs ! i)"
  shows "i + n = length phs \<Longrightarrow>
    phdr_loop v base phdr i n ctx = Inr (ctx\<lparr>ec_load_bias := foldl (bias_step base phdr) (ec_load_bias ctx) (drop i phs)\<rparr>)"
proof (induction n arbitrary: i ctx)
  case (Suc n)
  then have i: "i < length phs" by simp
  then have "drop i phs = phs ! i # drop (Suc i) phs" by (simp add: Cons_nth_drop_Suc)
  then show ?case
    using Suc.IH [of "Suc i"] Suc.prems phdr_step_at [OF assms [rule_format, OF i], of base ctx phdr]
    by (simp del: of_nat_mult)
qed simp

text \<open>The last section of a kind decides.\<close>

definition last_where :: "('a \<Rightarrow> bool) \<Rightarrow> 'a list \<Rightarrow> 'a option" where
  "last_where P xs = (if filter P xs = [] then None else Some (last (filter P xs)))"

lemma last_where_snoc: "last_where P (xs @ [x]) = (if P x then Some x else last_where P xs)"
  by (simp add: last_where_def)

definition is_symtab :: "elf_section \<Rightarrow> bool" where
  "is_symtab s \<longleftrightarrow> sec_type s = 2"

definition is_dynsym :: "elf_section \<Rightarrow> bool" where
  "is_dynsym s \<longleftrightarrow> sec_type s = 11"

definition is_strings :: "string \<Rightarrow> elf_section \<Rightarrow> bool" where
  "is_strings name s \<longleftrightarrow> sec_type s = 3 \<and> sec_name s = lit name"

definition start_of :: "u64 \<Rightarrow> elf_section option \<Rightarrow> u64" where
  "start_of base s = (case s of None \<Rightarrow> 0 | Some s' \<Rightarrow> base + sec_offset s')"

definition ctx_of :: "view \<Rightarrow> u64 \<Rightarrow> elf_section list \<Rightarrow> elf_ctx \<Rightarrow> bool" where
  "ctx_of v bias secs ctx \<longleftrightarrow> ec_load_bias ctx = bias
     \<and> ec_symtab ctx = start_of (vw_base v) (last_where is_symtab secs)
     \<and> ec_strtab ctx = start_of (vw_base v) (last_where (is_strings ''.strtab'') secs)
     \<and> ec_dynsymtab ctx = start_of (vw_base v) (last_where is_dynsym secs)
     \<and> ec_dynstrtab ctx = start_of (vw_base v) (last_where (is_strings ''.dynstr'') secs)
     \<and> (\<forall>s. last_where is_symtab secs = Some s \<longrightarrow> peek64 v (ec_sym_sh ctx + 32) = Inr (sec_size s))
     \<and> (\<forall>s. last_where is_dynsym secs = Some s \<longrightarrow> peek64 v (ec_dynsym_sh ctx + 32) = Inr (sec_size s))"

lemma shdr_step_at:
  assumes "section_at v strings a s" and "ctx_of v bias secs ctx"
  shows "\<exists>ctx'. shdr_step v (vw_base v) strings a ctx = Inr ctx' \<and> ctx_of v bias (secs @ [s]) ctx'"
proof -
  obtain sh_name where s: "peek32 v a = Inr sh_name" "name_at v (strings + sh_name) (sec_name s)"
      "peek32 v (a + 4) = Inr (sec_type s)" "peek64 v (a + 24) = Inr (sec_offset s)" "peek64 v (a + 32) = Inr (sec_size s)"
    using assms(1) by (auto simp: section_at_def)
  have n: "name_is v (strings + sh_name) (lit name) = Inr (sec_name s = lit name)" if "0 \<notin> set (lit name)" for name
    using name_is_at [OF s(2) that] .
  have names: "name_is v (strings + sh_name) (lit ''.strtab'') = Inr (sec_name s = lit ''.strtab'')"
      "name_is v (strings + sh_name) (lit ''.dynstr'') = Inr (sec_name s = lit ''.dynstr'')"
      "lit ''.strtab'' \<noteq> lit ''.dynstr''" "lit ''.dynstr'' \<noteq> lit ''.strtab''"
    by (rule n, simp add: lit_def) (rule n, simp add: lit_def, simp_all add: lit_def)
  note kinds = last_where_snoc is_symtab_def is_dynsym_def is_strings_def start_of_def
  consider "sec_type s = 2" | "sec_type s = 11" | "sec_type s = 3" "sec_name s = lit ''.strtab''"
    | "sec_type s = 3" "sec_name s = lit ''.dynstr''"
    | "sec_type s \<noteq> 2" "sec_type s \<noteq> 11" "sec_type s \<noteq> 3 \<or> sec_name s \<noteq> lit ''.strtab'' \<and> sec_name s \<noteq> lit ''.dynstr''"
    by blast
  then show ?thesis
  proof cases
    case 5
    then have "shdr_step v (vw_base v) strings a ctx = Inr ctx" using s by (auto simp: shdr_step_def names)
    then show ?thesis using 5 assms(2) by (auto simp: ctx_of_def kinds)
  qed (use s assms(2) in \<open>simp_all add: shdr_step_def names ctx_of_def kinds\<close>)
qed

lemma shdr_loop_ctx:
  assumes "\<forall>i < length secs. section_at v strings (shdr + of_nat (64 * i)) (secs ! i)"
  shows "i + n = length secs \<Longrightarrow> ctx_of v bias (take i secs) ctx \<Longrightarrow>
    \<exists>ctx'. shdr_loop v (vw_base v) strings shdr i n ctx = Inr ctx' \<and> ctx_of v bias secs ctx'"
proof (induction n arbitrary: i ctx)
  case (Suc n)
  then have i: "i < length secs" by simp
  obtain ctx1 where c: "shdr_step v (vw_base v) strings (shdr + of_nat (64 * i)) ctx = Inr ctx1" "ctx_of v bias (take (Suc i) secs) ctx1"
    using shdr_step_at [OF assms [rule_format, OF i] Suc.prems(2)] by (metis i take_Suc_conv_app_nth)
  then show ?case using Suc.IH [of "Suc i" ctx1] Suc.prems(1) by (simp del: of_nat_mult)
qed simp

lemma elf_ctx_init_ctx:
  assumes "is_elf v phs secs"
  shows "\<exists>ctx phdr. elf_ctx_init v no_ctx (vw_base v) = Inr ctx \<and> peek64 v (vw_base v + 32) = Inr (phdr - vw_base v)
    \<and> ctx_of v (foldl (bias_step (vw_base v) phdr) 0 phs) secs ctx"
proof -
  let ?base = "vw_base v"
  obtain phoff shoff strndx strings where e: "peek64 v (?base + 32) = Inr phoff" "peek16 v (?base + 56) = Inr (of_nat (length phs))"
      "length phs < 2 ^ 16" "\<forall>i < length phs. phdr_at v (?base + phoff + of_nat (56 * i)) (phs ! i)"
      "peek64 v (?base + 40) = Inr shoff" "peek16 v (?base + 62) = Inr strndx"
      "peek16 v (?base + 60) = Inr (of_nat (length secs))" "length secs < 2 ^ 16"
      "peek64 v (?base + shoff + 64 * strndx + 24) = Inr strings"
      "\<forall>i < length secs. section_at v (?base + strings) (?base + shoff + of_nat (64 * i)) (secs ! i)"
    using assms unfolding is_elf_def Let_def by blast
  define phdr where "phdr = ?base + phoff"
  define ctx1 where "ctx1 = (no_ctx\<lparr>ec_header := ?base\<rparr>)\<lparr>ec_load_bias := foldl (bias_step ?base phdr) 0 phs\<rparr>"
  have n: "unat (of_nat (length phs) :: u64) = length phs" "unat (of_nat (length secs) :: u64) = length secs"
    using e(3,8) by (simp_all add: unat_of_nat)
  have 1: "phdr_loop v ?base phdr 0 (length phs) (no_ctx\<lparr>ec_header := ?base\<rparr>) = Inr ctx1"
    using phdr_loop_bias [of phs v phdr 0 "length phs" ?base "no_ctx\<lparr>ec_header := ?base\<rparr>"] e(4)
    by (simp add: phdr_def ctx1_def no_ctx_def)
  have "ctx_of v (foldl (bias_step ?base phdr) 0 phs) (take 0 secs) ctx1"
    by (simp add: ctx_of_def ctx1_def no_ctx_def last_where_def start_of_def)
  then obtain ctx where c: "shdr_loop v ?base (?base + strings) (?base + shoff) 0 (length secs) ctx1 = Inr ctx"
      "ctx_of v (foldl (bias_step ?base phdr) 0 phs) secs ctx"
    using shdr_loop_ctx [OF e(10), of 0 "length secs"] by auto
  have "elf_ctx_init v no_ctx ?base = Inr ctx"
    using e(1,2,5-7,9) 1 c(1) by (simp add: elf_ctx_init_def n phdr_def [symmetric])
  then show ?thesis using c(2) e(1) by (intro exI [of _ ctx] exI [of _ phdr]) (simp add: phdr_def)
qed

section \<open>The symbol of a file\<close>

text \<open>The symbols of a pair of sections; without one of the two the table is not searched.\<close>

definition table_of :: "view \<Rightarrow> elf_section option \<Rightarrow> elf_section option \<Rightarrow> (byte list \<times> u64) list \<Rightarrow> bool" where
  "table_of v tab str syms \<longleftrightarrow> (case (tab, str) of
      (Some s, Some t) \<Rightarrow> vw_base v + sec_offset s \<noteq> 0 \<and> vw_base v + sec_offset t \<noteq> 0
        \<and> length syms = unat (sec_size s div 24) \<and> length syms < 2 ^ 31
        \<and> holds_symbols v (vw_base v + sec_offset s) (vw_base v + sec_offset t) syms
    | _ \<Rightarrow> syms = [])"

definition file_symbols :: "view \<Rightarrow> elf_section list \<Rightarrow> (byte list \<times> u64) list \<Rightarrow> (byte list \<times> u64) list \<Rightarrow> bool" where
  "file_symbols v secs syms dynsyms \<longleftrightarrow>
     table_of v (last_where is_symtab secs) (last_where (is_strings ''.strtab'') secs) syms
     \<and> table_of v (last_where is_dynsym secs) (last_where (is_strings ''.dynstr'') secs) dynsyms"

definition either_symbol :: "byte list \<Rightarrow> (byte list \<times> u64) list \<Rightarrow> (byte list \<times> u64) list \<Rightarrow> u64" where
  "either_symbol name syms dynsyms = (let r = lookup name syms in if r \<noteq> 0 then r else lookup name dynsyms)"

lemma table_of_lookup:
  assumes "table_of v tab str syms" and "0 \<notin> set name"
    and "\<forall>s. tab = Some s \<longrightarrow> peek64 v (sh + 32) = Inr (sec_size s)"
  shows "(if start_of (vw_base v) tab \<noteq> 0 \<and> start_of (vw_base v) str \<noteq> 0
      then ebind (peek64 v (sh + 32)) (\<lambda>sh_size.
             iterate_symbol_table_impl v name (start_of (vw_base v) tab) (start_of (vw_base v) str) (sh_size div 24))
      else Inr 0) = Inr (lookup name syms)"
proof (cases "tab = None \<or> str = None")
  case True
  then show ?thesis using assms(1) by (auto simp: table_of_def start_of_def lookup_def split: option.splits)
next
  case False
  then obtain s t where st: "tab = Some s" "str = Some t" by auto
  then have t: "vw_base v + sec_offset s \<noteq> 0" "vw_base v + sec_offset t \<noteq> 0" "length syms = unat (sec_size s div 24)"
      "length syms < 2 ^ 31" "holds_symbols v (vw_base v + sec_offset s) (vw_base v + sec_offset t) syms"
    using assms(1) by (simp_all add: table_of_def)
  show ?thesis using table_lookup [OF t(5) assms(2) t(3,4)] t(1,2) assms(3) st by (simp add: start_of_def)
qed

lemma iterate_lookup:
  assumes "ctx_of v bias secs ctx" and "file_symbols v secs syms dynsyms" and "0 \<notin> set name"
  shows "elf_ctx_iterate_symbol_table v ctx name = Inr (either_symbol name syms dynsyms)"
proof -
  note c = assms(1) [unfolded ctx_of_def]
  have t: "table_of v (last_where is_symtab secs) (last_where (is_strings ''.strtab'') secs) syms"
      "table_of v (last_where is_dynsym secs) (last_where (is_strings ''.dynstr'') secs) dynsyms"
    using assms(2) unfolding file_symbols_def by blast+
  have s: "\<forall>s. last_where is_symtab secs = Some s \<longrightarrow> peek64 v (ec_sym_sh ctx + 32) = Inr (sec_size s)"
      "\<forall>s. last_where is_dynsym secs = Some s \<longrightarrow> peek64 v (ec_dynsym_sh ctx + 32) = Inr (sec_size s)"
    using c by blast+
  have f: "ec_symtab ctx = start_of (vw_base v) (last_where is_symtab secs)"
      "ec_strtab ctx = start_of (vw_base v) (last_where (is_strings ''.strtab'') secs)"
      "ec_dynsymtab ctx = start_of (vw_base v) (last_where is_dynsym secs)"
      "ec_dynstrtab ctx = start_of (vw_base v) (last_where (is_strings ''.dynstr'') secs)"
    using c by blast+
  show ?thesis
    unfolding elf_ctx_iterate_symbol_table_def f table_of_lookup [OF t(1) assms(3) s(1)] table_of_lookup [OF t(2) assms(3) s(2)]
    by (simp add: either_symbol_def Let_def)
qed

section \<open>The address of a symbol\<close>

text \<open>
  By how much the addresses in a file exceed its offsets, as the resolver sees it: what the last entry for
  the program headers themselves (\<open>PT_PHDR\<close>) says of their place, and without such an entry what the
  first loaded segment (\<open>PT_LOAD\<close>) says.
\<close>

definition displacement :: "u64 \<Rightarrow> program_header list \<Rightarrow> u64 option" where
  "displacement phoff phs =
     (case last_where (\<lambda>p. fst p = 6) phs of
        Some (_, _, p_vaddr) \<Rightarrow> Some (p_vaddr - phoff)
      | None \<Rightarrow> map_option (\<lambda>(_, p_offset, p_vaddr). p_vaddr - p_offset) (find (\<lambda>p. fst p = 1) phs))"

lemma bias_kept:
  assumes "\<forall>p \<in> set phs. fst p \<noteq> 6" and "b \<noteq> 0"
  shows "foldl (bias_step base phdr) b phs = b"
  using assms by (induction phs) (auto simp: bias_step_def split: prod.splits)

lemma bias_first_load:
  assumes "find (\<lambda>p. fst p = 1) phs = Some (t, p_offset, p_vaddr)" and "\<forall>p \<in> set phs. fst p \<noteq> 6"
    and "base \<noteq> p_vaddr - p_offset"
  shows "foldl (bias_step base phdr) 0 phs = base - (p_vaddr - p_offset)"
  using assms
proof (induction phs)
  case (Cons p phs)
  show ?case
  proof (cases "fst p = 1")
    case True
    then have "bias_step base phdr 0 p = base - (p_vaddr - p_offset)" using Cons.prems by (auto simp: bias_step_def)
    moreover have "base - (p_vaddr - p_offset) \<noteq> 0" using Cons.prems(3) by simp
    ultimately show ?thesis using bias_kept [of phs "base - (p_vaddr - p_offset)" base phdr] Cons.prems(2) by simp
  next
    case False
    then have "bias_step base phdr 0 p = 0" using Cons.prems by (cases p) (simp add: bias_step_def)
    then show ?thesis using Cons False by simp
  qed
qed simp

lemma bias_displacement:
  assumes "displacement phoff phs = Some d" and "base \<noteq> d"
  shows "foldl (bias_step base (base + phoff)) 0 phs = base - d"
proof (cases "filter (\<lambda>p. fst p = 6) phs = []")
  case True
  then have no: "\<forall>p \<in> set phs. fst p \<noteq> 6" by (auto simp: filter_empty_conv)
  from True assms(1) obtain t p_offset p_vaddr where
    f: "find (\<lambda>p. fst p = 1) phs = Some (t, p_offset, p_vaddr)" "d = p_vaddr - p_offset"
    by (auto simp: displacement_def last_where_def)
  then show ?thesis using bias_first_load [OF f(1) no] assms(2) by simp
next
  case False
  then obtain as p bs where phs: "phs = as @ p # bs" "fst p = 6" "\<forall>q \<in> set bs. fst q \<noteq> 6"
    using split_list_last_prop [of phs "\<lambda>p. fst p = 6"] by (auto simp: filter_empty_conv)
  obtain p_offset p_vaddr where p: "p = (6, p_offset, p_vaddr)" using phs(2) by (cases p) simp
  have "filter (\<lambda>q. fst q = 6) bs = []" using phs(3) by (simp add: filter_empty_conv)
  then have d: "d = p_vaddr - phoff" using assms(1) phs(1) p by (simp add: displacement_def last_where_def)
  then have "bias_step base (base + phoff) b p = base - d" for b by (simp add: p bias_step_def)
  moreover have "base - d \<noteq> 0" using assms(2) by simp
  ultimately show ?thesis using bias_kept [OF phs(3)] by (simp add: phs(1))
qed

lemma resolve_in_module_symbol:
  assumes "file_mmap S (ctext (rm_path m)) = v" and "vw_base v \<noteq> 0" and "rm_load_address m \<noteq> 0" and "0 \<in> set (rm_path m)"
    and "is_elf v phs secs" and "file_symbols v secs syms dynsyms" and "peek64 v (vw_base v + 32) = Inr phoff"
    and "displacement phoff phs = Some d" and "vw_base v \<noteq> d" and "0 \<notin> set name"
  shows "resolve_in_module S name m =
    Inr (let r = either_symbol name syms dynsyms in if r \<noteq> 0 then rm_load_address m + (r - d) else 0)"
proof -
  obtain ctx phdr where init: "elf_ctx_init v no_ctx (vw_base v) = Inr ctx"
      and phdr: "peek64 v (vw_base v + 32) = Inr (phdr - vw_base v)"
      and ctx: "ctx_of v (foldl (bias_step (vw_base v) phdr) 0 phs) secs ctx"
    using elf_ctx_init_ctx [OF assms(5)] by blast
  have "phdr = vw_base v + phoff" using phdr assms(7) by (simp add: algebra_simps)
  then have bias: "ec_load_bias ctx = vw_base v - d" using ctx bias_displacement [OF assms(8,9)] by (simp add: ctx_of_def)
  have path: "ctext (rm_path m @ bytes64 (rm_load_address m)) = ctext (rm_path m)"
    using assms(4) unfolding ctext_def by (subst takeWhile_append1) auto
  show ?thesis
    using assms(1-4) init iterate_lookup [OF ctx assms(6,10)] bias
    by (simp add: resolve_in_module_def path Let_def algebra_simps)
qed

text \<open>C21: a symbol the dynamic linker does not know is found in the file of the first module whose path contains
  the image's name: the resolver returns the load address plus the symbol's value, less the displacement
  of the file: the difference of address and offset that its \<open>PT_PHDR\<close> entry gives for the program headers
  or, in a file without that entry, that of its first loaded segment. The symbol table is searched before
  the dynamic one. The file is a 64-bit ELF file that could be mapped. Two zeros are excluded: a bias of 0 (the address of the mapping less
  the displacement), which the code takes for one not yet set, and a result of 0, which it takes for no symbol.\<close>

theorem resolver_finds_symbol:
  assumes "os_dlsym S name = 0" and "es \<noteq> []" and "list_all wf_entry es"
    and "ms = List.map_filter (entry_module memory) (es @ [last es])" and "list_all (\<lambda>m. 0 \<in> set (rm_path m)) ms"
    and "find (\<lambda>m. sublist (ctext lib) (ctext (rm_path m))) ms = Some m"
    and "file_mmap S (ctext (rm_path m)) = v" and "vw_base v \<noteq> 0" and "rm_load_address m \<noteq> 0"
    and "is_elf v phs secs" and "file_symbols v secs syms dynsyms" and "peek64 v (vw_base v + 32) = Inr phoff"
    and "displacement phoff phs = Some d" and "vw_base v \<noteq> d" and "0 \<notin> set name"
    and "either_symbol name syms dynsyms \<noteq> 0" and "rm_load_address m + (either_symbol name syms dynsyms - d) \<noteq> 0"
  shows "DobbySymbolResolver S stack (Some (concat (map render es))) memory (Some lib) name []
    = Inr (rm_load_address m + (either_symbol name syms dynsyms - d), ms)"
proof -
  have "m \<in> set ms" using assms(6) by (metis find_Some_iff nth_mem)
  then have path: "0 \<in> set (rm_path m)" using assms(5) by (simp add: list_all_iff)
  have "\<forall>m \<in> set ms. 0 \<in> set (rm_path m)" using assms(5) by (simp add: list_all_iff)
  then have "find_module lib ms = Inr m" using find_module_first [of ms lib] assms(6) by simp
  moreover have "GetProcessModuleMap stack (Some (concat (map render es))) memory [] = Inr ms"
    using modules_loop_render [OF assms(2,3), of memory stack "[]"] assms(4)
    by (simp add: GetProcessModuleMap_def get_process_map_with_proc_maps_def)
  ultimately have "GetProcessModule stack (Some (concat (map render es))) memory lib [] = Inr (m, ms)"
    by (simp add: GetProcessModule_def)
  moreover have "resolve_in_module S name m = Inr (rm_load_address m + (either_symbol name syms dynsyms - d))"
    using resolve_in_module_symbol [OF assms(7-9) path assms(10-15)] assms(16) by (simp add: Let_def)
  ultimately show ?thesis
    using assms(1,17) by (simp add: DobbySymbolResolver_def resolve_elf_internal_symbol_def)
qed

text \<open>A mapping that fails, as that of an empty file does, is used as if it had been made.\<close>

lemma failed_mapping_crashes:
  assumes "file_mmap S (ctext (rm_path m)) = \<lparr>vw_base = - 1, vw_bytes = []\<rparr>" and "rm_load_address m \<noteq> 0" and "0 \<in> set (rm_path m)"
  shows "resolve_in_module S name m = Inl Wild"
proof -
  have "ctext (rm_path m @ bytes64 (rm_load_address m)) = ctext (rm_path m)"
    using assms(3) unfolding ctext_def by (subst takeWhile_append1) auto
  then show ?thesis
    using assms by (simp add: resolve_in_module_def elf_ctx_init_def peek64_def peek_def)
qed

section \<open>A file at hand\<close>

definition u16b :: "nat \<Rightarrow> byte list" where "u16b n = bytes16 (of_nat n)"
definition u32b :: "nat \<Rightarrow> byte list" where "u32b n = bytes32 (of_nat n)"
definition u64b :: "nat \<Rightarrow> byte list" where "u64b n = bytes64 (of_nat n)"

definition shdr_bytes :: "nat \<Rightarrow> nat \<Rightarrow> nat \<Rightarrow> nat \<Rightarrow> byte list" where
  "shdr_bytes sh_name sh_type sh_offset sh_size =
     u32b sh_name @ u32b sh_type @ u64b 0 @ u64b 0 @ u64b sh_offset @ u64b sh_size @ u64b 0 @ u64b 0 @ u64b 0"

definition demo_strings :: "byte list" where
  "demo_strings = 0 # lit ''.strtab'' @ 0 # lit ''foo'' @ 0 # replicate 3 0"

definition demo_file :: "byte list" where
  "demo_file =
     replicate 32 0 @ u64b 64 @ u64b 176 @ u32b 0 @ u16b 64 @ u16b 56 @ u16b 2 @ u16b 64 @ u16b 2 @ u16b 1 @
     u32b 6 @ u32b 4 @ u64b 64 @ u64b 0x2040 @ u64b 0 @ u64b 0 @ u64b 0 @ u64b 0 @
     u32b 1 @ u32b 5 @ u64b 0x1000 @ u64b 0x3000 @ u64b 0 @ u64b 0 @ u64b 0 @ u64b 0 @
     shdr_bytes 0 2 320 48 @ shdr_bytes 1 3 304 16 @ demo_strings @
     u32b 0 @ u32b 0 @ u64b 0 @ u64b 0 @ u32b 9 @ u32b 0 @ u64b 0x3456 @ u64b 0"

definition demo_view :: view where
  "demo_view = \<lparr>vw_base = 0x50000, vw_bytes = demo_file\<rparr>"

lemma field_lengths [simp]: "length (u16b n) = 2" "length (u32b n) = 4" "length (u64b n) = 8" "length demo_strings = 16"
  by (simp_all add: u16b_def u32b_def u64b_def demo_strings_def)

lemma field_values: "word16_of (u16b n) = of_nat n" "word32_of (u32b n) = of_nat n" "word64_of (u64b n) = of_nat n"
  using word16_of_bytes16 [of _ "[]"] word32_of_bytes32 [of _ "[]"] word64_of_bytes64 [of _ "[]"]
  by (simp_all add: u16b_def u32b_def u64b_def)

lemmas demo_file_simps = peek64_def peek32_def peek16_def peek_def demo_view_def demo_file_def shdr_bytes_def field_values

definition demo_phdrs :: "program_header list" where
  "demo_phdrs = [(6, 64, 0x2040), (1, 0x1000, 0x3000)]"

definition demo_sections :: "elf_section list" where
  "demo_sections = [\<lparr>sec_type = 2, sec_name = [], sec_offset = 320, sec_size = 48\<rparr>,
     \<lparr>sec_type = 3, sec_name = lit ''.strtab'', sec_offset = 304, sec_size = 16\<rparr>]"

definition demo_symbols :: "(byte list \<times> u64) list" where
  "demo_symbols = [([], 0), (lit ''foo'', 0x3456)]"

lemma demo_names:
  "name_at demo_view (0x50000 + 304 + 0) []" "name_at demo_view (0x50000 + 304 + 1) (lit ''.strtab'')"
  "name_at demo_view (0x50000 + 304 + 9) (lit ''foo'')"
  by (simp_all add: name_at_def demo_view_def demo_file_def shdr_bytes_def demo_strings_def Let_def ctext_def lit_def)

lemma all_less_two: "(\<forall>i < 2. P i) \<longleftrightarrow> P 0 \<and> P (Suc 0)"
  by (auto simp: numeral_2_eq_2 less_Suc_eq)

lemma demo_is_elf: "is_elf demo_view demo_phdrs demo_sections"
proof -
  have base: "vw_base demo_view = 0x50000" by (simp add: demo_view_def)
  have h: "peek64 demo_view (0x50000 + 32) = Inr 64" "peek16 demo_view (0x50000 + 56) = Inr 2"
    "peek64 demo_view (0x50000 + 40) = Inr 176" "peek16 demo_view (0x50000 + 62) = Inr 1" "peek16 demo_view (0x50000 + 60) = Inr 2"
    "peek64 demo_view (0x50000 + 176 + 64 * 1 + 24) = Inr 304"
    by (simp_all add: demo_file_simps)
  have p: "phdr_at demo_view (0x50000 + 64 + of_nat (56 * 0)) (demo_phdrs ! 0)"
    "phdr_at demo_view (0x50000 + 64 + of_nat (56 * Suc 0)) (demo_phdrs ! Suc 0)"
    by (simp_all add: phdr_at_def demo_phdrs_def demo_file_simps)
  have s: "section_at demo_view (0x50000 + 304) (0x50000 + 176 + of_nat (64 * 0)) (demo_sections ! 0)"
    "section_at demo_view (0x50000 + 304) (0x50000 + 176 + of_nat (64 * Suc 0)) (demo_sections ! Suc 0)"
    using demo_names(1,2) by (simp_all add: section_at_def demo_sections_def demo_file_simps)
  have n: "length demo_sections = 2" "length demo_phdrs = 2" by (simp_all add: demo_sections_def demo_phdrs_def)
  have all: "\<forall>i < length demo_sections. section_at demo_view (0x50000 + 304) (0x50000 + 176 + of_nat (64 * i)) (demo_sections ! i)"
    unfolding n all_less_two using s by blast
  have heads: "\<forall>i < length demo_phdrs. phdr_at demo_view (0x50000 + 64 + of_nat (56 * i)) (demo_phdrs ! i)"
    unfolding n all_less_two using p by blast
  show ?thesis
    unfolding is_elf_def base Let_def
    by (rule exI [of _ 64], rule exI [of _ 176], rule exI [of _ 1], rule exI [of _ 304], intro conjI)
      (use h heads all in \<open>simp_all add: n del: of_nat_mult\<close>)
qed

lemma demo_has_symbols: "file_symbols demo_view demo_sections demo_symbols []"
proof -
  have n: "length demo_symbols = 2" by (simp add: demo_symbols_def)
  have "holds_symbols demo_view (0x50000 + 320) (0x50000 + 304) demo_symbols"
    unfolding holds_symbols_def n all_less_two
    using demo_names(1,3) by (simp add: demo_symbols_def demo_file_simps)
  then show ?thesis
    by (simp add: file_symbols_def table_of_def last_where_def demo_sections_def is_symtab_def is_dynsym_def is_strings_def lit_def)
      (simp add: demo_symbols_def demo_view_def)
qed

definition demo_os :: elf_os where
  "demo_os = \<lparr>os_open = \<lambda>_. 3, os_fstat = \<lambda>_. Some 368, os_mmap = \<lambda>_ _. demo_view, os_dlsym = \<lambda>_. 0\<rparr>"

lemma demo_phoff: "peek64 demo_view (vw_base demo_view + 32) = Inr 64"
  by (simp add: demo_file_simps)

theorem resolver_finds_symbol_witness:
  "\<exists>ms. DobbySymbolResolver demo_os [] (Some (concat (map render demo_maps))) demo_image (Some (lit ''libc.so'')) (lit ''foo'') []
    = Inr (0x8456, ms)"
proof -
  let ?m = "\<lparr>rm_path = lit ''/apex/libc.so'' @ replicate 1011 0, rm_load_address = 0x7000\<rparr>"
  have "entry_module demo_image (demo_entry 0x7000 0x9000 ''r-xp'' ''/apex/libc.so'') = Some ?m"
    "entry_module demo_image (demo_entry 0x1000 0x3000 ''rw-p'' []) = None"
    by (simp_all add: entry_module_def demo_entry_def demo_image_def elf_magic_def lit_def upt_rec)
  then have ms: "[?m] = List.map_filter (entry_module demo_image) (demo_maps @ [last demo_maps])"
    by (simp add: demo_maps_def List.map_filter_def)
  have "ctext (rm_path ?m) = lit ''/apex/libc.so''" "ctext (lit ''libc.so'') = lit ''libc.so''"
    by (simp_all add: ctext_def lit_def)
  moreover have "sublist (lit ''libc.so'') (lit ''/apex/libc.so'')"
    unfolding sublist_def by (rule exI [of _ "lit ''/apex/''"], rule exI [of _ "[]"]) (simp add: lit_def)
  ultimately have found: "find (\<lambda>m. sublist (ctext (lit ''libc.so'')) (ctext (rm_path m))) [?m] = Some ?m" by simp
  have r: "either_symbol (lit ''foo'') demo_symbols [] = 0x3456"
    by (simp add: either_symbol_def lookup_def demo_symbols_def lit_def Let_def)
  have "DobbySymbolResolver demo_os [] (Some (concat (map render demo_maps))) demo_image (Some (lit ''libc.so'')) (lit ''foo'') []
    = Inr (rm_load_address ?m + (either_symbol (lit ''foo'') demo_symbols [] - 0x2000), [?m])"
    by (rule resolver_finds_symbol [OF _ demo_maps_wf ms _ found _ _ _ demo_is_elf demo_has_symbols demo_phoff])
      (simp_all add: r, simp_all add: demo_os_def file_mmap_def demo_view_def displacement_def last_where_def demo_phdrs_def lit_def)
  then show ?thesis by (simp add: r)
qed

end
