(* ===== verification/Closure_Bridge.thy ===== *)
theory Closure_Bridge
  imports Inline_Hook
begin

text \<open>
  Closure trampolines as built for ARM64 (\<open>ClosureTrampoline.h\<close>, \<open>ClosureTrampolineARM64.cc\<close>,
  \<open>closure_bridge_arm64.cc\<close>, \<open>helper_arm64.cc\<close>, \<open>common_bridge_handler.cc\<close>), without the full floating
  point pack, which the build leaves off. A closure trampoline stacks the address of its entry
  and calls the bridge; the bridge saves the registers as a \<open>DobbyRegisterContext\<close>, calls
  \<open>common_closure_bridge_handler\<close>, restores them, and the trampoline goes to the address left in x17.
  The code is emitted by lists of assembler calls, in the order of the source.
\<close>

unbundle bit_operations_syntax

section \<open>Emitting a sequence\<close>

primrec asm_seq :: "(assembler \<Rightarrow> dobby_error + assembler) list \<Rightarrow> assembler \<Rightarrow> dobby_error + assembler" where
  "asm_seq [] a = Inr a"
| "asm_seq (f # fs) a = ebind (f a) (asm_seq fs)"

lemma asm_seq_append: "asm_seq (fs @ gs) a = ebind (asm_seq fs a) (asm_seq gs)"
  by (induction fs arbitrary: a) (simp_all add: ebind_def split: sum.splits)

definition MEM :: "CPURegister \<Rightarrow> u64 \<Rightarrow> MemOperand" where
  "MEM reg offset = MemOperand_imm reg offset Offset"

definition MEM_EXT :: "CPURegister \<Rightarrow> u64 \<Rightarrow> AddrMode \<Rightarrow> MemOperand" where
  "MEM_EXT reg offset addrmode = MemOperand_imm reg offset addrmode"

section \<open>The bridge\<close>

text \<open>The context without the registers q8 to q31: \<open>REGISTER_CONTEXT_SIZE\<close>.\<close>

definition REGISTER_CONTEXT_SIZE :: u64 where
  "REGISTER_CONTEXT_SIZE = (8 + 8 + 8 + 29 * 8 + 8 + 8 + 32 * 16) - 24 * 16"

definition bridge_save_q :: "(assembler \<Rightarrow> dobby_error + assembler) list" where
  "bridge_save_q =
     [asm_sub SP_reg SP_reg (8 * 16),
      asm_stp (Q_reg 6) (Q_reg 7) (MEM SP_reg (6 * 16)),
      asm_stp (Q_reg 4) (Q_reg 5) (MEM SP_reg (4 * 16)),
      asm_stp (Q_reg 2) (Q_reg 3) (MEM SP_reg (2 * 16)),
      asm_stp (Q_reg 0) (Q_reg 1) (MEM SP_reg (0 * 16))]"

definition bridge_save_x :: "(assembler \<Rightarrow> dobby_error + assembler) list" where
  "bridge_save_x =
     [asm_sub SP_reg SP_reg (30 * 8),
      asm_stp (X_reg 29) (X_reg 30) (MEM SP_reg (28 * 8)),
      asm_stp (X_reg 27) (X_reg 28) (MEM SP_reg (26 * 8)),
      asm_stp (X_reg 25) (X_reg 26) (MEM SP_reg (24 * 8)),
      asm_stp (X_reg 23) (X_reg 24) (MEM SP_reg (22 * 8)),
      asm_stp (X_reg 21) (X_reg 22) (MEM SP_reg (20 * 8)),
      asm_stp (X_reg 19) (X_reg 20) (MEM SP_reg (18 * 8)),
      asm_stp (X_reg 17) (X_reg 18) (MEM SP_reg (16 * 8)),
      asm_stp (X_reg 15) (X_reg 16) (MEM SP_reg (14 * 8)),
      asm_stp (X_reg 13) (X_reg 14) (MEM SP_reg (12 * 8)),
      asm_stp (X_reg 11) (X_reg 12) (MEM SP_reg (10 * 8)),
      asm_stp (X_reg 9) (X_reg 10) (MEM SP_reg (8 * 8)),
      asm_stp (X_reg 7) (X_reg 8) (MEM SP_reg (6 * 8)),
      asm_stp (X_reg 5) (X_reg 6) (MEM SP_reg (4 * 8)),
      asm_stp (X_reg 3) (X_reg 4) (MEM SP_reg (2 * 8)),
      asm_stp (X_reg 1) (X_reg 2) (MEM SP_reg (0 * 8))]"

text \<open>x0, the original stack pointer, and the arguments of the handler.\<close>

definition bridge_frame :: "(assembler \<Rightarrow> dobby_error + assembler) list" where
  "bridge_frame =
     [asm_sub SP_reg SP_reg (2 * 8),
      asm_str (X_reg 0) (MEM SP_reg 8),
      asm_add TMP_REG_0 SP_reg (2 * 8),
      asm_add TMP_REG_0 TMP_REG_0 (2 * 8 + 30 * 8 + 8 * 16),
      asm_sub SP_reg SP_reg (2 * 8),
      asm_str TMP_REG_0 (MEM SP_reg 8),
      asm_mov (X_reg 0) SP_reg,
      asm_ldr (X_reg 1) (MEM SP_reg (REGISTER_CONTEXT_SIZE + 0))]"

definition bridge_call :: "u64 \<Rightarrow> (assembler \<Rightarrow> dobby_error + assembler) list" where
  "bridge_call handler = [\<lambda>a. Inr (asm_CallFunction handler a)]"

definition bridge_restore_frame :: "(assembler \<Rightarrow> dobby_error + assembler) list" where
  "bridge_restore_frame =
     [asm_add SP_reg SP_reg (2 * 8),
      asm_ldr (X_reg 0) (MEM SP_reg 8),
      asm_add SP_reg SP_reg (2 * 8)]"

definition bridge_restore_x :: "(assembler \<Rightarrow> dobby_error + assembler) list" where
  "bridge_restore_x =
     [asm_ldp (X_reg 1) (X_reg 2) (MEM_EXT SP_reg 16 PostIndex),
      asm_ldp (X_reg 3) (X_reg 4) (MEM_EXT SP_reg 16 PostIndex),
      asm_ldp (X_reg 5) (X_reg 6) (MEM_EXT SP_reg 16 PostIndex),
      asm_ldp (X_reg 7) (X_reg 8) (MEM_EXT SP_reg 16 PostIndex),
      asm_ldp (X_reg 9) (X_reg 10) (MEM_EXT SP_reg 16 PostIndex),
      asm_ldp (X_reg 11) (X_reg 12) (MEM_EXT SP_reg 16 PostIndex),
      asm_ldp (X_reg 13) (X_reg 14) (MEM_EXT SP_reg 16 PostIndex),
      asm_ldp (X_reg 15) (X_reg 16) (MEM_EXT SP_reg 16 PostIndex),
      asm_ldp (X_reg 17) (X_reg 18) (MEM_EXT SP_reg 16 PostIndex),
      asm_ldp (X_reg 19) (X_reg 20) (MEM_EXT SP_reg 16 PostIndex),
      asm_ldp (X_reg 21) (X_reg 22) (MEM_EXT SP_reg 16 PostIndex),
      asm_ldp (X_reg 23) (X_reg 24) (MEM_EXT SP_reg 16 PostIndex),
      asm_ldp (X_reg 25) (X_reg 26) (MEM_EXT SP_reg 16 PostIndex),
      asm_ldp (X_reg 27) (X_reg 28) (MEM_EXT SP_reg 16 PostIndex),
      asm_ldp (X_reg 29) (X_reg 30) (MEM_EXT SP_reg 16 PostIndex)]"

definition bridge_restore_q :: "(assembler \<Rightarrow> dobby_error + assembler) list" where
  "bridge_restore_q =
     [asm_ldp (Q_reg 0) (Q_reg 1) (MEM_EXT SP_reg 32 PostIndex),
      asm_ldp (Q_reg 2) (Q_reg 3) (MEM_EXT SP_reg 32 PostIndex),
      asm_ldp (Q_reg 4) (Q_reg 5) (MEM_EXT SP_reg 32 PostIndex),
      asm_ldp (Q_reg 6) (Q_reg 7) (MEM_EXT SP_reg 32 PostIndex)]"

definition closure_bridge_code :: "u64 \<Rightarrow> (assembler \<Rightarrow> dobby_error + assembler) list" where
  "closure_bridge_code handler =
     bridge_save_q @ bridge_save_x @ bridge_frame @ bridge_call handler @ bridge_restore_frame @ bridge_restore_x
       @ bridge_restore_q @ [\<lambda>a. Inr (asm_ret a)]"

section \<open>Entries and their trampolines\<close>

text \<open>
  The C++ functions a closure can carry, and what they are called with: the entry of a routing,
  named by the routing that owns it. The objects made by \<open>new\<close> are found under their addresses.
\<close>

datatype carry_handler = instrument_routing_dispatch_handler

record closure_entry =
  ce_address :: u64
  ce_size :: u32
  ce_carry_handler :: carry_handler
  ce_carry_data :: nat

record 'o closures = "'o dobby" +
  cl_bridge :: u64
  cl_entries :: "u64 \<Rightarrow> closure_entry option"

text \<open>\<open>get_closure_bridge\<close>: the code is made once; \<open>handler\<close> is the address of the C++ handler.\<close>

definition get_closure_bridge ::
  "'o kernel \<Rightarrow> u64 \<Rightarrow> ('o, 's) closures_scheme \<Rightarrow> dobby_error + (u64 \<times> ('o, 's) closures_scheme)" where
  "get_closure_bridge K handler st =
     (if cl_bridge st \<noteq> 0 then Inr (cl_bridge st, st)
      else ebind (asm_seq (closure_bridge_code handler) (new_assembler 0)) (\<lambda>a.
           ebind (FinalizeFromTurboAssembler K a (db_alloc st) (db_world st)) (\<lambda>(code, _, al1, w1).
             Inr (mb_addr code, st\<lparr>db_alloc := al1, db_world := w1, cl_bridge := mb_addr code\<rparr>))))"

text \<open>A label on the stack: the assembler's labels are named by their index, and it holds no data.\<close>

definition new_pseudo_label :: "reloc_label" where
  "new_pseudo_label = \<lparr>lb_pos = 0, lb_relocated_pos = 0, lb_refs = [], lb_data = []\<rparr>"

definition with_labels :: "reloc_label list \<Rightarrow> assembler \<Rightarrow> assembler" where
  "with_labels ls a = a\<lparr>labels := labels a @ ls\<rparr>"

abbreviation (input) "entry_label \<equiv> 0 :: nat"
abbreviation (input) "forward_bridge_label \<equiv> 1 :: nat"

definition closure_trampoline_code :: "(assembler \<Rightarrow> dobby_error + assembler) list" where
  "closure_trampoline_code =
     [asm_sub SP_reg SP_reg (2 * 8),
      asm_str (X_reg 30) (MEM SP_reg 8),
      asm_Ldr_label TMP_REG_0 entry_label,
      asm_str TMP_REG_0 (MEM SP_reg 0),
      asm_Ldr_label TMP_REG_0 forward_bridge_label,
      \<lambda>a. Inr (asm_blr TMP_REG_0 a),
      asm_ldr (X_reg 30) (MEM SP_reg 8),
      asm_add SP_reg SP_reg (2 * 8),
      \<lambda>a. Inr (asm_br TMP_REG_0 a)]"

text \<open>\<open>tramp_entry\<close> is the address \<open>new\<close> returned. The bridge is asked for while its word is emitted.\<close>

definition CreateClosureTrampoline ::
  "'o kernel \<Rightarrow> u64 \<Rightarrow> u64 \<Rightarrow> nat \<Rightarrow> carry_handler \<Rightarrow> ('o, 's) closures_scheme
     \<Rightarrow> dobby_error + (closure_entry \<times> ('o, 's) closures_scheme)" where
  "CreateClosureTrampoline K handler tramp_entry carry_data carry_handler st =
     ebind (asm_seq closure_trampoline_code (with_labels [new_pseudo_label, new_pseudo_label] (new_assembler 0))) (\<lambda>a1.
     ebind (PseudoBind entry_label a1) (\<lambda>a2.
     ebind (PseudoBind forward_bridge_label (asm_EmitInt64 tramp_entry a2)) (\<lambda>a3.
     ebind (get_closure_bridge K handler st) (\<lambda>(bridge, st1).
     ebind (FinalizeFromTurboAssembler K (asm_EmitInt64 bridge a3) (db_alloc st1) (db_world st1)) (\<lambda>(code, _, al2, w2).
       let entry = \<lparr>ce_address = mb_addr code, ce_size = ucast (mb_size code), ce_carry_handler = carry_handler,
                    ce_carry_data = carry_data\<rparr>
       in Inr (entry, st1\<lparr>db_alloc := al2, db_world := w2, cl_entries := (cl_entries st1)(tramp_entry \<mapsto> entry)\<rparr>))))))"

section \<open>The handler\<close>

text \<open>Offsets of the fields of \<open>DobbyRegisterContext\<close>.\<close>

definition ctx_sp :: nat where "ctx_sp = 8"
definition ctx_x :: "nat \<Rightarrow> nat" where "ctx_x i = 24 + 8 * i"
definition ctx_q :: "nat \<Rightarrow> nat" where "ctx_q i = 24 + 8 * 31 + 16 * i"

definition set_routing_bridge_next_hop :: "u64 \<Rightarrow> u64 \<Rightarrow> (u64 \<Rightarrow> byte) \<Rightarrow> u64 \<Rightarrow> byte" where
  "set_routing_bridge_next_hop ctx address m =
     mem_write (ctx + of_nat (ctx_x (unat (reg_code TMP_REG_0)))) (bytes64 address) m"

definition get_routing_bridge_next_hop :: "u64 \<Rightarrow> u64 \<Rightarrow> (u64 \<Rightarrow> byte) \<Rightarrow> u64 \<Rightarrow> byte" where
  "get_routing_bridge_next_hop ctx address m = m"

text \<open>
  \<open>instrument_forward_handler\<close>: the callback is called with the instrumented address and the context
  when there is one. \<open>callback f address ctx\<close> is what the function at \<open>f\<close> does to the memory.
\<close>

definition instrument_forward_handler ::
  "(u64 \<Rightarrow> u64 \<Rightarrow> u64 \<Rightarrow> (u64 \<Rightarrow> byte) \<Rightarrow> u64 \<Rightarrow> byte) \<Rightarrow> routing list \<Rightarrow> nat \<Rightarrow> u64 \<Rightarrow> (u64 \<Rightarrow> byte)
     \<Rightarrow> dobby_error + (u64 \<Rightarrow> byte)" where
  "instrument_forward_handler callback routings entry ctx m =
     (if \<not> entry < length routings then Inl Wild
      else case routings ! entry of
             Inline _ \<Rightarrow> Inl Wild
           | Instrument routing \<Rightarrow>
               let m1 = (if rt_pre_handler routing \<noteq> 0
                         then callback (rt_pre_handler routing) (ie_patched_addr (rt_entry routing)) ctx m else m)
               in Inr (set_routing_bridge_next_hop ctx (ie_relocated_addr (rt_entry routing)) m1))"

definition instrument_routing_dispatch ::
  "(u64 \<Rightarrow> u64 \<Rightarrow> u64 \<Rightarrow> (u64 \<Rightarrow> byte) \<Rightarrow> u64 \<Rightarrow> byte) \<Rightarrow> routing list \<Rightarrow> nat \<Rightarrow> u64 \<Rightarrow> (u64 \<Rightarrow> byte)
     \<Rightarrow> dobby_error + (u64 \<Rightarrow> byte)" where
  "instrument_routing_dispatch callback routings entry ctx m = instrument_forward_handler callback routings entry ctx m"

definition common_closure_bridge_handler ::
  "(u64 \<Rightarrow> u64 \<Rightarrow> u64 \<Rightarrow> (u64 \<Rightarrow> byte) \<Rightarrow> u64 \<Rightarrow> byte) \<Rightarrow> ('o, 's) closures_scheme \<Rightarrow> u64 \<Rightarrow> u64 \<Rightarrow> (u64 \<Rightarrow> byte)
     \<Rightarrow> dobby_error + (u64 \<Rightarrow> byte)" where
  "common_closure_bridge_handler callback st ctx entry m =
     (case cl_entries st entry of
        None \<Rightarrow> Inl Wild
      | Some e \<Rightarrow>
          (case ce_carry_handler e of
             instrument_routing_dispatch_handler \<Rightarrow>
               instrument_routing_dispatch callback (db_routings st) (ce_carry_data e) ctx m))"

section \<open>Instrumenting\<close>

definition InstructionInstrumentRouting :: "intercept_entry \<Rightarrow> u64 \<Rightarrow> u64 \<Rightarrow> nat \<Rightarrow> instrument_routing" where
  "InstructionInstrumentRouting entry pre_handler post_handler this =
     \<lparr>rt_entry = entry\<lparr>ie_routing := this\<rparr>, rt_origin = None, rt_relocated = None, rt_trampoline = None,
      rt_trampoline_buffer = None, rt_trampoline_target = 0, rt_prologue_dispatch_bridge = 0,
      rt_pre_handler = pre_handler, rt_post_handler = post_handler\<rparr>"

text \<open>The closure carries the entry of the routing, which is named by the index \<open>ie_routing\<close>.\<close>

definition instrument_BuildRouting ::
  "'o kernel \<Rightarrow> ('o world \<Rightarrow> region list) \<Rightarrow> u64 \<Rightarrow> u64 \<Rightarrow> instrument_routing \<Rightarrow> ('o, 's) closures_scheme
     \<Rightarrow> dobby_error + (instrument_routing \<times> ('o, 's) closures_scheme)" where
  "instrument_BuildRouting K layout handler tramp_entry r st =
     ebind (CreateClosureTrampoline K handler tramp_entry (ie_routing (rt_entry r)) instrument_routing_dispatch_handler st)
       (\<lambda>(closure_trampoline, st1).
          let r1 = SetTrampolineTarget (ce_address closure_trampoline) r;
              src = ie_patched_addr (rt_entry r1);
              dst = rt_trampoline_target r1
          in GenerateTrampolineBuffer K layout src dst r1 st1)"

definition instrument_DispatchRouting ::
  "'o kernel \<Rightarrow> ('o world \<Rightarrow> region list) \<Rightarrow> u64 \<Rightarrow> u64 \<Rightarrow> instrument_routing \<Rightarrow> ('o, 's) closures_scheme
     \<Rightarrow> dobby_error + (instrument_routing \<times> ('o, 's) closures_scheme)" where
  "instrument_DispatchRouting K layout handler tramp_entry r st =
     ebind (instrument_BuildRouting K layout handler tramp_entry r st) (\<lambda>(r1, st1).
     ebind (GenerateRelocatedCode K r1 st1) (\<lambda>(_, r2, st2). Inr (r2, st2)))"

definition DobbyInstrument ::
  "'o kernel \<Rightarrow> ('o world \<Rightarrow> region list) \<Rightarrow> u64 \<Rightarrow> intercept_entry \<Rightarrow> u64 \<Rightarrow> u64 \<Rightarrow> u64 \<Rightarrow> ('o, 's) closures_scheme
     \<Rightarrow> dobby_error + (int \<times> ('o, 's) closures_scheme)" where
  "DobbyInstrument K layout handler raw tramp_entry address pre_handler st =
     (let (go, st1) = hook_guard K address st
      in if \<not> go then Inr (RS_FAILED, st1)
         else let entry = InterceptEntry_init raw (Interceptor_count (db_entries st1)) kInstructionInstrument address;
                  r = InstructionInstrumentRouting entry pre_handler 0 (length (db_routings st1))
              in ebind (instrument_DispatchRouting K layout handler tramp_entry r st1) (\<lambda>(r1, st2).
                 ebind (routing_Commit K r1 st2) (\<lambda>st3.
                   Inr (RS_SUCCESS,
                     st3\<lparr>db_entries := Interceptor_add (rt_entry r1) (db_entries st3),
                         db_routings := db_routings st3 @ [Instrument r1]\<rparr>))))"

end
