(* ===== verification/Stack_Frame.thy ===== *)
theory Stack_Frame
  imports Arm64_Binding
begin

text \<open>
  A frame of 64-bit slots on the stack, and running straight code that works on it. \<open>slot F j\<close> is the
  j-th slot above the base \<open>F\<close>; addresses are compared by their distance from the base, so that the
  frame may lie anywhere. \<open>straight\<close> collects the effect of a list of words that go on to the next one
  and write into the frame only; \<open>native_runs\<close> runs a machine in which some addresses are
  entered as compiled functions.
\<close>

unbundle bit_operations_syntax

section \<open>Slots\<close>

definition frame_addr :: "u64 \<Rightarrow> nat \<Rightarrow> u64" where
  "frame_addr F j = F + of_nat (8 * j)"

definition slot :: "u64 \<Rightarrow> nat \<Rightarrow> (u64 \<Rightarrow> byte) \<Rightarrow> u64" where
  "slot F j m = read64 m (frame_addr F j)"

definition put :: "u64 \<Rightarrow> nat \<Rightarrow> u64 \<Rightarrow> (u64 \<Rightarrow> byte) \<Rightarrow> u64 \<Rightarrow> byte" where
  "put F j v m = mem_write (frame_addr F j) (bytes64 v) m"

definition puts :: "u64 \<Rightarrow> (nat \<times> u64) list \<Rightarrow> (u64 \<Rightarrow> byte) \<Rightarrow> u64 \<Rightarrow> byte" where
  "puts F kvs m = fold (\<lambda>(j, v). put F j v) kvs m"

lemma puts_simps [simp]:
  "puts F [] m = m" "puts F ((j, v) # kvs) m = puts F kvs (put F j v m)"
  "puts F (kvs @ lvs) m = puts F lvs (puts F kvs m)"
  by (simp_all add: puts_def)

lemma frame_addr_add: "frame_addr (frame_addr F i) j = frame_addr F (i + j)"
  by (simp add: frame_addr_def algebra_simps)

lemma unat_of_nat_diff:
  assumes "p < 2 ^ 32" and "q < 2 ^ 32"
  shows "unat (of_nat q - of_nat p :: u64) = (if p \<le> q then q - p else 2 ^ 64 - (p - q))"
proof (cases "p \<le> q")
  case True
  then have e: "(of_nat q - of_nat p :: u64) = of_nat (q - p)" by (rule of_nat_diff [symmetric])
  have "unat (of_nat (q - p) :: u64) = q - p" using assms(2) by (simp only: unat_of_nat) simp
  with True show ?thesis unfolding e by simp
next
  case False
  then have e: "(of_nat q - of_nat p :: u64) = - of_nat (p - q)" by (simp add: of_nat_diff)
  have "(of_nat (2 ^ 64 - (p - q)) :: u64) = of_nat (2 ^ 64) - of_nat (p - q)" using assms(1) by (intro of_nat_diff) simp
  then have m: "- of_nat (p - q) = (of_nat (2 ^ 64 - (p - q)) :: u64)" by simp
  have "unat (of_nat (2 ^ 64 - (p - q)) :: u64) = 2 ^ 64 - (p - q)"
    using False by (simp only: unat_of_nat) simp
  then have "unat (- of_nat (p - q) :: u64) = 2 ^ 64 - (p - q)" unfolding m .
  then show ?thesis unfolding e using False by simp
qed

text \<open>A byte of the frame after a write into it.\<close>

lemma frame_byte:
  assumes "p + length bs < 2 ^ 32" and "q < 2 ^ 32"
  shows "mem_write (F + of_nat p) bs m (F + of_nat q) = (if p \<le> q \<and> q < p + length bs then bs ! (q - p) else m (F + of_nat q))"
proof -
  have "F + of_nat q - (F + of_nat p) = (of_nat q - of_nat p :: u64)" by simp
  then have u: "unat (F + of_nat q - (F + of_nat p)) = (if p \<le> q then q - p else 2 ^ 64 - (p - q))"
    using unat_of_nat_diff [of p q] assms by simp
  show ?thesis using assms unfolding mem_write_def u by auto
qed

lemma frame_read_same:
  assumes "p + length bs < 2 ^ 32"
  shows "mem_read (mem_write (F + of_nat p) bs m) (F + of_nat p) (length bs) = bs"
proof (intro nth_equalityI)
  fix i
  assume "i < length (mem_read (mem_write (F + of_nat p) bs m) (F + of_nat p) (length bs))"
  then have i: "i < length bs" by (simp add: mem_read_def)
  have "F + of_nat p + of_nat i = F + of_nat (p + i)" by simp
  then show "mem_read (mem_write (F + of_nat p) bs m) (F + of_nat p) (length bs) ! i = bs ! i"
    using i assms frame_byte [of p bs "p + i" F m] by (simp add: mem_read_def add.assoc)
qed (simp add: mem_read_def)

lemma frame_read_other:
  assumes "p + length bs < 2 ^ 32" and "q + n < 2 ^ 32" and "q + n \<le> p \<or> p + length bs \<le> q"
  shows "mem_read (mem_write (F + of_nat p) bs m) (F + of_nat q) n = mem_read m (F + of_nat q) n"
proof (intro nth_equalityI)
  fix i
  assume "i < length (mem_read (mem_write (F + of_nat p) bs m) (F + of_nat q) n)"
  then have i: "i < n" by (simp add: mem_read_def)
  have "F + of_nat q + of_nat i = F + of_nat (q + i)" by simp
  then show "mem_read (mem_write (F + of_nat p) bs m) (F + of_nat q) n ! i = mem_read m (F + of_nat q) n ! i"
    using i assms frame_byte [of p bs "q + i" F m] by (auto simp: mem_read_def add.assoc)
qed (simp add: mem_read_def)

lemma slot_put:
  assumes "j < 2 ^ 20" and "k < 2 ^ 20"
  shows "slot F j (put F k v m) = (if j = k then v else slot F j m)"
proof (cases "j = k")
  case True
  have "mem_read (put F k v m) (frame_addr F k) 8 = bytes64 v"
    using frame_read_same [of "8 * k" "bytes64 v" F m] assms by (simp add: put_def frame_addr_def)
  with True show ?thesis
    using word64_of_bytes64 [of v "[]"] by (simp add: slot_def read64_def)
next
  case False
  have "mem_read (put F k v m) (frame_addr F j) 8 = mem_read m (frame_addr F j) 8"
    unfolding put_def frame_addr_def by (rule frame_read_other) (use False assms in auto)
  with False show ?thesis by (simp add: slot_def read64_def)
qed

lemma slot_puts_other: "\<forall>(k, v) \<in> set kvs. k < 2 ^ 20 \<Longrightarrow> j < 2 ^ 20 \<Longrightarrow> j \<notin> fst ` set kvs \<Longrightarrow> slot F j (puts F kvs m) = slot F j m"
  by (induction kvs arbitrary: m) (auto simp: slot_put)

lemma slot_puts:
  assumes "distinct (map fst kvs)" and "\<forall>(k, v) \<in> set kvs. k < 2 ^ 20" and "(j, v) \<in> set kvs"
  shows "slot F j (puts F kvs m) = v"
  using assms
proof (induction kvs arbitrary: m)
  case (Cons kv kvs)
  obtain k u where kv: "kv = (k, u)" by force
  show ?case
  proof (cases "(j, v) \<in> set kvs")
    case True
    with Cons show ?thesis by (simp add: kv)
  next
    case False
    with Cons.prems have e: "j = k" "v = u" by (auto simp: kv)
    then have "slot F j (puts F kvs (put F k u m)) = slot F j (put F k u m)"
      using Cons.prems by (intro slot_puts_other) (auto simp: kv)
    with e Cons.prems show ?thesis by (simp add: kv slot_put)
  qed
qed simp

section \<open>Memory outside the frame\<close>

definition same_outside :: "u64 \<Rightarrow> nat \<Rightarrow> (u64 \<Rightarrow> byte) \<Rightarrow> (u64 \<Rightarrow> byte) \<Rightarrow> bool" where
  "same_outside F n m m' \<longleftrightarrow> (\<forall>x. n \<le> unat (x - F) \<longrightarrow> m' x = m x)"

lemma same_outside_refl [simp]: "same_outside F n m m"
  by (simp add: same_outside_def)

lemma same_outside_trans: "same_outside F n m m1 \<Longrightarrow> same_outside F n m1 m2 \<Longrightarrow> same_outside F n m m2"
  by (simp add: same_outside_def)

lemma same_outside_write:
  assumes "p + length bs \<le> n" and "n < 2 ^ 32"
  shows "same_outside F n m (mem_write (F + of_nat p) bs m)"
  unfolding same_outside_def
proof (intro allI impI)
  fix x :: u64
  assume x: "n \<le> unat (x - F)"
  have p: "unat (of_nat p :: u64) = p" using assms by (simp add: unat_of_nat)
  have e: "x - (F + of_nat p) = (x - F) - of_nat p" by simp
  have "unat ((x - F) - of_nat p) = unat (x - F) - unat (of_nat p :: u64)"
    using x assms p by (intro unat_sub) (simp add: word_le_nat_alt)
  then have "unat (x - (F + of_nat p)) = unat (x - F) - p" unfolding e p .
  then have "\<not> unat (x - (F + of_nat p)) < length bs" using x assms by linarith
  then show "mem_write (F + of_nat p) bs m x = m x" by (simp add: mem_write_def)
qed

lemma same_outside_put: "8 * j + 8 \<le> n \<Longrightarrow> n < 2 ^ 32 \<Longrightarrow> same_outside F n m (put F j v m)"
  unfolding put_def frame_addr_def by (rule same_outside_write) simp_all

lemma same_outside_puts:
  "\<forall>(j, v) \<in> set kvs. 8 * j + 8 \<le> n \<Longrightarrow> n < 2 ^ 32 \<Longrightarrow> same_outside F n m (puts F kvs m)"
proof (induction kvs arbitrary: m)
  case (Cons kv kvs)
  obtain j v where kv: "kv = (j, v)" by force
  have "same_outside F n m (put F j v m)" using Cons.prems by (intro same_outside_put) (auto simp: kv)
  moreover have "same_outside F n (put F j v m) (puts F kvs (put F j v m))" using Cons by simp
  ultimately show ?case unfolding kv puts_simps by (rule same_outside_trans)
qed simp

section \<open>Straight code\<close>

inductive straight :: "u64 \<Rightarrow> nat \<Rightarrow> u32 list \<Rightarrow> a64 \<Rightarrow> a64 \<Rightarrow> bool" for F n where
  straight_Nil: "straight F n [] s s"
| straight_Cons: "a64_exec w s = Some s1 \<Longrightarrow> pc s1 = pc s + 4 \<Longrightarrow> same_outside F n (mem s) (mem s1)
    \<Longrightarrow> straight F n ws s1 t \<Longrightarrow> straight F n (w # ws) s t"

inductive_cases straight_ConsE: "straight F n (w # ws) s t"
inductive_simps straight_Nil_iff [simp]: "straight F n [] s t"

lemma straight_append: "straight F n us s t \<Longrightarrow> straight F n ws t u \<Longrightarrow> straight F n (us @ ws) s u"
  by (induction rule: straight.induct) (auto intro: straight.intros)

lemma straight_one: "a64_exec w s = Some t \<Longrightarrow> pc t = pc s + 4 \<Longrightarrow> same_outside F n (mem s) (mem t) \<Longrightarrow> straight F n [w] s t"
  by (auto intro: straight.intros)

definition clear_of :: "u64 \<Rightarrow> nat \<Rightarrow> u64 \<Rightarrow> nat \<Rightarrow> bool" where
  "clear_of F n a len \<longleftrightarrow> (\<forall>i < len. n \<le> unat (a + of_nat i - F))"

lemma placed_same_outside:
  "placed code a m \<Longrightarrow> same_outside F n m m' \<Longrightarrow> clear_of F n a (length code) \<Longrightarrow> placed code a m'"
  by (simp add: placed_def same_outside_def clear_of_def)

section \<open>Runs through compiled functions\<close>

text \<open>\<open>native\<close> gives the effect of the compiled functions, up to their return, by their address.\<close>

inductive native_runs :: "(u64 \<Rightarrow> (a64 \<Rightarrow> a64) option) \<Rightarrow> a64 \<Rightarrow> a64 \<Rightarrow> bool" for native where
  native_refl: "native_runs native s s"
| native_step: "native (pc s) = None \<Longrightarrow> a64_step s = Some t \<Longrightarrow> native_runs native t u \<Longrightarrow> native_runs native s u"
| native_call: "native (pc s) = Some h \<Longrightarrow> native_runs native (h s) u \<Longrightarrow> native_runs native s u"

lemma native_runs_trans: "native_runs native s t \<Longrightarrow> native_runs native t u \<Longrightarrow> native_runs native s u"
  by (induction rule: native_runs.induct) (auto intro: native_runs.intros)

text \<open>A machine step, or a call, is determined by the state: two runs of one state agree until one ends.\<close>

lemma native_runs_linear:
  assumes "native_runs native s t" and "native_runs native s u"
  shows "native_runs native t u \<or> native_runs native u t"
  using assms
proof (induction rule: native_runs.induct)
  case (native_step s t u')
  from native_step.prems show ?case
  proof (cases rule: native_runs.cases)
    case native_refl
    then show ?thesis using native_step.hyps by (metis native_runs.native_step)
  qed (use native_step in auto)
next
  case (native_call s h u')
  from native_call.prems show ?case
  proof (cases rule: native_runs.cases)
    case native_refl
    then show ?thesis using native_call.hyps by (metis native_runs.native_call)
  qed (use native_call in auto)
qed simp

lemma native_straight:
  assumes "straight F n ws s t" and "words_at ws i code" and "placed code a (mem s)" and "pc s = a + of_nat i"
    and "clear_of F n a (length code)" and "\<forall>k < length code. native (a + of_nat k) = None"
  shows "native_runs native s t \<and> pc t = a + of_nat (i + 4 * length ws) \<and> same_outside F n (mem s) (mem t)"
  using assms(1-4)
proof (induction arbitrary: i rule: straight.induct)
  case (straight_Cons w s s1 ws t)
  have l: "load_cell 4 word32_of i code = Some w" and ws: "words_at ws (i + 4) code"
    using straight_Cons.prems(1) by (simp_all add: words_at_Cons)
  have i: "i < length code" using l by (simp add: load_cell_def split: if_splits)
  have step: "a64_step s = Some s1"
    using step_at [OF straight_Cons.prems(2) l straight_Cons.prems(3)] straight_Cons.hyps(1) by simp
  have "placed code a (mem s1)"
    using placed_same_outside [OF straight_Cons.prems(2) straight_Cons.hyps(3) assms(5)] .
  moreover have "pc s1 = a + of_nat (i + 4)" using straight_Cons.hyps(2) straight_Cons.prems(3) by (simp add: add.commute)
  ultimately have "native_runs native s1 t \<and> pc t = a + of_nat (i + 4 + 4 * length ws) \<and> same_outside F n (mem s1) (mem t)"
    using straight_Cons.IH [OF ws] by blast
  moreover have "native (pc s) = None" using i assms(6) straight_Cons.prems(3) by simp
  ultimately show ?case
    using step straight_Cons.hyps(3) by (auto intro: native_step same_outside_trans simp: add.assoc)
qed (auto intro: native_refl)

section \<open>The instructions of a frame\<close>

definition addsub_word :: "u32 \<Rightarrow> u32 \<Rightarrow> u32 \<Rightarrow> u32 \<Rightarrow> u32" where
  "addsub_word op d n imm = op OR push_bit 10 (take_bit 12 imm) OR push_bit 5 (take_bit 5 n) OR take_bit 5 d"

definition pair_word :: "u32 \<Rightarrow> u32 \<Rightarrow> u32 \<Rightarrow> u32 \<Rightarrow> u32" where
  "pair_word op k t2 t = op OR push_bit 15 (take_bit 7 k) OR push_bit 10 (take_bit 5 t2) OR take_bit 5 t"

definition ldst_word :: "u32 \<Rightarrow> u32 \<Rightarrow> u32 \<Rightarrow> u32" where
  "ldst_word op k t = op OR push_bit 10 (take_bit 12 k) OR take_bit 5 t"

lemma exec_add_imm:
  assumes "d < 32" and "n < 32" and "imm < 4096"
  shows "a64_exec (addsub_word 0x91000000 d n imm) s = Some (next_pc (wr_sp (unat d) (rd_sp s (unat n) + ucast imm) s))"
    "a64_exec (addsub_word 0xD1000000 d n imm) s = Some (next_pc (wr_sp (unat d) (rd_sp s (unat n) - ucast imm) s))"
proof -
  have t: "take_bit 5 d = d" "take_bit 5 n = n" "take_bit 12 imm = imm"
    using assms by (simp_all add: word_unat_eq_iff unsigned_take_bit_eq take_bit_nat_eq_self word_less_nat_alt)
  have f: "fld 28 23 (addsub_word op d n imm) = 0b100010" "fld 29 29 (addsub_word op d n imm) = 0"
    "fld 9 5 (addsub_word op d n imm) = take_bit 5 n" "fld 22 22 (addsub_word op d n imm) = 0"
    "fld 31 31 (addsub_word op d n imm) = 1" "fld 4 0 (addsub_word op d n imm) = take_bit 5 d"
    "fld 21 10 (addsub_word op d n imm) = take_bit 12 imm" if "op = 0x91000000 \<or> op = 0xD1000000" for op
    using that by (auto simp: addsub_word_def fld_simps)
  have g: "fld 30 30 (addsub_word 0x91000000 d n imm) = 0" "fld 30 30 (addsub_word 0xD1000000 d n imm) = 1"
    by (simp_all add: addsub_word_def fld_simps)
  show "a64_exec (addsub_word 0x91000000 d n imm) s = Some (next_pc (wr_sp (unat d) (rd_sp s (unat n) + ucast imm) s))"
    "a64_exec (addsub_word 0xD1000000 d n imm) s = Some (next_pc (wr_sp (unat d) (rd_sp s (unat n) - ucast imm) s))"
    by (simp_all add: exec_classes is_addsub_imm_def f g t ex_addsub_imm_def fldn_def)
qed

text \<open>Pairs: stores at an offset from the stack pointer, loads that move it on. The field is in slots.\<close>

lemma pair_fields:
  assumes "t < 32" and "t2 < 32" and "k < 64" and "op \<in> {0xA90003E0, 0xAD0003E0, 0xA8C003E0, 0xACC003E0}"
  shows "is_pair (pair_word op k t2 t)" "fld 31 30 (pair_word op k t2 t) = 2" "fldn 9 5 (pair_word op k t2 t) = 31"
    "fldn 4 0 (pair_word op k t2 t) = unat t" "fldn 14 10 (pair_word op k t2 t) = unat t2"
    "sfld 21 15 (pair_word op k t2 t) = ucast k"
    "fld 26 26 (pair_word op k t2 t) = (if op \<in> {0xAD0003E0, 0xACC003E0} then 1 else 0)"
    "fld 22 22 (pair_word op k t2 t) = (if op \<in> {0xA8C003E0, 0xACC003E0} then 1 else 0)"
    "fld 24 23 (pair_word op k t2 t) = (if op \<in> {0xA8C003E0, 0xACC003E0} then 1 else 2)"
proof -
  have t: "take_bit 5 t = t" "take_bit 5 t2 = t2"
    using assms by (simp_all add: take_bit_5)
  have k: "take_bit 7 k = k" "unat k < 64"
    using assms(3) by (simp_all add: word_unat_eq_iff unsigned_take_bit_eq take_bit_nat_eq_self word_less_nat_alt)
  have f: "fld 31 30 (pair_word op k t2 t) = 2" "fld 9 5 (pair_word op k t2 t) = 31"
    "fld 4 0 (pair_word op k t2 t) = take_bit 5 t" "fld 14 10 (pair_word op k t2 t) = take_bit 5 t2"
    "fld 21 15 (pair_word op k t2 t) = take_bit 7 k" "fld 29 27 (pair_word op k t2 t) = 5" "fld 25 25 (pair_word op k t2 t) = 0"
    "fld 26 26 (pair_word op k t2 t) = (if op \<in> {0xAD0003E0, 0xACC003E0} then 1 else 0)"
    "fld 22 22 (pair_word op k t2 t) = (if op \<in> {0xA8C003E0, 0xACC003E0} then 1 else 0)"
    "fld 24 23 (pair_word op k t2 t) = (if op \<in> {0xA8C003E0, 0xACC003E0} then 1 else 2)"
    using assms(4) by (auto simp: pair_word_def fld_simps)
  show "is_pair (pair_word op k t2 t)" by (simp add: is_pair_def f)
  have k6: "take_bit 6 k = k" using k(2) by (simp add: word_unat_eq_iff unsigned_take_bit_eq take_bit_nat_eq_self)
  have "signed_take_bit 6 (ucast (take_bit 6 k) :: u64) = ucast (take_bit 6 k)"
    by (rule bit_word_eqI) (auto simp: bit_simps min_def)
  then have "signed_take_bit 6 (ucast k :: u64) = ucast k" unfolding k6 .
  then show "sfld 21 15 (pair_word op k t2 t) = ucast k"
    by (simp add: sfld_def f k)
  show "fld 31 30 (pair_word op k t2 t) = 2" "fldn 9 5 (pair_word op k t2 t) = 31"
    "fldn 4 0 (pair_word op k t2 t) = unat t" "fldn 14 10 (pair_word op k t2 t) = unat t2"
    "fld 26 26 (pair_word op k t2 t) = (if op \<in> {0xAD0003E0, 0xACC003E0} then 1 else 0)"
    "fld 22 22 (pair_word op k t2 t) = (if op \<in> {0xA8C003E0, 0xACC003E0} then 1 else 0)"
    "fld 24 23 (pair_word op k t2 t) = (if op \<in> {0xA8C003E0, 0xACC003E0} then 1 else 2)"
    by (simp_all only: fldn_def f t) simp
qed

lemma frame_addr_push: "frame_addr F b + push_bit 3 (ucast k) = frame_addr F (b + unat (k :: u32))"
  "frame_addr F b + push_bit 4 (ucast k) = frame_addr F (b + 2 * unat k)"
proof -
  have u: "of_nat (unat k) = (ucast k :: u64)" by (rule of_nat_unat)
  show "frame_addr F b + push_bit 3 (ucast k) = frame_addr F (b + unat (k :: u32))"
    "frame_addr F b + push_bit 4 (ucast k) = frame_addr F (b + 2 * unat k)"
    by (simp_all only: frame_addr_def push_bit_eq_mult of_nat_add of_nat_mult u) (simp_all add: algebra_simps)
qed

lemma frame_addr_8: "frame_addr F b + 8 = frame_addr F (Suc b)" "frame_addr F b + 16 = frame_addr F (b + 2)"
  by (simp_all add: frame_addr_def algebra_simps)

definition lo64 :: "128 word \<Rightarrow> u64" where "lo64 v = ucast v"
definition hi64 :: "128 word \<Rightarrow> u64" where "hi64 v = ucast (drop_bit 64 v)"

definition slot_q :: "u64 \<Rightarrow> nat \<Rightarrow> (u64 \<Rightarrow> byte) \<Rightarrow> 128 word" where
  "slot_q F j m = ucast (slot F j m) OR push_bit 64 (ucast (slot F (Suc j) m))"

lemma read128_slot: "read128 m (frame_addr F j) = slot_q F j m"
  by (simp add: read128_def slot_q_def slot_def frame_addr_8)

lemma join_halves: "ucast (lo64 v) OR push_bit 64 (ucast (hi64 v)) = v"
  by (rule bit_word_eqI) (auto simp: lo64_def hi64_def bit_simps)

lemma write64_put: "write64 (frame_addr F j) v s = s\<lparr>mem := put F j v (mem s)\<rparr>"
  by (simp add: write64_def put_def)

lemma write128_puts: "write128 (frame_addr F j) v s = s\<lparr>mem := puts F [(j, lo64 v), (Suc j, hi64 v)] (mem s)\<rparr>"
  by (simp add: write128_def write64_put frame_addr_8 lo64_def hi64_def)

text \<open>The four forms, with the stack pointer at slot \<open>b\<close>.\<close>

lemma exec_stp_x:
  assumes "t < 31" and "t2 < 31" and "k < 64" and "spreg s = frame_addr F b"
  shows "a64_exec (pair_word 0xA90003E0 k t2 t) s = Some (next_pc (s\<lparr>mem :=
    puts F [(b + unat k, xreg s (unat t)), (Suc (b + unat k), xreg s (unat t2))] (mem s)\<rparr>))"
proof -
  have lt: "t < 32" "t2 < 32" using assms(1,2) by (auto simp: word_less_nat_alt)
  have n: "unat t \<noteq> 31" "unat t2 \<noteq> 31" using assms(1,2) by (auto simp: word_less_nat_alt)
  note f = pair_fields [OF lt assms(3), of "0xA90003E0", simplified]
  show ?thesis unfolding exec_classes(11) [OF f(1)] ex_pair_def Let_def f
    by (simp add: rd_sp_def rd_x_def n assms(4) frame_addr_push frame_addr_8 write64_put)
qed

lemma exec_stp_q:
  assumes "t < 32" and "t2 < 32" and "k < 64" and "spreg s = frame_addr F b"
  shows "a64_exec (pair_word 0xAD0003E0 k t2 t) s = Some (next_pc (s\<lparr>mem := puts F
    [(b + 2 * unat k, lo64 (vreg s (unat t))), (Suc (b + 2 * unat k), hi64 (vreg s (unat t))),
     (b + 2 * unat k + 2, lo64 (vreg s (unat t2))), (Suc (b + 2 * unat k + 2), hi64 (vreg s (unat t2)))] (mem s)\<rparr>))"
proof -
  note f = pair_fields [OF assms(1-3), of "0xAD0003E0", simplified]
  show ?thesis unfolding exec_classes(11) [OF f(1)] ex_pair_def Let_def f
    by (simp add: rd_sp_def assms(4) frame_addr_push frame_addr_8 write128_puts)
qed

lemma exec_ldp_x:
  assumes "t < 31" and "t2 < 31" and "t \<noteq> t2" and "k < 64" and "spreg s = frame_addr F b"
  shows "a64_exec (pair_word 0xA8C003E0 k t2 t) s = Some (next_pc (s\<lparr>xreg := (xreg s)(unat t := slot F b (mem s),
    unat t2 := slot F (Suc b) (mem s)), spreg := frame_addr F (b + unat k)\<rparr>))"
proof -
  have lt: "t < 32" "t2 < 32" using assms(1,2) by (auto simp: word_less_nat_alt)
  have n: "unat t \<noteq> 31" "unat t2 \<noteq> 31" using assms(1,2) by (auto simp: word_less_nat_alt)
  note f = pair_fields [OF lt assms(4), of "0xA8C003E0", simplified]
  show ?thesis unfolding exec_classes(11) [OF f(1)] ex_pair_def Let_def f
    using assms(3) by (simp add: rd_sp_def wr_sp_def wr_x_def n assms(5) word_unat_eq_iff frame_addr_push frame_addr_8 slot_def)
qed

lemma exec_ldp_q:
  assumes "t < 32" and "t2 < 32" and "t \<noteq> t2" and "k < 64" and "spreg s = frame_addr F b"
  shows "a64_exec (pair_word 0xACC003E0 k t2 t) s = Some (next_pc (s\<lparr>vreg := (vreg s)(unat t := slot_q F b (mem s),
    unat t2 := slot_q F (b + 2) (mem s)), spreg := frame_addr F (b + 2 * unat k)\<rparr>))"
proof -
  note f = pair_fields [OF assms(1,2,4), of "0xACC003E0", simplified]
  show ?thesis unfolding exec_classes(11) [OF f(1)] ex_pair_def Let_def f
    using assms(3) by (simp add: rd_sp_def wr_sp_def assms(5) word_unat_eq_iff frame_addr_push frame_addr_8 read128_slot)
qed

lemma ldst_fields:
  assumes "t < 32" and "k < 4096" and "op \<in> {0xF90003E0, 0xF94003E0}"
  shows "is_ldst_uimm (ldst_word op k t)" "fldn 9 5 (ldst_word op k t) = 31" "fldn 4 0 (ldst_word op k t) = unat t"
    "fld 21 10 (ldst_word op k t) = k" "fld 26 26 (ldst_word op k t) = 0" "fld 31 30 (ldst_word op k t) = 3"
    "fld 23 22 (ldst_word op k t) = (if op = 0xF94003E0 then 1 else 0)"
proof -
  have t: "take_bit 5 t = t" using assms by (simp add: take_bit_5)
  have k: "take_bit 12 k = k"
    using assms(2) by (simp add: word_unat_eq_iff unsigned_take_bit_eq take_bit_nat_eq_self word_less_nat_alt)
  have f: "fld 29 27 (ldst_word op k t) = 7" "fld 25 24 (ldst_word op k t) = 1" "fld 9 5 (ldst_word op k t) = 31"
    "fld 4 0 (ldst_word op k t) = take_bit 5 t" "fld 21 10 (ldst_word op k t) = take_bit 12 k" "fld 26 26 (ldst_word op k t) = 0"
    "fld 31 30 (ldst_word op k t) = 3" "fld 23 22 (ldst_word op k t) = (if op = 0xF94003E0 then 1 else 0)"
    using assms(3) by (auto simp: ldst_word_def fld_simps)
  show "is_ldst_uimm (ldst_word op k t)" by (simp add: is_ldst_uimm_def f)
  show "fldn 9 5 (ldst_word op k t) = 31" "fldn 4 0 (ldst_word op k t) = unat t" "fld 21 10 (ldst_word op k t) = k"
    "fld 26 26 (ldst_word op k t) = 0" "fld 31 30 (ldst_word op k t) = 3"
    "fld 23 22 (ldst_word op k t) = (if op = 0xF94003E0 then 1 else 0)"
    by (simp_all only: fldn_def f t k) simp
qed

lemma exec_str_sp:
  assumes "t < 31" and "k < 4096" and "spreg s = frame_addr F b"
  shows "a64_exec (ldst_word 0xF90003E0 k t) s = Some (next_pc (s\<lparr>mem := put F (b + unat k) (xreg s (unat t)) (mem s)\<rparr>))"
proof -
  have lt: "t < 32" and n: "unat t \<noteq> 31" using assms(1) by (auto simp: word_less_nat_alt)
  note f = ldst_fields [OF lt assms(2), of "0xF90003E0", simplified]
  show ?thesis unfolding exec_classes(6) [OF f(1)] ex_ldr_uimm_def Let_def f
    by (simp add: rd_sp_def rd_x_def n assms(3) frame_addr_push write64_put)
qed

lemma exec_ldr_sp:
  assumes "t < 31" and "k < 4096" and "spreg s = frame_addr F b"
  shows "a64_exec (ldst_word 0xF94003E0 k t) s = Some (next_pc (s\<lparr>xreg := (xreg s)(unat t := slot F (b + unat k) (mem s))\<rparr>))"
proof -
  have lt: "t < 32" and n: "unat t \<noteq> 31" using assms(1) by (auto simp: word_less_nat_alt)
  note f = ldst_fields [OF lt assms(2), of "0xF94003E0", simplified]
  show ?thesis unfolding exec_classes(6) [OF f(1)] ex_ldr_uimm_def Let_def f
    by (simp add: rd_sp_def wr_x_def n assms(3) frame_addr_push slot_def)
qed

lemma exec_ret: "a64_exec 0xD65F03C0 s = Some (jump (xreg s 30) s)"
  by (simp add: a64_exec_def class_defs fld_simps ex_breg_def fldn_def rd_x_def)

section \<open>What the assembler emits for them\<close>

lemma asm_pair_sp:
  assumes "op = load_store_pair_op p OR (if m = Offset then LoadStorePairOffsetFixed else LoadStorePairPostIndexFixed) OR 0x3E0"
    and "m \<noteq> PreIndex" and "reg_code r < 32" and "reg_code r2 < 32"
    and "sc = (if IsRegister r then 2 + unat (bit_at (bits (load_store_pair_op p) 30 31) 1)
               else if IsVRegister r then 2 + unat (bits (load_store_pair_op p) 30 31) else 2)"
  shows "asm_LoadStorePair p r r2 (MemOperand_imm SP_reg off m)
      = emits [pair_word op (ucast (signed_drop_bit sc off)) (reg_code r2) (reg_code r)]"
proof -
  have "Rn SP_reg = 0x3E0" by (simp add: Rn_def SP_reg_def X_reg_def LeftShift_eq opcode_defs)
  moreover have "Rt r = take_bit 5 (reg_code r)" "Rt2 r2 = push_bit 10 (take_bit 5 (reg_code r2))"
    using assms(3,4) by (simp_all add: Rt_def Rt2_def take_bit_5 opcode_defs)
  ultimately show ?thesis
    using assms(2) unfolding assms(1)
    by (cases m) (simp_all add: asm_LoadStorePair_def Let_def enc_LoadStorePair_def MemOperand_imm_def IsImmediateOffset_def
        IsPreIndex_def pair_word_def asm_Emit_emits(1) assms(5) LeftShift_eq or.assoc or.commute or.left_commute)
qed

lemma asm_pairs:
  assumes "t < 32" and "t2 < 32"
  shows "asm_stp (X_reg t) (X_reg t2) (MemOperand_imm SP_reg off Offset) a
      = Inr (emits [pair_word 0xA90003E0 (ucast (signed_drop_bit 3 off)) t2 t] a)"
    "asm_stp (Q_reg t) (Q_reg t2) (MemOperand_imm SP_reg off Offset) a
      = Inr (emits [pair_word 0xAD0003E0 (ucast (signed_drop_bit 4 off)) t2 t] a)"
    "asm_ldp (X_reg t) (X_reg t2) (MemOperand_imm SP_reg off PostIndex) a
      = Inr (emits [pair_word 0xA8C003E0 (ucast (signed_drop_bit 3 off)) t2 t] a)"
    "asm_ldp (Q_reg t) (Q_reg t2) (MemOperand_imm SP_reg off PostIndex) a
      = Inr (emits [pair_word 0xACC003E0 (ucast (signed_drop_bit 4 off)) t2 t] a)"
proof -
  have r: "IsRegister (X_reg c)" "\<not> IsRegister (Q_reg c)" "IsVRegister (Q_reg c)" "reg_code (X_reg c) = c" "reg_code (Q_reg c) = c" for c
    by (simp_all add: IsRegister_def IsVRegister_def X_reg_def Q_reg_def less_RegisterType_def)
  have t: "reg_type (X_reg c) = kRegister_64" "reg_type (Q_reg c) = kSIMD_FP_Register_128" for c
    by (simp_all add: X_reg_def Q_reg_def)
  have op: "0xA90003E0 = load_store_pair_op STP_x OR LoadStorePairOffsetFixed OR 0x3E0"
    "0xAD0003E0 = load_store_pair_op STP_q OR LoadStorePairOffsetFixed OR 0x3E0"
    "0xA8C003E0 = load_store_pair_op LDP_x OR LoadStorePairPostIndexFixed OR 0x3E0"
    "0xACC003E0 = load_store_pair_op LDP_q OR LoadStorePairPostIndexFixed OR 0x3E0"
    by (simp_all add: load_store_pair_op_def LoadStorePairOpSub_def LeftShift_eq opcode_defs)
  have sc: "bits (load_store_pair_op STP_x) 30 31 = 2" "bits (load_store_pair_op STP_q) 30 31 = 2"
    "bits (load_store_pair_op LDP_x) 30 31 = 2" "bits (load_store_pair_op LDP_q) 30 31 = 2" "bit_at (2 :: u32) 1 = 1"
    by (simp_all add: load_store_pair_op_def LoadStorePairOpSub_def LeftShift_eq opcode_defs bits_eq bit_at_def)
  show "asm_stp (X_reg t) (X_reg t2) (MemOperand_imm SP_reg off Offset) a
      = Inr (emits [pair_word 0xA90003E0 (ucast (signed_drop_bit 3 off)) t2 t] a)"
    unfolding asm_stp_def t using asm_pair_sp [of "0xA90003E0" STP_x Offset "X_reg t" "X_reg t2" 3 off] assms op r sc by simp
  show "asm_stp (Q_reg t) (Q_reg t2) (MemOperand_imm SP_reg off Offset) a
      = Inr (emits [pair_word 0xAD0003E0 (ucast (signed_drop_bit 4 off)) t2 t] a)"
    unfolding asm_stp_def t using asm_pair_sp [of "0xAD0003E0" STP_q Offset "Q_reg t" "Q_reg t2" 4 off] assms op r sc by simp
  show "asm_ldp (X_reg t) (X_reg t2) (MemOperand_imm SP_reg off PostIndex) a
      = Inr (emits [pair_word 0xA8C003E0 (ucast (signed_drop_bit 3 off)) t2 t] a)"
    unfolding asm_ldp_def t using asm_pair_sp [of "0xA8C003E0" LDP_x PostIndex "X_reg t" "X_reg t2" 3 off] assms op r sc by simp
  show "asm_ldp (Q_reg t) (Q_reg t2) (MemOperand_imm SP_reg off PostIndex) a
      = Inr (emits [pair_word 0xACC003E0 (ucast (signed_drop_bit 4 off)) t2 t] a)"
    unfolding asm_ldp_def t using asm_pair_sp [of "0xACC003E0" LDP_q PostIndex "Q_reg t" "Q_reg t2" 4 off] assms op r sc by simp
qed

lemma asm_ldst_sp:
  assumes "t < 32"
  shows "asm_str (X_reg t) (MemOperand_imm SP_reg off Offset) a = Inr (emits [ldst_word 0xF90003E0 (ucast (signed_drop_bit 3 off)) t] a)"
    "asm_ldr (X_reg t) (MemOperand_imm SP_reg off Offset) a = Inr (emits [ldst_word 0xF94003E0 (ucast (signed_drop_bit 3 off)) t] a)"
proof -
  have op: "LoadStoreUnsignedOffsetFixed OR load_store_op STR_x = 0xF9000000"
    "LoadStoreUnsignedOffsetFixed OR load_store_op LDR_x = 0xF9400000"
    by (simp_all add: word_defs load_store_op_def LoadStoreOpSub_def)
  have sc: "enc_scale 0xF9000000 = 3" "enc_scale 0xF9400000 = 3"
  proof -
    have a: "(0xF9000000 :: u32) AND LoadStoreUnsignedOffsetFixed = LoadStoreUnsignedOffsetFixed"
      "(0xF9400000 :: u32) AND LoadStoreUnsignedOffsetFixed = LoadStoreUnsignedOffsetFixed"
      by (simp_all add: LoadStoreUnsignedOffsetFixed_def)
    have b: "bits 0xF9000000 30 31 = (3 :: u32)" "bits 0xF9400000 30 31 = (3 :: u32)" by code_simp+
    show "enc_scale 0xF9000000 = 3" "enc_scale 0xF9400000 = 3" by (simp_all only: enc_scale_def a b) simp_all
  qed
  have rn: "Rn SP_reg = 0x3E0" by (simp add: Rn_def SP_reg_def X_reg_def LeftShift_eq opcode_defs)
  have rt: "Rt (X_reg t) = take_bit 5 t" using assms by (simp add: Rt_def X_reg_def take_bit_5 opcode_defs)
  have w: "(ucast (ucast (c :: u32) OR LeftShift v 12 10 OR ucast (d :: u32) OR ucast (e :: u32) :: u64) :: u32)
      = (c OR d) OR push_bit 10 (take_bit 12 (ucast v)) OR e" for c d e v
    by (rule bit_word_eqI) (auto simp: LeftShift_eq bit_simps)
  have "asm_LoadStore p (X_reg t) (MemOperand_imm SP_reg off Offset) a = Inr (emits [ldst_word (c OR 0x3E0) (ucast (signed_drop_bit 3 off)) t] a)"
    if "LoadStoreUnsignedOffsetFixed OR load_store_op p = c" "enc_scale c = 3" for p c
  proof -
    have "IsImmediateOffset (MemOperand_imm SP_reg off Offset)" "mo_offset (MemOperand_imm SP_reg off Offset) = off"
      "mo_base (MemOperand_imm SP_reg off Offset) = SP_reg"
      by (simp_all add: IsImmediateOffset_def MemOperand_imm_def)
    then show ?thesis unfolding asm_LoadStore_def Let_def that rn rt w ldst_word_def asm_Emit_emits(1) by (simp add: rn)
  qed
  from this [OF op(1) sc(1)] this [OF op(2) sc(2)]
  show "asm_str (X_reg t) (MemOperand_imm SP_reg off Offset) a = Inr (emits [ldst_word 0xF90003E0 (ucast (signed_drop_bit 3 off)) t] a)"
    "asm_ldr (X_reg t) (MemOperand_imm SP_reg off Offset) a = Inr (emits [ldst_word 0xF94003E0 (ucast (signed_drop_bit 3 off)) t] a)"
    unfolding asm_str_def asm_ldr_def by simp_all
qed

lemma asm_addsub_sp:
  assumes "d < 32" and "n < 32"
  shows "asm_add (X_reg d) (X_reg n) imm a = Inr (emits [addsub_word 0x91000000 d n (ucast imm)] a)"
    "asm_sub (X_reg d) (X_reg n) imm a = Inr (emits [addsub_word 0xD1000000 d n (ucast imm)] a)"
proof -
  have i: "ucast (LeftShift imm 12 10) = (push_bit 10 (take_bit 12 (ucast imm)) :: u32)"
    by (rule bit_word_eqI) (auto simp: LeftShift_eq bit_simps)
  have r: "Rd (X_reg d) = take_bit 5 d" "Rn (X_reg n) = push_bit 5 (take_bit 5 n)"
    using assms by (simp_all add: Rd_def Rn_def X_reg_def take_bit_5 opcode_defs)
  have op: "add_sub_imm ADD_x = 0x91000000" "add_sub_imm SUB_x = 0xD1000000"
    by (simp_all add: add_sub_imm_def word_defs)
  show "asm_add (X_reg d) (X_reg n) imm a = Inr (emits [addsub_word 0x91000000 d n (ucast imm)] a)"
    "asm_sub (X_reg d) (X_reg n) imm a = Inr (emits [addsub_word 0xD1000000 d n (ucast imm)] a)"
    by (simp_all add: asm_add_def asm_sub_def AddSubImmediate_def IsImmediate_def Operand_imm_def reg_Is_def Is64Bits_def
        X_reg_def InvalidRegister_def)
      (simp_all add: r [unfolded X_reg_def] i op addsub_word_def asm_Emit_emits or.assoc or.commute or.left_commute)
qed

end
