(* ===== verification/Bridge_Exec.thy ===== *)
theory Bridge_Exec
  imports Closure_Bridge Stack_Frame
begin

text \<open>
  What running the bridge does. The words of its parts are computed once; each part is straight
  code over the frame of 52 slots below the stack pointer of the interrupted code: slots 0 to 49
  are the register context, 50 is the entry, 51 the saved x30.
\<close>

unbundle bit_operations_syntax

section \<open>Words\<close>

lemma SP_reg_X: "SP_reg = X_reg 31" "TMP_REG_0 = X_reg 17"
  by (simp_all add: SP_reg_def TMP_REG_0_def)

lemmas emit_simps = MEM_def MEM_EXT_def SP_reg_X asm_pairs [unfolded SP_reg_X] asm_ldst_sp [unfolded SP_reg_X] asm_addsub_sp asm_Emit_emits

definition stp_x_word :: "u32 \<Rightarrow> u32" where "stp_x_word t = pair_word 0xA90003E0 (t - 1) (t + 1) t"
definition ldp_x_word :: "u32 \<Rightarrow> u32" where "ldp_x_word t = pair_word 0xA8C003E0 2 (t + 1) t"
definition stp_q_word :: "u32 \<Rightarrow> u32" where "stp_q_word t = pair_word 0xAD0003E0 t (t + 1) t"
definition ldp_q_word :: "u32 \<Rightarrow> u32" where "ldp_q_word t = pair_word 0xACC003E0 2 (t + 1) t"

lemma save_x_words:
  "asm_seq bridge_save_x a = Inr (emits (addsub_word 0xD1000000 31 31 240
     # map stp_x_word [29, 27, 25, 23, 21, 19, 17, 15, 13, 11, 9, 7, 5, 3, 1]) a)"
  by (simp add: bridge_save_x_def emit_simps stp_x_word_def)

lemma save_q_words:
  "asm_seq bridge_save_q a = Inr (emits (addsub_word 0xD1000000 31 31 128 # map stp_q_word [6, 4, 2, 0]) a)"
  by (simp add: bridge_save_q_def emit_simps stp_q_word_def)

lemma restore_x_words:
  "asm_seq bridge_restore_x a = Inr (emits (map ldp_x_word [1, 3, 5, 7, 9, 11, 13, 15, 17, 19, 21, 23, 25, 27, 29]) a)"
  by (simp add: bridge_restore_x_def emit_simps ldp_x_word_def)

lemma restore_q_words:
  "asm_seq bridge_restore_q a = Inr (emits (map ldp_q_word [0, 2, 4, 6]) a)"
  by (simp add: bridge_restore_q_def emit_simps ldp_q_word_def)

definition frame_words :: "u32 list" where
  "frame_words =
     [addsub_word 0xD1000000 31 31 16, ldst_word 0xF90003E0 1 0, addsub_word 0x91000000 17 31 16,
      addsub_word 0x91000000 17 17 384, addsub_word 0xD1000000 31 31 16, ldst_word 0xF90003E0 1 17,
      addsub_word 0x91000000 0 31 0, ldst_word 0xF94003E0 50 1]"

lemma frame_words: "asm_seq bridge_frame a = Inr (emits frame_words a)"
  by (simp add: bridge_frame_def emit_simps frame_words_def asm_mov_def reg_Is_def REGISTER_CONTEXT_SIZE_def)

definition unframe_words :: "u32 list" where
  "unframe_words = [addsub_word 0x91000000 31 31 16, ldst_word 0xF94003E0 1 0, addsub_word 0x91000000 31 31 16]"

lemma unframe_words: "asm_seq bridge_restore_frame a = Inr (emits unframe_words a)"
  by (simp add: bridge_restore_frame_def emit_simps unframe_words_def)

section \<open>Saving\<close>

definition kv_x :: "nat \<Rightarrow> (nat \<Rightarrow> u64) \<Rightarrow> nat list \<Rightarrow> (nat \<times> u64) list" where
  "kv_x c x is = concat (map (\<lambda>i. [(c + i, x i), (c + Suc i, x (Suc i))]) is)"

definition kv_q :: "nat \<Rightarrow> (nat \<Rightarrow> 128 word) \<Rightarrow> nat list \<Rightarrow> (nat \<times> u64) list" where
  "kv_q b v is = concat (map (\<lambda>i. [(b + 2 * i, lo64 (v i)), (Suc (b + 2 * i), hi64 (v i)),
     (b + 2 * i + 2, lo64 (v (Suc i))), (Suc (b + 2 * i + 2), hi64 (v (Suc i)))]) is)"

lemma kv_Cons: "kv_x c x (i # is) = [(c + i, x i), (c + Suc i, x (Suc i))] @ kv_x c x is" "kv_x c x [] = []"
  "kv_q b v (i # is) = [(b + 2 * i, lo64 (v i)), (Suc (b + 2 * i), hi64 (v i)),
     (b + 2 * i + 2, lo64 (v (Suc i))), (Suc (b + 2 * i + 2), hi64 (v (Suc i)))] @ kv_q b v is" "kv_q b v [] = []"
  by (simp_all add: kv_x_def kv_q_def)

lemma unat_small:
  assumes "i < 2 ^ 16"
  shows "unat (of_nat i :: u32) = i" and "unat (of_nat i + 1 :: u32) = Suc i" and "1 \<le> i \<Longrightarrow> unat (of_nat i - 1 :: u32) = i - 1"
proof -
  have n: "unat (of_nat j :: u32) = j" if "j < 2 ^ 32" for j using that by (simp add: unat_of_nat)
  show "unat (of_nat i :: u32) = i" by (rule n) (use assms in simp)
  have "(of_nat i + 1 :: u32) = of_nat (Suc i)" by simp
  then show "unat (of_nat i + 1 :: u32) = Suc i" using n [of "Suc i"] assms by (simp add: add.commute)
  assume "1 \<le> i"
  then have "(of_nat i - 1 :: u32) = of_nat (i - 1)" by (simp add: of_nat_diff)
  then show "unat (of_nat i - 1 :: u32) = i - 1" using n [of "i - 1"] assms by simp
qed

lemma step_stp_x:
  assumes "1 \<le> i" and "i \<le> 29" and "spreg s = frame_addr F (Suc c)"
  shows "a64_exec (stp_x_word (of_nat i)) s =
    Some (next_pc (s\<lparr>mem := puts F [(c + i, xreg s i), (c + Suc i, xreg s (Suc i))] (mem s)\<rparr>))"
proof -
  have u: "unat (of_nat i :: u32) = i" "unat (of_nat i + 1 :: u32) = Suc i" "unat (of_nat i - 1 :: u32) = i - 1"
    using unat_small [of i] assms(1,2) by simp_all
  have b: "(of_nat i :: u32) < 31" "(of_nat i + 1 :: u32) < 31" "(of_nat i - 1 :: u32) < 64"
    using assms(1,2) by (simp_all add: word_less_nat_alt u)
  have i: "Suc c + (i - 1) = c + i" using assms(1) by simp
  show ?thesis using exec_stp_x [OF b assms(3)] unfolding stp_x_word_def u i by simp
qed

lemma straight_stp_x:
  assumes "\<forall>i \<in> set is. 1 \<le> i \<and> i \<le> 29 \<and> 8 * (c + Suc i) + 8 \<le> n" and "n < 2 ^ 32" and "spreg s = frame_addr F (Suc c)"
  shows "straight F n (map (\<lambda>i. stp_x_word (of_nat i)) is) s
    (s\<lparr>mem := puts F (kv_x c (xreg s) is) (mem s), pc := pc s + of_nat (4 * length is)\<rparr>)"
  using assms(1,3)
proof (induction "is" arbitrary: s)
  case (Cons i "is")
  define s1 where "s1 = next_pc (s\<lparr>mem := puts F [(c + i, xreg s i), (c + Suc i, xreg s (Suc i))] (mem s)\<rparr>)"
  have e: "a64_exec (stp_x_word (of_nat i)) s = Some s1"
    unfolding s1_def by (rule step_stp_x) (use Cons.prems in auto)
  have o: "same_outside F n (mem s) (mem s1)"
    unfolding s1_def next_pc_simps using Cons.prems(1) assms(2)
    by (simp del: puts_simps) (rule same_outside_puts; auto)
  have "straight F n (map (\<lambda>i. stp_x_word (of_nat i)) is) s1
    (s1\<lparr>mem := puts F (kv_x c (xreg s1) is) (mem s1), pc := pc s1 + of_nat (4 * length is)\<rparr>)"
    using Cons.prems by (intro Cons.IH) (auto simp: s1_def next_pc_def)
  moreover have "s1\<lparr>mem := puts F (kv_x c (xreg s1) is) (mem s1), pc := pc s1 + of_nat (4 * length is)\<rparr>
      = s\<lparr>mem := puts F (kv_x c (xreg s) (i # is)) (mem s), pc := pc s + of_nat (4 * length (i # is))\<rparr>"
    by (simp add: s1_def next_pc_def kv_Cons)
  moreover have "pc s1 = pc s + 4" by (simp add: s1_def)
  ultimately show ?case using straight_Cons [OF e _ o] by simp
qed (simp add: kv_Cons)

lemma step_stp_q:
  assumes "i \<le> 30" and "spreg s = frame_addr F b"
  shows "a64_exec (stp_q_word (of_nat i)) s = Some (next_pc (s\<lparr>mem := puts F
    [(b + 2 * i, lo64 (vreg s i)), (Suc (b + 2 * i), hi64 (vreg s i)),
     (b + 2 * i + 2, lo64 (vreg s (Suc i))), (Suc (b + 2 * i + 2), hi64 (vreg s (Suc i)))] (mem s)\<rparr>))"
proof -
  have u: "unat (of_nat i :: u32) = i" "unat (of_nat i + 1 :: u32) = Suc i"
    using unat_small [of i] assms(1) by simp_all
  have b: "(of_nat i :: u32) < 32" "(of_nat i + 1 :: u32) < 32" "(of_nat i :: u32) < 64"
    using assms(1) by (simp_all add: word_less_nat_alt u)
  show ?thesis using exec_stp_q [OF b assms(2)] unfolding stp_q_word_def u by simp
qed

lemma straight_stp_q:
  assumes "\<forall>i \<in> set is. i \<le> 30 \<and> 8 * (b + 2 * i + 3) + 8 \<le> n" and "n < 2 ^ 32" and "spreg s = frame_addr F b"
  shows "straight F n (map (\<lambda>i. stp_q_word (of_nat i)) is) s
    (s\<lparr>mem := puts F (kv_q b (vreg s) is) (mem s), pc := pc s + of_nat (4 * length is)\<rparr>)"
  using assms(1,3)
proof (induction "is" arbitrary: s)
  case (Cons i "is")
  define s1 where "s1 = next_pc (s\<lparr>mem := puts F
    [(b + 2 * i, lo64 (vreg s i)), (Suc (b + 2 * i), hi64 (vreg s i)),
     (b + 2 * i + 2, lo64 (vreg s (Suc i))), (Suc (b + 2 * i + 2), hi64 (vreg s (Suc i)))] (mem s)\<rparr>)"
  have e: "a64_exec (stp_q_word (of_nat i)) s = Some s1"
    unfolding s1_def by (rule step_stp_q) (use Cons.prems in auto)
  have o: "same_outside F n (mem s) (mem s1)"
    unfolding s1_def next_pc_simps using Cons.prems(1) assms(2)
    by (simp del: puts_simps) (rule same_outside_puts; auto)
  have "straight F n (map (\<lambda>i. stp_q_word (of_nat i)) is) s1
    (s1\<lparr>mem := puts F (kv_q b (vreg s1) is) (mem s1), pc := pc s1 + of_nat (4 * length is)\<rparr>)"
    using Cons.prems by (intro Cons.IH) (auto simp: s1_def next_pc_def)
  moreover have "s1\<lparr>mem := puts F (kv_q b (vreg s1) is) (mem s1), pc := pc s1 + of_nat (4 * length is)\<rparr>
      = s\<lparr>mem := puts F (kv_q b (vreg s) (i # is)) (mem s), pc := pc s + of_nat (4 * length (i # is))\<rparr>"
    by (simp add: s1_def next_pc_def kv_Cons)
  moreover have "pc s1 = pc s + 4" by (simp add: s1_def)
  ultimately show ?case using straight_Cons [OF e _ o] by simp
qed (simp add: kv_Cons)

section \<open>Restoring\<close>

lemma straight_ldp_x:
  assumes "m \<le> 15" and "spreg s = frame_addr F 4"
  shows "straight F n (map (\<lambda>k. ldp_x_word (of_nat (2 * k + 1))) [0..<m]) s
    (s\<lparr>xreg := (\<lambda>i. if 1 \<le> i \<and> i \<le> 2 * m then slot F (3 + i) (mem s) else xreg s i),
       spreg := frame_addr F (4 + 2 * m), pc := pc s + of_nat (4 * m)\<rparr>)"
  using assms(1)
proof (induction m)
  case 0
  have "(\<lambda>i. if 1 \<le> i \<and> i \<le> 2 * 0 then slot F (3 + i) (mem s) else xreg s i) = xreg s" by auto
  then show ?case using assms(2) by simp
next
  case (Suc m)
  define s1 where "s1 = s\<lparr>xreg := (\<lambda>i. if 1 \<le> i \<and> i \<le> 2 * m then slot F (3 + i) (mem s) else xreg s i),
       spreg := frame_addr F (4 + 2 * m), pc := pc s + of_nat (4 * m)\<rparr>"
  let ?t = "of_nat (2 * m + 1) :: u32"
  have u: "unat ?t = 2 * m + 1" "unat (?t + 1) = 2 * m + 2"
    using unat_small [of "2 * m + 1"] Suc.prems by simp_all
  have b: "?t < 31" "?t + 1 < 31" "?t \<noteq> ?t + 1" "(2 :: u32) < 64"
    using Suc.prems u by (simp_all add: word_less_nat_alt del: of_nat_add of_nat_mult)
  have sp: "spreg s1 = frame_addr F (4 + 2 * m)" by (simp add: s1_def)
  have e: "a64_exec (ldp_x_word ?t) s1 = Some (next_pc (s1\<lparr>xreg := (xreg s1)(2 * m + 1 := slot F (4 + 2 * m) (mem s1),
      2 * m + 2 := slot F (Suc (4 + 2 * m)) (mem s1)), spreg := frame_addr F (4 + 2 * m + 2)\<rparr>))"
    using exec_ldp_x [OF b sp] unfolding ldp_x_word_def u by simp
  have x: "(xreg s1)(2 * m + 1 := slot F (4 + 2 * m) (mem s1), 2 * m + 2 := slot F (Suc (4 + 2 * m)) (mem s1))
      = (\<lambda>i. if 1 \<le> i \<and> i \<le> 2 * Suc m then slot F (3 + i) (mem s) else xreg s i)"
    by (rule ext) (auto simp: s1_def le_Suc_eq)
  have t: "next_pc (s1\<lparr>xreg := (xreg s1)(2 * m + 1 := slot F (4 + 2 * m) (mem s1),
      2 * m + 2 := slot F (Suc (4 + 2 * m)) (mem s1)), spreg := frame_addr F (4 + 2 * m + 2)\<rparr>)
    = s\<lparr>xreg := (\<lambda>i. if 1 \<le> i \<and> i \<le> 2 * Suc m then slot F (3 + i) (mem s) else xreg s i),
       spreg := frame_addr F (4 + 2 * Suc m), pc := pc s + of_nat (4 * Suc m)\<rparr>"
    unfolding x by (simp add: next_pc_def s1_def)
  have "straight F n [ldp_x_word ?t] s1 (s\<lparr>xreg := (\<lambda>i. if 1 \<le> i \<and> i \<le> 2 * Suc m then slot F (3 + i) (mem s) else xreg s i),
       spreg := frame_addr F (4 + 2 * Suc m), pc := pc s + of_nat (4 * Suc m)\<rparr>)"
    by (rule straight_one [OF e [unfolded t]]) (simp_all add: s1_def)
  then show ?case using straight_append Suc by (fastforce simp: s1_def)
qed

lemma straight_ldp_q:
  assumes "m \<le> 4" and "spreg s = frame_addr F 34"
  shows "straight F n (map (\<lambda>k. ldp_q_word (of_nat (2 * k))) [0..<m]) s
    (s\<lparr>vreg := (\<lambda>i. if i < 2 * m then slot_q F (34 + 2 * i) (mem s) else vreg s i),
       spreg := frame_addr F (34 + 4 * m), pc := pc s + of_nat (4 * m)\<rparr>)"
  using assms(1)
proof (induction m)
  case 0
  then show ?case using assms(2) by simp
next
  case (Suc m)
  define s1 where "s1 = s\<lparr>vreg := (\<lambda>i. if i < 2 * m then slot_q F (34 + 2 * i) (mem s) else vreg s i),
       spreg := frame_addr F (34 + 4 * m), pc := pc s + of_nat (4 * m)\<rparr>"
  let ?t = "of_nat (2 * m) :: u32"
  have u: "unat ?t = 2 * m" "unat (?t + 1) = 2 * m + 1"
    using unat_small [of "2 * m"] Suc.prems by simp_all
  have b: "?t < 32" "?t + 1 < 32" "?t \<noteq> ?t + 1" "(2 :: u32) < 64"
    using Suc.prems u by (simp_all add: word_less_nat_alt del: of_nat_add of_nat_mult)
  have sp: "spreg s1 = frame_addr F (34 + 4 * m)" by (simp add: s1_def)
  have e: "a64_exec (ldp_q_word ?t) s1 = Some (next_pc (s1\<lparr>vreg := (vreg s1)(2 * m := slot_q F (34 + 4 * m) (mem s1),
      2 * m + 1 := slot_q F (34 + 4 * m + 2) (mem s1)), spreg := frame_addr F (34 + 4 * m + 4)\<rparr>))"
    using exec_ldp_q [OF b sp] unfolding ldp_q_word_def u by simp
  have x: "(vreg s1)(2 * m := slot_q F (34 + 4 * m) (mem s1), 2 * m + 1 := slot_q F (34 + 4 * m + 2) (mem s1))
      = (\<lambda>i. if i < 2 * Suc m then slot_q F (34 + 2 * i) (mem s) else vreg s i)"
    by (rule ext) (auto simp: s1_def less_Suc_eq)
  have t: "next_pc (s1\<lparr>vreg := (vreg s1)(2 * m := slot_q F (34 + 4 * m) (mem s1),
      2 * m + 1 := slot_q F (34 + 4 * m + 2) (mem s1)), spreg := frame_addr F (34 + 4 * m + 4)\<rparr>)
    = s\<lparr>vreg := (\<lambda>i. if i < 2 * Suc m then slot_q F (34 + 2 * i) (mem s) else vreg s i),
       spreg := frame_addr F (34 + 4 * Suc m), pc := pc s + of_nat (4 * Suc m)\<rparr>"
    unfolding x by (simp add: next_pc_def s1_def)
  have "straight F n [ldp_q_word ?t] s1 (s\<lparr>vreg := (\<lambda>i. if i < 2 * Suc m then slot_q F (34 + 2 * i) (mem s) else vreg s i),
       spreg := frame_addr F (34 + 4 * Suc m), pc := pc s + of_nat (4 * Suc m)\<rparr>)"
    by (rule straight_one [OF e [unfolded t]]) (simp_all add: s1_def)
  then show ?case using straight_append Suc by (fastforce simp: s1_def)
qed

section \<open>The whole bridge\<close>

definition bridge_enter_words :: "u64 \<Rightarrow> u32 list" where
  "bridge_enter_words handler =
     (addsub_word 0xD1000000 31 31 128 # map (\<lambda>i. stp_q_word (of_nat i)) [6, 4, 2, 0])
     @ (addsub_word 0xD1000000 31 31 240
        # map (\<lambda>i. stp_x_word (of_nat i)) [29, 27, 25, 23, 21, 19, 17, 15, 13, 11, 9, 7, 5, 3, 1])
     @ frame_words @ mov_words 17 handler"

definition bridge_leave_words :: "u32 list" where
  "bridge_leave_words =
     unframe_words @ map (\<lambda>k. ldp_x_word (of_nat (2 * k + 1))) [0..<15] @ map (\<lambda>k. ldp_q_word (of_nat (2 * k))) [0..<4]"

definition bridge_words :: "u64 \<Rightarrow> u32 list" where
  "bridge_words handler = bridge_enter_words handler @ [0xD63F0220] @ bridge_leave_words @ [0xD65F03C0]"

lemma upt_lists: "[0..<15] = [0, 1, 2, 3, 4, 5, 6, 7, 8, 9, 10, 11, 12, 13, 14]" "[0..<4] = [0, 1, 2, 3]"
  by (simp_all add: upt_rec)

lemma bridge_emitted: "asm_seq (closure_bridge_code handler) a = Inr (emits (bridge_words handler) a)"
proof -
  have c: "asm_seq (bridge_call handler) b = Inr (emits (mov_words 17 handler @ [0xD63F0220]) b)" for b
    by (simp add: bridge_call_def asm_CallFunction_def asm_blr_def blr17 [unfolded SP_reg_X] SP_reg_X(2) asm_Mov_X asm_Emit_emits(1))
      (simp add: emits_def)
  have r: "asm_seq [\<lambda>a. Inr (asm_ret a)] b = Inr (emits [0xD65F03C0] b)" for b
    by (simp add: asm_ret_def asm_Emit_emits)
  show ?thesis
    unfolding closure_bridge_code_def asm_seq_append save_q_words save_x_words frame_words c unframe_words restore_x_words
      restore_q_words r bridge_words_def bridge_enter_words_def bridge_leave_words_def upt_lists
    by (simp add: asm_Emit_emits)
qed

text \<open>What the frame holds when the handler is called.\<close>

definition saved_context :: "u64 \<Rightarrow> a64 \<Rightarrow> (nat \<times> u64) list" where
  "saved_context F s =
     kv_q 34 (vreg s) [6, 4, 2, 0] @ kv_x 3 (xreg s) [29, 27, 25, 23, 21, 19, 17, 15, 13, 11, 9, 7, 5, 3, 1]
     @ [(3, xreg s 0), (1, frame_addr F 52)]"

lemma saved_distinct: "distinct (map fst (saved_context F s))"
  by (simp add: saved_context_def kv_Cons)

lemma saved_bounds: "\<forall>(j, v) \<in> set (saved_context F s). j < 50 \<and> 1 \<le> j \<and> j \<noteq> 2"
  by (simp add: saved_context_def kv_Cons)

lemma saved_x: "i \<le> 30 \<Longrightarrow> (3 + i, xreg s i) \<in> set (saved_context F s)"
proof -
  have "\<forall>i \<in> set [0, 1, 2, 3, 4, 5, 6, 7, 8, 9, 10, 11, 12, 13, 14, 15, 16, 17, 18, 19, 20, 21, 22, 23, 24, 25, 26, 27, 28, 29, 30].
      (3 + i, xreg s i) \<in> set (saved_context F s)"
    by (simp add: saved_context_def kv_Cons flip: numeral_2_eq_2)
  moreover have "set [0, 1, 2, 3, 4, 5, 6, 7, 8, 9, 10, 11, 12, 13, 14, 15, 16, 17, 18, 19, 20, 21, 22, 23, 24, 25, 26, 27, 28, 29, 30]
      = {..30 :: nat}"
    by code_simp
  ultimately show "i \<le> 30 \<Longrightarrow> (3 + i, xreg s i) \<in> set (saved_context F s)" by blast
qed

lemma saved_q:
  assumes "i < 8"
  shows "(34 + 2 * i, lo64 (vreg s i)) \<in> set (saved_context F s)" and "(35 + 2 * i, hi64 (vreg s i)) \<in> set (saved_context F s)"
proof -
  have "\<forall>i \<in> set [0, 1, 2, 3, 4, 5, 6, 7]. (34 + 2 * i, lo64 (vreg s i)) \<in> set (saved_context F s)
      \<and> (35 + 2 * i, hi64 (vreg s i)) \<in> set (saved_context F s)"
    by (simp add: saved_context_def kv_Cons)
  moreover have "i \<in> set [0, 1, 2, 3, 4, 5, 6, 7]" using assms by (simp add: less_Suc_eq numeral_eq_Suc)
  ultimately show "(34 + 2 * i, lo64 (vreg s i)) \<in> set (saved_context F s)" "(35 + 2 * i, hi64 (vreg s i)) \<in> set (saved_context F s)"
    by blast+
qed

lemma slots_saved:
  shows "i \<le> 30 \<Longrightarrow> slot F (3 + i) (puts F (saved_context F s) m) = xreg s i"
    and "i < 8 \<Longrightarrow> slot_q F (34 + 2 * i) (puts F (saved_context F s) m) = vreg s i"
    and "slot F 1 (puts F (saved_context F s) m) = frame_addr F 52"
    and "50 \<le> j \<Longrightarrow> j < 2 ^ 20 \<Longrightarrow> slot F j (puts F (saved_context F s) m) = slot F j m"
proof -
  have b: "\<forall>(j, v) \<in> set (saved_context F s). j < 2 ^ 20" using saved_bounds [of F s] by auto
  note get = slot_puts [OF saved_distinct b]
  show "slot F (3 + i) (puts F (saved_context F s) m) = xreg s i" if "i \<le> 30" by (rule get [OF saved_x [OF that]])
  show "slot_q F (34 + 2 * i) (puts F (saved_context F s) m) = vreg s i" if "i < 8"
    using get [OF saved_q(1) [OF that]] get [OF saved_q(2) [OF that]] by (simp add: slot_q_def join_halves)
  show "slot F 1 (puts F (saved_context F s) m) = frame_addr F 52" by (rule get) (simp add: saved_context_def)
  show "slot F j (puts F (saved_context F s) m) = slot F j m" if "50 \<le> j" "j < 2 ^ 20"
    using saved_bounds [of F s] that b by (intro slot_puts_other) auto
qed

section \<open>Running it\<close>

lemma frame_addr_simps:
  "frame_addr F 50 - 128 = frame_addr F 34" "frame_addr F 34 - 240 = frame_addr F 4" "frame_addr F 4 - 16 = frame_addr F 2"
  "frame_addr F 2 + 16 = frame_addr F 4" "frame_addr F 4 + 384 = frame_addr F 52" "frame_addr F 2 - 16 = frame_addr F 0"
  "frame_addr F 0 + 16 = frame_addr F 2" "frame_addr F 0 = F" "frame_addr F 52 - 16 = frame_addr F 50"
  "frame_addr F 50 + 16 = frame_addr F 52"
  by (simp_all add: frame_addr_def)

lemma straight_addsub:
  assumes "d < 32" and "n < 32" and "imm < 4096"
  shows "straight F N [addsub_word 0x91000000 d n imm] s (next_pc (wr_sp (unat d) (rd_sp s (unat n) + ucast imm) s))"
    "straight F N [addsub_word 0xD1000000 d n imm] s (next_pc (wr_sp (unat d) (rd_sp s (unat n) - ucast imm) s))"
  by (rule straight_one [OF exec_add_imm(1) [OF assms]]; simp add: wr_sp_def)
    (rule straight_one [OF exec_add_imm(2) [OF assms]]; simp add: wr_sp_def)

lemma straight_str:
  assumes "t < 31" and "k < 4096" and "spreg s = frame_addr F b" and "8 * (b + unat k) + 8 \<le> N" and "N < 2 ^ 32"
  shows "straight F N [ldst_word 0xF90003E0 k t] s (next_pc (s\<lparr>mem := put F (b + unat k) (xreg s (unat t)) (mem s)\<rparr>))"
  by (rule straight_one [OF exec_str_sp [OF assms(1-3)]]) (simp_all add: same_outside_put [OF assms(4,5)])

lemma straight_ldr:
  assumes "t < 31" and "k < 4096" and "spreg s = frame_addr F b"
  shows "straight F N [ldst_word 0xF94003E0 k t] s (next_pc (s\<lparr>xreg := (xreg s)(unat t := slot F (b + unat k) (mem s))\<rparr>))"
  by (rule straight_one [OF exec_ldr_sp [OF assms]]) simp_all

lemma straight_Cons_append: "straight F N [w] s t \<Longrightarrow> straight F N ws t u \<Longrightarrow> straight F N (w # ws) s u"
  using straight_append [of F N "[w]" s t ws u] by simp

lemma straight_frame:
  assumes "spreg s = frame_addr F 4"
  shows "\<exists>t. straight F 416 frame_words s t \<and> t = s\<lparr>mem := puts F [(3, xreg s 0), (1, frame_addr F 52)] (mem s),
    xreg := (xreg s)(17 := frame_addr F 52, 0 := F, 1 := slot F 50 (mem s)), spreg := F, pc := pc s + 32\<rparr>"
proof -
  define s1 where "s1 = s\<lparr>spreg := frame_addr F 2, pc := pc s + 4\<rparr>"
  define s2 where "s2 = s1\<lparr>mem := put F 3 (xreg s 0) (mem s), pc := pc s1 + 4\<rparr>"
  define s3 where "s3 = s2\<lparr>xreg := (xreg s)(17 := frame_addr F 4), pc := pc s2 + 4\<rparr>"
  define s4 where "s4 = s3\<lparr>xreg := (xreg s)(17 := frame_addr F 52), pc := pc s3 + 4\<rparr>"
  define s5 where "s5 = s4\<lparr>spreg := F, pc := pc s4 + 4\<rparr>"
  define s6 where "s6 = s5\<lparr>mem := puts F [(3, xreg s 0), (1, frame_addr F 52)] (mem s), pc := pc s5 + 4\<rparr>"
  define s7 where "s7 = s6\<lparr>xreg := (xreg s)(17 := frame_addr F 52, 0 := F), pc := pc s6 + 4\<rparr>"
  define s8 where "s8 = s7\<lparr>xreg := (xreg s)(17 := frame_addr F 52, 0 := F, 1 := slot F 50 (mem s)), pc := pc s7 + 4\<rparr>"
  note d = s1_def s2_def s3_def s4_def s5_def s6_def s7_def s8_def
  note w = next_pc_def wr_sp_def rd_sp_def
  have F0: "F = frame_addr F 0" by (simp add: frame_addr_simps)
  have "straight F 416 [addsub_word 0xD1000000 31 31 16] s s1"
    using straight_addsub(2) [of 31 31 16 F 416 s] assms by (simp add: s1_def w frame_addr_simps)
  moreover have "straight F 416 [ldst_word 0xF90003E0 1 0] s1 s2"
    using straight_str [of 0 1 s1 F 2 416] by (simp add: s1_def s2_def w)
  moreover have "straight F 416 [addsub_word 0x91000000 17 31 16] s2 s3"
    using straight_addsub(1) [of 17 31 16 F 416 s2] by (simp add: s1_def s2_def s3_def w frame_addr_simps)
  moreover have "straight F 416 [addsub_word 0x91000000 17 17 384] s3 s4"
    using straight_addsub(1) [of 17 17 384 F 416 s3] by (simp add: s1_def s2_def s3_def s4_def w frame_addr_simps)
  moreover have "straight F 416 [addsub_word 0xD1000000 31 31 16] s4 s5"
    using straight_addsub(2) [of 31 31 16 F 416 s4]
    by (simp add: s1_def s2_def s3_def s4_def s5_def w frame_addr_simps(1-7) flip: F0)
  moreover have "straight F 416 [ldst_word 0xF90003E0 1 17] s5 s6"
    using straight_str [of 17 1 s5 F 0 416] by (simp add: d w frame_addr_simps(8))
  moreover have "straight F 416 [addsub_word 0x91000000 0 31 0] s6 s7"
    using straight_addsub(1) [of 0 31 0 F 416 s6] by (simp add: d w)
  moreover have "straight F 416 [ldst_word 0xF94003E0 50 1] s7 s8"
    using straight_ldr [of 1 50 s7 F 0 416] by (simp add: d w frame_addr_simps(8) slot_put)
  ultimately have "straight F 416 frame_words s s8"
    unfolding frame_words_def by (blast intro: straight_Cons_append)
  then show ?thesis by (intro exI [of _ s8]) (simp add: d)
qed

lemma straight_mov17:
  "straight F N (mov_words 17 v) s (s\<lparr>xreg := (xreg s)(17 := v), pc := pc s + 16\<rparr>)"
proof -
  have c: "(17 :: u32) < 32" "(0 :: u32) < 4" "(1 :: u32) < 4" "(2 :: u32) < 4" "(3 :: u32) < 4" "unat (17 :: u32) = 17"
    by (simp_all add: word_less_nat_alt)
  have ne: "MOVK \<noteq> MOVZ" by (simp add: opcode_defs)
  have z: "straight F N [movewide_word MOVZ 0 h 17] s (next_pc (s\<lparr>xreg := (xreg s)(17 := push_bit 0 (ucast h))\<rparr>))" for h s
    by (rule straight_one) (simp_all add: exec_movewide [OF disjI1 [OF HOL.refl] c(1,2)] wr_x_def)
  have k: "straight F N [movewide_word MOVK hw h 17] s (next_pc (s\<lparr>xreg := (xreg s)(17 := keep_half (unat hw) h (xreg s 17))\<rparr>))"
    if "hw < 4" for hw h s
    by (rule straight_one) (simp_all add: exec_movewide [OF disjI2 [OF HOL.refl] c(1) that] wr_x_def rd_x_def keep_half_def ne)
  have v: "keep_half (unat (3 :: u32)) (ucast (drop_bit 48 v)) (keep_half (unat (2 :: u32)) (ucast (drop_bit 32 v))
      (keep_half (unat (1 :: u32)) (ucast (drop_bit 16 v)) (push_bit 0 (ucast (ucast v :: u16))))) = v"
    using mov_value [of v] by (simp add: keep_half_def)
  let ?s = "\<lambda>u a. s\<lparr>xreg := (xreg s)(17 := u), pc := a\<rparr>"
  define v1 where "v1 = (push_bit 0 (ucast (ucast v :: u16)) :: u64)"
  define v2 where "v2 = keep_half (unat (1 :: u32)) (ucast (drop_bit 16 v)) v1"
  define v3 where "v3 = keep_half (unat (2 :: u32)) (ucast (drop_bit 32 v)) v2"
  have "straight F N [movewide_word MOVZ 0 (ucast v) 17] s (?s v1 (pc s + 4))" using z [of "ucast v" s] by (simp add: next_pc_def v1_def)
  moreover have "straight F N [movewide_word MOVK 1 (ucast (drop_bit 16 v)) 17] (?s v1 (pc s + 4)) (?s v2 (pc s + 4 + 4))"
    using k [OF c(3), of "ucast (drop_bit 16 v)" "?s v1 (pc s + 4)"] by (simp add: next_pc_def v2_def)
  moreover have "straight F N [movewide_word MOVK 2 (ucast (drop_bit 32 v)) 17] (?s v2 (pc s + 4 + 4)) (?s v3 (pc s + 4 + 4 + 4))"
    using k [OF c(4), of "ucast (drop_bit 32 v)" "?s v2 (pc s + 4 + 4)"] by (simp add: next_pc_def v3_def)
  moreover have "straight F N [movewide_word MOVK 3 (ucast (drop_bit 48 v)) 17] (?s v3 (pc s + 4 + 4 + 4)) (?s v (pc s + 4 + 4 + 4 + 4))"
    using k [OF c(5), of "ucast (drop_bit 48 v)" "?s v3 (pc s + 4 + 4 + 4)"] v by (simp add: next_pc_def v1_def v2_def v3_def)
  ultimately have "straight F N (mov_words 17 v) s (?s v (pc s + 4 + 4 + 4 + 4))"
    unfolding mov_words_def by (blast intro: straight_Cons_append)
  moreover have "pc s + 4 + 4 + 4 + 4 = pc s + 16" by (simp add: add.commute)
  ultimately show ?thesis by (simp only:)
qed

lemma kv_slot:
  "slot F 50 (puts F (kv_x 3 x [29, 27, 25, 23, 21, 19, 17, 15, 13, 11, 9, 7, 5, 3, 1]) (puts F (kv_q 34 v [6, 4, 2, 0]) m)) = slot F 50 m"
proof -
  have "slot F 50 (puts F (kv_x 3 x [29, 27, 25, 23, 21, 19, 17, 15, 13, 11, 9, 7, 5, 3, 1]) m') = slot F 50 m'" for m'
    by (rule slot_puts_other) (simp_all add: kv_Cons)
  moreover have "slot F 50 (puts F (kv_q 34 v [6, 4, 2, 0]) m) = slot F 50 m"
    by (rule slot_puts_other) (simp_all add: kv_Cons)
  ultimately show ?thesis by simp
qed

lemma upd_order: "(f(17 := u, 0 := a, 1 := b))(17 := c) = f(17 := c, 0 := a, (1 :: nat) := b)"
  by (rule ext) simp

lemma straight_enter:
  assumes "spreg s = frame_addr F 50"
  shows "straight F 416 (bridge_enter_words handler) s (s\<lparr>mem := puts F (saved_context F s) (mem s),
    xreg := (xreg s)(17 := handler, 0 := F, 1 := slot F 50 (mem s)), spreg := F, pc := pc s + 132\<rparr>)"
proof -
  define s1 where "s1 = s\<lparr>spreg := frame_addr F 34, pc := pc s + 4\<rparr>"
  define s2 where "s2 = s1\<lparr>mem := puts F (kv_q 34 (vreg s) [6, 4, 2, 0]) (mem s), pc := pc s1 + 16\<rparr>"
  define s3 where "s3 = s2\<lparr>spreg := frame_addr F 4, pc := pc s2 + 4\<rparr>"
  define s4 where "s4 = s3\<lparr>mem := puts F (kv_q 34 (vreg s) [6, 4, 2, 0]
      @ kv_x 3 (xreg s) [29, 27, 25, 23, 21, 19, 17, 15, 13, 11, 9, 7, 5, 3, 1]) (mem s), pc := pc s3 + 60\<rparr>"
  define s5 where "s5 = s4\<lparr>mem := puts F (saved_context F s) (mem s),
    xreg := (xreg s)(17 := frame_addr F 52, 0 := F, 1 := slot F 50 (mem s)), spreg := F, pc := pc s4 + 32\<rparr>"
  note w = next_pc_def wr_sp_def rd_sp_def
  have a1: "straight F 416 [addsub_word 0xD1000000 31 31 128] s s1"
    using straight_addsub(2) [of 31 31 128 F 416 s] assms by (simp add: s1_def w frame_addr_simps)
  have a2: "straight F 416 (map (\<lambda>i. stp_q_word (of_nat i)) [6, 4, 2, 0]) s1 s2"
    using straight_stp_q [of "[6, 4, 2, 0]" 34 416 s1 F] by (simp add: s1_def s2_def)
  have a3: "straight F 416 [addsub_word 0xD1000000 31 31 240] s2 s3"
    using straight_addsub(2) [of 31 31 240 F 416 s2] by (simp add: s1_def s2_def s3_def w frame_addr_simps)
  have a4: "straight F 416 (map (\<lambda>i. stp_x_word (of_nat i)) [29, 27, 25, 23, 21, 19, 17, 15, 13, 11, 9, 7, 5, 3, 1]) s3 s4"
    using straight_stp_x [of "[29, 27, 25, 23, 21, 19, 17, 15, 13, 11, 9, 7, 5, 3, 1]" 3 416 s3 F]
    by (simp add: s1_def s2_def s3_def s4_def)
  have a5: "straight F 416 frame_words s4 s5"
  proof -
    have "spreg s4 = frame_addr F 4" by (simp add: s4_def s3_def)
    from straight_frame [OF this] show ?thesis by (simp add: s4_def s3_def s2_def s1_def s5_def saved_context_def kv_slot del: One_nat_def)
  qed
  have a6: "straight F 416 (mov_words 17 handler) s5 (s\<lparr>mem := puts F (saved_context F s) (mem s),
    xreg := (xreg s)(17 := handler, 0 := F, 1 := slot F 50 (mem s)), spreg := F, pc := pc s5 + 16\<rparr>)"
  proof -
    have x: "xreg s5 = (xreg s)(17 := frame_addr F 52, 0 := F, 1 := slot F 50 (mem s))" by (simp add: s5_def)
    have "s5\<lparr>xreg := (xreg s5)(17 := handler), pc := pc s5 + 16\<rparr> = s\<lparr>mem := puts F (saved_context F s) (mem s),
        xreg := (xreg s)(17 := handler, 0 := F, 1 := slot F 50 (mem s)), spreg := F, pc := pc s5 + 16\<rparr>"
      unfolding x upd_order by (rule a64.equality) (simp_all add: s1_def s2_def s3_def s4_def s5_def)
    then show ?thesis using straight_mov17 [of F 416 handler s5] by simp
  qed
  have "pc s5 + 16 = pc s + 132" by (simp add: s1_def s2_def s3_def s4_def s5_def)
  then show ?thesis
    using straight_append [OF straight_Cons_append [OF a1 a2] straight_append [OF straight_Cons_append [OF a3 a4]
        straight_append [OF a5 a6]]]
    unfolding bridge_enter_words_def \<open>pc s5 + 16 = pc s + 132\<close> by (simp only: append_Cons)
qed

lemma straight_unframe:
  assumes "spreg s = F"
  shows "straight F 416 unframe_words s (s\<lparr>xreg := (xreg s)(0 := slot F 3 (mem s)), spreg := frame_addr F 4, pc := pc s + 12\<rparr>)"
proof -
  define s1 where "s1 = s\<lparr>spreg := frame_addr F 2, pc := pc s + 4\<rparr>"
  define s2 where "s2 = s1\<lparr>xreg := (xreg s)(0 := slot F 3 (mem s)), pc := pc s1 + 4\<rparr>"
  define s3 where "s3 = s2\<lparr>spreg := frame_addr F 4, pc := pc s2 + 4\<rparr>"
  note w = next_pc_def wr_sp_def rd_sp_def
  have F0: "F + 16 = frame_addr F 2" by (simp add: frame_addr_def)
  have "straight F 416 [addsub_word 0x91000000 31 31 16] s s1"
    using straight_addsub(1) [of 31 31 16 F 416 s] assms by (simp add: s1_def w F0)
  moreover have "straight F 416 [ldst_word 0xF94003E0 1 0] s1 s2"
    using straight_ldr [of 0 1 s1 F 2 416] by (simp add: s1_def s2_def w)
  moreover have "straight F 416 [addsub_word 0x91000000 31 31 16] s2 s3"
    using straight_addsub(1) [of 31 31 16 F 416 s2] by (simp add: s1_def s2_def s3_def w frame_addr_simps)
  moreover have "s3 = s\<lparr>xreg := (xreg s)(0 := slot F 3 (mem s)), spreg := frame_addr F 4, pc := pc s + 12\<rparr>"
    by (simp add: s1_def s2_def s3_def)
  ultimately show ?thesis
    unfolding unframe_words_def by (blast intro: straight_Cons_append)
qed

text \<open>The registers read back from the context: all x registers but the stack pointer, and q0 to q7.\<close>

definition restored :: "u64 \<Rightarrow> a64 \<Rightarrow> a64" where
  "restored F s = s\<lparr>xreg := (\<lambda>i. if i \<le> 30 then slot F (3 + i) (mem s) else xreg s i),
     vreg := (\<lambda>i. if i < 8 then slot_q F (34 + 2 * i) (mem s) else vreg s i), spreg := frame_addr F 50\<rparr>"

lemma straight_leave:
  assumes "spreg s = F"
  shows "straight F 416 bridge_leave_words s ((restored F s)\<lparr>pc := pc s + 88\<rparr>)"
proof -
  define s1 where "s1 = s\<lparr>xreg := (xreg s)(0 := slot F 3 (mem s)), spreg := frame_addr F 4, pc := pc s + 12\<rparr>"
  define s2 where "s2 = s1\<lparr>xreg := (\<lambda>i. if 1 \<le> i \<and> i \<le> 2 * 15 then slot F (3 + i) (mem s1) else xreg s1 i),
       spreg := frame_addr F (4 + 2 * 15), pc := pc s1 + of_nat (4 * 15)\<rparr>"
  define s3 where "s3 = s2\<lparr>vreg := (\<lambda>i. if i < 2 * 4 then slot_q F (34 + 2 * i) (mem s2) else vreg s2 i),
       spreg := frame_addr F (34 + 4 * 4), pc := pc s2 + of_nat (4 * 4)\<rparr>"
  have a: "straight F 416 unframe_words s s1" unfolding s1_def by (rule straight_unframe [OF assms])
  have b: "straight F 416 (map (\<lambda>k. ldp_x_word (of_nat (2 * k + 1))) [0..<15]) s1 s2"
    unfolding s2_def by (rule straight_ldp_x) (simp_all add: s1_def)
  have c: "straight F 416 (map (\<lambda>k. ldp_q_word (of_nat (2 * k))) [0..<4]) s2 s3"
    unfolding s3_def by (rule straight_ldp_q) (simp_all add: s2_def)
  have x: "(\<lambda>i. if 1 \<le> i \<and> i \<le> 2 * 15 then slot F (3 + i) (mem s1) else xreg s1 i)
      = (\<lambda>i. if i \<le> 30 then slot F (3 + i) (mem s) else xreg s i)"
  proof (rule ext)
    fix i :: nat
    show "(if 1 \<le> i \<and> i \<le> 2 * 15 then slot F (3 + i) (mem s1) else xreg s1 i)
      = (if i \<le> 30 then slot F (3 + i) (mem s) else xreg s i)"
      by (cases "i = 0") (auto simp: s1_def)
  qed
  have m: "mem s2 = mem s" "vreg s2 = vreg s" by (simp_all add: s2_def s1_def)
  have "s3 = (restored F s)\<lparr>pc := pc s + 88\<rparr>"
    unfolding s3_def m unfolding s2_def x restored_def by (rule a64.equality) (simp_all add: s1_def)
  then show ?thesis
    using straight_append [OF a straight_append [OF b c]] unfolding bridge_leave_words_def by (simp only:)
qed

end
