(* ===== verification/Closure_Run.thy ===== *)
theory Closure_Run
  imports Bridge_Exec
begin

text \<open>
  Running a closure trampoline together with the bridge: from the entry of the trampoline to the
  call of the handler, and from its return to the next hop.
\<close>

unbundle bit_operations_syntax

section \<open>The code of a closure trampoline\<close>

definition closure_ldr :: u32 where "closure_ldr = encode_imm19_offset ldr17 28"

definition closure_words :: "u32 list" where
  "closure_words =
     [addsub_word 0xD1000000 31 31 16, ldst_word 0xF90003E0 1 30, closure_ldr, ldst_word 0xF90003E0 0 17, closure_ldr,
      0xD63F0220, ldst_word 0xF94003E0 1 30, addsub_word 0x91000000 31 31 16, 0xD61F0220]"

definition closure_code :: "u64 \<Rightarrow> u64 \<Rightarrow> code_buffer" where
  "closure_code entry bridge = concat (map bytes32 closure_words) @ bytes64 entry @ bytes64 bridge"

lemma length_closure_code [simp]: "length (closure_code entry bridge) = 52"
  by (simp add: closure_code_def closure_words_def)

lemma PseudoBind_ref:
  assumes "l < length (labels a)" and "labels a ! l = link_to kLabelImm19 0 off lb" and "lb_refs lb = []"
    and "off + 4 \<le> length (asm_buffer a)"
  shows "PseudoBind l a = Inr (a\<lparr>asm_buffer := patch off (link_word off (asm_buffer a)) (asm_buffer a),
    labels := (labels a)[l := bind_to (of_nat (length (asm_buffer a))) (labels a ! l)]\<rparr>)"
  using assms
  by (simp add: PseudoBind_def link_to_def bind_to_def GetBufferSize_def has_confused_instructions_def link_instruction_def
      LoadInst_def RewriteInst_def load_cell_def store_patch link_word_def Let_def)

lemma asm_Ldr_label17:
  assumes "l < length (labels a)" and "lb_relocated_pos (labels a ! l) = 0"
  shows "asm_Ldr_label TMP_REG_0 l a = Inr (emits [ldr17] (a\<lparr>labels := (labels a)[l := link_to kLabelImm19 0 (length (asm_buffer a)) (labels a ! l)]\<rparr>))"
  using assms by (simp add: asm_Ldr_label_def asm_ldr17 pc_offset_def GetBufferSize_def asm_Emit_emits)

definition two_labels :: "code_buffer \<Rightarrow> reloc_label \<Rightarrow> reloc_label \<Rightarrow> assembler" where
  "two_labels buf l0 l1 = \<lparr>realized_addr = 0, asm_buffer = buf, labels = [l0, l1], data_labels = []\<rparr>"

lemma two_labels_start:
  "with_labels [new_pseudo_label, new_pseudo_label] (new_assembler 0) = two_labels [] new_pseudo_label new_pseudo_label"
  by (simp add: with_labels_def new_assembler_def two_labels_def)

lemma two_labels_steps:
  "emits ws (two_labels buf l0 l1) = two_labels (buf @ concat (map bytes32 ws)) l0 l1"
  "asm_Ldr_label TMP_REG_0 0 (two_labels buf new_pseudo_label l1)
     = Inr (two_labels (buf @ bytes32 ldr17) (link_to kLabelImm19 0 (length buf) new_pseudo_label) l1)"
  "asm_Ldr_label TMP_REG_0 1 (two_labels buf l0 new_pseudo_label)
     = Inr (two_labels (buf @ bytes32 ldr17) l0 (link_to kLabelImm19 0 (length buf) new_pseudo_label))"
  by (simp_all add: emits_def two_labels_def asm_Ldr_label17 new_pseudo_label_def)

lemma closure_emitted:
  "\<exists>a1 a2 a3. asm_seq closure_trampoline_code (with_labels [new_pseudo_label, new_pseudo_label] (new_assembler 0)) = Inr a1
    \<and> PseudoBind entry_label a1 = Inr a2 \<and> PseudoBind forward_bridge_label (asm_EmitInt64 entry a2) = Inr a3
    \<and> (\<forall>bridge. asm_buffer (asm_EmitInt64 bridge a3) = closure_code entry bridge) \<and> realized_addr a3 = 0"
proof -
  let ?l = "\<lambda>off. link_to kLabelImm19 0 off new_pseudo_label"
  let ?ws = "[addsub_word 0xD1000000 31 31 16, ldst_word 0xF90003E0 1 30, ldr17, ldst_word 0xF90003E0 0 17, ldr17,
      0xD63F0220, ldst_word 0xF94003E0 1 30, addsub_word 0x91000000 31 31 16, 0xD61F0220]"
  define b where "b = concat (map bytes32 ?ws)"
  define a1 where "a1 = two_labels b (?l 8) (?l 16)"
  have seq: "asm_seq closure_trampoline_code (with_labels [new_pseudo_label, new_pseudo_label] (new_assembler 0)) = Inr a1"
    unfolding two_labels_start closure_trampoline_code_def
    by (simp add: two_labels_steps emit_simps asm_blr_def blr17 [unfolded SP_reg_X] asm_br_def br17 [unfolded SP_reg_X]
        two_labels_steps [unfolded SP_reg_X One_nat_def] a1_def b_def)
  have len: "length b = 36" by (simp add: b_def)
  define b2 where "b2 = patch 8 (link_word 8 b) b @ bytes64 entry"
  have b1: "PseudoBind 0 a1 = Inr (two_labels (patch 8 (link_word 8 b) b) (bind_to 36 (?l 8)) (?l 16))"
    using PseudoBind_ref [of 0 a1 8 new_pseudo_label] by (simp add: a1_def two_labels_def len new_pseudo_label_def)
  have e1: "asm_EmitInt64 entry (two_labels (patch 8 (link_word 8 b) b) (bind_to 36 (?l 8)) (?l 16))
      = two_labels b2 (bind_to 36 (?l 8)) (?l 16)"
    by (simp add: asm_EmitInt64_def two_labels_def Emit64_def EmitBuffer_def b2_def)
  have len2: "length b2 = 44" by (simp add: b2_def len)
  have c1: "PseudoBind 1 (two_labels b2 (bind_to 36 (?l 8)) (?l 16))
      = Inr (two_labels (patch 16 (link_word 16 b2) b2) (bind_to 36 (?l 8)) (bind_to 44 (?l 16)))"
    using PseudoBind_ref [of 1 "two_labels b2 (bind_to 36 (?l 8)) (?l 16)" 16 new_pseudo_label]
    by (simp add: two_labels_def len2 new_pseudo_label_def)
  have "patch 16 (link_word 16 b2) b2 @ bytes64 bridge = closure_code entry bridge" for bridge
  proof -
    have l8: "link_word 8 b = closure_ldr"
      using word32_of_bytes32 [of ldr17 "[]"] by (simp add: link_word_def len closure_ldr_def) (simp add: b_def)
    have b2: "b2 = concat (map bytes32 [addsub_word 0xD1000000 31 31 16, ldst_word 0xF90003E0 1 30, closure_ldr,
        ldst_word 0xF90003E0 0 17, ldr17, 0xD63F0220, ldst_word 0xF94003E0 1 30, addsub_word 0x91000000 31 31 16, 0xD61F0220])
        @ bytes64 entry"
      unfolding b2_def l8 by (simp add: patch_def b_def)
    have l16: "link_word 16 b2 = closure_ldr"
      using word32_of_bytes32 [of ldr17 "[]"] by (simp add: link_word_def len2 closure_ldr_def) (simp add: b2)
    show ?thesis unfolding l16 by (simp add: patch_def b2 closure_code_def closure_words_def)
  qed
  then have "asm_buffer (asm_EmitInt64 bridge (two_labels (patch 16 (link_word 16 b2) b2) (bind_to 36 (?l 8)) (bind_to 44 (?l 16))))
      = closure_code entry bridge" for bridge
    by (simp add: asm_EmitInt64_def two_labels_def Emit64_def EmitBuffer_def)
  then show ?thesis using seq b1 c1 unfolding e1 [symmetric] by (fastforce simp: two_labels_def)
qed

section \<open>Runs\<close>

text \<open>Code in memory that no write into the frame changes and no compiled function is entered at.\<close>

definition ready :: "(u64 \<Rightarrow> (a64 \<Rightarrow> a64) option) \<Rightarrow> u64 \<Rightarrow> code_buffer \<Rightarrow> u64 \<Rightarrow> (u64 \<Rightarrow> byte) \<Rightarrow> bool" where
  "ready native F code a m \<longleftrightarrow> placed code a m \<and> clear_of F 416 a (length code)
     \<and> (\<forall>k < length code. native (a + of_nat k) = None)"

lemma ready_same: "ready native F code a m \<Longrightarrow> same_outside F 416 m m' \<Longrightarrow> ready native F code a m'"
  by (auto simp: ready_def intro: placed_same_outside)

lemma straight_outside: "straight F n ws s t \<Longrightarrow> same_outside F n (mem s) (mem t)"
  by (induction rule: straight.induct) (auto intro: same_outside_trans)

lemma ready_straight:
  assumes "straight F 416 ws s t" and "words_at ws i code" and "ready native F code a (mem s)" and "pc s = a + of_nat i"
  shows "native_runs native s t" and "pc t = a + of_nat (i + 4 * length ws)" and "ready native F code a (mem t)"
  using native_straight [OF assms(1,2), of a native] assms(3,4) ready_same [OF assms(3) straight_outside [OF assms(1)]]
  by (simp_all add: ready_def)

lemma ready_step:
  assumes "ready native F code a (mem s)" and "words_at [w] i code" and "pc s = a + of_nat i" and "a64_exec w s = Some t"
  shows "native_runs native s t"
proof -
  have l: "load_cell 4 word32_of i code = Some w" using assms(2) by (simp add: words_at_Cons)
  then have "i < length code" by (simp add: load_cell_def split: if_splits)
  moreover have "a64_step s = Some t" using step_at [of code a s i w] assms l by (simp add: ready_def)
  ultimately show ?thesis using assms(1,3) by (auto simp: ready_def intro: native_step native_refl)
qed

lemma closure_layout:
  "words_at closure_words 0 (closure_code entry bridge)"
  "load_cell 8 word64_of 36 (closure_code entry bridge) = Some entry"
  "load_cell 8 word64_of 44 (closure_code entry bridge) = Some bridge"
proof -
  let ?w = "concat (map bytes32 closure_words)"
  have len: "length ?w = 36" "length closure_words = 9" by (simp_all add: closure_words_def)
  show "words_at closure_words 0 (closure_code entry bridge)"
    using words_at_emitted [of closure_words "[]" "bytes64 entry @ bytes64 bridge"] by (simp add: closure_code_def)
  show "load_cell 8 word64_of 36 (closure_code entry bridge) = Some entry"
    using cell64.load_emitted [of ?w entry "bytes64 bridge"] by (simp only: closure_code_def len(1))
  show "load_cell 8 word64_of 44 (closure_code entry bridge) = Some bridge"
    using cell64.load_emitted [of "?w @ bytes64 entry" bridge "[]"] by (simp add: closure_code_def len)
qed

lemma straight_closure_ldr:
  assumes "ready native F code a (mem s)" and "pc s = a + of_nat i" and "load_cell 8 word64_of (i + 28) code = Some v"
  shows "straight F 416 [closure_ldr] s (s\<lparr>xreg := (xreg s)(17 := v), pc := pc s + 4\<rparr>)"
proof -
  have "read64 (mem s) (a + of_nat (i + 28)) = v"
    using assms(1,3) by (intro placed_read64) (auto simp: ready_def)
  then have "read64 (mem s) (pc s + 28) = v" using assms(2) by (simp add: add.assoc add.left_commute add.commute)
  moreover have "fits_branch 21 28" by (simp add: fits_branch_def)
  ultimately show ?thesis
    unfolding closure_ldr_def by (intro straight_one) (simp_all add: exec_ldr17 next_pc_def)
qed

lemma closure_enter:
  assumes "ready native F (closure_code entry bridge) T (mem s)" and "pc s = T" and "spreg s = frame_addr F 52"
  shows "native_runs native s (s\<lparr>mem := puts F [(51, xreg s 30), (50, entry)] (mem s),
    xreg := (xreg s)(17 := bridge, 30 := T + 24), spreg := frame_addr F 50, pc := bridge\<rparr>)"
proof -
  let ?code = "closure_code entry bridge"
  define s1 where "s1 = s\<lparr>spreg := frame_addr F 50, pc := pc s + 4\<rparr>"
  define s2 where "s2 = s1\<lparr>mem := put F 51 (xreg s 30) (mem s), pc := pc s1 + 4\<rparr>"
  define s3 where "s3 = s2\<lparr>xreg := (xreg s)(17 := entry), pc := pc s2 + 4\<rparr>"
  define s4 where "s4 = s3\<lparr>mem := puts F [(51, xreg s 30), (50, entry)] (mem s), pc := pc s3 + 4\<rparr>"
  define s5 where "s5 = s4\<lparr>xreg := (xreg s)(17 := bridge), pc := pc s4 + 4\<rparr>"
  note w = next_pc_def wr_sp_def rd_sp_def
  have ws: "words_at [addsub_word 0xD1000000 31 31 16, ldst_word 0xF90003E0 1 30] 0 ?code"
    "words_at [closure_ldr] 8 ?code" "words_at [ldst_word 0xF90003E0 0 17] 12 ?code" "words_at [closure_ldr] 16 ?code"
    "words_at [0xD63F0220] 20 ?code"
    using closure_layout(1) [of entry bridge] by (simp_all add: closure_words_def words_at_Cons)
  have "straight F 416 [addsub_word 0xD1000000 31 31 16] s s1"
    using straight_addsub(2) [of 31 31 16 F 416 s] assms(3) by (simp add: s1_def w frame_addr_simps)
  moreover have "straight F 416 [ldst_word 0xF90003E0 1 30] s1 s2"
    using straight_str [of 30 1 s1 F 50 416] by (simp add: s1_def s2_def w)
  ultimately have a: "straight F 416 [addsub_word 0xD1000000 31 31 16, ldst_word 0xF90003E0 1 30] s s2"
    by (rule straight_Cons_append)
  have p: "pc s = T + of_nat 0" "pc s2 = T + of_nat 8" "pc s3 = T + of_nat 12" "pc s4 = T + of_nat 16" "pc s5 = T + of_nat 20"
    using assms(2) by (simp_all add: s1_def s2_def s3_def s4_def s5_def)
  note r2 = ready_straight [OF a ws(1) assms(1) p(1)]
  have b: "straight F 416 [closure_ldr] s2 s3"
    using straight_closure_ldr [OF r2(3) p(2), of entry] closure_layout(2) by (simp add: s3_def s2_def s1_def)
  note r3 = ready_straight [OF b ws(2) r2(3) p(2)]
  have c: "straight F 416 [ldst_word 0xF90003E0 0 17] s3 s4"
    using straight_str [of 17 0 s3 F 50 416] by (simp add: s1_def s2_def s3_def s4_def w)
  note r4 = ready_straight [OF c ws(3) r3(3) p(3)]
  have d: "straight F 416 [closure_ldr] s4 s5"
    using straight_closure_ldr [OF r4(3) p(4), of bridge] closure_layout(3) by (simp add: s5_def s4_def s3_def s2_def s1_def)
  note r5 = ready_straight [OF d ws(4) r4(3) p(4)]
  have "native_runs native s5 (jump (xreg s5 17) (wr_x 30 (pc s5 + 4) s5))"
    by (rule ready_step [OF r5(3) ws(5) p(5) exec_blr17])
  moreover have "jump (xreg s5 17) (wr_x 30 (pc s5 + 4) s5) = s\<lparr>mem := puts F [(51, xreg s 30), (50, entry)] (mem s),
    xreg := (xreg s)(17 := bridge, 30 := T + 24), spreg := frame_addr F 50, pc := bridge\<rparr>"
    by (rule a64.equality) (simp_all add: jump_def wr_x_def p(5) add.commute, simp_all add: s5_def s4_def s3_def s2_def s1_def)
  ultimately show ?thesis using r2(1) r3(1) r4(1) r5(1) by (metis native_runs_trans)
qed

definition bridge_code :: "u64 \<Rightarrow> code_buffer" where
  "bridge_code handler = concat (map bytes32 (bridge_words handler))"

lemma bridge_lengths: "length (bridge_enter_words handler) = 33" "length bridge_leave_words = 22"
  by (simp_all add: bridge_enter_words_def frame_words_def mov_words_def bridge_leave_words_def unframe_words_def)

lemma bridge_layout:
  "words_at (bridge_enter_words handler) 0 (bridge_code handler)" "words_at [0xD63F0220] 132 (bridge_code handler)"
  "words_at bridge_leave_words 136 (bridge_code handler)" "words_at [0xD65F03C0] 224 (bridge_code handler)"
proof -
  have "words_at (bridge_words handler) 0 (bridge_code handler)"
    using words_at_emitted [of "bridge_words handler" "[]" "[]"] by (simp add: bridge_code_def)
  then show "words_at (bridge_enter_words handler) 0 (bridge_code handler)" "words_at [0xD63F0220] 132 (bridge_code handler)"
    "words_at bridge_leave_words 136 (bridge_code handler)" "words_at [0xD65F03C0] 224 (bridge_code handler)"
    unfolding bridge_words_def words_at_append bridge_lengths by simp_all
qed

lemma bridge_call_run:
  assumes "ready native F (bridge_code handler) B (mem s)" and "pc s = B" and "spreg s = frame_addr F 50"
  shows "native_runs native s (s\<lparr>mem := puts F (saved_context F s) (mem s),
    xreg := (xreg s)(17 := handler, 0 := F, 1 := slot F 50 (mem s), 30 := B + 136), spreg := F, pc := handler\<rparr>)"
proof -
  define t where "t = s\<lparr>mem := puts F (saved_context F s) (mem s),
    xreg := (xreg s)(17 := handler, 0 := F, 1 := slot F 50 (mem s)), spreg := F, pc := pc s + 132\<rparr>"
  have a: "straight F 416 (bridge_enter_words handler) s t" unfolding t_def by (rule straight_enter [OF assms(3)])
  have "pc s = B + of_nat 0" using assms(2) by simp
  note r = ready_straight [OF a bridge_layout(1) assms(1) this]
  have "pc t = B + of_nat 132" using assms(2) by (simp add: t_def)
  from ready_step [OF r(3) bridge_layout(2) this exec_blr17]
  have "native_runs native t (jump (xreg t 17) (wr_x 30 (pc t + 4) t))" .
  moreover have "jump (xreg t 17) (wr_x 30 (pc t + 4) t) = s\<lparr>mem := puts F (saved_context F s) (mem s),
    xreg := (xreg s)(17 := handler, 0 := F, 1 := slot F 50 (mem s), 30 := B + 136), spreg := F, pc := handler\<rparr>"
    by (rule a64.equality) (simp_all add: jump_def wr_x_def t_def assms(2) add.commute)
  ultimately show ?thesis using r(1) by (metis native_runs_trans)
qed

lemma bridge_return_run:
  assumes "ready native F (bridge_code handler) B (mem s)" and "pc s = B + 136" and "spreg s = F"
  shows "native_runs native s ((restored F s)\<lparr>pc := slot F 33 (mem s)\<rparr>)"
proof -
  define t where "t = (restored F s)\<lparr>pc := pc s + 88\<rparr>"
  have a: "straight F 416 bridge_leave_words s t" unfolding t_def by (rule straight_leave [OF assms(3)])
  have "pc s = B + of_nat 136" using assms(2) by simp
  note r = ready_straight [OF a bridge_layout(3) assms(1) this]
  have "pc t = B + of_nat 224" using assms(2) by (simp add: t_def)
  from ready_step [OF r(3) bridge_layout(4) this exec_ret]
  have "native_runs native t (jump (xreg t 30) t)" .
  moreover have "jump (xreg t 30) t = (restored F s)\<lparr>pc := slot F 33 (mem s)\<rparr>"
    by (simp add: jump_def t_def restored_def)
  ultimately show ?thesis using r(1) by (metis native_runs_trans)
qed

lemma closure_leave:
  assumes "ready native F (closure_code entry bridge) T (mem s)" and "pc s = T + 24" and "spreg s = frame_addr F 50"
  shows "native_runs native s (s\<lparr>xreg := (xreg s)(30 := slot F 51 (mem s)), spreg := frame_addr F 52, pc := xreg s 17\<rparr>)"
proof -
  let ?code = "closure_code entry bridge"
  define s1 where "s1 = s\<lparr>xreg := (xreg s)(30 := slot F 51 (mem s)), pc := pc s + 4\<rparr>"
  define s2 where "s2 = s1\<lparr>spreg := frame_addr F 52, pc := pc s1 + 4\<rparr>"
  note w = next_pc_def wr_sp_def rd_sp_def
  have ws: "words_at [ldst_word 0xF94003E0 1 30, addsub_word 0x91000000 31 31 16] 24 ?code" "words_at [0xD61F0220] 32 ?code"
    using closure_layout(1) [of entry bridge] by (simp_all add: closure_words_def words_at_Cons)
  have "straight F 416 [ldst_word 0xF94003E0 1 30] s s1"
    using straight_ldr [of 30 1 s F 50 416] assms(3) by (simp add: s1_def w)
  moreover have "straight F 416 [addsub_word 0x91000000 31 31 16] s1 s2"
    using straight_addsub(1) [of 31 31 16 F 416 s1] assms(3) by (simp add: s1_def s2_def w frame_addr_simps)
  ultimately have a: "straight F 416 [ldst_word 0xF94003E0 1 30, addsub_word 0x91000000 31 31 16] s s2"
    by (rule straight_Cons_append)
  have "pc s = T + of_nat 24" using assms(2) by simp
  note r = ready_straight [OF a ws(1) assms(1) this]
  have "pc s2 = T + of_nat 32" using assms(2) by (simp add: s2_def s1_def)
  from ready_step [OF r(3) ws(2) this exec_br17] have "native_runs native s2 (jump (xreg s2 17) s2)" .
  moreover have "jump (xreg s2 17) s2 = s\<lparr>xreg := (xreg s)(30 := slot F 51 (mem s)), spreg := frame_addr F 52, pc := xreg s 17\<rparr>"
    by (simp add: jump_def s2_def s1_def)
  ultimately show ?thesis using r(1) by (metis native_runs_trans)
qed

section \<open>Calling a compiled function\<close>

text \<open>
  What the calling convention says about the state after a call: control is back at x30, the
  stack pointer, x19 to x29 and the low halves of v8 to v15 are as before. A compiled function
  changes the memory like its model, except in the \<open>stack\<close> bytes below the stack pointer.
\<close>

definition aapcs64 :: "a64 \<Rightarrow> a64 \<Rightarrow> bool" where
  "aapcs64 s t \<longleftrightarrow> pc t = xreg s 30 \<and> spreg t = spreg s \<and> (\<forall>i. 19 \<le> i \<and> i \<le> 29 \<longrightarrow> xreg t i = xreg s i)
     \<and> (\<forall>i. 8 \<le> i \<and> i \<le> 15 \<longrightarrow> lo64 (vreg t i) = lo64 (vreg s i))"

definition same_but_stack :: "nat \<Rightarrow> u64 \<Rightarrow> (u64 \<Rightarrow> byte) \<Rightarrow> (u64 \<Rightarrow> byte) \<Rightarrow> bool" where
  "same_but_stack stack sp m m' \<longleftrightarrow> (\<forall>x. stack \<le> unat (sp - 1 - x) \<longrightarrow> m' x = m x)"

definition compiled ::
  "nat \<Rightarrow> (u64 \<Rightarrow> u64 \<Rightarrow> (u64 \<Rightarrow> byte) \<Rightarrow> dobby_error + (u64 \<Rightarrow> byte)) \<Rightarrow> (a64 \<Rightarrow> a64) \<Rightarrow> bool" where
  "compiled stack f h \<longleftrightarrow> (\<forall>s m. f (xreg s 0) (xreg s 1) (mem s) = Inr m \<longrightarrow>
     aapcs64 s (h s) \<and> same_but_stack stack (spreg s) m (mem (h s)))"

lemma slot_same_but_stack:
  assumes "same_but_stack stack F m m'" and "stack \<le> 2 ^ 63" and "j < 2 ^ 20"
  shows "slot F j m' = slot F j m"
proof -
  have "m' (frame_addr F j + of_nat i) = m (frame_addr F j + of_nat i)" if "i < 8" for i
  proof -
    have "F - 1 - (frame_addr F j + of_nat i) = - of_nat (8 * j + i + 1)" by (simp add: frame_addr_def algebra_simps)
    moreover have "(of_nat (2 ^ 64 - (8 * j + i + 1)) :: u64) = of_nat (2 ^ 64) - of_nat (8 * j + i + 1)"
      using assms(3) that by (intro of_nat_diff) simp
    ultimately have e: "F - 1 - (frame_addr F j + of_nat i) = of_nat (2 ^ 64 - (8 * j + i + 1))" by simp
    have "unat (of_nat (2 ^ 64 - (8 * j + i + 1)) :: u64) = 2 ^ 64 - (8 * j + i + 1)" by (simp only: unat_of_nat) simp
    then have "stack \<le> unat (F - 1 - (frame_addr F j + of_nat i))" unfolding e using assms(2,3) that by simp
    then show ?thesis using assms(1) by (simp add: same_but_stack_def)
  qed
  then have "mem_read m' (frame_addr F j) 8 = mem_read m (frame_addr F j) 8" by (simp add: mem_read_def)
  then show ?thesis by (simp add: slot_def read64_def)
qed

text \<open>
  The context the handler finds, and what the code goes on with: the callee's view of the state \<open>s\<close> in
  which the trampoline was entered, and the state \<open>t\<close> at the next hop.
\<close>

definition context_of :: "u64 \<Rightarrow> u64 \<Rightarrow> u64 \<Rightarrow> a64 \<Rightarrow> (u64 \<Rightarrow> byte) \<Rightarrow> bool" where
  "context_of F entry ret s m \<longleftrightarrow> (\<forall>i \<le> 29. i \<noteq> 17 \<longrightarrow> slot F (3 + i) m = xreg s i) \<and> (\<forall>i < 8. slot_q F (34 + 2 * i) m = vreg s i)
     \<and> slot F 1 m = spreg s \<and> slot F 33 m = ret \<and> slot F 50 m = entry \<and> slot F 51 m = xreg s 30 \<and> same_outside F 416 (mem s) m"

definition resumed_from :: "nat \<Rightarrow> u64 \<Rightarrow> a64 \<Rightarrow> (u64 \<Rightarrow> byte) \<Rightarrow> a64 \<Rightarrow> bool" where
  "resumed_from stack F s m t \<longleftrightarrow> pc t = slot F 20 m \<and> (\<forall>i \<le> 29. xreg t i = slot F (3 + i) m) \<and> xreg t 30 = slot F 51 m
     \<and> spreg t = spreg s \<and> (\<forall>i < 8. vreg t i = slot_q F (34 + 2 * i) m)
     \<and> (\<forall>i. 8 \<le> i \<and> i \<le> 15 \<longrightarrow> lo64 (vreg t i) = lo64 (vreg s i)) \<and> same_but_stack stack F m (mem t)"

lemma ready_after:
  assumes "ready native F code a m" and "same_but_stack stack F m1 m2" and "\<forall>k < length code. m1 (a + of_nat k) = m (a + of_nat k)"
    and "\<forall>k < length code. stack \<le> unat (F - 1 - (a + of_nat k))"
  shows "ready native F code a m2"
  using assms by (simp add: ready_def placed_def same_but_stack_def)

lemma closure_round:
  assumes T: "ready native F (closure_code entry B) T (mem s)" and B: "ready native F (bridge_code handler) B (mem s)"
    and "pc s = T" and "spreg s = frame_addr F 52" and "native handler = Some h" and "compiled stack f h" and "stack \<le> 2 ^ 63"
    and f: "\<And>m1. context_of F entry (T + 24) s m1 \<Longrightarrow> \<exists>m2. f F entry m1 = Inr m2 \<and> slot F 33 m2 = slot F 33 m1
      \<and> (\<forall>k < 52. m2 (T + of_nat k) = m1 (T + of_nat k))
      \<and> (\<forall>k < length (bridge_code handler). m2 (B + of_nat k) = m1 (B + of_nat k)) \<and> Q m1 m2"
    and below: "\<forall>k < 52. stack \<le> unat (F - 1 - (T + of_nat k))"
      "\<forall>k < length (bridge_code handler). stack \<le> unat (F - 1 - (B + of_nat k))"
  shows "\<exists>m1 m2 t. context_of F entry (T + 24) s m1 \<and> f F entry m1 = Inr m2 \<and> Q m1 m2 \<and> native_runs native s t
    \<and> resumed_from stack F s m2 t"
proof -
  define u where "u = s\<lparr>mem := puts F [(51, xreg s 30), (50, entry)] (mem s),
    xreg := (xreg s)(17 := B, 30 := T + 24), spreg := frame_addr F 50, pc := B\<rparr>"
  define m1 where "m1 = puts F (saved_context F u) (mem u)"
  define c where "c = u\<lparr>mem := m1, xreg := (xreg u)(17 := handler, 0 := F, 1 := slot F 50 (mem u), 30 := B + 136),
    spreg := F, pc := handler\<rparr>"
  have mu: "mem u = puts F [(51, xreg s 30), (50, entry)] (mem s)" by (simp add: u_def)
  have ou: "same_outside F 416 (mem s) (mem u)" unfolding mu by (rule same_outside_puts) simp_all
  have o1: "same_outside F 416 (mem u) m1"
    unfolding m1_def by (rule same_outside_puts) (use saved_bounds [of F u] in auto)
  note o = same_outside_trans [OF ou o1]
  have run1: "native_runs native s u" unfolding u_def by (rule closure_enter [OF T assms(3,4)])
  have run2: "native_runs native u c"
    unfolding c_def m1_def by (rule bridge_call_run [OF ready_same [OF B ou]]) (simp_all add: u_def)
  note g = slots_saved [where F = F and s = u and m = "mem u", folded m1_def]
  have entry: "slot F 50 (mem u) = entry" "slot F 51 (mem u) = xreg s 30"
    by (simp_all add: mu slot_put)
  have x33: "slot F 33 m1 = T + 24" using g(1) [where i = 30] by (simp add: u_def)
  have ctx: "context_of F entry (T + 24) s m1"
    unfolding context_of_def using g x33 entry o assms(4) by (auto simp: u_def simp flip: m1_def)
  obtain m2 where m2: "f F entry m1 = Inr m2" "slot F 33 m2 = slot F 33 m1"
      "\<forall>k < 52. m2 (T + of_nat k) = m1 (T + of_nat k)"
      "\<forall>k < length (bridge_code handler). m2 (B + of_nat k) = m1 (B + of_nat k)" "Q m1 m2"
    using f [OF ctx] by blast
  define t where "t = h c"
  have "f (xreg c 0) (xreg c 1) (mem c) = Inr m2" using m2(1) entry by (simp add: c_def)
  then have "aapcs64 c t \<and> same_but_stack stack (spreg c) m2 (mem t)"
    using assms(6) unfolding compiled_def t_def by blast
  moreover have "spreg c = F" by (simp add: c_def)
  ultimately have call: "aapcs64 c t" "same_but_stack stack F m2 (mem t)" by simp_all
  have run3: "native_runs native c t"
    unfolding t_def by (rule native_call [OF _ native_refl]) (simp add: c_def assms(5))
  have t: "pc t = B + 136" "spreg t = F" using call(1) by (simp_all add: aapcs64_def c_def)
  have T1: "ready native F (closure_code entry B) T m1" and B1: "ready native F (bridge_code handler) B m1"
    using ready_same [OF T o] ready_same [OF B o] .
  have Tt: "ready native F (closure_code entry B) T (mem t)"
    using ready_after [OF T1 call(2)] m2(3) below(1) by simp
  have Bt: "ready native F (bridge_code handler) B (mem t)"
    using ready_after [OF B1 call(2)] m2(4) below(2) by simp
  define r where "r = (restored F t)\<lparr>pc := slot F 33 (mem t)\<rparr>"
  have run4: "native_runs native t r" unfolding r_def by (rule bridge_return_run [OF Bt t])
  have sl: "slot F j (mem t) = slot F j m2" if "j < 2 ^ 20" for j
    by (rule slot_same_but_stack [OF call(2) assms(7) that])
  have r: "pc r = T + 24" "spreg r = frame_addr F 50" "mem r = mem t"
    using m2(2) x33 by (simp_all add: r_def restored_def sl)
  define v where "v = r\<lparr>xreg := (xreg r)(30 := slot F 51 (mem r)), spreg := frame_addr F 52, pc := xreg r 17\<rparr>"
  have run5: "native_runs native r v"
    unfolding v_def by (rule closure_leave [OF _ r(1,2)]) (use Tt r(3) in simp)
  have "slot_q F (34 + 2 * i) (mem t) = slot_q F (34 + 2 * i) m2" if "i < 8" for i
    using that by (simp add: slot_q_def sl)
  then have "resumed_from stack F s m2 v"
    using call assms(4) by (auto simp: resumed_from_def v_def r_def restored_def sl aapcs64_def c_def u_def)
  moreover have "native_runs native s v"
    using run1 run2 run3 run4 run5 by (metis native_runs_trans)
  ultimately show ?thesis using ctx m2 by blast
qed

end
