(* ===== verification/Instrument_Props.thy ===== *)
theory Instrument_Props
  imports Closure_Run Hook_Props
begin

text \<open>
  Instrumented functions, from \<open>DobbyInstrument\<close> to the callback and back. \<open>live_code\<close> is generated code in a
  live block: later allocations leave it alone. \<open>closure_effect\<close> says what \<open>CreateClosureTrampoline\<close>
  achieves, \<open>instrument_effect\<close> takes a successful \<open>DobbyInstrument\<close> apart, and
  \<open>instrumented_function\<close> runs the whole path on the machine.
\<close>

unbundle bit_operations_syntax

section \<open>Generated code that stays\<close>

definition live_code ::
  "('o world \<Rightarrow> nat set) \<Rightarrow> allocator \<times> 'o world \<times> mem_block list \<Rightarrow> u64 \<Rightarrow> code_buffer \<Rightarrow> bool" where
  "live_code regions st a code \<longleftrightarrow> (case st of (al, w, bs) \<Rightarrow>
     placed code a (w_mem w) \<and> unat a + length code < 2 ^ 64
     \<and> (\<exists>b \<in> set bs. block_span b = {unat a..<unat a + length code}))"

lemma live_in_arena:
  assumes "heap_inv regions (al, w, bs)" and "b \<in> set bs"
  shows "block_span b \<subseteq> arena_memory al" and "block_span b \<subseteq> regions w"
proof -
  obtain ar where ar: "ar \<in> set (code_arenas al)" "block_span b \<subseteq> used_span ar"
    using assms by (auto simp: heap_inv_def)
  have "arena_ok ar" "arena_span ar \<subseteq> regions w" using assms(1) ar(1) by (auto simp: heap_inv_def)
  moreover from this(1) have "used_span ar \<subseteq> arena_span ar"
    by (auto simp: used_span_def arena_span_def span_def arena_ok_def)
  ultimately show "block_span b \<subseteq> arena_memory al" "block_span b \<subseteq> regions w"
    using ar by (auto simp: arena_memory_def)
qed

lemma live_blocks_apart:
  assumes "heap_inv regions (al, w, b # bs)" and "c \<in> set bs"
  shows "block_span b \<inter> block_span c = {}"
  using assms by (auto simp: heap_inv_def apart_def)

text \<open>
  A step of the allocator and the code written in it: the blocks stay, new ones join, and neither
  the mapped memory of others nor a live block changes.
\<close>

definition grown ::
  "('o world \<Rightarrow> nat set) \<Rightarrow> allocator \<times> 'o world \<times> mem_block list \<Rightarrow> allocator \<times> 'o world \<times> mem_block list \<Rightarrow> bool" where
  "grown regions st st' \<longleftrightarrow> (case (st, st') of ((al, w, bs), (al', w', bs')) \<Rightarrow>
     heap_inv regions (al', w', bs') \<and> set bs \<subseteq> set bs' \<and> regions w \<subseteq> regions w'
     \<and> arena_memory al' \<inter> (regions w - arena_memory al) = {}
     \<and> (\<forall>x. unat x \<in> (regions w - arena_memory al) \<union> \<Union> (block_span ` set bs) \<longrightarrow> w_mem w' x = w_mem w x))"

lemma grown_trans:
  assumes "grown regions st st1" and "grown regions st1 st2"
  shows "grown regions st st2"
proof -
  obtain al w bs al1 w1 bs1 al2 w2 bs2 where s: "st = (al, w, bs)" "st1 = (al1, w1, bs1)" "st2 = (al2, w2, bs2)"
    by (cases st; cases st1; cases st2) blast
  have g: "set bs \<subseteq> set bs1" "regions w \<subseteq> regions w1" "arena_memory al1 \<inter> (regions w - arena_memory al) = {}"
    "\<And>x. unat x \<in> (regions w - arena_memory al) \<union> \<Union> (block_span ` set bs) \<Longrightarrow> w_mem w1 x = w_mem w x"
    and h: "heap_inv regions (al2, w2, bs2)" "set bs1 \<subseteq> set bs2" "regions w1 \<subseteq> regions w2"
    "arena_memory al2 \<inter> (regions w1 - arena_memory al1) = {}"
    "\<And>x. unat x \<in> (regions w1 - arena_memory al1) \<union> \<Union> (block_span ` set bs1) \<Longrightarrow> w_mem w2 x = w_mem w1 x"
    using assms by (auto simp: grown_def s)
  have sub: "(regions w - arena_memory al) \<subseteq> regions w1 - arena_memory al1" using g(2,3) by blast
  then have "(regions w - arena_memory al) \<union> \<Union> (block_span ` set bs) \<subseteq> (regions w1 - arena_memory al1) \<union> \<Union> (block_span ` set bs1)"
    using g(1) by blast
  then have "w_mem w2 x = w_mem w x" if "unat x \<in> (regions w - arena_memory al) \<union> \<Union> (block_span ` set bs)" for x
    using that g(4) [OF that] h(5) [of x] by (metis subsetD)
  moreover have "arena_memory al2 \<inter> (regions w - arena_memory al) = {}" using h(4) sub by blast
  ultimately show ?thesis using g(1,2) h(1-3) by (simp add: grown_def s) blast
qed

lemma live_code_grown:
  assumes "live_code regions st a code" and "grown regions st st'"
  shows "live_code regions st' a code"
proof -
  obtain al w bs al' w' bs' where s: "st = (al, w, bs)" "st' = (al', w', bs')" by (cases st; cases st') blast
  obtain b where b: "b \<in> set bs" "block_span b = {unat a..<unat a + length code}"
    and p: "placed code a (w_mem w)" "unat a + length code < 2 ^ 64"
    using assms(1) by (auto simp: live_code_def s)
  have "placed code a (w_mem w')"
  proof (rule placed_cong [OF p(1)])
    fix x :: u64
    assume "unat x \<in> {unat a..<unat a + length code}"
    then have "unat x \<in> (regions w - arena_memory al) \<union> \<Union> (block_span ` set bs)" using b by blast
    then show "w_mem w' x = w_mem w x" using assms(2) by (auto simp: grown_def s)
  qed (use p(2) in simp)
  then show ?thesis using b p(2) assms(2) by (auto simp: live_code_def grown_def s)
qed

lemma finalize_effect:
  assumes fin: "FinalizeFromTurboAssembler K a al w = Inr (code, a', al', w')" and "realized_addr a = 0"
    and laws: "kernel_laws K regions" and inv: "heap_inv regions (al, w, bs)"
    and len: "0 < length (asm_buffer a)" "length (asm_buffer a) < 2 ^ 20" and "mb_addr code \<noteq> 0"
  shows "\<exists>b. grown regions (al, w, bs) (al', w', b # bs) \<and> live_code regions (al', w', b # bs) (mb_addr code) (asm_buffer a)"
proof -
  obtain b w0 where blk: "allocateExecBlock K (of_nat (length (asm_buffer a))) al w = Inr (b, al', w0)"
    and code: "code = MemBlock (mb_addr b) (of_nat (length (asm_buffer a)))" and w': "w' = DobbyCodePatch K (mb_addr b) (asm_buffer a) w0"
    using fin assms(2) by (auto simp: FinalizeFromTurboAssembler_def Let_def ebind_Inr_iff SetRealizedAddress_def GetBufferSize_def)
  have keeps: "keeps_memory K" and fresh: "mmap_fresh K regions" using laws by (simp_all add: kernel_laws_def)
  have b0: "mb_addr b \<noteq> 0" using assms(7) by (simp add: code MemBlock_def)
  note be = exec_block_effect [OF inv laws blk b0]
  have "ucast (of_nat (length (asm_buffer a)) :: u32) = (of_nat (length (asm_buffer a)) :: u64)"
    using len by (simp add: word_unat_eq_iff unat_ucast_u32 unat_of_nat)
  then have bs: "unat (mb_size b) = length (asm_buffer a)" using be(2) len by (simp add: unat_of_nat)
  have sp: "block_span b = {unat (mb_addr b)..<unat (mb_addr b) + length (asm_buffer a)}"
    using bs by (simp add: block_span_def span_def)
  have r: "regions w' = regions w0" unfolding w' by (rule regions_patch [OF laws])
  have m: "w_mem w' = mem_write (mb_addr b) (asm_buffer a) (w_mem w0)" unfolding w' by (rule DobbyCodePatch_mem [OF keeps])
  have bound: "unat (mb_addr b) + length (asm_buffer a) < 2 ^ 64" using be(3) bs by simp
  have inv': "heap_inv regions (al', w', b # bs)"
    using heap_inv_exec [OF inv fresh blk b0] r by (simp add: heap_inv_def)
  have "placed (asm_buffer a) (mb_addr b) (w_mem w')" unfolding m using len by (intro placed_mem_write) simp
  then have "live_code regions (al', w', b # bs) (mb_addr code) (asm_buffer a)"
    using sp bound by (simp add: live_code_def code MemBlock_def)
  moreover have "w_mem w' x = w_mem w x" if x: "unat x \<in> (regions w - arena_memory al) \<union> \<Union> (block_span ` set bs)" for x
  proof -
    have "unat x \<in> regions w" using x live_in_arena(2) [OF inv] by blast
    moreover have "unat x \<notin> block_span b" using x be(1) live_blocks_apart [OF inv'] by blast
    ultimately show ?thesis using be(4) bound unfolding m sp by (simp add: mem_write_outside)
  qed
  ultimately show ?thesis using inv' be(5,6) r by (intro exI [of _ b]) (auto simp: grown_def)
qed

section \<open>Closures\<close>

definition bridge_live ::
  "('o world \<Rightarrow> nat set) \<Rightarrow> u64 \<Rightarrow> mem_block list \<Rightarrow> ('o, 's) closures_scheme \<Rightarrow> bool" where
  "bridge_live regions handler bs st \<longleftrightarrow> cl_bridge st \<noteq> 0 \<longrightarrow>
     live_code regions (db_alloc st, db_world st, bs) (cl_bridge st) (bridge_code handler)"

lemma length_bridge_code: "length (bridge_code handler) = 228"
  by (simp add: bridge_code_def bridge_words_def bridge_lengths)

lemma get_closure_bridge_effect:
  assumes "get_closure_bridge K handler st = Inr (B, st')" and "B \<noteq> 0" and "kernel_laws K regions"
    and inv: "heap_inv regions (db_alloc st, db_world st, bs)" and "bridge_live regions handler bs st"
  shows "\<exists>bs'. grown regions (db_alloc st, db_world st, bs) (db_alloc st', db_world st', bs')
    \<and> live_code regions (db_alloc st', db_world st', bs') B (bridge_code handler)
    \<and> st' = st\<lparr>db_alloc := db_alloc st', db_world := db_world st', cl_bridge := B\<rparr>"
proof (cases "cl_bridge st = 0")
  case False
  then show ?thesis
    using assms by (intro exI [of _ bs]) (auto simp: get_closure_bridge_def bridge_live_def grown_def)
next
  case True
  have e: "asm_seq (closure_bridge_code handler) (new_assembler 0) = Inr (emits (bridge_words handler) (new_assembler 0))"
    by (rule bridge_emitted)
  let ?a = "emits (bridge_words handler) (new_assembler 0)"
  have buf: "asm_buffer ?a = bridge_code handler" "realized_addr ?a = 0"
    by (simp_all add: new_assembler_def bridge_code_def emits_def)
  obtain code a' al1 w1 where fin: "FinalizeFromTurboAssembler K ?a (db_alloc st) (db_world st) = Inr (code, a', al1, w1)"
    and st': "st' = st\<lparr>db_alloc := al1, db_world := w1, cl_bridge := mb_addr code\<rparr>" and B: "B = mb_addr code"
    using assms(1) True by (auto simp: get_closure_bridge_def e ebind_Inr_iff)
  have "0 < length (asm_buffer ?a)" "length (asm_buffer ?a) < 2 ^ 20" "mb_addr code \<noteq> 0"
    using assms(2) B by (simp_all only: buf length_bridge_code) simp_all
  from finalize_effect [OF fin buf(2) assms(3) inv this] show ?thesis
    unfolding buf(1) B st' by auto
qed

lemma closure_effect:
  assumes made: "CreateClosureTrampoline K handler this carried ch st = Inr (ce, st')" and "ce_address ce \<noteq> 0"
    and "cl_bridge st' \<noteq> 0" and laws: "kernel_laws K regions"
    and inv: "heap_inv regions (db_alloc st, db_world st, bs)" and "bridge_live regions handler bs st"
  shows "\<exists>bs'. grown regions (db_alloc st, db_world st, bs) (db_alloc st', db_world st', bs')
    \<and> live_code regions (db_alloc st', db_world st', bs') (cl_bridge st') (bridge_code handler)
    \<and> live_code regions (db_alloc st', db_world st', bs') (ce_address ce) (closure_code this (cl_bridge st'))
    \<and> st' = st\<lparr>db_alloc := db_alloc st', db_world := db_world st', cl_bridge := cl_bridge st',
          cl_entries := (cl_entries st)(this \<mapsto> ce)\<rparr>
    \<and> ce_carry_data ce = carried \<and> ce_carry_handler ce = ch"
proof -
  obtain a1 a2 a3 where seq: "asm_seq closure_trampoline_code (with_labels [new_pseudo_label, new_pseudo_label] (new_assembler 0)) = Inr a1"
      "PseudoBind 0 a1 = Inr a2" "PseudoBind 1 (asm_EmitInt64 this a2) = Inr a3"
    and buf: "\<And>bridge. asm_buffer (asm_EmitInt64 bridge a3) = closure_code this bridge" and r: "realized_addr a3 = 0"
    using closure_emitted [of this] by auto
  obtain B st1 where B: "get_closure_bridge K handler st = Inr (B, st1)"
    and rest: "ebind (FinalizeFromTurboAssembler K (asm_EmitInt64 B a3) (db_alloc st1) (db_world st1)) (\<lambda>(code, _, al2, w2).
       let entry = \<lparr>ce_address = mb_addr code, ce_size = ucast (mb_size code), ce_carry_handler = ch, ce_carry_data = carried\<rparr>
       in Inr (entry, st1\<lparr>db_alloc := al2, db_world := w2, cl_entries := (cl_entries st1)(this \<mapsto> entry)\<rparr>)) = Inr (ce, st')"
    using made seq unfolding CreateClosureTrampoline_def by (auto simp: ebind_Inr_iff)
  obtain code a' al2 w2 where fin: "FinalizeFromTurboAssembler K (asm_EmitInt64 B a3) (db_alloc st1) (db_world st1) = Inr (code, a', al2, w2)"
    and ce: "ce = \<lparr>ce_address = mb_addr code, ce_size = ucast (mb_size code), ce_carry_handler = ch, ce_carry_data = carried\<rparr>"
    and st': "st' = st1\<lparr>db_alloc := al2, db_world := w2, cl_entries := (cl_entries st1)(this \<mapsto> ce)\<rparr>"
    using rest by (auto simp: ebind_Inr_iff Let_def)
  have st1: "cl_bridge st1 = B" using B by (auto simp: get_closure_bridge_def ebind_Inr_iff split: if_splits)
  then have B0: "B \<noteq> 0" using assms(3) by (simp add: st')
  obtain bs1 where g1: "grown regions (db_alloc st, db_world st, bs) (db_alloc st1, db_world st1, bs1)"
    and l1: "live_code regions (db_alloc st1, db_world st1, bs1) B (bridge_code handler)"
    and e1: "st1 = st\<lparr>db_alloc := db_alloc st1, db_world := db_world st1, cl_bridge := B\<rparr>"
    using get_closure_bridge_effect [OF B B0 laws inv assms(6)] by blast
  have inv1: "heap_inv regions (db_alloc st1, db_world st1, bs1)" using g1 by (simp add: grown_def)
  have "realized_addr (asm_EmitInt64 B a3) = 0" using r by (simp add: asm_EmitInt64_def)
  moreover have "0 < length (asm_buffer (asm_EmitInt64 B a3))" "length (asm_buffer (asm_EmitInt64 B a3)) < 2 ^ 20" "mb_addr code \<noteq> 0"
    using assms(2) by (simp_all add: buf ce)
  ultimately obtain b where g2: "grown regions (db_alloc st1, db_world st1, bs1) (al2, w2, b # bs1)"
    and l2: "live_code regions (al2, w2, b # bs1) (mb_addr code) (closure_code this B)"
    using finalize_effect [OF fin _ laws inv1] unfolding buf by blast
  have "st' = st\<lparr>db_alloc := al2, db_world := w2, cl_bridge := B, cl_entries := (cl_entries st)(this \<mapsto> ce)\<rparr>"
    unfolding st' by (subst (1 2) e1) simp
  then show ?thesis
    using grown_trans [OF g1 g2] live_code_grown [OF l1 g2] l2 ce by (intro exI [of _ "b # bs1"]) simp
qed

section \<open>Instrumenting taken apart\<close>

lemma GenerateRelocatedCode_frame:
  assumes "GenerateRelocatedCode K (r :: instrument_routing) st = Inr (flag, r', st')"
  shows "st' = st\<lparr>db_alloc := db_alloc st', db_world := db_world st'\<rparr>" and "rt_pre_handler r' = rt_pre_handler r"
  using assms
  by (auto simp: GenerateRelocatedCode_def ebind_Inr_iff Let_def split: option.splits if_splits)

lemma live_code_hook:
  assumes live: "live_code regions (al, w, bs) c code" and inv: "heap_inv regions (al, w, bs)"
    and made: "hook_made (regions w) al (w_mem w) a dst origin (w_mem w') h" and site: "hook_site (regions w) al a"
    and inv': "heap_inv regions (al', w', b # bs)" and b: "block_span b = {unat origin..<unat origin + length (asm_buffer (hp_code h))}"
  shows "live_code regions (al', w', b # bs) c code"
proof -
  obtain d where d: "d \<in> set bs" "block_span d = {unat c..<unat c + length code}"
    and p: "placed code c (w_mem w)" "unat c + length code < 2 ^ 64"
    using live by (auto simp: live_code_def)
  note hm = made [unfolded hook_made_def]
  obtain m0 where m0: "\<And>x. unat x \<in> regions w \<Longrightarrow> m0 x = w_mem w x"
    and m': "w_mem w' = mem_write a (hp_tramp h) (mem_write origin (asm_buffer (hp_code h)) m0)"
    using hm by blast
  have o: "unat origin + length (asm_buffer (hp_code h)) < 2 ^ 64" and "hp_count h \<in> {3, 4}" "length (hp_tramp h) = 4 * hp_count h"
    using hm by blast+
  then have n: "length (hp_tramp h) \<le> 16" by auto
  have "placed code c (w_mem w')"
  proof (rule placed_cong [OF p(1)])
    fix x :: u64
    assume "unat x \<in> {unat c..<unat c + length code}"
    then have x: "unat x \<in> block_span d" using d(2) by simp
    have "{unat a..<unat a + 16} \<inter> arena_memory al = {}" "unat a + 16 < 2 ^ 64" using site by (auto simp: hook_site_def)
    then have xa: "unat x \<notin> {unat a..<unat a + length (hp_tramp h)}" using x live_in_arena(1) [OF inv d(1)] n by fastforce
    have xo: "unat x \<notin> {unat origin..<unat origin + length (asm_buffer (hp_code h))}"
      using live_blocks_apart [OF inv' d(1)] x unfolding b by blast
    have "w_mem w' x = mem_write origin (asm_buffer (hp_code h)) m0 x"
      unfolding m' using xa \<open>unat a + 16 < 2 ^ 64\<close> n by (intro mem_write_outside) simp_all
    also have "\<dots> = m0 x" using xo o by (intro mem_write_outside) simp_all
    also have "\<dots> = w_mem w x" using m0 x live_in_arena(2) [OF inv d(1)] by blast
    finally show "w_mem w' x = w_mem w x" .
  qed (use p(2) in simp)
  then show ?thesis using d p(2) by (auto simp: live_code_def)
qed

lemma hook_site_grown:
  assumes "hook_site (regions w) al a" and "grown regions (al, w, bs) (al', w', bs')"
  shows "hook_site (regions w') al' a" and "unat x \<in> {unat a..<unat a + 16} \<Longrightarrow> w_mem w' x = w_mem w x"
proof -
  have s: "{unat a..<unat a + 16} \<subseteq> regions w - arena_memory al" "unat a + 16 < 2 ^ 64" using assms(1) by (auto simp: hook_site_def)
  have g: "regions w \<subseteq> regions w'" "arena_memory al' \<inter> (regions w - arena_memory al) = {}"
    "\<And>x. unat x \<in> regions w - arena_memory al \<Longrightarrow> w_mem w' x = w_mem w x"
    using assms(2) by (auto simp: grown_def)
  show "hook_site (regions w') al' a" using s g(1,2) unfolding hook_site_def by blast
  show "w_mem w' x = w_mem w x" if "unat x \<in> {unat a..<unat a + 16}" using g(3) s(1) that by blast
qed

lemma closure_frame:
  assumes "CreateClosureTrampoline K handler this carried ch st = Inr (ce, st')"
  shows "db_near_branch st' = db_near_branch st" and "db_entries st' = db_entries st" and "db_routings st' = db_routings st"
    and "cl_entries st' this = Some ce"
  using assms by (auto simp: CreateClosureTrampoline_def get_closure_bridge_def ebind_Inr_iff Let_def split: if_splits)

text \<open>What \<open>DobbyInstrument\<close> does, step by step.\<close>

lemma instrument_steps:
  assumes ins: "DobbyInstrument K layout handler raw this a pre st = Inr (RS_SUCCESS, st')" and near: "db_near_branch st = None"
    and laws: "kernel_laws K regions" and "length (ie_origin_insns raw) = 256"
  obtains st1 ce st2 tramp r flag r' st3 where
    "st1 = st\<lparr>db_world := db_world st1\<rparr>" and "w_mem (db_world st1) = w_mem (db_world st)" and "regions (db_world st1) = regions (db_world st)"
    and "CreateClosureTrampoline K handler this (length (db_routings st)) instrument_routing_dispatch_handler st1 = Inr (ce, st2)"
    and "GenerateNormalTrampolineBuffer a (ce_address ce) = Inr tramp" and "rt_trampoline_buffer r = Some tramp"
    and "ie_patched_addr (rt_entry r) = a" and "length (ie_origin_insns (rt_entry r)) = 256" and "rt_pre_handler r = pre"
    and "GenerateRelocatedCode K (r :: instrument_routing) st2 = Inr (flag, r', st3)"
    and "routing_Commit K r' st3 = Inr (st3\<lparr>db_world := db_world st'\<rparr>)"
    and "st' = st3\<lparr>db_world := db_world st', db_entries := db_entries st3 @ [rt_entry r'], db_routings := db_routings st3 @ [Instrument r']\<rparr>"
    and "Interceptor_find a (db_entries st) = None"
proof -
  define page where "page = ALIGN_FLOOR a (k_page_size K)"
  define st1 where "st1 = st\<lparr>db_world := snd (k_mprotect K page (k_page_size K) 5 (db_world st))\<rparr>"
  have guard: "hook_guard K a st = (True, st1)" and none: "Interceptor_find a (db_entries st) = None"
    using ins by (auto simp: DobbyInstrument_def hook_guard_def OSMemory_SetPermission_def Let_def st1_def page_def
        split: if_splits prod.splits)
  have m1: "w_mem (db_world st1) = w_mem (db_world st)" "regions (db_world st1) = regions (db_world st)"
    using laws by (simp_all add: st1_def kernel_laws_def keeps_memory_def mmap_fresh_def)
  have s1: "st1 = st\<lparr>db_world := db_world st1\<rparr>" "db_near_branch st1 = None" "db_routings st1 = db_routings st"
    using near by (simp_all add: st1_def)
  obtain e where e: "e = InterceptEntry_init raw (Interceptor_count (db_entries st1)) kInstructionInstrument a" by simp
  define r where "r = InstructionInstrumentRouting e pre 0 (length (db_routings st))"
  have rf: "rt_trampoline_buffer r = None" "ie_patched_addr (rt_entry r) = a" "ie_routing (rt_entry r) = length (db_routings st)"
    "rt_pre_handler r = pre" "length (ie_origin_insns (rt_entry r)) = 256"
    using assms(4) by (simp_all add: r_def e InstructionInstrumentRouting_def InterceptEntry_init_def)
  obtain r' st3 where disp: "instrument_DispatchRouting K layout handler this r st1 = Inr (r', st3)"
    and com: "routing_Commit K r' st3 = Inr (st3\<lparr>db_world := db_world st'\<rparr>)"
    and fin: "st' = st3\<lparr>db_world := db_world st', db_entries := db_entries st3 @ [rt_entry r'], db_routings := db_routings st3 @ [Instrument r']\<rparr>"
    using ins guard by (auto simp: DobbyInstrument_def ebind_Inr_iff r_def e s1(3) Interceptor_add_def routing_Commit_def
        routing_Active_def split: option.splits)
  obtain r2 stx flag where build: "instrument_BuildRouting K layout handler this r st1 = Inr (r2, stx)"
    and gen: "GenerateRelocatedCode K r2 stx = Inr (flag, r', st3)"
    using disp by (auto simp: instrument_DispatchRouting_def ebind_Inr_iff)
  obtain ce st2 where cr: "CreateClosureTrampoline K handler this (length (db_routings st)) instrument_routing_dispatch_handler st1 = Inr (ce, st2)"
    and gb: "GenerateTrampolineBuffer K layout a (ce_address ce) (SetTrampolineTarget (ce_address ce) r) st2 = Inr (r2, stx)"
    using build by (auto simp: instrument_BuildRouting_def ebind_Inr_iff Let_def rf)
  have "db_near_branch st2 = None" using closure_frame(1) [OF cr] s1(2) by simp
  then obtain tramp where tr: "GenerateNormalTrampolineBuffer a (ce_address ce) = Inr tramp"
    and r2: "r2 = SetTrampolineBuffer (Some tramp) (SetTrampolineTarget (ce_address ce) r)" and stx: "stx = st2"
    using gb rf(1) by (auto simp: GenerateTrampolineBuffer_def ebind_Inr_iff)
  have pre: "rt_pre_handler r2 = pre" using rf(4) by (simp add: r2 SetTrampolineBuffer_def SetTrampolineTarget_def)
  show ?thesis
    by (rule that [OF s1(1) m1 cr tr _ _ _ pre gen [unfolded stx] com fin none]) (simp_all add: r2 rf)
qed

lemma instrument_effect:
  assumes ins: "DobbyInstrument K layout handler raw this a pre st = Inr (RS_SUCCESS, st')" and near: "db_near_branch st = None"
    and laws: "kernel_laws K regions" and inv: "heap_inv regions (db_alloc st, db_world st, bs)"
    and site: "hook_site (regions (db_world st)) (db_alloc st) a" and live: "bridge_live regions handler bs st"
    and raw: "length (ie_origin_insns raw) = 256" and "cl_bridge st' \<noteq> 0" and ce: "cl_entries st' this = Some ce" and "ce_address ce \<noteq> 0"
    and e: "Interceptor_find a (db_entries st') = Some e" and "ie_relocated_addr e \<noteq> 0"
  shows "\<exists>h r m2 M2 al2 bs'. hook_made M2 al2 m2 a (ce_address ce) (ie_relocated_addr e) (w_mem (db_world st')) h
    \<and> hook_site M2 al2 a \<and> (\<forall>x. unat x \<in> {unat a..<unat a + 16} \<longrightarrow> m2 x = w_mem (db_world st) x)
    \<and> db_routings st' = db_routings st @ [Instrument r] \<and> rt_entry r = e \<and> rt_pre_handler r = pre
    \<and> ce_carry_data ce = length (db_routings st) \<and> ie_patched_addr e = a
    \<and> live_code regions (db_alloc st', db_world st', bs') (ce_address ce) (closure_code this (cl_bridge st'))
    \<and> live_code regions (db_alloc st', db_world st', bs') (cl_bridge st') (bridge_code handler)
    \<and> heap_inv regions (db_alloc st', db_world st', bs') \<and> set bs \<subseteq> set bs'"
proof -
  obtain st1 ce0 st2 tramp r flag r' st3 where
    st1: "st1 = st\<lparr>db_world := db_world st1\<rparr>" and m1: "w_mem (db_world st1) = w_mem (db_world st)" "regions (db_world st1) = regions (db_world st)"
    and cr: "CreateClosureTrampoline K handler this (length (db_routings st)) instrument_routing_dispatch_handler st1 = Inr (ce0, st2)"
    and tr: "GenerateNormalTrampolineBuffer a (ce_address ce0) = Inr tramp" and r: "rt_trampoline_buffer r = Some tramp"
      "ie_patched_addr (rt_entry r) = a" "length (ie_origin_insns (rt_entry r)) = 256" "rt_pre_handler r = pre"
    and gen: "GenerateRelocatedCode K (r :: instrument_routing) st2 = Inr (flag, r', st3)"
    and com: "routing_Commit K r' st3 = Inr (st3\<lparr>db_world := db_world st'\<rparr>)"
    and fin: "st' = st3\<lparr>db_world := db_world st', db_entries := db_entries st3 @ [rt_entry r'], db_routings := db_routings st3 @ [Instrument r']\<rparr>"
    and none: "Interceptor_find a (db_entries st) = None"
    by (rule instrument_steps [OF ins near laws raw])
  note f3 = GenerateRelocatedCode_frame [OF gen]
  note cf = closure_frame [OF cr]
  have eqs: "cl_bridge st' = cl_bridge st2" "cl_entries st' = cl_entries st2" "db_routings st' = db_routings st @ [Instrument r']"
    "db_entries st' = db_entries st @ [rt_entry r']" "db_alloc st' = db_alloc st3"
    using cf arg_cong [OF st1, of db_routings] arg_cong [OF st1, of db_entries] arg_cong [OF fin, of cl_bridge]
      arg_cong [OF fin, of cl_entries] arg_cong [OF fin, of db_routings] arg_cong [OF fin, of db_entries] arg_cong [OF fin, of db_alloc]
      arg_cong [OF f3(1), of cl_bridge] arg_cong [OF f3(1), of cl_entries] arg_cong [OF f3(1), of db_routings] arg_cong [OF f3(1), of db_entries]
    by simp_all
  have ce0: "ce0 = ce" using cf(4) ce eqs(2) by simp
  have inv1: "heap_inv regions (db_alloc st1, db_world st1, bs)" using inv m1 arg_cong [OF st1, of db_alloc] by (simp add: heap_inv_def)
  have live1: "bridge_live regions handler bs st1"
    using live m1 arg_cong [OF st1, of db_alloc] arg_cong [OF st1, of cl_bridge] by (simp add: bridge_live_def live_code_def)
  have nz: "ce_address ce0 \<noteq> 0" "cl_bridge st2 \<noteq> 0" using assms(8,10) eqs(1) by (simp_all add: ce0)
  obtain bs2 where g: "grown regions (db_alloc st1, db_world st1, bs) (db_alloc st2, db_world st2, bs2)"
    and lb: "live_code regions (db_alloc st2, db_world st2, bs2) (cl_bridge st2) (bridge_code handler)"
    and lc: "live_code regions (db_alloc st2, db_world st2, bs2) (ce_address ce) (closure_code this (cl_bridge st2))"
    and cd: "ce_carry_data ce = length (db_routings st)"
    using closure_effect [OF cr nz laws inv1 live1] unfolding ce0 by blast
  have inv2: "heap_inv regions (db_alloc st2, db_world st2, bs2)" and sub: "set bs \<subseteq> set bs2" using g by (simp_all add: grown_def)
  have site1: "hook_site (regions (db_world st1)) (db_alloc st1) a" using site m1 arg_cong [OF st1, of db_alloc] by simp
  note site2 = hook_site_grown [OF site1 g]
  obtain h where
    h: "hook_made (regions (db_world st2)) (db_alloc st2) (w_mem (db_world st2)) a (ce_address ce) (ie_relocated_addr (rt_entry r'))
        (mem_write a (hp_tramp h) (w_mem (db_world st3))) h" "hp_tramp h = tramp"
      "hook_entry (w_mem (db_world st2)) a (ie_relocated_addr (rt_entry r')) (4 * hp_count h) (rt_entry r')"
      "rt_trampoline_buffer r' = Some tramp"
      "heap_grows regions (db_alloc st2) (db_world st2) bs2 (ie_relocated_addr (rt_entry r')) (length (asm_buffer (hp_code h))) (db_alloc st3) (db_world st3)"
    and re: "rt_entry r' = e"
  proof -
    have pa: "ie_patched_addr (rt_entry r') = a"
      using gen r(2) by (auto simp: GenerateRelocatedCode_def ebind_Inr_iff Let_def split: option.splits if_splits)
    have re: "rt_entry r' = e" using e none pa by (simp add: eqs(4) find_append)
    show ?thesis
      using relocated_code_effect [OF gen r(1-3) tr laws inv2 site2(1)] assms(12) that re unfolding ce0 by blast
  qed
  have pa: "ie_patched_addr e = a" using h(3) re by (simp add: hook_entry_def)
  have w': "db_world st' = DobbyCodePatch K a tramp (db_world st3)"
    using com h(4) pa re by (auto simp: routing_Commit_def routing_Active_def dest!: arg_cong [of _ _ db_world])
  have mem': "w_mem (db_world st') = mem_write a (hp_tramp h) (w_mem (db_world st3))"
    unfolding w' using laws h(2) by (simp add: kernel_laws_def DobbyCodePatch_mem)
  obtain b where b3: "heap_inv regions (db_alloc st3, db_world st3, b # bs2)"
    and bsp: "block_span b = {unat (ie_relocated_addr e)..<unat (ie_relocated_addr e) + length (asm_buffer (hp_code h))}"
    using h(5) unfolding re heap_grows_def by blast
  have "regions (db_world st') = regions (db_world st3)" unfolding w' by (rule regions_patch [OF laws])
  then have "heap_inv regions (db_alloc st', db_world st', b # bs2)" using b3 eqs(5) by (simp add: heap_inv_def)
  note b = this bsp
  note made = h(1) [folded mem', unfolded re]
  note keep = live_code_hook [OF _ inv2 made site2(1) b]
  have "\<forall>x. unat x \<in> {unat a..<unat a + 16} \<longrightarrow> w_mem (db_world st2) x = w_mem (db_world st) x"
    using site2(2) m1(1) by simp
  moreover have "rt_pre_handler r' = pre" using f3(2) r(4) by simp
  ultimately show ?thesis
    using made site2(1) eqs(3) re cd pa keep [OF lc] keep [OF lb] b(1) sub unfolding eqs(1)
    by (intro exI [of _ h] exI [of _ r'] exI [of _ "w_mem (db_world st2)"] exI [of _ "regions (db_world st2)"]
        exI [of _ "db_alloc st2"] exI [of _ "b # bs2"]) auto
qed

section \<open>The instrumented function\<close>

text \<open>The trampoline in a run that may call compiled functions.\<close>

lemma native_trampoline:
  assumes "GenerateNormalTrampolineBuffer a dst = Inr tramp" and code: "ready native F tramp a (mem s)" and "pc s = a"
    and "page_gap a dst \<noteq> 2 ^ 32"
  shows "native_runs native s (s\<lparr>xreg := (xreg s)(17 := dst), pc := dst\<rparr>)"
proof (cases "abs_distance a dst < adrp_range")
  case True
  let ?p = "push_bit 12 (drop_bit 12 (pc s)) + push_bit 12 (signed_take_bit 20 (page_pages a dst))"
  define s1 where "s1 = next_pc (s\<lparr>xreg := (xreg s)(17 := ?p)\<rparr>)"
  define s2 where "s2 = next_pc (s1\<lparr>xreg := (xreg s1)(17 := dst)\<rparr>)"
  have w: "words_at [adrp17 (page_pages a dst)] 0 tramp" "words_at [add17 (dst mod 0x1000)] 4 tramp" "words_at [0xD61F0220] 8 tramp"
    using trampoline_words(1) [OF assms(1) True] by (simp_all add: adrp_add_br_def words_at_Cons)
  have t: "?p + take_bit 12 (dst mod 0x1000) = dst" using adrp_target [OF True] assms(3,4) by simp
  have pcs: "pc s = a + of_nat 0" "pc s1 = a + of_nat 4" "pc s2 = a + of_nat 8"
    using assms(3) by (simp_all add: s1_def s2_def next_pc_def)
  have "a64_exec (adrp17 (page_pages a dst)) s = Some s1" by (simp add: exec_adrp17 s1_def)
  note r1 = ready_step [OF code w(1) pcs(1) this]
  have "a64_exec (add17 (dst mod 0x1000)) s1 = Some s2"
    using t by (simp add: exec_add17 s2_def) (simp add: s1_def next_pc_def)
  then have r2: "native_runs native s1 s2" using code by (intro ready_step [OF _ w(2) pcs(2)]) (simp_all add: s1_def next_pc_def)
  have "native_runs native s2 (jump (xreg s2 17) s2)"
    using code by (intro ready_step [OF _ w(3) pcs(3) exec_br17]) (simp add: s1_def s2_def next_pc_def)
  moreover have "jump (xreg s2 17) s2 = s\<lparr>xreg := (xreg s)(17 := dst), pc := dst\<rparr>"
    by (simp add: s2_def s1_def jump_def next_pc_def)
  ultimately show ?thesis using native_runs_trans [OF r1 native_runs_trans [OF r2]] by simp
next
  case False
  define s1 where "s1 = next_pc (s\<lparr>xreg := (xreg s)(17 := dst)\<rparr>)"
  have w: "words_at [encode_imm19_offset ldr17 8] 0 tramp" "words_at [0xD61F0220] 4 tramp"
    using trampoline_words(2) [OF assms(1) False] by (simp_all add: words_at_Cons)
  have pcs: "pc s = a + of_nat 0" "pc s1 = a + of_nat 4" using assms(3) by (simp_all add: s1_def next_pc_def)
  have "read64 (mem s) (a + of_nat 8) = dst"
    using code by (intro placed_read64 [OF _ trampoline_words(3) [OF assms(1) False]]) (simp add: ready_def)
  then have "a64_exec (encode_imm19_offset ldr17 8) s = Some s1"
    using assms(3) by (subst exec_ldr17) (simp_all add: fits_branch_def s1_def)
  note r1 = ready_step [OF code w(1) pcs(1) this]
  have "native_runs native s1 (jump (xreg s1 17) s1)"
    using code by (intro ready_step [OF _ w(2) pcs(2) exec_br17]) (simp add: s1_def next_pc_def)
  moreover have "jump (xreg s1 17) s1 = s\<lparr>xreg := (xreg s)(17 := dst), pc := dst\<rparr>"
    by (simp add: s1_def jump_def next_pc_def)
  ultimately show ?thesis using native_runs_trans [OF r1] by simp
qed

text \<open>
  Code a call leaves alone: it is neither in the frame of the bridge nor in the \<open>stack\<close> bytes below it,
  and no compiled function is entered in it.
\<close>

definition out_of_reach :: "(u64 \<Rightarrow> (a64 \<Rightarrow> a64) option) \<Rightarrow> nat \<Rightarrow> u64 \<Rightarrow> u64 \<Rightarrow> nat \<Rightarrow> bool" where
  "out_of_reach native stack F a n \<longleftrightarrow> clear_of F 416 a n \<and> (\<forall>k < n. native (a + of_nat k) = None)
     \<and> (\<forall>k < n. stack \<le> unat (F - 1 - (a + of_nat k)))"

lemma out_of_reach_ready:
  "out_of_reach native stack F a n \<Longrightarrow> placed code a m \<Longrightarrow> length code \<le> n \<Longrightarrow> ready native F code a m"
  by (simp add: out_of_reach_def ready_def clear_of_def)

text \<open>
  \<open>calls_back\<close>: from the instrumented address, the callback \<open>pre\<close> is called with that address and the
  registers of the caller as context, and control goes on at \<open>origin\<close> with the registers the
  callback left in it. \<open>T\<close> and \<open>B\<close> are the closure trampoline and the bridge; the callback must
  leave their code alone, and the slot of the link register with it.
\<close>

definition keeps_bytes :: "u64 \<Rightarrow> nat \<Rightarrow> (u64 \<Rightarrow> byte) \<Rightarrow> (u64 \<Rightarrow> byte) \<Rightarrow> bool" where
  "keeps_bytes a n m m' \<longleftrightarrow> (\<forall>k < n. m' (a + of_nat k) = m (a + of_nat k))"

definition calls_back ::
  "(u64 \<Rightarrow> u64 \<Rightarrow> u64 \<Rightarrow> (u64 \<Rightarrow> byte) \<Rightarrow> u64 \<Rightarrow> byte) \<Rightarrow> ('o, 's) closures_scheme \<Rightarrow> u64 \<Rightarrow> u64 \<Rightarrow> u64 \<Rightarrow> u64 \<Rightarrow> u64 \<Rightarrow> u64 \<Rightarrow> bool" where
  "calls_back callback st handler a pre this T origin \<longleftrightarrow> (\<forall>native h stack F s.
     native handler = Some h \<and> compiled stack (common_closure_bridge_handler callback st) h \<and> stack \<le> 2 ^ 63
     \<and> mem s = w_mem (db_world st) \<and> pc s = a \<and> spreg s = frame_addr F 52
     \<and> out_of_reach native stack F a 16 \<and> out_of_reach native stack F T 52 \<and> out_of_reach native stack F (cl_bridge st) 228
     \<and> (\<forall>m. slot F 33 (callback pre a F m) = slot F 33 m \<and> keeps_bytes T 52 m (callback pre a F m)
           \<and> keeps_bytes (cl_bridge st) 228 m (callback pre a F m)) \<longrightarrow>
     (\<exists>m1 m2 t. context_of F this (T + 24) s m1 \<and> m2 = (if pre = 0 then m1 else callback pre a F m1)
        \<and> native_runs native s t \<and> resumed_from stack F s (put F 20 origin m2) t \<and> pc t = origin))"

lemma calls_backD:
  assumes "calls_back callback st handler a pre this T origin" and "native handler = Some h"
    and "compiled stack (common_closure_bridge_handler callback st) h" and "stack \<le> 2 ^ 63"
    and "mem s = w_mem (db_world st)" and "pc s = a" and "spreg s = frame_addr F 52"
    and "out_of_reach native stack F a 16" and "out_of_reach native stack F T 52" and "out_of_reach native stack F (cl_bridge st) 228"
    and "\<And>m. slot F 33 (callback pre a F m) = slot F 33 m" and "\<And>m. keeps_bytes T 52 m (callback pre a F m)"
    and "\<And>m. keeps_bytes (cl_bridge st) 228 m (callback pre a F m)"
  obtains m1 t where "context_of F this (T + 24) s m1" and "native_runs native s t"
    and "resumed_from stack F s (put F 20 origin (if pre = 0 then m1 else callback pre a F m1)) t"
proof -
  note spec = assms(1) [unfolded calls_back_def, THEN spec [of _ native], THEN spec [of _ h], THEN spec [of _ stack],
    THEN spec [of _ F], THEN spec [of _ s]]
  have "\<exists>m1 m2 t. context_of F this (T + 24) s m1 \<and> m2 = (if pre = 0 then m1 else callback pre a F m1)
        \<and> native_runs native s t \<and> resumed_from stack F s (put F 20 origin m2) t \<and> pc t = origin"
    by (rule mp [OF spec]; intro conjI allI; rule assms)
  then show thesis by (elim exE conjE) (rule that, simp_all)
qed

text \<open>A pre-handler that leaves the context alone: control goes on with the registers of the caller.\<close>

lemma registers_restored:
  assumes "context_of F entry ret s m1" and "resumed_from stack F s (put F 20 origin m1) t"
  shows "i \<le> 30 \<Longrightarrow> i \<noteq> 17 \<Longrightarrow> xreg t i = xreg s i" and "i < 8 \<Longrightarrow> vreg t i = vreg s i" and "spreg t = spreg s"
proof -
  show "xreg t i = xreg s i" if "i \<le> 30" "i \<noteq> 17"
  proof (cases "i = 30")
    case True
    then show ?thesis using assms by (simp add: context_of_def resumed_from_def slot_put)
  next
    case False
    with that have i: "i \<le> 29" "3 + i \<noteq> 20" by simp_all
    then have "xreg t i = slot F (3 + i) (put F 20 origin m1)" using assms(2) by (simp add: resumed_from_def)
    also have "\<dots> = slot F (3 + i) m1" using i by (simp add: slot_put)
    finally show ?thesis using assms(1) i that by (simp add: context_of_def)
  qed
  show "vreg t i = vreg s i" if "i < 8"
    using assms that by (simp add: context_of_def resumed_from_def slot_q_def slot_put)
  show "spreg t = spreg s" using assms(2) by (simp add: resumed_from_def)
qed

lemma next_hop_put: "set_routing_bridge_next_hop F v m = put F 20 v m"
proof -
  have "reg_code TMP_REG_0 = 17" by (simp add: TMP_REG_0_def X_reg_def)
  then show ?thesis by (simp add: set_routing_bridge_next_hop_def ctx_x_def put_def frame_addr_def)
qed

lemma handler_result:
  assumes "cl_entries st this = Some ce" and "db_routings st ! ce_carry_data ce = Instrument r"
    and "ce_carry_data ce < length (db_routings st)" and "ie_patched_addr (rt_entry r) = a" and "rt_pre_handler r = pre"
  shows "common_closure_bridge_handler callback st F this m
    = Inr (put F 20 (ie_relocated_addr (rt_entry r)) (if pre = 0 then m else callback pre a F m))"
proof -
  have "ce_carry_handler ce = instrument_routing_dispatch_handler" by (cases "ce_carry_handler ce") simp
  with assms show ?thesis
    by (simp add: common_closure_bridge_handler_def instrument_routing_dispatch_def instrument_forward_handler_def next_hop_put)
qed

lemma keeps_bytes_put: "clear_of F 416 a n \<Longrightarrow> keeps_bytes a n m (put F 20 v m)"
  using same_outside_put [of 20 416 F m v] by (simp add: keeps_bytes_def clear_of_def same_outside_def)

lemma calls_backI:
  assumes T: "placed (closure_code this (cl_bridge st)) T (w_mem (db_world st))" and B: "placed (bridge_code handler) (cl_bridge st) (w_mem (db_world st))"
    and tr: "GenerateNormalTrampolineBuffer a T = Inr tramp" "placed tramp a (w_mem (db_world st))" "length tramp \<le> 16" "page_gap a T \<noteq> 2 ^ 32"
    and f: "\<And>F m. common_closure_bridge_handler callback st F this m = Inr (put F 20 origin (if pre = 0 then m else callback pre a F m))"
  shows "calls_back callback st handler a pre this T origin"
  unfolding calls_back_def
proof (intro allI impI, elim conjE)
  fix native h stack F and s :: a64
  assume h: "native handler = Some h" "compiled stack (common_closure_bridge_handler callback st) h" "stack \<le> 2 ^ 63"
    and s: "mem s = w_mem (db_world st)" "pc s = a" "spreg s = frame_addr F 52"
    and o: "out_of_reach native stack F a 16" "out_of_reach native stack F T 52" "out_of_reach native stack F (cl_bridge st) 228"
    and k: "\<forall>m. slot F 33 (callback pre a F m) = slot F 33 m \<and> keeps_bytes T 52 m (callback pre a F m)
           \<and> keeps_bytes (cl_bridge st) 228 m (callback pre a F m)"
  define s1 where "s1 = s\<lparr>xreg := (xreg s)(17 := T), pc := T\<rparr>"
  have run: "native_runs native s s1"
    unfolding s1_def using native_trampoline [OF tr(1) out_of_reach_ready [OF o(1)]] tr s by simp
  have rT: "ready native F (closure_code this (cl_bridge st)) T (mem s1)" and rB: "ready native F (bridge_code handler) (cl_bridge st) (mem s1)"
    using out_of_reach_ready [OF o(2)] out_of_reach_ready [OF o(3)] T B s(1) by (simp_all add: s1_def length_bridge_code)
  have s1: "pc s1 = T" "spreg s1 = frame_addr F 52" using s(3) by (simp_all add: s1_def)
  define g where "g m = (if pre = 0 then m else callback pre a F m)" for m
  have keep: "slot F 33 (put F 20 origin (g m)) = slot F 33 m" "keeps_bytes T 52 m (put F 20 origin (g m))"
    "keeps_bytes (cl_bridge st) 228 m (put F 20 origin (g m))" for m
  proof -
    have g: "slot F 33 (g m) = slot F 33 m" "keeps_bytes T 52 m (g m)" "keeps_bytes (cl_bridge st) 228 m (g m)"
      using k by (simp_all add: g_def keeps_bytes_def)
    show "slot F 33 (put F 20 origin (g m)) = slot F 33 m" using g(1) by (simp add: slot_put)
    show "keeps_bytes T 52 m (put F 20 origin (g m))" "keeps_bytes (cl_bridge st) 228 m (put F 20 origin (g m))"
      using g(2,3) keeps_bytes_put [of F T 52 "g m" origin] keeps_bytes_put [of F "cl_bridge st" 228 "g m" origin] o(2,3)
      by (simp_all add: keeps_bytes_def out_of_reach_def)
  qed
  have below: "\<forall>k < 52. stack \<le> unat (F - 1 - (T + of_nat k))"
    "\<forall>k < length (bridge_code handler). stack \<le> unat (F - 1 - (cl_bridge st + of_nat k))"
    using o(2,3) by (simp_all add: out_of_reach_def length_bridge_code)
  have "\<exists>m2. common_closure_bridge_handler callback st F this m = Inr m2 \<and> slot F 33 m2 = slot F 33 m
      \<and> (\<forall>k < 52. m2 (T + of_nat k) = m (T + of_nat k))
      \<and> (\<forall>k < length (bridge_code handler). m2 (cl_bridge st + of_nat k) = m (cl_bridge st + of_nat k)) \<and> m2 = put F 20 origin (g m)" for m
    using f [where F = F and m = m] keep [of m] by (simp add: g_def keeps_bytes_def length_bridge_code)
  from closure_round [OF rT rB s1 h this below] obtain m1 t where
    m1: "context_of F this (T + 24) s1 m1" "native_runs native s1 t" "resumed_from stack F s1 (put F 20 origin (g m1)) t"
    by blast
  have "context_of F this (T + 24) s m1" using m1(1) by (simp add: context_of_def s1_def)
  moreover have "resumed_from stack F s (put F 20 origin (g m1)) t" using m1(3) by (simp add: resumed_from_def s1_def)
  moreover from this have "pc t = origin" by (simp add: resumed_from_def slot_put)
  ultimately show "\<exists>m1 m2 t. context_of F this (T + 24) s m1 \<and> m2 = (if pre = 0 then m1 else callback pre a F m1)
        \<and> native_runs native s t \<and> resumed_from stack F s (put F 20 origin m2) t \<and> pc t = origin"
    using native_runs_trans [OF run m1(2)] unfolding g_def by blast
qed

text \<open>C6: after a successful \<open>DobbyInstrument\<close>, running the function calls the pre-handler with the
  function's address and the registers of its caller as the context, and then goes on at the relocated
  prologue with the registers the pre-handler left in the context; a run of the relocated prologue has the effect
  of the overwritten instructions and goes on behind them.\<close>

theorem instrumented_function:
  assumes "DobbyInstrument K layout handler raw this a pre st = Inr (RS_SUCCESS, st')" and "db_near_branch st = None"
    and "kernel_laws K regions" and "heap_inv regions (db_alloc st, db_world st, bs)"
    and "hook_site (regions (db_world st)) (db_alloc st) a" and "bridge_live regions handler bs st"
    and "length (ie_origin_insns raw) = 256" and "cl_bridge st' \<noteq> 0" and "cl_entries st' this = Some ce" and "ce_address ce \<noteq> 0"
    and "Interceptor_find a (db_entries st') = Some e" and "ie_relocated_addr e \<noteq> 0" and "page_gap a (ce_address ce) \<noteq> 2 ^ 32"
  shows "calls_back callback st' handler a pre this (ce_address ce) (ie_relocated_addr e)
    \<and> (\<exists>n len. n \<in> {3, 4} \<and> runs_original (w_mem (db_world st)) (w_mem (db_world st')) a (ie_relocated_addr e) len n)"
proof -
  obtain h r m2 M2 al2 bs' where made: "hook_made M2 al2 m2 a (ce_address ce) (ie_relocated_addr e) (w_mem (db_world st')) h"
    and site: "hook_site M2 al2 a" and m2: "\<forall>x. unat x \<in> {unat a..<unat a + 16} \<longrightarrow> m2 x = w_mem (db_world st) x"
    and r: "db_routings st' = db_routings st @ [Instrument r]" "rt_entry r = e" "rt_pre_handler r = pre"
      "ce_carry_data ce = length (db_routings st)" "ie_patched_addr e = a"
    and T: "live_code regions (db_alloc st', db_world st', bs') (ce_address ce) (closure_code this (cl_bridge st'))"
    and B: "live_code regions (db_alloc st', db_world st', bs') (cl_bridge st') (bridge_code handler)"
    using instrument_effect [OF assms(1-12)] by blast
  note placed = hook_placed [OF made site]
  have n: "hp_count h \<in> {3, 4}" and tr: "GenerateNormalTrampolineBuffer a (ce_address ce) = Inr (hp_tramp h)"
    and len: "length (hp_tramp h) = 4 * hp_count h"
    using made unfolding hook_made_def by blast+
  have "read32 (w_mem (db_world st)) (a + of_nat (4 * i)) = read32 m2 (a + of_nat (4 * i))" if "i < hp_count h" for i
  proof -
    have b: "4 * i + 4 \<le> 16" "unat a + 16 < 2 ^ 64" using that n site by (auto simp: hook_site_def)
    then have "unat (a + of_nat (4 * i)) = unat a + 4 * i" by (intro unat_offset [of a 16]) auto
    with b m2 have "mem_read (w_mem (db_world st)) (a + of_nat (4 * i)) 4 = mem_read m2 (a + of_nat (4 * i)) 4"
      by (intro mem_read_cong) auto
    then show ?thesis by (simp add: read32_def)
  qed
  from hook_runs_original [OF made placed(2) this]
  have "runs_original (w_mem (db_world st)) (w_mem (db_world st')) a (ie_relocated_addr e) (length (asm_buffer (hp_code h))) (hp_count h)" .
  moreover have "calls_back callback st' handler a pre this (ce_address ce) (ie_relocated_addr e)"
  proof (rule calls_backI [OF _ _ tr placed(1)])
    show "common_closure_bridge_handler callback st' F this m
        = Inr (put F 20 (ie_relocated_addr e) (if pre = 0 then m else callback pre a F m))" for F m
      using handler_result [OF assms(9), of r a pre callback F m] r by (simp add: nth_append)
  qed (use T B n len assms(13) in \<open>auto simp: live_code_def\<close>)
  ultimately show ?thesis using n by blast
qed

end
