(* ===== verification/Instrument_Demo.thy ===== *)
theory Instrument_Demo
  imports Instrument_Props Hook_Demo
begin

text \<open>
  An instrumented function at concrete inputs: the four \<open>nop\<close> instructions at 0x2000 with a pre-handler at
  0x6000 that puts 42 into x0. The arena takes the bridge, the closure trampoline and the relocated code.
\<close>

unbundle bit_operations_syntax

definition instrument_state :: "nat closures" where
  "instrument_state = \<lparr>db_entries = [], db_routings = [], db_plugins = [], db_near_branch = None, db_alloc = arena_at 0x40000000,
     db_world = hook_world, cl_bridge = 0, cl_entries = Map.empty\<rparr>"

definition closure_demo :: "nat closures" where
  "closure_demo = instrument_state\<lparr>db_alloc := arena_at 0x40000118,
     db_world := hook_world\<lparr>w_mem := mem_write 0x400000E4 (closure_code 0x9000 0x40000000)
       (mem_write 0x40000000 (bridge_code 0x5000) (w_mem hook_world))\<rparr>,
     cl_bridge := 0x40000000,
     cl_entries := [0x9000 \<mapsto> \<lparr>ce_address = 0x400000E4, ce_size = 52,
       ce_carry_handler = instrument_routing_dispatch_handler, ce_carry_data = 0\<rparr>]\<rparr>"

lemma bridge_demo:
  "get_closure_bridge bump_kernel 0x5000 instrument_state = Inr (0x40000000, instrument_state\<lparr>db_alloc := arena_at 0x400000E4,
     db_world := hook_world\<lparr>w_mem := mem_write 0x40000000 (bridge_code 0x5000) (w_mem hook_world)\<rparr>, cl_bridge := 0x40000000\<rparr>)"
proof -
  let ?a = "emits (bridge_words 0x5000) (new_assembler 0)"
  have e: "asm_seq (closure_bridge_code 0x5000) (new_assembler 0) = Inr ?a" by (rule bridge_emitted)
  have b: "asm_buffer ?a = bridge_code 0x5000" "realized_addr ?a = 0" by (simp_all add: new_assembler_def bridge_code_def emits_def)
  have "(0x40000000 :: u64) \<in> {0x40000000..0x4F000000}" by simp
  from finalize_demo [OF b(2) _ this, unfolded b(1) length_bridge_code, of hook_world] obtain a' where
    "FinalizeFromTurboAssembler bump_kernel ?a (arena_at 0x40000000) hook_world = Inr (MemBlock 0x40000000 228, a',
      arena_at 0x400000E4, hook_world\<lparr>w_mem := mem_write 0x40000000 (bridge_code 0x5000) (w_mem hook_world)\<rparr>)"
    by auto
  then show ?thesis by (simp add: get_closure_bridge_def e instrument_state_def MemBlock_def)
qed

lemma create_demo:
  "CreateClosureTrampoline bump_kernel 0x5000 0x9000 0 instrument_routing_dispatch_handler instrument_state
    = Inr (\<lparr>ce_address = 0x400000E4, ce_size = 52, ce_carry_handler = instrument_routing_dispatch_handler, ce_carry_data = 0\<rparr>, closure_demo)"
proof -
  obtain a1 a2 a3 where seq: "asm_seq closure_trampoline_code (with_labels [new_pseudo_label, new_pseudo_label] (new_assembler 0)) = Inr a1"
      "PseudoBind 0 a1 = Inr a2" "PseudoBind 1 (asm_EmitInt64 0x9000 a2) = Inr a3"
    and buf: "\<And>bridge. asm_buffer (asm_EmitInt64 bridge a3) = closure_code 0x9000 bridge" and r: "realized_addr a3 = 0"
    using closure_emitted [of "0x9000"] by auto
  let ?w = "hook_world\<lparr>w_mem := mem_write 0x40000000 (bridge_code 0x5000) (w_mem hook_world)\<rparr>"
  have r': "realized_addr (asm_EmitInt64 0x40000000 a3) = 0" using r by (simp add: asm_EmitInt64_def)
  have "(0x400000E4 :: u64) \<in> {0x40000000..0x4F000000}" by simp
  from finalize_demo [OF r' _ this, unfolded buf, of ?w] obtain a' where
    "FinalizeFromTurboAssembler bump_kernel (asm_EmitInt64 0x40000000 a3) (arena_at 0x400000E4) ?w = Inr (MemBlock 0x400000E4 52, a',
      arena_at 0x40000118, ?w\<lparr>w_mem := mem_write 0x400000E4 (closure_code 0x9000 0x40000000) (w_mem ?w)\<rparr>)"
    by auto
  moreover have "cl_entries instrument_state = Map.empty" by (simp add: instrument_state_def)
  ultimately show ?thesis
    using seq by (simp add: CreateClosureTrampoline_def bridge_demo Let_def closure_demo_def MemBlock_def)
qed

lemma instrument_happens:
  "\<exists>st' e ce. DobbyInstrument bump_kernel layout 0x5000 raw_entry 0x9000 0x2000 0x6000 instrument_state = Inr (RS_SUCCESS, st')
    \<and> cl_bridge st' = 0x40000000 \<and> cl_entries st' 0x9000 = Some ce \<and> ce_address ce = 0x400000E4
    \<and> Interceptor_find 0x2000 (db_entries st') = Some e \<and> ie_relocated_addr e = 0x40000118"
proof -
  have "(0x40000118 :: u64) \<in> {0x40000000..0x4F000000}" by simp
  from hook_relocates [OF this, of "db_world closure_demo"] obtain a :: assembler and w1 where
    g: "GenRelocateCodeAndBranch bump_kernel (mem_read (w_mem (db_world closure_demo)) 0x2000 15)
      (MemBlock 0x2000 (of_nat 12)) (MemBlock 0 0) (arena_at 0x40000118) (db_world closure_demo)
      = Inr (MemBlock 0x2000 12, MemBlock 0x40000118 (of_nat (length (asm_buffer a))), arena_at (0x40000118 + of_nat (length (asm_buffer a))), w1)"
    and l: "0 < length (asm_buffer a)" "length (asm_buffer a) < 2 ^ 20"
    by fastforce
  have "unat (of_nat (length (asm_buffer a)) :: u64) \<noteq> 0" using l by (simp add: unat_of_nat)
  then have sz: "(of_nat (length (asm_buffer a)) :: u64) \<noteq> 0" by (simp only: unat_eq_zero) simp
  have "abs_distance 0x2000 0x400000E4 < adrp_range" by (simp add: abs_distance_def adrp_range_def)
  then obtain tramp where t: "GenerateNormalTrampolineBuffer 0x2000 0x400000E4 = Inr tramp" "length tramp = 12"
    by (simp add: trampoline_code adrp_add_br_def)
  have guard: "hook_guard bump_kernel 0x2000 instrument_state = (True, instrument_state)"
    by (simp add: hook_guard_def OSMemory_SetPermission_def bump_kernel_def Let_def instrument_state_def)
  have fields: "db_near_branch closure_demo = None" "db_alloc closure_demo = arena_at 0x40000118" "db_entries closure_demo = []"
    "db_routings instrument_state = []" "cl_bridge closure_demo = 0x40000000"
    "cl_entries closure_demo 0x9000 = Some \<lparr>ce_address = 0x400000E4, ce_size = 52,
       ce_carry_handler = instrument_routing_dispatch_handler, ce_carry_data = 0\<rparr>"
    by (simp_all add: closure_demo_def instrument_state_def)
  have build: "instrument_BuildRouting bump_kernel layout 0x5000 0x9000 r instrument_state
      = Inr (SetTrampolineBuffer (Some tramp) (SetTrampolineTarget 0x400000E4 r), closure_demo)"
    if "ie_routing (rt_entry r) = 0" "ie_patched_addr (rt_entry r) = 0x2000" "rt_trampoline_buffer r = None" for r
    using that t(1) fields
    by (simp add: instrument_BuildRouting_def create_demo Let_def GenerateTrampolineBuffer_def)
  show ?thesis
    using g sz t(2) fields
    by (simp add: DobbyInstrument_def guard Let_def instrument_DispatchRouting_def build InstructionInstrumentRouting_def
        InterceptEntry_init_def Interceptor_add_def GenerateRelocatedCode_def GetBufferSize_def MemBlock_def raw_entry_def
        routing_Commit_def routing_Active_def)
qed

section \<open>Calling it\<close>

definition set_x0 :: "u64 \<Rightarrow> u64 \<Rightarrow> u64 \<Rightarrow> (u64 \<Rightarrow> byte) \<Rightarrow> u64 \<Rightarrow> byte" where
  "set_x0 f address ctx m = put ctx 3 42 m"

definition demo_handler :: "nat closures \<Rightarrow> a64 \<Rightarrow> a64" where
  "demo_handler st s = (case common_closure_bridge_handler set_x0 st (xreg s 0) (xreg s 1) (mem s) of
     Inr m \<Rightarrow> s\<lparr>mem := m, pc := xreg s 30\<rparr> | Inl _ \<Rightarrow> s)"

definition demo_native :: "nat closures \<Rightarrow> u64 \<Rightarrow> (a64 \<Rightarrow> a64) option" where
  "demo_native st a = (if a = 0x5000 then Some (demo_handler st) else None)"

definition demo_call :: "(u64 \<Rightarrow> byte) \<Rightarrow> a64" where
  "demo_call m = (run_state m 0x2000)\<lparr>xreg := of_nat, spreg := frame_addr 0x7000000000 52\<rparr>"

lemma compiled_demo: "compiled 0 (common_closure_bridge_handler set_x0 st) (demo_handler st)"
  by (simp add: compiled_def demo_handler_def aapcs64_def same_but_stack_def)

lemma out_of_reach_demo:
  assumes "unat a + n \<le> 0x50000000" and "0x5000 \<notin> {unat a..<unat a + n}"
  shows "out_of_reach (demo_native st) 0 0x7000000000 a n"
proof -
  have u: "unat (a + of_nat k) = unat a + k" if "k < n" for k using assms(1) that by (intro unat_offset [of _ n]) simp_all
  have "416 \<le> unat (a + of_nat k - 0x7000000000)" if "k < n" for k
    using unat_within [of "0x7000000000" 416 "a + of_nat k"] u [OF that] assms(1) that by fastforce
  moreover have "a + of_nat k \<noteq> 0x5000" if "k < n" for k
    using u [OF that] assms(2) that by auto
  ultimately show ?thesis by (simp add: out_of_reach_def clear_of_def demo_native_def)
qed

theorem instrumented_function_witness:
  "\<exists>st' t. DobbyInstrument bump_kernel (\<lambda>_. []) 0x5000 raw_entry 0x9000 0x2000 0x6000 instrument_state = Inr (RS_SUCCESS, st')
    \<and> native_runs (demo_native st') (demo_call (w_mem (db_world st'))) t
    \<and> pc t = 0x40000118 \<and> xreg t 0 = 42 \<and> xreg t 5 = 5 \<and> xreg t 30 = 30 \<and> spreg t = frame_addr 0x7000000000 52"
proof -
  let ?F = "0x7000000000 :: u64"
  obtain st' e ce where i: "DobbyInstrument bump_kernel (\<lambda>_. []) 0x5000 raw_entry 0x9000 0x2000 0x6000 instrument_state = Inr (RS_SUCCESS, st')"
    and b: "cl_bridge st' = 0x40000000" and c: "cl_entries st' 0x9000 = Some ce" "ce_address ce = 0x400000E4"
    and e: "Interceptor_find 0x2000 (db_entries st') = Some e" "ie_relocated_addr e = 0x40000118"
    using instrument_happens by blast
  have st: "db_near_branch instrument_state = None" "heap_inv bump_regions (db_alloc instrument_state, db_world instrument_state, [])"
    "hook_site (bump_regions (db_world instrument_state)) (db_alloc instrument_state) 0x2000"
    using hook_inv hook_site_demo by (simp_all add: instrument_state_def hook_state_def hook_arenas_at)
  have l: "bridge_live bump_regions 0x5000 [] instrument_state" by (simp add: bridge_live_def instrument_state_def)
  have nz: "cl_bridge st' \<noteq> 0" "ce_address ce \<noteq> 0" "ie_relocated_addr e \<noteq> 0" using b c e by simp_all
  have gap: "page_gap 0x2000 (ce_address ce) \<noteq> 2 ^ 32" by (simp add: c page_gap_def ALIGN_FLOOR_def)
  let ?s = "demo_call (w_mem (db_world st'))"
  have cb: "calls_back set_x0 st' 0x5000 0x2000 0x6000 0x9000 (ce_address ce) (ie_relocated_addr e)"
    using instrumented_function [OF i st(1) hook_laws st(2,3) l hook_demo_facts(3) nz(1) c(1) nz(2) e(1) nz(3) gap] by blast
  have o: "out_of_reach (demo_native st') 0 ?F 0x2000 16" "out_of_reach (demo_native st') 0 ?F (ce_address ce) 52"
    "out_of_reach (demo_native st') 0 ?F (cl_bridge st') 228"
    by (rule out_of_reach_demo; simp add: b c)+
  have k: "slot ?F 33 (set_x0 f a ?F m) = slot ?F 33 m" "keeps_bytes (ce_address ce) 52 m (set_x0 f a ?F m)"
    "keeps_bytes (cl_bridge st') 228 m (set_x0 f a ?F m)" for f a m
    using o(2,3) same_outside_put [of 3 416 ?F m 42]
    by (simp_all add: set_x0_def slot_put keeps_bytes_def out_of_reach_def clear_of_def same_outside_def)
  have h: "demo_native st' 0x5000 = Some (demo_handler st')" by (simp add: demo_native_def)
  have s: "mem ?s = w_mem (db_world st')" "pc ?s = 0x2000" "spreg ?s = frame_addr ?F 52" by (simp_all add: demo_call_def run_state_def)
  obtain m1 t where m1: "context_of ?F 0x9000 (ce_address ce + 24) ?s m1" and t: "native_runs (demo_native st') ?s t"
    and r: "resumed_from 0 ?F ?s (put ?F 20 (ie_relocated_addr e) (set_x0 0x6000 0x2000 ?F m1)) t"
    using calls_backD [OF cb h compiled_demo _ s o k] by auto
  have sl: "slot ?F 8 m1 = 5" "slot ?F 51 m1 = 30"
    using m1 unfolding context_of_def by (auto simp: demo_call_def dest: spec [of _ 5])
  have "xreg t i = slot ?F (3 + i) (put ?F 20 (ie_relocated_addr e) (set_x0 0x6000 0x2000 ?F m1))" if "i \<le> 29" for i
    using r that by (simp add: resumed_from_def)
  from this [of 0] this [of 5] have "xreg t 0 = 42" "xreg t 5 = 5"
    using sl by (simp_all add: slot_put set_x0_def)
  moreover have "pc t = 0x40000118" "xreg t 30 = 30" "spreg t = frame_addr ?F 52"
    using r sl s(3) e(2) by (simp_all add: resumed_from_def slot_put set_x0_def)
  ultimately show ?thesis using i t by blast
qed

end
