(* ===== verification/Spec2Isabelle.thy ===== *)
theory Spec2Isabelle
  imports Native_Ifaces Native_Load Hooks_Props X86_Props Arm64_Props Allocator_Props Hook_Onload Near_Layout Heap_Props Elf_Props
    Instrument_Demo
begin

text \<open>
  The native code of HandsOffMyVPN (\<open>app/src/main/cpp\<close>): a library that is loaded into an Android
  application and hides the interfaces of a VPN from it, and the inline hooking framework Dobby it
  carries with it.

  \<^bold>\<open>The program.\<close> \<open>homvpn_native.cpp\<close> replaces thirteen functions of libc. A replacement calls the
  original and then edits what it returns: it drops lines of the files under \<open>/proc\<close>, blanks
  messages of route netlink sockets, and unlinks or skips VPN interfaces in the lists of the kernel
  (\<open>sanitizer.cpp\<close>). Which filter a descriptor needs is remembered in fixed tables
  (\<open>fd_tracker.h\<close>). \<open>JNI_OnLoad\<close> resolves the functions and hands them to Dobby's \<open>DobbyHook\<close>. That
  function writes a trampoline over the first instructions of its target
  (\<open>source/TrampolineBridge/Trampoline/arm64\<close>, or one near branch, \<open>RoutingPlugin\<close>), moves the
  overwritten instructions to memory from an allocator (\<open>MemoryAllocator\<close>,
  \<open>InstructionRelocation/arm64\<close>) with an assembler (\<open>core/assembler\<close>), and keeps a table of the
  hooks (\<open>Interceptor.cpp\<close>). The x86 builds have an instruction decoder of their own
  (\<open>InstructionRelocation/x86/x86_insn_decode\<close>).

  \<^bold>\<open>Theories and sources.\<close>
  \<^item> \<open>Prelude\<close>: the error and state conventions, lists, words and C strings shared by all.
  \<^item> \<open>Fd_Tracker\<close> (\<open>fd_tracker.h\<close>), \<open>Line_Scrub\<close>, \<open>Sanitizer_Text\<close>, \<open>Sanitizer_Net\<close>,
    \<open>Sanitizer_Status\<close>, \<open>Sanitizer_Netlink\<close> (\<open>sanitizer.cpp\<close>): the buffers are byte lists that hold
    whatever lies behind the data too, and a read past them is \<open>None\<close>. \<open>Netlink_Props\<close> relates the walk in
    place to a reference that first classifies the messages and then blanks them.
  \<^item> \<open>Native_Hooks\<close>, \<open>Native_Ifaces\<close>, \<open>Native_Load\<close> (\<open>homvpn_native.cpp\<close>): the replacements, over a record
    of libc's functions, which are parameters, and the record \<open>native\<close> of the static tables. An array is a function from the
    integer index that has its neighbours in memory too, so that a write outside of it can be told.
    \<open>Hooks_Props\<close>: sequences of hooked calls, with the descriptors that other code opens and closes.
  \<^item> \<open>X86_Spec\<close>, \<open>X86_Opcode_Tables\<close>, \<open>X86_Decode\<close>: the x86 decoder, its tables row by row;
    \<open>X86_Manual\<close> states the lengths of the processor manual in 64-bit mode, and \<open>X86_Props\<close> compares.
  \<^item> \<open>Arm64_Bits\<close>, \<open>Arm64_Constants\<close>, \<open>Code_Buffer\<close>, \<open>Arm64_Assembler\<close>: bit fields, opcode words,
    code buffers, the assembler with its labels. \<open>Arm64_Machine\<close> is the architecture: the instructions
    that generated code is made of, over a state of registers, flags and memory; an instruction
    outside of it has no step. \<open>Arm64_Encode\<close> and \<open>Arm64_Binding\<close> connect the two.
  \<^item> \<open>Memory_Allocator\<close>, \<open>Near_Allocator\<close> (\<open>MemoryAllocator.cc\<close>, \<open>NearMemoryAllocator.cc\<close>, the posix
    memory and patching calls): the arenas, over a record \<open>kernel\<close> of the system calls, which are
    parameters. \<open>Allocator_Props\<close>: the invariant of the heap.
  \<^item> \<open>Arm64_Trampoline\<close>, \<open>Near_Trampoline\<close>, \<open>Near_Props\<close>: trampolines and what running them does.
  \<^item> \<open>Arm64_Relocation\<close> (\<open>InstructionRelocationARM64.cc\<close>), \<open>Arm64_Reloc_Layout\<close> (where code and
    literals end up), \<open>Arm64_Reloc_Exec\<close> (running one emitted group), \<open>Arm64_Reloc_Props\<close>,
    \<open>Arm64_Reloc_Demo\<close>.
  \<^item> \<open>Interceptor\<close>, \<open>Inline_Hook\<close>, \<open>Hook_Props\<close>, \<open>Hook_Demo\<close> (\<open>Interceptor.cpp\<close>, \<open>InterceptRouting.cpp\<close>,
    \<open>FunctionInlineHook\<close>, \<open>dobby.cpp\<close>): hooking and unhooking; \<open>Hook_Onload\<close> puts the payload on top.
  \<^item> \<open>Process_Maps\<close> (\<open>PlatformUtil/Linux/ProcessRuntimeUtility.cc\<close>): \<open>/proc/self/maps\<close> as a stream of bytes
    with \<open>fgets\<close> and \<open>sscanf\<close>; \<open>Maps_Props\<close> reads back what the kernel printed. \<open>Near_Layout\<close> joins it
    with the near allocator, and \<open>Heap_Props\<close> follows both allocators through runs in which blocks are taken
    anywhere, near an address from an arena, or near an address from a gap of that list.
  \<^item> \<open>Elf_Resolver\<close>, \<open>Elf_Props\<close> (\<open>SymbolResolver/elf\<close>): symbols of a mapped 64-bit ELF file, all reads
    checked against the mapped bytes.
  \<^item> \<open>Closure_Bridge\<close> (\<open>ClosureTrampolineBridge/arm64\<close>, \<open>InstructionInstrument\<close>): closure trampolines, the
    register context, and instrumentation of single instructions. \<open>Stack_Frame\<close> (a frame of 64-bit slots and
    straight code that works on it), \<open>Bridge_Exec\<close> and \<open>Closure_Run\<close> run the emitted code on the machine, with
    the C++ handler as a compiled function that keeps the calling convention; \<open>Instrument_Props\<close> and
    \<open>Instrument_Demo\<close> follow an instrumented function from its first instruction to the relocated code.

  \<^bold>\<open>What is shown.\<close> For the payload: every line, message and list entry that names a VPN interface is
  removed and nothing else is changed; no table and no buffer is left, with the exceptions that are
  stated as theorems of kind error. For the framework: allocated blocks never overlap; a trampoline
  reaches its target; relocated code simulates the overwritten instructions on the machine; a hooked
  function runs its replacement, the original can still be called, and unhooking restores the code; an
  instrumented function calls its pre-handler with the registers of the caller and goes on with them.
  \<open>onload_redirects\<close> is the whole: after loading, all hooks work at once.

  \<^bold>\<open>Interfaces.\<close> \<open>slot_table\<close> (the tables indexed by descriptor), \<open>line_loop\<close> (the loop every line
  sanitizer runs), \<open>branch_field\<close> (an offset packed into an instruction), \<open>cell\<close> (a fixed-size cell of a
  code buffer) and \<open>registry\<close> (the table of hooks) are locales, each interpreted on the definitions of the
  code.

  \<^bold>\<open>Errors, bounds, fuel.\<close> A read outside the modelled bytes, a null pointer that is followed and a
  failed check of the code are values of an error type. \<open>assert(0)\<close>, \<open>FATAL\<close> and \<open>UNREACHABLE\<close> end the
  program in debug builds only; in the shipped release build they log and run on. The model stops there, and its
  theorems speak of the runs before that point, but for the relocation of literal loads of unknown
  kind, which is the one such point that ordinary code reaches: there the model goes on as the release
  build does (\<open>relocation_total\<close>). Loops are structural or
  have a measure; the two loops that walk lists of the kernel
  (\<open>getifaddrs\<close>, reading until the end of a file) follow a finite heap or input. Addresses are 64-bit words, and all
  arithmetic on them wraps.

  \<^bold>\<open>Not modelled.\<close> The Kotlin application; log output; concurrency (the code takes no locks, and the
  model runs one call at a time); the instruction cache; the 32-bit ARM and the x86 code generators,
  and the Darwin and kernel-mode back ends. \<open>PROJECT.json\<close> lists them by component.
\<close>

end
